(* ===== verification/Prelude.thy ===== *)
theory Prelude
  imports Main "HOL-Library.Word" "HOL-Library.Sublist"
begin

text \<open>
  What every component of the development shares.

  \<^item> Rust's bounded integers, where the source saturates: \<open>u32\<close> values are
    naturals and the saturation is written out.
  \<^item> Instants. A \<^verbatim>\<open>DateTime<Utc>\<close> is an \<open>int\<close> that counts nanoseconds since
    the Unix epoch, the resolution the source's clock type has; \<open>timestamp\<close> is the
    whole second the database stores, and \<open>stored\<close> is what a row reads back as.
  \<^item> Text. Closed vocabularies, identifiers and copy are \<open>string\<close>s; free text a
    person or an application supplies is a list of Unicode code points (\<open>ustr\<close>).
  \<^item> Fallible stateful operations \<open>('s, 'e, 'a) op\<close>: a Rust method that may
    return early with \<^verbatim>\<open>?\<close>. An error keeps the state written before it, as the
    source's separate SQL statements do.
  \<^item> Hoare triples over such operations, and the two locales that lift one-step
    facts to whole runs.
\<close>

named_theorems op_defs \<open>definitions of the operation combinators\<close>
named_theorems op_simps \<open>what the combinators compute\<close>

section \<open>Bounded integers\<close>

definition u32_max :: nat where
  "u32_max = 4294967295"

definition sat_add :: "nat \<Rightarrow> nat \<Rightarrow> nat" where
  "sat_add a b = min (a + b) u32_max"

definition sat_mul :: "nat \<Rightarrow> nat \<Rightarrow> nat" where
  "sat_mul a b = min (a * b) u32_max"

lemma sat_add_le [simp]: "sat_add a b \<le> u32_max"
  by (simp add: sat_add_def)

lemma sat_add_mono: "a \<le> u32_max \<Longrightarrow> a \<le> sat_add a b"
  by (simp add: sat_add_def)

lemma sat_add_0 [simp]: "a \<le> u32_max \<Longrightarrow> sat_add a 0 = a"
  by (simp add: sat_add_def)

lemma sat_add_exact: "a + b \<le> u32_max \<Longrightarrow> sat_add a b = a + b"
  by (simp add: sat_add_def)

lemma sat_add_less: "sat_add a b \<le> a + b"
  by (simp add: sat_add_def)

section \<open>Instants and durations\<close>

type_synonym instant = int

definition NANOS :: int where
  "NANOS = 1000000000"

definition seconds :: "int \<Rightarrow> int" where
  "seconds n = n * NANOS"

definition timestamp :: "instant \<Rightarrow> int" where
  "timestamp t = t div NANOS"

definition from_timestamp :: "int \<Rightarrow> instant" where
  "from_timestamp s = s * NANOS"

definition stored :: "instant \<Rightarrow> instant" where
  "stored t = from_timestamp (timestamp t)"

text \<open>Whole seconds of a duration, rounded towards zero.\<close>

definition num_seconds :: "int \<Rightarrow> int" where
  "num_seconds d = (if d < 0 then - ((- d) div NANOS) else d div NANOS)"

definition positive_seconds :: "int \<Rightarrow> nat" where
  "positive_seconds d = nat (min (max (num_seconds d) 0) (int u32_max))"

text \<open>\<^verbatim>\<open>DateTime<Utc>::MAX_UTC\<close>, the last instant of the year 262142.\<close>

definition MAX_UTC :: instant where
  "MAX_UTC = seconds 8210266876799 + 999999999"

lemma NANOS_pos [simp]: "0 < NANOS" "0 \<le> NANOS" "NANOS \<noteq> 0"
  by (simp_all add: NANOS_def)

lemma timestamp_from_timestamp [simp]: "timestamp (from_timestamp s) = s"
  by (simp add: timestamp_def from_timestamp_def)

lemma stored_idem [simp]: "stored (stored t) = stored t"
  by (simp add: stored_def)

lemma timestamp_stored [simp]: "timestamp (stored t) = timestamp t"
  by (simp add: stored_def)

lemma stored_from_timestamp [simp]: "stored (from_timestamp s) = from_timestamp s"
  by (simp add: stored_def)

lemma stored_le: "stored t \<le> t"
proof -
  have "t div NANOS * NANOS = t - t mod NANOS"
    by (simp add: minus_mod_eq_div_mult)
  moreover have "0 \<le> t mod NANOS" by simp
  ultimately have "t div NANOS * NANOS \<le> t" by linarith
  then show ?thesis
    by (simp add: stored_def from_timestamp_def timestamp_def)
qed

lemma timestamp_mono: "s \<le> t \<Longrightarrow> timestamp s \<le> timestamp t"
  by (simp add: timestamp_def zdiv_mono1)

lemma from_timestamp_mono [simp]: "from_timestamp s \<le> from_timestamp t \<longleftrightarrow> s \<le> t"
  by (simp add: from_timestamp_def)

lemma stored_mono: "s \<le> t \<Longrightarrow> stored s \<le> stored t"
  by (simp add: stored_def timestamp_mono)

lemma num_seconds_seconds [simp]: "num_seconds (n * NANOS) = n"
  by (simp add: num_seconds_def) (simp add: mult_minus_left [symmetric] del: mult_minus_left)

lemma num_seconds_nonneg: "0 \<le> d \<Longrightarrow> 0 \<le> num_seconds d"
  by (simp add: num_seconds_def pos_imp_zdiv_nonneg_iff)

lemma num_seconds_neg: "d < 0 \<Longrightarrow> num_seconds d \<le> 0"
  by (simp add: num_seconds_def pos_imp_zdiv_nonneg_iff)

lemma num_seconds_mono:
  assumes "c \<le> d" shows "num_seconds c \<le> num_seconds d"
proof (cases "0 \<le> c \<or> d < 0")
  case True
  with assms show ?thesis
    by (auto simp: num_seconds_def intro: zdiv_mono1)
next
  case False
  then have "num_seconds c \<le> 0" "0 \<le> num_seconds d"
    using num_seconds_neg [of c] num_seconds_nonneg [of d] by auto
  then show ?thesis by linarith
qed

lemma positive_seconds_mono: "c \<le> d \<Longrightarrow> positive_seconds c \<le> positive_seconds d"
  using num_seconds_mono [of c d] by (simp add: positive_seconds_def)

lemma positive_seconds_le [simp]: "positive_seconds d \<le> u32_max"
  by (simp add: positive_seconds_def)

lemma positive_seconds_neg: "d \<le> 0 \<Longrightarrow> positive_seconds d = 0"
  using num_seconds_mono [of d 0] by (simp add: positive_seconds_def num_seconds_def)

section \<open>Text\<close>

type_synonym ustr = "nat list"

text \<open>Unicode's \<open>White_Space\<close> property, which Rust's \<^verbatim>\<open>char::is_whitespace\<close> tests.\<close>

definition is_whitespace :: "nat \<Rightarrow> bool" where
  "is_whitespace c \<longleftrightarrow>
     (9 \<le> c \<and> c \<le> 13) \<or> c = 32 \<or> c = 133 \<or> c = 160 \<or> c = 5760
     \<or> (8192 \<le> c \<and> c \<le> 8202) \<or> c = 8232 \<or> c = 8233 \<or> c = 8239 \<or> c = 8287 \<or> c = 12288"

definition trim :: "ustr \<Rightarrow> ustr" where
  "trim s = rev (dropWhile is_whitespace (rev (dropWhile is_whitespace s)))"

definition ascii_lower :: "nat \<Rightarrow> nat" where
  "ascii_lower c = (if 65 \<le> c \<and> c \<le> 90 then c + 32 else c)"

definition is_ascii_digit :: "nat \<Rightarrow> bool" where
  "is_ascii_digit c \<longleftrightarrow> 48 \<le> c \<and> c \<le> 57"

definition is_ascii_alphanumeric :: "nat \<Rightarrow> bool" where
  "is_ascii_alphanumeric c \<longleftrightarrow>
     is_ascii_digit c \<or> (65 \<le> c \<and> c \<le> 90) \<or> (97 \<le> c \<and> c \<le> 122)"

definition u64_max :: nat where
  "u64_max = 18446744073709551615"

fun digits_value :: "nat \<Rightarrow> ustr \<Rightarrow> nat option" where
  "digits_value acc [] = Some acc"
| "digits_value acc (c # cs) =
     (if is_ascii_digit c then digits_value (acc * 10 + (c - 48)) cs else None)"

text \<open>\<^verbatim>\<open>str::parse::<u64>\<close>: digits, an optional plus sign, no overflow.\<close>

definition parse_u64 :: "ustr \<Rightarrow> nat option" where
  "parse_u64 v =
     (let ds = (case v of c # cs \<Rightarrow> if c = 43 \<and> cs \<noteq> [] then cs else v | [] \<Rightarrow> [])
      in if ds = [] then None
         else case digits_value 0 ds of None \<Rightarrow> None
              | Some n \<Rightarrow> if n \<le> u64_max then Some n else None)"

definition of_str :: "string \<Rightarrow> ustr" where
  "of_str s = map of_char s"

lemma trim_Nil [simp]: "trim [] = []"
  by (simp add: trim_def)

lemma last_dropWhile_rev:
  "dropWhile P (rev xs) \<noteq> [] \<Longrightarrow> \<not> P (last (rev (dropWhile P (rev xs))))"
  by (simp add: last_rev hd_dropWhile)

lemma trim_last: "trim s \<noteq> [] \<Longrightarrow> \<not> is_whitespace (last (trim s))"
  unfolding trim_def by (rule last_dropWhile_rev) simp

lemma hd_rev_dropWhile_rev:
  "rev (dropWhile P (rev xs)) \<noteq> [] \<Longrightarrow> hd (rev (dropWhile P (rev xs))) = hd xs"
proof -
  assume ne: "rev (dropWhile P (rev xs)) \<noteq> []"
  have "rev (takeWhile P (rev xs) @ dropWhile P (rev xs)) = xs" by simp
  then have "rev (dropWhile P (rev xs)) @ rev (takeWhile P (rev xs)) = xs"
    by (simp only: rev_append)
  then show ?thesis using ne by (metis hd_append2)
qed

lemma trim_hd: "trim s \<noteq> [] \<Longrightarrow> \<not> is_whitespace (hd (trim s))"
proof -
  assume ne: "trim s \<noteq> []"
  have "dropWhile is_whitespace s \<noteq> []"
  proof
    assume "dropWhile is_whitespace s = []"
    with ne show False unfolding trim_def by (simp only: rev.simps dropWhile.simps)
  qed
  then have "\<not> is_whitespace (hd (dropWhile is_whitespace s))"
    by (rule hd_dropWhile)
  with ne show ?thesis
    unfolding trim_def by (subst hd_rev_dropWhile_rev) simp_all
qed

lemma trim_idem [simp]: "trim (trim s) = trim s"
proof (cases "trim s = []")
  case False
  then have "dropWhile is_whitespace (trim s) = trim s"
    using trim_hd [of s] by (cases "trim s") auto
  moreover have "dropWhile is_whitespace (rev (trim s)) = rev (trim s)"
    using False trim_last [of s] by (cases "trim s" rule: rev_cases) auto
  ultimately show ?thesis by (subst trim_def) simp
qed simp

text \<open>Strings over the closed ASCII vocabularies.\<close>

definition lower_char :: "char \<Rightarrow> char" where
  "lower_char c = char_of (ascii_lower (of_char c))"

definition to_ascii_lowercase :: "string \<Rightarrow> string" where
  "to_ascii_lowercase s = map lower_char s"

definition eq_ignore_ascii_case :: "string \<Rightarrow> string \<Rightarrow> bool" where
  "eq_ignore_ascii_case a b \<longleftrightarrow> to_ascii_lowercase a = to_ascii_lowercase b"

lemma eq_ignore_ascii_case_refl [simp]: "eq_ignore_ascii_case a a"
  by (simp add: eq_ignore_ascii_case_def)

text \<open>Decimal rendering of an unsigned integer.\<close>

fun nat_str :: "nat \<Rightarrow> string" where
  "nat_str n = (if n < 10 then [char_of (48 + n)]
                else nat_str (n div 10) @ [char_of (48 + n mod 10)])"

declare nat_str.simps [simp del]

definition int_str :: "int \<Rightarrow> string" where
  "int_str i = (if i < 0 then ''-'' @ nat_str (nat (- i)) else nat_str (nat i))"

text \<open>Splitting and joining, as \<^verbatim>\<open>str::split\<close>, \<^verbatim>\<open>split_whitespace\<close> and \<^verbatim>\<open>join\<close> do.\<close>

fun split_on :: "('a \<Rightarrow> bool) \<Rightarrow> 'a list \<Rightarrow> 'a list list" where
  "split_on p [] = [[]]"
| "split_on p (c # cs) =
     (if p c then [] # split_on p cs
      else (case split_on p cs of [] \<Rightarrow> [[c]] | w # ws \<Rightarrow> (c # w) # ws))"

definition words :: "('a \<Rightarrow> bool) \<Rightarrow> 'a list \<Rightarrow> 'a list list" where
  "words p s = filter (\<lambda>w. w \<noteq> []) (split_on p s)"

fun join :: "'a list \<Rightarrow> 'a list list \<Rightarrow> 'a list" where
  "join sep [] = []"
| "join sep [w] = w"
| "join sep (w # v # ws) = w @ sep @ join sep (v # ws)"

lemma split_on_ne [simp]: "split_on p cs \<noteq> []"
  by (induction cs) (auto split: list.splits)

lemma split_on_sep: "w \<in> set (split_on p cs) \<Longrightarrow> c \<in> set w \<Longrightarrow> \<not> p c \<and> c \<in> set cs"
proof (induction cs arbitrary: w)
  case (Cons a cs)
  obtain v vs where sp: "split_on p cs = v # vs"
    by (cases "split_on p cs") auto
  show ?case
  proof (cases "p a")
    case True
    with Cons show ?thesis by auto
  next
    case False
    with Cons sp show ?thesis by fastforce
  qed
qed simp

lemma split_on_none: "(\<And>c. c \<in> set cs \<Longrightarrow> \<not> p c) \<Longrightarrow> split_on p cs = [cs]"
  by (induction cs) auto

lemma split_on_append_sep:
  assumes "\<And>c. c \<in> set w \<Longrightarrow> \<not> p c" and "p x"
  shows "split_on p (w @ x # cs) = w # split_on p cs"
  using assms by (induction w) auto

lemma length_filter_implies:
  "(\<And>x. x \<in> set xs \<Longrightarrow> P x \<Longrightarrow> Q x) \<Longrightarrow> length (filter P xs) \<le> length (filter Q xs)"
  by (induction xs) auto

section \<open>Fallible operations on a state\<close>

type_synonym ('s, 'e, 'a) op = "'s \<Rightarrow> ('e + 'a) \<times> 's"

definition ret :: "'a \<Rightarrow> ('s, 'e, 'a) op" where
  [op_defs]: "ret a = (\<lambda>s. (Inr a, s))"

definition err :: "'e \<Rightarrow> ('s, 'e, 'a) op" where
  [op_defs]: "err e = (\<lambda>s. (Inl e, s))"

definition gets :: "('s \<Rightarrow> 'a) \<Rightarrow> ('s, 'e, 'a) op" where
  [op_defs]: "gets f = (\<lambda>s. (Inr (f s), s))"

definition modify :: "('s \<Rightarrow> 's) \<Rightarrow> ('s, 'e, unit) op" where
  [op_defs]: "modify f = (\<lambda>s. (Inr (), f s))"

text \<open>\<open>andthen m f\<close> is Rust's \<^verbatim>\<open>f(m?)\<close>: an error of \<open>m\<close> returns at once.\<close>

definition andthen :: "('s, 'e, 'a) op \<Rightarrow> ('a \<Rightarrow> ('s, 'e, 'b) op) \<Rightarrow> ('s, 'e, 'b) op" where
  [op_defs]: "andthen m f =
     (\<lambda>s. case m s of (Inl e, s') \<Rightarrow> (Inl e, s') | (Inr a, s') \<Rightarrow> f a s')"

definition lift_result :: "'e + 'a \<Rightarrow> ('s, 'e, 'a) op" where
  [op_defs]: "lift_result r = (\<lambda>s. (r, s))"

text \<open>An operation's error as a value, for the places that do not return it.\<close>

definition attempt :: "('s, 'e, 'a) op \<Rightarrow> ('s, 'e, 'e + 'a) op" where
  "attempt m = (\<lambda>s. case m s of (r, t) \<Rightarrow> (Inr r, t))"

lemma andthen_ret [op_simps]: "andthen (ret a) f = f a"
  by (simp add: op_defs)

lemma andthen_err [op_simps]: "andthen (err e) f = err e"
  by (simp add: op_defs)

lemma andthen_gets [op_simps]: "andthen (gets g) f s = f (g s) s"
  by (simp add: op_defs)

lemma andthen_modify [op_simps]: "andthen (modify g) f s = f () (g s)"
  by (simp add: op_defs)

lemma ret_apply [op_simps]: "ret a s = (Inr a, s)"
  by (simp add: op_defs)

lemma err_apply [op_simps]: "err e s = (Inl e, s)"
  by (simp add: op_defs)

lemma gets_apply [op_simps]: "gets f s = (Inr (f s), s)"
  by (simp add: op_defs)

lemma modify_apply [op_simps]: "modify f s = (Inr (), f s)"
  by (simp add: op_defs)

lemma andthen_assoc:
  "andthen (andthen m f) g = andthen m (\<lambda>a. andthen (f a) g)"
  by (rule ext) (simp add: op_defs split: prod.splits sum.splits)

text \<open>A success of a sequence is a success of each of its parts.\<close>

lemma andthen_InrE:
  assumes "andthen m f s = (Inr b, t)"
  obtains a u where "m s = (Inr a, u)" "f a u = (Inr b, t)"
  using assms by (auto simp: op_defs split: prod.splits sum.splits)

section \<open>How the state may evolve\<close>

text \<open>
  An evolution is a preorder on states: what a component promises about the state
  after an operation in terms of the state before it. \<open>\<lambda>s t. P s \<longrightarrow> P t\<close> is the
  evolution of an invariant \<open>P\<close>; "a row, once written, keeps its contents" is another.
  An operation respects an evolution when it relates the state before to the state
  after, whether it succeeded or returned early.
\<close>

definition obeys :: "('s \<Rightarrow> 's \<Rightarrow> bool) \<Rightarrow> ('s, 'e, 'a) op \<Rightarrow> bool" where
  "obeys R m \<longleftrightarrow> (\<forall>s. R s (snd (m s)))"

lemma obeysI: "(\<And>s. R s (snd (m s))) \<Longrightarrow> obeys R m"
  by (simp add: obeys_def)

lemma obeysD: "obeys R m \<Longrightarrow> R s (snd (m s))"
  by (simp add: obeys_def)

locale evolution =
  fixes R :: "'s \<Rightarrow> 's \<Rightarrow> bool"
  assumes refl: "R s s"
    and trans: "R s t \<Longrightarrow> R t u \<Longrightarrow> R s u"
begin

lemma ret: "obeys R (Prelude.ret a)"
  by (simp add: obeys_def op_simps refl)

lemma err: "obeys R (Prelude.err e)"
  by (simp add: obeys_def op_simps refl)

lemma gets: "obeys R (Prelude.gets f)"
  by (simp add: obeys_def op_simps refl)

lemma lift_result: "obeys R (Prelude.lift_result r)"
  by (simp add: obeys_def op_defs refl)

lemma modify: "(\<And>s. R s (f s)) \<Longrightarrow> obeys R (Prelude.modify f)"
  by (simp add: obeys_def op_simps)

lemma andthen:
  assumes "obeys R m" and "\<And>a. obeys R (f a)"
  shows "obeys R (Prelude.andthen m f)"
proof (rule obeysI)
  fix s
  show "R s (snd (Prelude.andthen m f s))"
  proof (cases "m s")
    case (Pair r t)
    have "R s t"
      using obeysD [OF assms(1), of s] Pair by simp
    then show ?thesis
      using Pair obeysD [OF assms(2), where s = t]
      by (cases r) (auto simp: op_defs intro: trans)
  qed
qed

lemma attempt: "obeys R m \<Longrightarrow> obeys R (Prelude.attempt m)"
  unfolding obeys_def attempt_def by (metis (mono_tags, lifting) case_prod_beta snd_conv)

lemma if_op:
  "(b \<Longrightarrow> obeys R m) \<Longrightarrow> (\<not> b \<Longrightarrow> obeys R n) \<Longrightarrow> obeys R (if b then m else n)"
  by simp

lemma option_op:
  "(x = None \<Longrightarrow> obeys R m) \<Longrightarrow> (\<And>y. x = Some y \<Longrightarrow> obeys R (f y)) \<Longrightarrow>
   obeys R (case x of None \<Rightarrow> m | Some y \<Rightarrow> f y)"
  by (cases x) simp_all

lemma sum_op:
  "(\<And>e. x = Inl e \<Longrightarrow> obeys R (f e)) \<Longrightarrow> (\<And>a. x = Inr a \<Longrightarrow> obeys R (g a)) \<Longrightarrow>
   obeys R (case x of Inl e \<Rightarrow> f e | Inr a \<Rightarrow> g a)"
  by (cases x) simp_all

lemmas rules = ret err gets lift_result modify andthen if_op option_op sum_op

text \<open>A whole run, one operation after another, respects what each operation does.\<close>

lemma run: "(\<And>c s. c \<in> set cs \<Longrightarrow> R s (exec c s)) \<Longrightarrow> R s (fold exec cs s)"
proof (induction cs arbitrary: s)
  case Nil
  show ?case by (simp add: refl)
next
  case (Cons c cs)
  have "R s (exec c s)" by (rule Cons.prems) simp
  moreover have "R (exec c s) (fold exec cs (exec c s))"
    by (rule Cons.IH) (rule Cons.prems, simp)
  ultimately show ?case by (auto intro: trans)
qed

end

text \<open>
  Rows that, once written, only move forward: every row found under a key before is
  found there after, related to its old contents by a preorder.
\<close>

definition forward :: "('s \<Rightarrow> 'k \<Rightarrow> 'r option) \<Rightarrow> ('r \<Rightarrow> 'r \<Rightarrow> bool) \<Rightarrow> 's \<Rightarrow> 's \<Rightarrow> bool" where
  "forward lookup le s t \<longleftrightarrow>
     (\<forall>k r. lookup s k = Some r \<longrightarrow> (\<exists>r'. lookup t k = Some r' \<and> le r r'))"

lemma forwardD:
  "forward lookup le s t \<Longrightarrow> lookup s k = Some r \<Longrightarrow> \<exists>r'. lookup t k = Some r' \<and> le r r'"
  by (simp add: forward_def)

locale row_order =
  fixes lookup :: "'s \<Rightarrow> 'k \<Rightarrow> 'r option"
    and le :: "'r \<Rightarrow> 'r \<Rightarrow> bool"
  assumes le_refl: "le r r"
    and le_trans: "le r r' \<Longrightarrow> le r' r'' \<Longrightarrow> le r r''"
begin

lemma same_rows: "(\<And>k. lookup t k = lookup s k) \<Longrightarrow> forward lookup le s t"
  by (simp add: forward_def le_refl)

lemma new_row: "lookup t = (lookup s)(k := x) \<Longrightarrow> lookup s k = None \<Longrightarrow> forward lookup le s t"
  by (auto simp: forward_def le_refl)

lemma mapped_rows:
  "(\<And>k. lookup t k = map_option (f k) (lookup s k)) \<Longrightarrow> (\<And>k r. le r (f k r)) \<Longrightarrow>
   forward lookup le s t"
  by (simp add: forward_def)

lemma forward_trans:
  assumes st: "forward lookup le s t" and tu: "forward lookup le t u"
  shows "forward lookup le s u"
  unfolding forward_def
proof (intro allI impI)
  fix k r assume "lookup s k = Some r"
  then obtain r' where r': "lookup t k = Some r'" "le r r'"
    using forwardD [OF st] by blast
  obtain r'' where "lookup u k = Some r''" "le r' r''"
    using forwardD [OF tu r'(1)] by blast
  then show "\<exists>r'. lookup u k = Some r' \<and> le r r'"
    using r'(2) le_trans by blast
qed

end

sublocale row_order \<subseteq> evolution "forward lookup le"
  by unfold_locales (rule same_rows, simp, rule forward_trans)

text \<open>The evolution that keeps an invariant.\<close>

definition keeping :: "('s \<Rightarrow> bool) \<Rightarrow> 's \<Rightarrow> 's \<Rightarrow> bool" where
  "keeping P s t \<longleftrightarrow> (P s \<longrightarrow> P t)"

interpretation keeping: evolution "keeping P"
  by unfold_locales (simp_all add: keeping_def)

end
