(* ===== verification/Block_Types.thy ===== *)
theory Block_Types
  imports Prelude Complex_Main
begin

text \<open>
  The data of the work-block subsystem: the enumerations of
  \<^verbatim>\<open>shared-types/src/lib.rs\<close> and \<^verbatim>\<open>persistence/models.rs\<close>, with the tokens the
  database stores for them, and the structs of a block, an observation, an
  intervention offer, a logged decision and a block's result.

  Field names carry a prefix per struct (\<open>wb_\<close> a block row, \<open>ob_\<close> an observation,
  \<open>rd_\<close> a reported dwell, \<open>iv_\<close> an intervention, \<open>dc_\<close> a decision, \<open>dm_\<close> the
  demotion singleton, \<open>rs_\<close> a result), since record fields share one namespace.
\<close>

section \<open>Vocabularies\<close>

datatype work_block_phase = Idle | Active | Paused | Completed | Abandoned | Expired

datatype work_block_purpose =
  DeepWork | Study | CreativePractice | HealthyTechUse | WorkLifeBoundary

datatype work_block_intensity = LightIntensity | MediumIntensity | IntenseIntensity

datatype work_block_origin = Manual | Invitation

datatype classification_status = Classified | Ambiguous | Unclassified

datatype classification_confidence = High | Medium | Low | NoConfidence

datatype confidence_level = LevelNone | LevelLow | LevelMedium | LevelHigh

datatype intervention_salience = Normal | Quiet

datatype intervention_response =
  RespAcceptedAction | RespNotHelpful | RespWrongClassification | RespWasFocused | RespDismissed

datatype intervention_outcome =
  Offered | AcceptedAction | Returned | NotHelpful | WrongClassification | WasFocused
  | Dismissed | DeliverySuppressedDnd | WithheldDemotion | NoResponse

datatype demotion_kind = DemotionActive | DemotionDemoted

datatype gate_verdict =
  AbstainedWarmup | AbstainedRemaining | AbstainedBlockCap | AbstainedBackoff
  | AbstainedNoAnchor | AbstainedMinSwitches | AbstainedAtAnchor
  | VerdictWithheldDemotion | VerdictSuppressedDnd | VerdictOffered

datatype dnd_outcome = CompletedUnderDnd | HeldUnderDnd

datatype work_block_coverage = CoverageInsufficient | CoveragePartial | CoverageGood

datatype lifecycle_event = Sleep | Wake | ClockChanged | TimeZoneChanged

section \<open>The stored tokens\<close>

fun phase_as_str :: "work_block_phase \<Rightarrow> string" where
  "phase_as_str Idle = ''idle''"
| "phase_as_str Active = ''active''"
| "phase_as_str Paused = ''paused''"
| "phase_as_str Completed = ''completed''"
| "phase_as_str Abandoned = ''abandoned''"
| "phase_as_str Expired = ''expired''"

definition parse_work_block_phase :: "string \<Rightarrow> work_block_phase option" where
  "parse_work_block_phase v =
     (if v = ''active'' then Some Active
      else if v = ''paused'' then Some Paused
      else if v = ''completed'' then Some Completed
      else if v = ''abandoned'' then Some Abandoned
      else if v = ''expired'' then Some Expired
      else None)"

fun origin_as_str :: "work_block_origin \<Rightarrow> string" where
  "origin_as_str Manual = ''manual''"
| "origin_as_str Invitation = ''invitation''"

definition origin_from_db_value :: "string \<Rightarrow> work_block_origin option" where
  "origin_from_db_value v =
     (if v = ''manual'' then Some Manual
      else if v = ''invitation'' then Some Invitation
      else None)"

fun status_as_str :: "classification_status \<Rightarrow> string" where
  "status_as_str Classified = ''classified''"
| "status_as_str Ambiguous = ''ambiguous''"
| "status_as_str Unclassified = ''unclassified''"

definition parse_classification_status_value :: "string \<Rightarrow> classification_status option" where
  "parse_classification_status_value v =
     (if v = ''classified'' then Some Classified
      else if v = ''ambiguous'' then Some Ambiguous
      else if v = ''unclassified'' then Some Unclassified
      else None)"

fun confidence_as_str :: "classification_confidence \<Rightarrow> string" where
  "confidence_as_str High = ''high''"
| "confidence_as_str Medium = ''medium''"
| "confidence_as_str Low = ''low''"
| "confidence_as_str NoConfidence = ''none''"

definition parse_classification_confidence_value ::
  "string \<Rightarrow> classification_confidence option" where
  "parse_classification_confidence_value v =
     (if v = ''high'' then Some High
      else if v = ''medium'' then Some Medium
      else if v = ''low'' then Some Low
      else if v = ''none'' then Some NoConfidence
      else None)"

fun outcome_as_str :: "intervention_outcome \<Rightarrow> string" where
  "outcome_as_str Offered = ''offered''"
| "outcome_as_str AcceptedAction = ''accepted_action''"
| "outcome_as_str Returned = ''returned''"
| "outcome_as_str NotHelpful = ''not_helpful''"
| "outcome_as_str WrongClassification = ''wrong_classification''"
| "outcome_as_str WasFocused = ''was_focused''"
| "outcome_as_str Dismissed = ''dismissed''"
| "outcome_as_str DeliverySuppressedDnd = ''delivery_suppressed_dnd''"
| "outcome_as_str WithheldDemotion = ''withheld_demotion''"
| "outcome_as_str NoResponse = ''no_response''"

definition outcome_from_db_value :: "string \<Rightarrow> intervention_outcome option" where
  "outcome_from_db_value v =
     (if v = ''offered'' then Some Offered
      else if v = ''accepted_action'' then Some AcceptedAction
      else if v = ''returned'' then Some Returned
      else if v = ''not_helpful'' then Some NotHelpful
      else if v = ''wrong_classification'' then Some WrongClassification
      else if v = ''was_focused'' then Some WasFocused
      else if v = ''dismissed'' then Some Dismissed
      else if v = ''delivery_suppressed_dnd'' then Some DeliverySuppressedDnd
      else if v = ''withheld_demotion'' then Some WithheldDemotion
      else if v = ''no_response'' then Some NoResponse
      else None)"

definition is_terminal :: "intervention_outcome \<Rightarrow> bool" where
  "is_terminal oc \<longleftrightarrow> oc \<noteq> Offered"

definition is_negative :: "intervention_outcome \<Rightarrow> bool" where
  "is_negative oc \<longleftrightarrow> oc \<in> {NotHelpful, WrongClassification, WasFocused, Dismissed}"

fun verdict_as_str :: "gate_verdict \<Rightarrow> string" where
  "verdict_as_str AbstainedWarmup = ''abstained_warmup''"
| "verdict_as_str AbstainedRemaining = ''abstained_remaining''"
| "verdict_as_str AbstainedBlockCap = ''abstained_block_cap''"
| "verdict_as_str AbstainedBackoff = ''abstained_backoff''"
| "verdict_as_str AbstainedNoAnchor = ''abstained_no_anchor''"
| "verdict_as_str AbstainedMinSwitches = ''abstained_min_switches''"
| "verdict_as_str AbstainedAtAnchor = ''abstained_at_anchor''"
| "verdict_as_str VerdictWithheldDemotion = ''withheld_demotion''"
| "verdict_as_str VerdictSuppressedDnd = ''suppressed_dnd''"
| "verdict_as_str VerdictOffered = ''offered''"

definition verdict_all :: "gate_verdict list" where
  "verdict_all =
     [AbstainedWarmup, AbstainedRemaining, AbstainedBlockCap, AbstainedBackoff,
      AbstainedNoAnchor, AbstainedMinSwitches, AbstainedAtAnchor,
      VerdictWithheldDemotion, VerdictSuppressedDnd, VerdictOffered]"

definition verdict_from_stored :: "string \<Rightarrow> gate_verdict option" where
  "verdict_from_stored v = find (\<lambda>g. verdict_as_str g = v) verdict_all"

definition was_delivered :: "gate_verdict \<Rightarrow> bool" where
  "was_delivered v \<longleftrightarrow> v = VerdictOffered"

fun demotion_as_str :: "demotion_kind \<Rightarrow> string" where
  "demotion_as_str DemotionActive = ''active''"
| "demotion_as_str DemotionDemoted = ''demoted''"

definition demotion_from_db_value :: "string \<Rightarrow> demotion_kind option" where
  "demotion_from_db_value v =
     (if v = ''active'' then Some DemotionActive
      else if v = ''demoted'' then Some DemotionDemoted
      else None)"

fun outcome_for :: "intervention_response \<Rightarrow> intervention_outcome" where
  "outcome_for RespAcceptedAction = AcceptedAction"
| "outcome_for RespNotHelpful = NotHelpful"
| "outcome_for RespWrongClassification = WrongClassification"
| "outcome_for RespWasFocused = WasFocused"
| "outcome_for RespDismissed = Dismissed"

lemma outcome_for_terminal [simp]: "is_terminal (outcome_for r)"
  by (cases r) (simp_all add: is_terminal_def)

section \<open>Structs\<close>

record work_block_record =
  wb_block_id :: string
  wb_phase :: work_block_phase
  wb_intention :: "ustr option"
  wb_purpose :: "work_block_purpose option"
  wb_intensity :: work_block_intensity
  wb_planned :: nat
  wb_started_at :: instant
  wb_paused_at :: "instant option"
  wb_total_paused :: nat
  wb_ended_at :: "instant option"
  wb_recovered :: bool
  wb_recovery_of :: "string option"
  wb_origin :: work_block_origin
  wb_intention_expires_at :: instant
  wb_updated_at :: instant

record observation =
  ob_occurred_at :: instant
  ob_ended_at :: "instant option"
  ob_category :: string
  ob_status :: classification_status
  ob_confidence :: classification_confidence

record reported_dwell =
  rd_occurred_at :: instant
  rd_duration_seconds :: nat
  rd_category :: string
  rd_status :: classification_status
  rd_confidence :: classification_confidence

definition rd_ended_at :: "reported_dwell \<Rightarrow> instant" where
  "rd_ended_at d = rd_occurred_at d + seconds (int (rd_duration_seconds d))"

record intervention =
  iv_offered_at :: instant
  iv_action_id :: string
  iv_anchor_category :: string
  iv_switch_count :: nat
  iv_window_seconds :: nat
  iv_outcome :: intervention_outcome
  iv_outcome_at :: "instant option"
  iv_salience :: intervention_salience
  iv_card_seen_at :: "instant option"

record category_correction =
  cc_category :: string
  cc_counts_as :: string
  cc_corrected_at :: instant

record intervention_counts =
  delivered :: nat
  was_focused :: nat

record demotion_record =
  dm_state :: demotion_kind
  dm_demoted_at :: "instant option"
  dm_manual_reset_at :: "instant option"
  dm_threshold_version :: nat
  dm_repromotion_version :: nat
  dm_updated_at :: instant

record decision =
  dc_decision_id :: string
  dc_occurred_at :: instant
  dc_block_id :: "string option"
  dc_policy_version :: nat
  dc_anchor_category :: "string option"
  dc_switch_count :: nat
  dc_elapsed :: nat
  dc_remaining :: nat
  dc_verdict :: gate_verdict
  dc_propensity :: rat
  dc_anchor_seen :: "bool option"
  dc_outcome_at :: "instant option"

record next_action =
  na_action_id :: string
  na_label :: string
  na_duration_seconds :: nat

record block_result =
  rs_planned :: nat
  rs_elapsed :: nat
  rs_longest :: nat
  rs_switch_aways :: nat
  rs_recoveries :: nat
  rs_confidence :: confidence_level
  rs_coverage :: work_block_coverage
  rs_coverage_ratio :: rat
  rs_evidence_category :: "string option"
  rs_observation :: string
  rs_next_action :: next_action
  rs_dnd_outcomes :: "dnd_outcome list"
  rs_reconciliation :: "string option"

record start_request =
  rq_intention :: "ustr option"
  rq_planned :: nat
  rq_purpose :: "work_block_purpose option"
  rq_intensity :: work_block_intensity

definition live :: "work_block_phase \<Rightarrow> bool" where
  "live p \<longleftrightarrow> p = Active \<or> p = Paused"

section \<open>Every stored token reads back as the value it was written for\<close>

lemma phase_roundtrip:
  "p \<noteq> Idle \<Longrightarrow> parse_work_block_phase (phase_as_str p) = Some p"
  by (cases p) (simp_all add: parse_work_block_phase_def)

lemma verdict_roundtrip: "verdict_from_stored (verdict_as_str v) = Some v"
  by (cases v) (simp_all add: verdict_from_stored_def verdict_all_def)

lemma outcome_roundtrip: "outcome_from_db_value (outcome_as_str oc) = Some oc"
  by (cases oc) (simp_all add: outcome_from_db_value_def)

lemma status_roundtrip: "parse_classification_status_value (status_as_str st) = Some st"
  by (cases st) (simp_all add: parse_classification_status_value_def)

lemma confidence_roundtrip:
  "parse_classification_confidence_value (confidence_as_str c) = Some c"
  by (cases c) (simp_all add: parse_classification_confidence_value_def)

lemma outcome_token_unique:
  "outcome_from_db_value v = Some oc \<longleftrightarrow> v = outcome_as_str oc"
  by (cases oc) (auto simp: outcome_from_db_value_def)

lemma verdict_token_unique:
  "verdict_from_stored v = Some g \<longleftrightarrow> v = verdict_as_str g"
proof
  assume "verdict_from_stored v = Some g"
  then show "v = verdict_as_str g"
    by (auto simp: verdict_from_stored_def find_Some_iff)
qed (simp add: verdict_roundtrip)

end
