(* ===== verification/Block_Store.thy ===== *)
theory Block_Store
  imports Block_Types "HOL-Library.List_Lexorder" "HOL-Library.Char_ord"
    "HOL-Library.Product_Lexorder"
begin

text \<open>
  The tables behind \<^verbatim>\<open>WorkBlockRepo\<close> and the SQL statements of
  \<^verbatim>\<open>SqliteWorkBlockRepo\<close> (\<^verbatim>\<open>persistence/sqlite.rs\<close>), one operation each.

  A table is a list of rows in \<^verbatim>\<open>rowid\<close> order. Instants are stored as whole seconds
  (\<open>stored\<close>). The schema's constraints (primary keys, foreign keys, \<open>CHECK\<close>s and the
  unique index on open observations) are branches that return \<open>Sqlite\<close>, so a statement
  the schema refuses is an error here too. I/O failures of SQLite itself are not
  modelled. \<open>deadline\<close> is the manager's watch channel, kept in the same record.
\<close>

datatype persistence_error = Sqlite | NotFound string

record raw_row =
  raw_occurred_at :: int
  raw_duration :: int
  raw_category :: string
  raw_status :: string
  raw_confidence :: string

record wb_state =
  t_work_block :: "work_block_record list"
  t_observation :: "(string \<times> observation) list"
  t_result :: "(string \<times> block_result) list"
  t_intervention :: "(string \<times> intervention) list"
  t_correction :: "(string \<times> category_correction) list"
  t_demotion :: "demotion_record option"
  t_decision :: "decision list"
  t_raw_event :: "raw_row list"
  deadline :: "instant option"

type_synonym 'a repo = "(wb_state, persistence_error, 'a) op"

section \<open>Blocks\<close>

definition block_exists :: "wb_state \<Rightarrow> string \<Rightarrow> bool" where
  "block_exists s b \<longleftrightarrow> b \<in> set (map wb_block_id (t_work_block s))"

definition intention_check :: "ustr option \<Rightarrow> bool" where
  "intention_check i \<longleftrightarrow>
     (case i of None \<Rightarrow> True | Some v \<Rightarrow> length v \<le> 120 \<and> 10 \<notin> set v \<and> 13 \<notin> set v)"

definition block_check :: "wb_state \<Rightarrow> work_block_record \<Rightarrow> bool" where
  "block_check s b \<longleftrightarrow>
     wb_block_id b \<noteq> [] \<and> \<not> block_exists s (wb_block_id b) \<and> wb_phase b \<noteq> Idle
     \<and> intention_check (wb_intention b)
     \<and> 300 \<le> wb_planned b \<and> wb_planned b \<le> 10800
     \<and> (case wb_recovery_of b of None \<Rightarrow> True
         | Some r \<Rightarrow> r = wb_block_id b \<or> block_exists s r)"

definition stored_block :: "work_block_record \<Rightarrow> work_block_record" where
  "stored_block b = b\<lparr>wb_started_at := stored (wb_started_at b),
     wb_paused_at := map_option stored (wb_paused_at b),
     wb_ended_at := map_option stored (wb_ended_at b),
     wb_intention_expires_at := stored (wb_intention_expires_at b),
     wb_updated_at := stored (wb_updated_at b)\<rparr>"

definition create :: "work_block_record \<Rightarrow> unit repo" where
  "create b = (\<lambda>s. if block_check s b
     then (Inr (), s\<lparr>t_work_block := t_work_block s @ [stored_block b]\<rparr>)
     else (Inl Sqlite, s))"

definition latest :: "work_block_record option repo" where
  "latest = gets (\<lambda>s. if t_work_block s = [] then None else Some (last (t_work_block s)))"

definition get :: "string \<Rightarrow> work_block_record repo" where
  "get b = (\<lambda>s. case find (\<lambda>r. wb_block_id r = b) (t_work_block s) of
     None \<Rightarrow> (Inl (NotFound ''work_block''), s) | Some r \<Rightarrow> (Inr r, s))"

definition map_block ::
  "string \<Rightarrow> (work_block_phase \<Rightarrow> bool) \<Rightarrow> (work_block_record \<Rightarrow> work_block_record)
   \<Rightarrow> wb_state \<Rightarrow> wb_state" where
  "map_block b p f s = s\<lparr>t_work_block :=
     map (\<lambda>r. if wb_block_id r = b \<and> p (wb_phase r) then f r else r) (t_work_block s)\<rparr>"

definition block_matches :: "string \<Rightarrow> (work_block_phase \<Rightarrow> bool) \<Rightarrow> wb_state \<Rightarrow> bool" where
  "block_matches b p s \<longleftrightarrow> (\<exists>r \<in> set (t_work_block s). wb_block_id r = b \<and> p (wb_phase r))"

definition update_work_block ::
  "string \<Rightarrow> (work_block_phase \<Rightarrow> bool) \<Rightarrow> (work_block_record \<Rightarrow> work_block_record) \<Rightarrow> unit repo"
where
  "update_work_block b p f = (\<lambda>s. if block_matches b p s then (Inr (), map_block b p f s)
     else (Inl (NotFound ''work_block_transition''), s))"

definition set_paused :: "string \<Rightarrow> instant \<Rightarrow> unit repo" where
  "set_paused b tm = update_work_block b (\<lambda>p. p = Active)
     (\<lambda>r. r\<lparr>wb_phase := Paused, wb_paused_at := Some (stored tm), wb_updated_at := stored tm\<rparr>)"

definition set_active :: "string \<Rightarrow> instant \<Rightarrow> nat \<Rightarrow> unit repo" where
  "set_active b tm paused = update_work_block b (\<lambda>p. p = Paused)
     (\<lambda>r. r\<lparr>wb_phase := Active, wb_paused_at := None, wb_total_paused := paused,
            wb_updated_at := stored tm\<rparr>)"

definition mark_recovered :: "string \<Rightarrow> instant \<Rightarrow> unit repo" where
  "mark_recovered b tm = update_work_block b live
     (\<lambda>r. r\<lparr>wb_recovered := True, wb_updated_at := stored tm\<rparr>)"

definition expire_intentions :: "instant \<Rightarrow> nat repo" where
  "expire_intentions now = (\<lambda>s.
     let hit = (\<lambda>r. wb_intention r \<noteq> None \<and> wb_intention_expires_at r \<le> stored now)
     in (Inr (length (filter hit (t_work_block s))),
         s\<lparr>t_work_block := map (\<lambda>r. if hit r then r\<lparr>wb_intention := None\<rparr> else r)
             (t_work_block s)\<rparr>))"

text \<open>Deleting every block cascades to the rows that reference one.\<close>

definition clear_all :: "nat repo" where
  "clear_all = (\<lambda>s. (Inr (length (t_work_block s)),
     s\<lparr>t_work_block := [], t_observation := [], t_result := [], t_intervention := [],
       t_correction := [], t_demotion := None, t_decision := []\<rparr>))"

section \<open>Observations\<close>

definition block_observations :: "wb_state \<Rightarrow> string \<Rightarrow> observation list" where
  "block_observations s b = map snd (filter (\<lambda>(k, _). k = b) (t_observation s))"

definition observations :: "string \<Rightarrow> observation list repo" where
  "observations b = gets (\<lambda>s. sort_key ob_occurred_at (block_observations s b))"

definition latest_observation :: "string \<Rightarrow> observation option repo" where
  "latest_observation b = gets (\<lambda>s.
     let os = sort_key ob_occurred_at (block_observations s b)
     in if os = [] then None else Some (last os))"

definition close_at :: "instant \<Rightarrow> observation \<Rightarrow> observation" where
  "close_at tm ob = (if ob_ended_at ob = None
     then ob\<lparr>ob_ended_at := Some (max (ob_occurred_at ob) (stored tm))\<rparr> else ob)"

definition close_open_observation :: "string \<Rightarrow> instant \<Rightarrow> unit repo" where
  "close_open_observation b tm = modify (\<lambda>s. s\<lparr>t_observation :=
     map (\<lambda>(k, ob). (k, if k = b then close_at tm ob else ob)) (t_observation s)\<rparr>)"

definition stored_observation :: "observation \<Rightarrow> observation" where
  "stored_observation ob = ob\<lparr>ob_occurred_at := stored (ob_occurred_at ob),
     ob_ended_at := map_option stored (ob_ended_at ob)\<rparr>"

definition append_observation :: "string \<Rightarrow> observation \<Rightarrow> unit repo" where
  "append_observation b ob = (\<lambda>s.
     if ob_category ob = [] \<or> \<not> block_exists s b
        \<or> (ob_ended_at ob = None \<and> (\<exists>x \<in> set (block_observations s b). ob_ended_at x = None))
     then (Inl Sqlite, s)
     else (Inr (), map_block b (\<lambda>_. True)
         (\<lambda>r. r\<lparr>wb_updated_at := max (wb_updated_at r) (stored (ob_occurred_at ob))\<rparr>)
         (s\<lparr>t_observation := t_observation s @ [(b, stored_observation ob)]\<rparr>)))"

definition observed_category_between ::
  "string \<Rightarrow> string \<Rightarrow> instant \<Rightarrow> instant \<Rightarrow> bool repo" where
  "observed_category_between b c from until = gets (\<lambda>s.
     \<exists>ob \<in> set (block_observations s b). eq_ignore_ascii_case (ob_category ob) c
        \<and> stored from < ob_occurred_at ob \<and> ob_occurred_at ob \<le> stored until)"

section \<open>Reported dwells\<close>

definition MAX_REPORTED_DWELL_SECONDS :: int where
  "MAX_REPORTED_DWELL_SECONDS = 30 * 60"

definition capped :: "raw_row \<Rightarrow> int" where
  "capped r = min (max (raw_duration r) 0) MAX_REPORTED_DWELL_SECONDS"

definition dwell_of_row :: "raw_row \<Rightarrow> reported_dwell" where
  "dwell_of_row r =
     \<lparr>rd_occurred_at = from_timestamp (raw_occurred_at r),
      rd_duration_seconds = nat (capped r),
      rd_category = raw_category r,
      rd_status = (case parse_classification_status_value (raw_status r) of
         None \<Rightarrow> Unclassified | Some v \<Rightarrow> v),
      rd_confidence = (case parse_classification_confidence_value (raw_confidence r) of
         None \<Rightarrow> NoConfidence | Some v \<Rightarrow> v)\<rparr>"

definition reported_dwells :: "instant \<Rightarrow> instant \<Rightarrow> reported_dwell list repo" where
  "reported_dwells from until = gets (\<lambda>s.
     if until \<le> from then []
     else map dwell_of_row (sort_key raw_occurred_at
       (filter (\<lambda>r. timestamp from - MAX_REPORTED_DWELL_SECONDS \<le> raw_occurred_at r
                  \<and> raw_occurred_at r < timestamp until
                  \<and> timestamp from < raw_occurred_at r + capped r) (t_raw_event s))))"

section \<open>Results\<close>

definition result :: "string \<Rightarrow> block_result option repo" where
  "result b = gets (\<lambda>s. map_of (t_result s) b)"

definition finalize ::
  "string \<Rightarrow> work_block_phase \<Rightarrow> instant \<Rightarrow> block_result \<Rightarrow> block_result repo" where
  "finalize b phase ended r = (\<lambda>s.
     case map_of (t_result s) b of
       Some old \<Rightarrow> (Inr old, s)
     | None \<Rightarrow>
         if block_matches b live s then
           (Inr r, (map_block b live
             (\<lambda>x. x\<lparr>wb_phase := phase, wb_ended_at := Some (stored ended), wb_paused_at := None,
                    wb_intention_expires_at := min (wb_intention_expires_at x)
                      (stored (ended + seconds (24 * 60 * 60))),
                    wb_updated_at := stored ended\<rparr>) s)
             \<lparr>t_result := t_result s @ [(b, r)]\<rparr>)
         else (Inl (NotFound ''active_work_block''), s))"

section \<open>Interventions\<close>

definition stored_intervention :: "intervention \<Rightarrow> intervention" where
  "stored_intervention i = i\<lparr>iv_offered_at := stored (iv_offered_at i),
     iv_outcome_at := map_option stored (iv_outcome_at i), iv_card_seen_at := None\<rparr>"

definition record_intervention :: "string \<Rightarrow> intervention \<Rightarrow> unit repo" where
  "record_intervention b i = (\<lambda>s.
     if iv_action_id i \<noteq> ''protect_next_10'' \<or> iv_anchor_category i = []
        \<or> iv_window_seconds i = 0 \<or> \<not> block_exists s b
     then (Inl Sqlite, s)
     else if map_of (t_intervention s) b \<noteq> None then (Inr (), s)
     else (Inr (), s\<lparr>t_intervention := t_intervention s @ [(b, stored_intervention i)]\<rparr>))"

definition intervention_of :: "wb_state \<Rightarrow> string \<Rightarrow> intervention option" where
  "intervention_of s = map_of (t_intervention s)"

definition intervention :: "string \<Rightarrow> intervention option repo" where
  "intervention b = gets (\<lambda>s. intervention_of s b)"

definition recent_interventions :: "nat \<Rightarrow> intervention list repo" where
  "recent_interventions limit = gets (\<lambda>s.
     take limit (sort_key (\<lambda>i. - iv_offered_at i) (map snd (t_intervention s))))"

definition map_intervention ::
  "string \<Rightarrow> (intervention \<Rightarrow> bool) \<Rightarrow> (intervention \<Rightarrow> intervention) \<Rightarrow> bool repo" where
  "map_intervention b p f = (\<lambda>s.
     (Inr (\<exists>(k, i) \<in> set (t_intervention s). k = b \<and> p i),
      s\<lparr>t_intervention :=
          map (\<lambda>(k, i). (k, if k = b \<and> p i then f i else i)) (t_intervention s)\<rparr>))"

definition mark_intervention_card_seen :: "string \<Rightarrow> instant \<Rightarrow> bool repo" where
  "mark_intervention_card_seen b tm = map_intervention b (\<lambda>i. iv_card_seen_at i = None)
     (\<lambda>i. i\<lparr>iv_card_seen_at := Some (stored tm)\<rparr>)"

definition resolve_intervention :: "string \<Rightarrow> intervention_outcome \<Rightarrow> instant \<Rightarrow> bool repo" where
  "resolve_intervention b oc tm = map_intervention b (\<lambda>i. iv_outcome i = Offered)
     (\<lambda>i. i\<lparr>iv_outcome := oc, iv_outcome_at := Some (stored tm)\<rparr>)"

definition counts_between :: "wb_state \<Rightarrow> int \<Rightarrow> int option \<Rightarrow> intervention_counts" where
  "counts_between s since until =
     (let rows = filter (\<lambda>i. since \<le> timestamp (iv_offered_at i)
                   \<and> (case until of None \<Rightarrow> True | Some u \<Rightarrow> timestamp (iv_offered_at i) < u))
                   (map snd (t_intervention s))
      in \<lparr>delivered = length (filter (\<lambda>i. iv_outcome i \<notin> {DeliverySuppressedDnd, WithheldDemotion}) rows),
          was_focused = length (filter (\<lambda>i. iv_outcome i = WasFocused) rows)\<rparr>)"

definition wrong_intervention_counts :: "instant \<Rightarrow> intervention_counts repo" where
  "wrong_intervention_counts since = gets (\<lambda>s. counts_between s (timestamp since) None)"

section \<open>Corrections, demotion state, decision log\<close>

definition correction_of :: "wb_state \<Rightarrow> string \<times> string \<Rightarrow> category_correction option" where
  "correction_of s k = map_of (map (\<lambda>(b, c). ((b, cc_category c), c)) (t_correction s)) k"

definition record_category_correction :: "string \<Rightarrow> category_correction \<Rightarrow> unit repo" where
  "record_category_correction b c = (\<lambda>s.
     if cc_category c = [] \<or> cc_counts_as c = [] \<or> \<not> block_exists s b then (Inl Sqlite, s)
     else if correction_of s (b, cc_category c) \<noteq> None then (Inr (), s)
     else (Inr (), s\<lparr>t_correction := t_correction s @
                       [(b, c\<lparr>cc_corrected_at := stored (cc_corrected_at c)\<rparr>)]\<rparr>))"

definition category_corrections :: "string \<Rightarrow> category_correction list repo" where
  "category_corrections b = gets (\<lambda>s.
     sort_key cc_corrected_at (map snd (filter (\<lambda>(k, _). k = b) (t_correction s))))"

definition demotion_state :: "demotion_record option repo" where
  "demotion_state = gets t_demotion"

definition set_demotion_state :: "demotion_record \<Rightarrow> unit repo" where
  "set_demotion_state r = modify (\<lambda>s. s\<lparr>t_demotion := Some
     (r\<lparr>dm_demoted_at := map_option stored (dm_demoted_at r),
        dm_manual_reset_at := map_option stored (dm_manual_reset_at r),
        dm_updated_at := stored (dm_updated_at r)\<rparr>)\<rparr>)"

definition decision_of :: "wb_state \<Rightarrow> string \<Rightarrow> decision option" where
  "decision_of s d = find (\<lambda>x. dc_decision_id x = d) (t_decision s)"

definition record_decision :: "decision \<Rightarrow> unit repo" where
  "record_decision d = (\<lambda>s.
     if dc_policy_version d < 1 \<or> \<not> (0 < dc_propensity d \<and> dc_propensity d \<le> 1)
        \<or> (case dc_block_id d of None \<Rightarrow> False | Some b \<Rightarrow> \<not> block_exists s b)
     then (Inl Sqlite, s)
     else if decision_of s (dc_decision_id d) \<noteq> None then (Inr (), s)
     else (Inr (), s\<lparr>t_decision := t_decision s @
            [d\<lparr>dc_occurred_at := stored (dc_occurred_at d),
               dc_outcome_at := map_option stored (dc_outcome_at d)\<rparr>]\<rparr>))"

definition decisions :: "string \<Rightarrow> decision list repo" where
  "decisions b = gets (\<lambda>s. sort_key (\<lambda>d. (dc_occurred_at d, dc_decision_id d))
     (filter (\<lambda>d. dc_block_id d = Some b) (t_decision s)))"

definition recent_decisions :: "nat \<Rightarrow> decision list repo" where
  "recent_decisions limit = gets (\<lambda>s. take limit (rev
     (sort_key (\<lambda>d. (dc_occurred_at d, dc_decision_id d)) (t_decision s))))"

definition unresolved_decisions :: "instant \<Rightarrow> nat \<Rightarrow> decision list repo" where
  "unresolved_decisions closed_by limit = gets (\<lambda>s. take limit
     (sort_key (\<lambda>d. (dc_occurred_at d, dc_decision_id d))
       (filter (\<lambda>d. dc_anchor_seen d = None \<and> dc_anchor_category d \<noteq> None
                  \<and> dc_block_id d \<noteq> None \<and> dc_occurred_at d \<le> stored closed_by) (t_decision s))))"

definition resolve_decision :: "string \<Rightarrow> bool \<Rightarrow> instant \<Rightarrow> bool repo" where
  "resolve_decision d seen tm = (\<lambda>s.
     (Inr (\<exists>x \<in> set (t_decision s). dc_decision_id x = d \<and> dc_anchor_seen x = None),
      s\<lparr>t_decision := map (\<lambda>x. if dc_decision_id x = d \<and> dc_anchor_seen x = None
           then x\<lparr>dc_anchor_seen := Some seen, dc_outcome_at := Some (stored tm)\<rparr> else x)
         (t_decision s)\<rparr>))"

lemmas read_defs = latest_def observations_def latest_observation_def reported_dwells_def
  result_def intervention_def recent_interventions_def wrong_intervention_counts_def
  demotion_state_def category_corrections_def decisions_def recent_decisions_def
  unresolved_decisions_def observed_category_between_def

end
