(* ===== verification/Block_Evidence.thy ===== *)
theory Block_Evidence
  imports Block_Store
begin

text \<open>
  The pure functions of \<^verbatim>\<open>work_block/mod.rs\<close>: block time, what counts as evidence,
  coverage measured against the reported dwells, the anchor category, the aggregation
  of a finished block, and the copy it is reported in.

  Copy is \<open>string\<close>. \<open>coverage_ratio\<close> is the exact quotient of two \<open>u32\<close> values: the
  source's \<open>f64\<close> quotient differs from it by less than the distance of any such
  quotient to the thresholds 1/4 and 3/4, so every comparison agrees.
\<close>

section \<open>Block time\<close>

definition effective_now :: "work_block_record \<Rightarrow> instant \<Rightarrow> instant" where
  "effective_now r now = max now (wb_updated_at r)"

definition planned_deadline :: "work_block_record \<Rightarrow> instant" where
  "planned_deadline r = wb_started_at r + seconds (int (wb_planned r) + int (wb_total_paused r))"

definition elapsed_seconds :: "work_block_record \<Rightarrow> instant \<Rightarrow> nat" where
  "elapsed_seconds r now =
     (let end_at = (case wb_phase r of
          Paused \<Rightarrow> (case wb_paused_at r of None \<Rightarrow> now | Some p \<Rightarrow> p)
        | Completed \<Rightarrow> (case wb_ended_at r of None \<Rightarrow> now | Some e \<Rightarrow> e)
        | Abandoned \<Rightarrow> (case wb_ended_at r of None \<Rightarrow> now | Some e \<Rightarrow> e)
        | Expired \<Rightarrow> (case wb_ended_at r of None \<Rightarrow> now | Some e \<Rightarrow> e)
        | _ \<Rightarrow> effective_now r now)
      in positive_seconds (end_at - wb_started_at r) - wb_total_paused r)"

definition normalize_intention :: "ustr option \<Rightarrow> ustr option option" where
  "normalize_intention i =
     (case i of None \<Rightarrow> Some None
      | Some v \<Rightarrow>
          let t = trim v in
          if t = [] then Some None
          else if length t > 120 \<or> 10 \<in> set t \<or> 13 \<in> set t then None
          else Some (Some t))"

section \<open>Evidence\<close>

definition is_confident ::
  "string \<Rightarrow> classification_status \<Rightarrow> classification_confidence \<Rightarrow> bool" where
  "is_confident category status confidence \<longleftrightarrow>
     status = Classified \<and> (confidence = High \<or> confidence = Medium)
     \<and> to_ascii_lowercase category \<notin> {''system'', ''unclassified'', ''unlogged''}"

definition is_confident_evidence :: "observation \<Rightarrow> bool" where
  "is_confident_evidence ob = is_confident (ob_category ob) (ob_status ob) (ob_confidence ob)"

definition current_evidence ::
  "observation option \<Rightarrow> string option \<times> classification_status \<times> classification_confidence" where
  "current_evidence x =
     (case x of None \<Rightarrow> (None, Unclassified, NoConfidence)
      | Some ob \<Rightarrow>
          (if ob_status ob = Classified \<and> (ob_confidence ob = High \<or> ob_confidence ob = Medium)
           then Some (ob_category ob) else None,
           ob_status ob, ob_confidence ob))"

definition reported_end :: "observation \<Rightarrow> reported_dwell list \<Rightarrow> instant \<Rightarrow> instant" where
  "reported_end row reported boundary =
     (let ends = filter (\<lambda>e. ob_occurred_at row < e)
        (map (\<lambda>d. min (rd_ended_at d) boundary)
          (filter (\<lambda>d. rd_category d = ob_category row \<and> rd_status d = ob_status row
                     \<and> rd_confidence d = ob_confidence row) reported))
      in if ends = [] then ob_occurred_at row else Max (set ends))"

section \<open>Coverage\<close>

type_synonym span = "instant \<times> instant"

fun merge_sorted :: "span list \<Rightarrow> span list \<Rightarrow> span list" where
  "merge_sorted acc [] = rev acc"
| "merge_sorted [] ((a, b) # xs) = merge_sorted [(a, b)] xs"
| "merge_sorted ((c, d) # acc) ((a, b) # xs) =
     (if a \<le> d then merge_sorted ((c, max d b) # acc) xs
      else merge_sorted ((a, b) # (c, d) # acc) xs)"

definition merged_spans :: "span list \<Rightarrow> instant \<Rightarrow> instant \<Rightarrow> span list" where
  "merged_spans spans from until =
     merge_sorted [] (sort (filter (\<lambda>(a, b). a < b)
       (map (\<lambda>(a, b). (max a from, min b until)) spans)))"

function overlap_seconds :: "span list \<Rightarrow> span list \<Rightarrow> int" where
  "overlap_seconds [] ys = 0"
| "overlap_seconds (x # xs) [] = 0"
| "overlap_seconds ((a, b) # xs) ((c, d) # ys) =
     (if max a c < min b d then num_seconds (min b d - max a c) else 0)
     + (if b < d then overlap_seconds xs ((c, d) # ys) else overlap_seconds ((a, b) # xs) ys)"
  by pat_completeness auto
termination
  by (relation "measure (\<lambda>(xs, ys). length xs + length ys)") auto

definition seen_spans :: "reported_dwell list \<Rightarrow> span list" where
  "seen_spans reported = map (\<lambda>d. (rd_occurred_at d, rd_ended_at d))
     (filter (\<lambda>d. is_confident (rd_category d) (rd_status d) (rd_confidence d)) reported)"

definition running_spans :: "observation list \<Rightarrow> span list" where
  "running_spans obs = List.map_filter
     (\<lambda>ob. map_option (\<lambda>e. (ob_occurred_at ob, e)) (ob_ended_at ob)) obs"

definition reported_coverage_seconds ::
  "reported_dwell list \<Rightarrow> observation list \<Rightarrow> instant \<Rightarrow> instant \<Rightarrow> nat" where
  "reported_coverage_seconds reported obs started ended =
     nat (min (max (overlap_seconds (merged_spans (seen_spans reported) started ended)
                      (merged_spans (running_spans obs) started ended)) 0) (int u32_max))"

section \<open>The anchor\<close>

text \<open>
  The source's \<open>HashMap\<close> is an association list with one entry per category. Its
  iteration order is unspecified; the result below does not depend on it.
\<close>

fun add_seconds :: "('k \<times> nat) list \<Rightarrow> 'k \<Rightarrow> nat \<Rightarrow> ('k \<times> nat) list" where
  "add_seconds [] c n = [(c, sat_add 0 n)]"
| "add_seconds ((k, m) # t) c n =
     (if k = c then (k, sat_add m n) # t else (k, m) # add_seconds t c n)"

definition better :: "string \<times> nat \<Rightarrow> string \<times> nat \<Rightarrow> string \<times> nat" where
  "better x y = (if snd x < snd y \<or> (snd x = snd y \<and> fst y \<le> fst x) then y else x)"

definition best_category :: "(string \<times> nat) list \<Rightarrow> string option" where
  "best_category t = (case t of [] \<Rightarrow> None | x # xs \<Rightarrow> Some (fst (foldl better x xs)))"

definition evidence_seconds :: "observation list \<Rightarrow> (string \<times> nat) list" where
  "evidence_seconds obs = List.map_filter (\<lambda>ob.
     case ob_ended_at ob of None \<Rightarrow> None
     | Some e \<Rightarrow> (let n = positive_seconds (e - ob_occurred_at ob) in
         if is_confident_evidence ob \<and> 0 < n then Some (ob_category ob, n) else None)) obs"

definition category_table :: "(string \<times> nat) list \<Rightarrow> (string \<times> nat) list" where
  "category_table ev = foldl (\<lambda>t (c, n). add_seconds t c n) [] ev"

definition dominant_category :: "observation list \<Rightarrow> string option" where
  "dominant_category obs = best_category (category_table (evidence_seconds obs))"

section \<open>Departures inside the drift window\<close>

text \<open>
  The loop of \<open>evaluate_drift\<close>: the state is whether the last confident observation was
  the anchor (unknown before the first one) and the number of departures counted.
\<close>

definition departure_step :: "string \<Rightarrow> bool option \<times> nat \<Rightarrow> observation \<Rightarrow> bool option \<times> nat" where
  "departure_step anchor st ob =
     (let is_anchor = eq_ignore_ascii_case (ob_category ob) anchor in
      (Some is_anchor,
       if \<not> is_anchor \<and> fst st = Some True then sat_add (snd st) 1 else snd st))"

definition seed_previous :: "string \<Rightarrow> observation list \<Rightarrow> instant \<Rightarrow> bool option" where
  "seed_previous anchor obs start =
     (let before = filter is_confident_evidence (filter (\<lambda>ob. ob_occurred_at ob < start) obs)
      in if before = [] then None
         else Some (eq_ignore_ascii_case (ob_category (last before)) anchor))"

definition count_departures ::
  "string \<Rightarrow> observation list \<Rightarrow> instant \<Rightarrow> bool option \<times> nat" where
  "count_departures anchor obs start =
     foldl (departure_step anchor) (seed_previous anchor obs start, 0)
       (filter is_confident_evidence (filter (\<lambda>ob. start \<le> ob_occurred_at ob) obs))"

section \<open>The copy\<close>

definition replace_underscores :: "string \<Rightarrow> string" where
  "replace_underscores s = map (\<lambda>c. if c = CHR ''_'' then CHR '' '' else c) s"

definition is_ws_char :: "char \<Rightarrow> bool" where
  "is_ws_char c = is_whitespace (of_char c)"

definition upper_char :: "char \<Rightarrow> char" where
  "upper_char c = (let n = of_char c :: nat in if 97 \<le> n \<and> n \<le> 122 then char_of (n - 32) else c)"

definition friendly_category :: "string \<Rightarrow> string" where
  "friendly_category category =
     (case words is_ws_char (to_ascii_lowercase (replace_underscores category)) of
        [] \<Rightarrow> []
      | w # ws \<Rightarrow> join '' '' ((case w of [] \<Rightarrow> [] | c # cs \<Rightarrow> upper_char c # cs) # ws))"

definition rounded_minutes :: "nat \<Rightarrow> nat" where
  "rounded_minutes s = sat_add s 30 div 60"

definition plain_minutes :: "nat \<Rightarrow> string" where
  "plain_minutes m = (if m = 1 then ''1 minute'' else nat_str m @ '' minutes'')"

definition LOW_COVERAGE_RESULT_COPY :: string where
  "LOW_COVERAGE_RESULT_COPY =
     ''Too much of this block was outside what Velvt can categorize. There's nothing honest to say about it.''"

definition block_result_copy ::
  "work_block_coverage \<Rightarrow> string option \<Rightarrow> nat \<Rightarrow> nat \<Rightarrow> nat \<Rightarrow> nat \<Rightarrow> nat \<Rightarrow> string" where
  "block_result_copy coverage anchor switch_aways recoveries longest_seconds covered elapsed =
     (if coverage = CoverageInsufficient then LOW_COVERAGE_RESULT_COPY
      else case anchor of None \<Rightarrow> LOW_COVERAGE_RESULT_COPY
      | Some a \<Rightarrow>
        (let anchor = to_ascii_lowercase (friendly_category a);
             longest = plain_minutes (rounded_minutes longest_seconds) in
         if switch_aways = 0 then
           (let covered_minutes = rounded_minutes covered;
                c = plain_minutes covered_minutes in
            if covered_minutes < rounded_minutes elapsed
            then ''You stayed on '' @ anchor @ '' for all '' @ c @
                 '' of this block that Velvt could categorize.''
            else ''You stayed on '' @ anchor @ '' for all '' @ c @ '' of this block.'')
         else
           (let left = (if switch_aways = 1 then ''once'' else nat_str switch_aways @ '' times'') in
            if recoveries = 0
            then ''You left '' @ anchor @ '' '' @ left @
                 '' and the block ended somewhere else. Longest run: '' @ longest @ ''.''
            else
              (let came_back = (if switch_aways = 1 then ''came back''
                                else ''came back '' @ nat_str recoveries @ '' of them'') in
               ''You left '' @ anchor @ '' '' @ left @ '' and '' @ came_back @
               ''. The longest single run was '' @ longest @ ''.''))))"

definition recovery_label :: "work_block_purpose option \<Rightarrow> string" where
  "recovery_label p = (case p of
     Some DeepWork \<Rightarrow> ''Protect the next 10 minutes for deep work.''
   | Some Study \<Rightarrow> ''Protect the next 10 minutes for study.''
   | Some CreativePractice \<Rightarrow> ''Protect the next 10 minutes for creative practice.''
   | Some HealthyTechUse \<Rightarrow> ''Protect the next 10 minutes for healthy tech use.''
   | Some WorkLifeBoundary \<Rightarrow> ''Protect the next 10 minutes for your work-life boundary.''
   | None \<Rightarrow> ''Protect the next 10 minutes.'')"

definition status_line ::
  "work_block_phase \<Rightarrow> work_block_intensity \<Rightarrow> string option \<Rightarrow> classification_status \<Rightarrow> string" where
  "status_line phase intensity category status = (case phase of
     Paused \<Rightarrow> ''Paused. Resume when you are ready.''
   | Completed \<Rightarrow> ''The planned work block is complete.''
   | Abandoned \<Rightarrow> ''This block ended early; the result uses only observed activity.''
   | Expired \<Rightarrow> ''The block expired while timing was uncertain; the result is marked accordingly.''
   | Idle \<Rightarrow> ''Choose one bounded block to begin.''
   | Active \<Rightarrow>
       (case category of None \<Rightarrow> ''The current activity is unclear; Velvt is not guessing.''
        | Some c \<Rightarrow>
            if status \<noteq> Classified
            then ''The current activity is unclear; Velvt is not guessing.''
            else (case intensity of
              LightIntensity \<Rightarrow> ''Current category: '' @ friendly_category c @ ''.''
            | MediumIntensity \<Rightarrow> ''Current safe category: '' @ friendly_category c @ ''.''
            | IntenseIntensity \<Rightarrow> ''Current category: '' @ friendly_category c @
                ''. Intense mode uses the same calm evidence rules.'')))"

section \<open>The result of a finished block\<close>

definition DRIFT_ACTION_ID :: string where
  "DRIFT_ACTION_ID = ''protect_next_10''"

definition SOFT_RESTART_ACTION_ID :: string where
  "SOFT_RESTART_ACTION_ID = ''soft_restart_10''"

definition SOFT_RESTART_LABEL :: string where
  "SOFT_RESTART_LABEL = ''Want back in? 10-minute soft restart.''"

definition RECOVERY_DURATION_SECONDS :: nat where
  "RECOVERY_DURATION_SECONDS = 10 * 60"

definition next_action_for :: "work_block_record \<Rightarrow> work_block_phase \<Rightarrow> next_action" where
  "next_action_for r phase =
     (if wb_origin r = Invitation \<and> (phase = Abandoned \<or> phase = Expired)
      then \<lparr>na_action_id = SOFT_RESTART_ACTION_ID, na_label = SOFT_RESTART_LABEL,
            na_duration_seconds = RECOVERY_DURATION_SECONDS\<rparr>
      else \<lparr>na_action_id = DRIFT_ACTION_ID, na_label = recovery_label (wb_purpose r),
            na_duration_seconds = RECOVERY_DURATION_SECONDS\<rparr>)"

record agg =
  ag_longest :: nat
  ag_current :: "string option"
  ag_stretch :: nat
  ag_aways :: nat
  ag_recoveries :: nat
  ag_away :: bool
  ag_seen :: bool

definition agg_init :: agg where
  "agg_init = \<lparr>ag_longest = 0, ag_current = None, ag_stretch = 0, ag_aways = 0,
     ag_recoveries = 0, ag_away = False, ag_seen = False\<rparr>"

definition agg_run :: "agg \<Rightarrow> string \<times> nat \<Rightarrow> agg" where
  "agg_run g e =
     (let stretch = (if ag_current g = Some (fst e) then sat_add (ag_stretch g) (snd e) else snd e)
      in g\<lparr>ag_current := Some (fst e), ag_stretch := stretch,
           ag_longest := max (ag_longest g) stretch\<rparr>)"

definition agg_anchor :: "string option \<Rightarrow> agg \<Rightarrow> string \<times> nat \<Rightarrow> agg" where
  "agg_anchor dominant g e = (case dominant of None \<Rightarrow> g
     | Some d \<Rightarrow>
         if fst e = d then
           g\<lparr>ag_recoveries := (if ag_seen g \<and> ag_away g then sat_add (ag_recoveries g) 1
                               else ag_recoveries g),
             ag_seen := True, ag_away := False\<rparr>
         else if ag_seen g \<and> \<not> ag_away g then
           g\<lparr>ag_aways := sat_add (ag_aways g) 1, ag_away := True\<rparr>
         else g)"

definition agg_step :: "string option \<Rightarrow> agg \<Rightarrow> string \<times> nat \<Rightarrow> agg" where
  "agg_step dominant g e = agg_anchor dominant (agg_run g e) e"

definition coverage_of :: "rat \<Rightarrow> work_block_coverage" where
  "coverage_of ratio = (if ratio < 1/4 then CoverageInsufficient
     else if ratio < 3/4 then CoveragePartial else CoverageGood)"

definition coverage_ratio :: "nat \<Rightarrow> nat \<Rightarrow> rat" where
  "coverage_ratio covered elapsed =
     (if elapsed = 0 then 0 else max 0 (min 1 (rat_of_nat covered / rat_of_nat elapsed)))"

definition aggregate_result ::
  "work_block_record \<Rightarrow> work_block_phase \<Rightarrow> nat \<Rightarrow> observation list \<Rightarrow> nat \<Rightarrow> block_result" where
  "aggregate_result r phase elapsed obs covered =
     (let valid = evidence_seconds obs;
          ratio = coverage_ratio covered elapsed;
          coverage = coverage_of ratio;
          confidence = (case coverage of CoverageInsufficient \<Rightarrow> LevelNone
             | CoveragePartial \<Rightarrow> LevelLow
             | CoverageGood \<Rightarrow> if 2 \<le> length valid then LevelHigh else LevelMedium);
          dominant = best_category (category_table valid);
          g = foldl (agg_step dominant) agg_init valid;
          evidence = (if coverage \<noteq> CoverageInsufficient then dominant else None)
      in \<lparr>rs_planned = wb_planned r, rs_elapsed = elapsed, rs_longest = ag_longest g,
          rs_switch_aways = ag_aways g, rs_recoveries = ag_recoveries g,
          rs_confidence = confidence, rs_coverage = coverage, rs_coverage_ratio = ratio,
          rs_evidence_category = evidence,
          rs_observation = block_result_copy coverage evidence (ag_aways g) (ag_recoveries g)
             (ag_longest g) covered elapsed,
          rs_next_action = next_action_for r phase, rs_dnd_outcomes = [],
          rs_reconciliation = None\<rparr>)"

definition dnd_reconciliation_copy :: "bool \<Rightarrow> nat \<Rightarrow> string option" where
  "dnd_reconciliation_copy completed held_count =
     (let held = (if held_count = 0 then None
        else if held_count = 1 then Some ''Velvt held 1 nudge and delivered nothing mid-block''
        else Some (''Velvt held '' @ nat_str held_count @ '' nudges and delivered nothing mid-block''))
      in case (completed, held) of
         (True, Some h) \<Rightarrow>
           Some (''Do Not Disturb was on and the block completed as planned; '' @ h @ ''.'')
       | (True, None) \<Rightarrow> Some ''Do Not Disturb was on and the block completed as planned.''
       | (False, Some h) \<Rightarrow> Some (''Do Not Disturb was on for part of this block; '' @ h @ ''.'')
       | (False, None) \<Rightarrow> None)"

definition with_dnd_evidence :: "block_result \<Rightarrow> bool \<Rightarrow> nat \<Rightarrow> block_result" where
  "with_dnd_evidence r completed held_count =
     r\<lparr>rs_dnd_outcomes := rs_dnd_outcomes r @ (if completed then [CompletedUnderDnd] else [])
         @ replicate held_count HeldUnderDnd,
       rs_reconciliation := dnd_reconciliation_copy completed held_count\<rparr>"

end
