(* ===== verification/Block_Manager.thy ===== *)
theory Block_Manager
  imports Block_Evidence
begin

text \<open>
  \<^verbatim>\<open>WorkBlockManager\<close> (\<^verbatim>\<open>work_block/mod.rs\<close>): every method that reads or changes a
  block, as an operation on the store of \<open>Block_Store\<close> plus the deadline channel.

  A command carries the values its environment supplies in \<open>wb_env\<close>: the Focus
  source's answer for an instant, the identifiers \<^verbatim>\<open>Uuid::new_v4\<close> draws, and the parser
  \<^verbatim>\<open>Uuid::parse_str\<close>. An identifier is its hyphenated text. A write to the decision log
  that fails is swallowed, as the source does.
\<close>

datatype wb_error = Persistence persistence_error | InvalidTransition | InvalidRequest

type_synonym 'a wb = "(wb_state, wb_error, 'a) op"

record wb_env =
  env_focus :: "instant \<Rightarrow> bool"
  env_block_id :: string
  env_decision_id :: string
  env_parse_uuid :: "string \<Rightarrow> string option"

definition persist :: "'a repo \<Rightarrow> 'a wb" where
  "persist m = (\<lambda>s. case m s of (Inl e, t) \<Rightarrow> (Inl (Persistence e), t) | (Inr a, t) \<Rightarrow> (Inr a, t))"

definition publish_deadline :: "instant option \<Rightarrow> unit wb" where
  "publish_deadline d = modify (\<lambda>s. s\<lparr>deadline := d\<rparr>)"

section \<open>Policy constants\<close>

definition MIN_DURATION_SECONDS :: nat where "MIN_DURATION_SECONDS = 5 * 60"
definition MAX_DURATION_SECONDS :: nat where "MAX_DURATION_SECONDS = 180 * 60"
definition INTENTION_RETENTION_HOURS :: int where "INTENTION_RETENTION_HOURS = 24"
definition DRIFT_WINDOW_SECONDS :: nat where "DRIFT_WINDOW_SECONDS = 10 * 60"
definition DRIFT_MIN_SWITCHES :: nat where "DRIFT_MIN_SWITCHES = 3"
definition DRIFT_MIN_ELAPSED_SECONDS :: nat where "DRIFT_MIN_ELAPSED_SECONDS = 3 * 60"
definition DRIFT_MIN_REMAINING_SECONDS :: nat where "DRIFT_MIN_REMAINING_SECONDS = 2 * 60"
definition DRIFT_POLICY_VERSION :: nat where "DRIFT_POLICY_VERSION = 5"
definition DRIFT_DETERMINISTIC_PROPENSITY :: rat where "DRIFT_DETERMINISTIC_PROPENSITY = 1"
definition WRONG_INTERVENTION_ROLLING_DAYS :: nat where "WRONG_INTERVENTION_ROLLING_DAYS = 14"
definition DEMOTION_THRESHOLD_POLICY_VERSION :: nat where "DEMOTION_THRESHOLD_POLICY_VERSION = 1"
definition DEMOTION_THRESHOLD_PERCENT :: nat where "DEMOTION_THRESHOLD_PERCENT = 15"
definition DEMOTION_MIN_DELIVERED_SAMPLE :: nat where "DEMOTION_MIN_DELIVERED_SAMPLE = 10"
definition DEMOTION_REPROMOTION_POLICY_VERSION :: nat where "DEMOTION_REPROMOTION_POLICY_VERSION = 1"
definition DRIFT_PROTECT_MINUTES :: nat where "DRIFT_PROTECT_MINUTES = 10"
definition BACKOFF_BASE_SECONDS :: int where "BACKOFF_BASE_SECONDS = 2 * 60 * 60"
definition BACKOFF_MAX_SECONDS :: int where "BACKOFF_MAX_SECONDS = 24 * 60 * 60"
definition BACKOFF_HISTORY_LIMIT :: nat where "BACKOFF_HISTORY_LIMIT = 20"
definition WORK_BLOCK_STATE_VERSION :: nat where "WORK_BLOCK_STATE_VERSION = 1"

lemmas policy_defs = MIN_DURATION_SECONDS_def MAX_DURATION_SECONDS_def INTENTION_RETENTION_HOURS_def
  DRIFT_WINDOW_SECONDS_def DRIFT_MIN_SWITCHES_def DRIFT_MIN_ELAPSED_SECONDS_def
  DRIFT_MIN_REMAINING_SECONDS_def DRIFT_POLICY_VERSION_def DRIFT_DETERMINISTIC_PROPENSITY_def
  WRONG_INTERVENTION_ROLLING_DAYS_def DEMOTION_THRESHOLD_POLICY_VERSION_def
  DEMOTION_THRESHOLD_PERCENT_def DEMOTION_MIN_DELIVERED_SAMPLE_def
  DEMOTION_REPROMOTION_POLICY_VERSION_def DRIFT_PROTECT_MINUTES_def BACKOFF_BASE_SECONDS_def
  BACKOFF_MAX_SECONDS_def BACKOFF_HISTORY_LIMIT_def WORK_BLOCK_STATE_VERSION_def

section \<open>The words of an offer\<close>

definition DRIFT_TITLES :: "string list" where
  "DRIFT_TITLES = [''Your work block is running'', ''You are in a work block'',
     ''Your work block has time left'', ''The block you started is open'']"

definition fnv_step :: "64 word \<Rightarrow> nat \<Rightarrow> 64 word" where
  "fnv_step h b = xor h (of_nat b) * 0x100000001b3"

definition copy_seed_from :: "nat list list \<Rightarrow> 64 word" where
  "copy_seed_from parts = foldl (foldl fnv_step) 0xcbf29ce484222325 parts"

definition le_bytes :: "nat \<Rightarrow> int \<Rightarrow> nat list" where
  "le_bytes n v = map (\<lambda>i. nat (v div 256 ^ i mod 256)) [0..<n]"

definition copy_seed :: "string \<Rightarrow> nat \<Rightarrow> instant \<Rightarrow> 64 word" where
  "copy_seed b switch_count offered_at =
     copy_seed_from [of_str b, le_bytes 4 (int switch_count), le_bytes 8 (timestamp offered_at)]"

definition drift_title :: "64 word \<Rightarrow> string" where
  "drift_title seed = DRIFT_TITLES ! (unat seed mod 4)"

definition anchor_words :: "string \<Rightarrow> string" where
  "anchor_words a = to_ascii_lowercase (replace_underscores a)"

definition drift_body :: "64 word \<Rightarrow> nat \<Rightarrow> string \<Rightarrow> string" where
  "drift_body seed switch_count anchor =
     (let minutes = nat_str (DRIFT_WINDOW_SECONDS div 60); n = nat_str switch_count;
          a = anchor_words anchor; protect = nat_str DRIFT_PROTECT_MINUTES;
          i = unat seed div 4 mod 4
      in if i = 0 then
           ''Velvt observed '' @ n @ '' switches away from '' @ a @ '' in the last '' @ minutes @
           '' minutes. Protect the next '' @ protect @ '' minutes for the work you chose.''
         else if i = 1 then
           n @ '' switches away from '' @ a @ '' in the last '' @ minutes @ '' minutes. The next '' @
           protect @ '' minutes can be held for the work you chose.''
         else if i = 2 then
           ''In the last '' @ minutes @ '' minutes, Velvt counted '' @ n @ '' switches away from '' @
           a @ ''. Hold the next '' @ protect @ '' minutes for the work you chose.''
         else
           ''Velvt counted '' @ n @ '' switches away from '' @ a @ '' over the last '' @ minutes @
           '' minutes. The next '' @ protect @ '' minutes are yours to protect.'')"

definition demotion_disclosure_copy :: string where
  "demotion_disclosure_copy =
     ''Velvt is getting these nudges wrong too often, so it has gone quiet: no nudges will be sent for now, and you can resume them at any time.''"

section \<open>Explanations\<close>

definition BANNED_COPY_TOKENS :: "string list" where
  "BANNED_COPY_TOKENS = [''still'', ''dismiss'', ''failed'', ''failure'', ''ignored'',
     ''last time'', ''again'', ''learned'', ''learns'', ''learning'', ''adaptive'', ''adapts'',
     ''predicts'', ''gets smarter'', ''missed'', ''skipped'', ''declined'', ''you didn't'',
     ''you haven't'', ''you never'', ''last invitation'', ''last offer'', ''streak'',
     ''broken chain'']"

definition DRIFT_EXPLANATION_CLAIM_ID :: string where
  "DRIFT_EXPLANATION_CLAIM_ID = ''drift_switches_observed''"

record explanation_selection =
  ex_claim_id :: string
  ex_anchor_category :: string
  ex_switch_count :: nat
  ex_window_minutes :: nat

definition deterministic_explanation :: "explanation_selection \<Rightarrow> string" where
  "deterministic_explanation sel =
     ''Velvt offered this nudge because it observed '' @ nat_str (ex_switch_count sel) @
     '' switches away from '' @ anchor_words (ex_anchor_category sel) @ '' in the '' @
     nat_str (ex_window_minutes sel) @ '' minutes before the offer.''"

definition contains :: "ustr \<Rightarrow> ustr \<Rightarrow> bool" where
  "contains s pat \<longleftrightarrow> sublist pat s"

definition number_runs :: "ustr \<Rightarrow> ustr list" where
  "number_runs s = words (\<lambda>c. \<not> is_ascii_digit c) s"

definition validate_explanation :: "ustr \<Rightarrow> explanation_selection \<Rightarrow> bool" where
  "validate_explanation sentence sel =
     (let trimmed = trim sentence; body = butlast trimmed; lowered = map ascii_lower trimmed;
          n = of_str (nat_str (ex_switch_count sel)) in
      trimmed \<noteq> [] \<and> length trimmed \<le> 240
      \<and> last trimmed = 46
      \<and> 46 \<notin> set body \<and> 63 \<notin> set body \<and> 33 \<notin> set body
      \<and> list_all (\<lambda>token. \<not> contains lowered (of_str token)) BANNED_COPY_TOKENS
      \<and> list_all (\<lambda>w. w = n \<or> w = of_str (nat_str (ex_window_minutes sel))) (number_runs trimmed)
      \<and> contains lowered n
      \<and> contains lowered (of_str (anchor_words (ex_anchor_category sel))))"

definition phrase_explanation ::
  "explanation_selection \<Rightarrow> (explanation_selection \<Rightarrow> ustr option) option \<Rightarrow> ustr" where
  "phrase_explanation sel provider =
     (case (case provider of None \<Rightarrow> None | Some p \<Rightarrow> p sel) of
        Some candidate \<Rightarrow> if validate_explanation candidate sel then candidate
          else of_str (deterministic_explanation sel)
      | None \<Rightarrow> of_str (deterministic_explanation sel))"

definition explain_intervention :: "string \<Rightarrow> ustr option wb" where
  "explain_intervention b =
     andthen (persist (intervention b)) (\<lambda>shown.
       case shown of None \<Rightarrow> ret None
       | Some offer \<Rightarrow>
           if iv_outcome offer \<in> {DeliverySuppressedDnd, WithheldDemotion} then ret None
           else ret (Some (phrase_explanation
             \<lparr>ex_claim_id = DRIFT_EXPLANATION_CLAIM_ID,
              ex_anchor_category = iv_anchor_category offer,
              ex_switch_count = iv_switch_count offer,
              ex_window_minutes = max (iv_window_seconds offer div 60) 1\<rparr> None)))"

section \<open>Demotion and backoff\<close>

record demotion_evaluation =
  de_state :: demotion_kind
  de_counts :: intervention_counts
  de_demoted_at :: "instant option"

definition over_threshold :: "intervention_counts \<Rightarrow> bool" where
  "over_threshold c \<longleftrightarrow> DEMOTION_MIN_DELIVERED_SAMPLE \<le> delivered c
     \<and> sat_mul (delivered c) DEMOTION_THRESHOLD_PERCENT < sat_mul (was_focused c) 100"

definition demotion_since :: "demotion_record option \<Rightarrow> instant \<Rightarrow> instant" where
  "demotion_since st now =
     (let since = now - seconds (int WRONG_INTERVENTION_ROLLING_DAYS * 24 * 60 * 60)
      in case Option.bind st dm_manual_reset_at of None \<Rightarrow> since | Some r \<Rightarrow> max since r)"

definition evaluate_demotion :: "instant \<Rightarrow> demotion_evaluation wb" where
  "evaluate_demotion now =
     andthen (persist demotion_state) (\<lambda>st.
     andthen (persist (wrong_intervention_counts (demotion_since st now))) (\<lambda>counts.
       let previous = (case st of None \<Rightarrow> DemotionActive | Some r \<Rightarrow> dm_state r);
           state = (if over_threshold counts then DemotionDemoted else DemotionActive);
           demoted_at = (case (previous, state) of
               (DemotionDemoted, DemotionDemoted) \<Rightarrow>
                 (case Option.bind st dm_demoted_at of None \<Rightarrow> Some now | Some d \<Rightarrow> Some d)
             | (_, DemotionDemoted) \<Rightarrow> Some now
             | _ \<Rightarrow> None);
           r = \<lparr>de_state = state, de_counts = counts, de_demoted_at = demoted_at\<rparr>
       in if map_option dm_state st \<noteq> Some state \<or> Option.bind st dm_demoted_at \<noteq> demoted_at
          then andthen (persist (set_demotion_state
                 \<lparr>dm_state = state, dm_demoted_at = demoted_at,
                  dm_manual_reset_at = Option.bind st dm_manual_reset_at,
                  dm_threshold_version = DEMOTION_THRESHOLD_POLICY_VERSION,
                  dm_repromotion_version = DEMOTION_REPROMOTION_POLICY_VERSION,
                  dm_updated_at = now\<rparr>)) (\<lambda>_. ret r)
          else ret r))"

record demotion_payload =
  dp_state :: demotion_kind
  dp_wrong_count :: nat
  dp_delivered_count :: nat
  dp_threshold_percent :: nat
  dp_minimum_sample :: nat
  dp_window_days :: nat
  dp_threshold_version :: nat
  dp_repromotion_version :: nat
  dp_demoted_at :: "instant option"
  dp_disclosure :: "string option"

definition demotion_state_payload :: "instant \<Rightarrow> demotion_payload wb" where
  "demotion_state_payload now =
     andthen (evaluate_demotion now) (\<lambda>ev.
       let demoted = (de_state ev = DemotionDemoted) in
       ret \<lparr>dp_state = de_state ev, dp_wrong_count = was_focused (de_counts ev),
            dp_delivered_count = delivered (de_counts ev),
            dp_threshold_percent = DEMOTION_THRESHOLD_PERCENT,
            dp_minimum_sample = DEMOTION_MIN_DELIVERED_SAMPLE,
            dp_window_days = WRONG_INTERVENTION_ROLLING_DAYS,
            dp_threshold_version = DEMOTION_THRESHOLD_POLICY_VERSION,
            dp_repromotion_version = DEMOTION_REPROMOTION_POLICY_VERSION,
            dp_demoted_at = (if demoted then de_demoted_at ev else None),
            dp_disclosure = (if demoted then Some demotion_disclosure_copy else None)\<rparr>)"

definition reset_demotion :: "instant \<Rightarrow> demotion_payload wb" where
  "reset_demotion now =
     andthen (persist (set_demotion_state
       \<lparr>dm_state = DemotionActive, dm_demoted_at = None, dm_manual_reset_at = Some now,
        dm_threshold_version = DEMOTION_THRESHOLD_POLICY_VERSION,
        dm_repromotion_version = DEMOTION_REPROMOTION_POLICY_VERSION,
        dm_updated_at = now\<rparr>)) (\<lambda>_.
     demotion_state_payload now)"

record backoff =
  bo_suppressed :: bool
  bo_salience :: intervention_salience

fun backoff_loop :: "nat \<Rightarrow> instant option \<Rightarrow> intervention list \<Rightarrow> nat \<times> instant option" where
  "backoff_loop streak lst [] = (streak, lst)"
| "backoff_loop streak lst (i # is) =
     (if \<not> is_negative (iv_outcome i) then (streak, lst)
      else backoff_loop (sat_add streak 1)
        (if streak = 0 then (case iv_outcome_at i of None \<Rightarrow> Some (iv_offered_at i) | Some t \<Rightarrow> Some t)
         else lst) is)"

definition cooldown_seconds :: "nat \<Rightarrow> int" where
  "cooldown_seconds streak = min (BACKOFF_BASE_SECONDS * 2 ^ min (streak - 1) 16) BACKOFF_MAX_SECONDS"

definition backoff_of :: "intervention list \<Rightarrow> instant \<Rightarrow> backoff" where
  "backoff_of recent now =
     (case backoff_loop 0 None (filter (\<lambda>i. is_terminal (iv_outcome i)) recent) of
        (_, None) \<Rightarrow> \<lparr>bo_suppressed = False, bo_salience = Normal\<rparr>
      | (streak, Some since) \<Rightarrow>
          \<lparr>bo_suppressed = (now < since + seconds (cooldown_seconds streak)), bo_salience = Quiet\<rparr>)"

definition backoff_state :: "instant \<Rightarrow> backoff wb" where
  "backoff_state now =
     andthen (persist (recent_interventions BACKOFF_HISTORY_LIMIT)) (\<lambda>recent.
     ret (backoff_of recent now))"

section \<open>Snapshots\<close>

record active_card =
  ac_action_id :: string
  ac_title :: string
  ac_body :: string
  ac_anchor_category :: string
  ac_switch_count :: nat
  ac_window_seconds :: nat
  ac_offered_at :: instant
  ac_salience :: intervention_salience

record snapshot =
  sn_state_version :: nat
  sn_phase :: work_block_phase
  sn_block_id :: "string option"
  sn_intention :: "ustr option"
  sn_purpose :: "work_block_purpose option"
  sn_intensity :: "work_block_intensity option"
  sn_planned :: nat
  sn_elapsed :: nat
  sn_remaining :: nat
  sn_started_at :: "instant option"
  sn_analysis_ended_at :: "instant option"
  sn_ends_at :: "instant option"
  sn_paused_at :: "instant option"
  sn_recovered :: bool
  sn_current_category :: "string option"
  sn_anchor_category :: "string option"
  sn_status :: classification_status
  sn_confidence :: classification_confidence
  sn_status_line :: string
  sn_result :: "block_result option"
  sn_active_intervention :: "active_card option"

definition idle_snapshot :: snapshot where
  "idle_snapshot = \<lparr>sn_state_version = WORK_BLOCK_STATE_VERSION, sn_phase = Idle, sn_block_id = None,
     sn_intention = None, sn_purpose = None, sn_intensity = None, sn_planned = 0, sn_elapsed = 0,
     sn_remaining = 0, sn_started_at = None, sn_analysis_ended_at = None, sn_ends_at = None,
     sn_paused_at = None, sn_recovered = False, sn_current_category = None,
     sn_anchor_category = None, sn_status = Unclassified, sn_confidence = NoConfidence,
     sn_status_line = ''Choose one bounded block to begin.'', sn_result = None,
     sn_active_intervention = None\<rparr>"

definition card_of :: "string \<Rightarrow> intervention \<Rightarrow> active_card" where
  "card_of b i = (let seed = copy_seed b (iv_switch_count i) (iv_offered_at i) in
     \<lparr>ac_action_id = iv_action_id i, ac_title = drift_title seed,
      ac_body = drift_body seed (iv_switch_count i) (iv_anchor_category i),
      ac_anchor_category = iv_anchor_category i, ac_switch_count = iv_switch_count i,
      ac_window_seconds = iv_window_seconds i, ac_offered_at = iv_offered_at i,
      ac_salience = iv_salience i\<rparr>)"

definition active_intervention :: "string \<Rightarrow> instant \<Rightarrow> active_card option wb" where
  "active_intervention b now =
     andthen (persist (intervention b)) (\<lambda>x.
       case x of None \<Rightarrow> ret None
       | Some i \<Rightarrow>
           if is_terminal (iv_outcome i) then ret None
           else andthen (evaluate_demotion now) (\<lambda>ev.
             if de_state ev = DemotionDemoted then ret None else ret (Some (card_of b i))))"

definition anchor_of_record :: "work_block_record \<Rightarrow> string option wb" where
  "anchor_of_record r =
     (if live (wb_phase r)
      then andthen (persist (observations (wb_block_id r))) (\<lambda>os. ret (dominant_category os))
      else ret None)"

definition snapshot_with_result ::
  "wb_env \<Rightarrow> work_block_record \<Rightarrow> instant \<Rightarrow> block_result option \<Rightarrow> snapshot wb" where
  "snapshot_with_result E r now res =
     (let elapsed = elapsed_seconds r now in
      andthen (persist (latest_observation (wb_block_id r))) (\<lambda>lst.
      andthen (anchor_of_record r) (\<lambda>anchor.
      andthen (active_intervention (wb_block_id r) now) (\<lambda>card.
        case current_evidence lst of (category, status, confidence) \<Rightarrow>
        ret \<lparr>sn_state_version = WORK_BLOCK_STATE_VERSION, sn_phase = wb_phase r,
             sn_block_id = env_parse_uuid E (wb_block_id r), sn_intention = wb_intention r,
             sn_purpose = wb_purpose r, sn_intensity = Some (wb_intensity r),
             sn_planned = wb_planned r, sn_elapsed = elapsed, sn_remaining = wb_planned r - elapsed,
             sn_started_at = Some (wb_started_at r), sn_analysis_ended_at = wb_ended_at r,
             sn_ends_at = (if wb_phase r = Active then Some (planned_deadline r) else None),
             sn_paused_at = wb_paused_at r, sn_recovered = wb_recovered r,
             sn_current_category = category, sn_anchor_category = anchor, sn_status = status,
             sn_confidence = confidence,
             sn_status_line = status_line (wb_phase r) (wb_intensity r) category status,
             sn_result = res, sn_active_intervention = card\<rparr>))))"

definition snapshot_for :: "wb_env \<Rightarrow> work_block_record \<Rightarrow> instant \<Rightarrow> snapshot wb" where
  "snapshot_for E r now =
     andthen (persist (result (wb_block_id r))) (\<lambda>res. snapshot_with_result E r now res)"

section \<open>Ending a block\<close>

definition close_open_observation_at_reported_end :: "string \<Rightarrow> instant \<Rightarrow> unit wb" where
  "close_open_observation_at_reported_end b boundary =
     andthen (persist (latest_observation b)) (\<lambda>lst.
       case lst of None \<Rightarrow> ret ()
       | Some row \<Rightarrow>
           if ob_ended_at row \<noteq> None then ret ()
           else andthen (persist (reported_dwells (ob_occurred_at row) boundary)) (\<lambda>reported.
             persist (close_open_observation b (reported_end row reported boundary))))"

definition finish ::
  "wb_env \<Rightarrow> work_block_record \<Rightarrow> work_block_phase \<Rightarrow> instant \<Rightarrow> snapshot wb" where
  "finish E r phase ended =
     andthen (persist (result (wb_block_id r))) (\<lambda>old.
       case old of
         Some res \<Rightarrow>
           andthen (publish_deadline None) (\<lambda>_.
           andthen (persist (get (wb_block_id r))) (\<lambda>cur.
           snapshot_with_result E cur ended (Some res)))
       | None \<Rightarrow>
           andthen (close_open_observation_at_reported_end (wb_block_id r) ended) (\<lambda>_.
           andthen (persist (resolve_intervention (wb_block_id r) NoResponse ended)) (\<lambda>_.
           andthen (persist (observations (wb_block_id r))) (\<lambda>obs.
           andthen (persist (reported_dwells (wb_started_at r) ended)) (\<lambda>reported.
           andthen (persist (intervention (wb_block_id r))) (\<lambda>offer.
             let elapsed = elapsed_seconds r ended;
                 covered = reported_coverage_seconds reported obs (wb_started_at r) ended;
                 held_count = (case offer of None \<Rightarrow> 0
                   | Some i \<Rightarrow> if iv_outcome i = DeliverySuppressedDnd then 1 else 0);
                 completed_under_dnd = (phase = Completed \<and> env_focus E ended);
                 res = with_dnd_evidence (aggregate_result r phase elapsed obs covered)
                         completed_under_dnd held_count
             in andthen (persist (finalize (wb_block_id r) phase ended res)) (\<lambda>final.
                andthen (publish_deadline None) (\<lambda>_.
                andthen (persist (get (wb_block_id r))) (\<lambda>cur.
                snapshot_with_result E cur ended (Some final))))))))))"

definition require :: "string \<Rightarrow> work_block_phase \<Rightarrow> work_block_record wb" where
  "require b phase =
     andthen (persist (get b)) (\<lambda>r. if wb_phase r \<noteq> phase then err InvalidTransition else ret r)"

definition over_time :: "work_block_record \<Rightarrow> instant \<Rightarrow> bool" where
  "over_time r now \<longleftrightarrow> wb_planned r \<le> elapsed_seconds r now"

section \<open>Starting, pausing, resuming, ending\<close>

definition new_block ::
  "wb_env \<Rightarrow> ustr option \<Rightarrow> work_block_purpose option \<Rightarrow> work_block_intensity \<Rightarrow> nat
   \<Rightarrow> string option \<Rightarrow> work_block_origin \<Rightarrow> instant \<Rightarrow> work_block_record" where
  "new_block E intention purpose intensity planned recovery_of origin now =
     \<lparr>wb_block_id = env_block_id E, wb_phase = Active, wb_intention = intention,
      wb_purpose = purpose, wb_intensity = intensity, wb_planned = planned, wb_started_at = now,
      wb_paused_at = None, wb_total_paused = 0, wb_ended_at = None, wb_recovered = False,
      wb_recovery_of = recovery_of, wb_origin = origin,
      wb_intention_expires_at = now + seconds (INTENTION_RETENTION_HOURS * 60 * 60),
      wb_updated_at = now\<rparr>"

definition no_live_block :: "unit wb" where
  "no_live_block = andthen (persist latest) (\<lambda>cur.
     case cur of None \<Rightarrow> ret ()
     | Some c \<Rightarrow> if live (wb_phase c) then err InvalidTransition else ret ())"

definition open_block :: "wb_env \<Rightarrow> work_block_record \<Rightarrow> instant \<Rightarrow> snapshot wb" where
  "open_block E r now =
     andthen (persist (create r)) (\<lambda>_.
     andthen (publish_deadline (Some (planned_deadline r))) (\<lambda>_.
     snapshot_for E r now))"

definition start_with_origin ::
  "wb_env \<Rightarrow> start_request \<Rightarrow> work_block_origin \<Rightarrow> instant \<Rightarrow> snapshot wb" where
  "start_with_origin E rq origin now =
     andthen no_live_block (\<lambda>_.
       case normalize_intention (rq_intention rq) of None \<Rightarrow> err InvalidRequest
       | Some intention \<Rightarrow>
           if \<not> (MIN_DURATION_SECONDS \<le> rq_planned rq \<and> rq_planned rq \<le> MAX_DURATION_SECONDS)
           then err InvalidRequest
           else open_block E (new_block E intention (rq_purpose rq) (rq_intensity rq)
                  (rq_planned rq) None origin now) now)"

definition start :: "wb_env \<Rightarrow> start_request \<Rightarrow> instant \<Rightarrow> snapshot wb" where
  "start E rq now = start_with_origin E rq Manual now"

definition pause :: "wb_env \<Rightarrow> string \<Rightarrow> instant \<Rightarrow> snapshot wb" where
  "pause E b now =
     andthen (require b Active) (\<lambda>r.
       if over_time r now then finish E r Completed (planned_deadline r)
       else let eff = min (effective_now r now) (planned_deadline r) in
         andthen (close_open_observation_at_reported_end (wb_block_id r) eff) (\<lambda>_.
         andthen (persist (set_paused (wb_block_id r) eff)) (\<lambda>_.
         andthen (publish_deadline None) (\<lambda>_.
         andthen (persist (get (wb_block_id r))) (\<lambda>cur.
         snapshot_for E cur eff)))))"

definition resume :: "wb_env \<Rightarrow> string \<Rightarrow> instant \<Rightarrow> snapshot wb" where
  "resume E b now =
     andthen (require b Paused) (\<lambda>r.
       let eff = effective_now r now in
       case wb_paused_at r of None \<Rightarrow> err InvalidTransition
       | Some p \<Rightarrow>
           let total_paused = sat_add (wb_total_paused r) (positive_seconds (eff - p)) in
           andthen (persist (set_active (wb_block_id r) eff total_paused)) (\<lambda>_.
           andthen (persist (get (wb_block_id r))) (\<lambda>cur.
           andthen (publish_deadline (Some (planned_deadline cur))) (\<lambda>_.
           snapshot_for E cur eff))))"

definition end_block :: "wb_env \<Rightarrow> string \<Rightarrow> instant \<Rightarrow> snapshot wb" where
  "end_block E b now =
     andthen (persist (get b)) (\<lambda>r.
       if \<not> live (wb_phase r) then
         andthen (persist (result (wb_block_id r))) (\<lambda>res.
           case res of None \<Rightarrow> err InvalidTransition
           | Some x \<Rightarrow> snapshot_with_result E r now (Some x))
       else if wb_phase r = Active \<and> over_time r now
       then finish E r Completed (planned_deadline r)
       else finish E r Abandoned
         (case wb_phase r of
            Paused \<Rightarrow> (case wb_paused_at r of None \<Rightarrow> effective_now r now | Some p \<Rightarrow> p)
          | _ \<Rightarrow> effective_now r now))"

definition request_state :: "wb_env \<Rightarrow> instant \<Rightarrow> snapshot wb" where
  "request_state E now =
     andthen (persist (expire_intentions now)) (\<lambda>_.
     andthen (persist latest) (\<lambda>cur.
       case cur of None \<Rightarrow> ret idle_snapshot
       | Some r \<Rightarrow>
           if wb_phase r = Active \<and> over_time r now
           then finish E r Completed (planned_deadline r)
           else snapshot_for E r now))"

definition lifecycle :: "wb_env \<Rightarrow> lifecycle_event \<Rightarrow> instant \<Rightarrow> snapshot wb" where
  "lifecycle E ev now =
     (case ev of
        Sleep \<Rightarrow>
          andthen (persist latest) (\<lambda>cur.
            case cur of None \<Rightarrow> request_state E now
            | Some r \<Rightarrow>
                if wb_phase r = Active then
                  (case env_parse_uuid E (wb_block_id r) of None \<Rightarrow> err InvalidRequest
                   | Some b \<Rightarrow> pause E b now)
                else request_state E now)
      | ClockChanged \<Rightarrow>
          andthen (persist latest) (\<lambda>cur.
            case cur of None \<Rightarrow> request_state E now
            | Some r \<Rightarrow>
                if wb_phase r = Active \<and> over_time r now
                then finish E r Expired (planned_deadline r)
                else request_state E now)
      | _ \<Rightarrow> request_state E now)"

definition recover_after_restart :: "wb_env \<Rightarrow> instant \<Rightarrow> snapshot wb" where
  "recover_after_restart E now =
     andthen (persist (expire_intentions now)) (\<lambda>_.
     andthen (persist latest) (\<lambda>cur.
       case cur of None \<Rightarrow> ret idle_snapshot
       | Some r \<Rightarrow>
           (case wb_phase r of
              Active \<Rightarrow>
                if over_time r now then finish E r Expired (planned_deadline r)
                else
                  andthen (close_open_observation_at_reported_end (wb_block_id r) now) (\<lambda>_.
                  andthen (persist (mark_recovered (wb_block_id r) now)) (\<lambda>_.
                  andthen (persist (get (wb_block_id r))) (\<lambda>rec.
                  andthen (publish_deadline (Some (planned_deadline rec))) (\<lambda>_.
                  snapshot_for E rec now))))
            | Paused \<Rightarrow>
                andthen (persist (mark_recovered (wb_block_id r) now)) (\<lambda>_.
                andthen (publish_deadline None) (\<lambda>_.
                andthen (persist (get (wb_block_id r))) (\<lambda>rec.
                snapshot_for E rec now)))
            | _ \<Rightarrow> snapshot_for E r now)))"

section \<open>The drift gate\<close>

record drift_intervention =
  di_block_id :: string
  di_action_id :: string
  di_title :: string
  di_body :: string
  di_salience :: intervention_salience

definition decision_for ::
  "wb_env \<Rightarrow> work_block_record \<Rightarrow> instant \<Rightarrow> gate_verdict \<Rightarrow> string option \<Rightarrow> nat \<Rightarrow> decision" where
  "decision_for E r now verdict anchor switch_count =
     (let elapsed = elapsed_seconds r now in
      \<lparr>dc_decision_id = env_decision_id E, dc_occurred_at = now, dc_block_id = Some (wb_block_id r),
       dc_policy_version = DRIFT_POLICY_VERSION, dc_anchor_category = anchor,
       dc_switch_count = switch_count, dc_elapsed = elapsed,
       dc_remaining = wb_planned r - elapsed, dc_verdict = verdict,
       dc_propensity = DRIFT_DETERMINISTIC_PROPENSITY, dc_anchor_seen = None,
       dc_outcome_at = None\<rparr>)"

definition log_decision ::
  "wb_env \<Rightarrow> work_block_record \<Rightarrow> instant \<Rightarrow> gate_verdict \<Rightarrow> string option \<Rightarrow> nat \<Rightarrow> unit wb" where
  "log_decision E r now verdict anchor switch_count =
     (\<lambda>s. (Inr (), snd (record_decision (decision_for E r now verdict anchor switch_count) s)))"

definition abstain ::
  "wb_env \<Rightarrow> work_block_record \<Rightarrow> instant \<Rightarrow> gate_verdict \<Rightarrow> string option \<Rightarrow> nat
   \<Rightarrow> drift_intervention option wb" where
  "abstain E r now verdict anchor n = andthen (log_decision E r now verdict anchor n) (\<lambda>_. ret None)"

definition offer_row ::
  "string \<Rightarrow> nat \<Rightarrow> instant \<Rightarrow> intervention_outcome \<Rightarrow> instant option \<Rightarrow> intervention_salience
   \<Rightarrow> intervention" where
  "offer_row anchor n now outcome outcome_at salience =
     \<lparr>iv_offered_at = now, iv_action_id = DRIFT_ACTION_ID, iv_anchor_category = anchor,
      iv_switch_count = n, iv_window_seconds = DRIFT_WINDOW_SECONDS, iv_outcome = outcome,
      iv_outcome_at = outcome_at, iv_salience = salience, iv_card_seen_at = None\<rparr>"

definition window_start :: "instant \<Rightarrow> instant" where
  "window_start now = now - seconds (int DRIFT_WINDOW_SECONDS)"

text \<open>The branches behind the evidence gates: demoted, held by Focus, or offered.\<close>

definition deliver ::
  "wb_env \<Rightarrow> work_block_record \<Rightarrow> instant \<Rightarrow> string \<Rightarrow> nat \<Rightarrow> intervention_salience
   \<Rightarrow> drift_intervention option wb" where
  "deliver E r now anchor n salience =
     andthen (evaluate_demotion now) (\<lambda>ev.
       if de_state ev = DemotionDemoted then
         andthen (log_decision E r now VerdictWithheldDemotion (Some anchor) n) (\<lambda>_.
         andthen (persist (record_intervention (wb_block_id r)
                    (offer_row anchor n now WithheldDemotion (Some now) Normal))) (\<lambda>_.
         ret None))
       else if env_focus E now then
         andthen (log_decision E r now VerdictSuppressedDnd (Some anchor) n) (\<lambda>_.
         andthen (persist (record_intervention (wb_block_id r)
                    (offer_row anchor n now DeliverySuppressedDnd (Some now) Normal))) (\<lambda>_.
         ret None))
       else
         andthen (log_decision E r now VerdictOffered (Some anchor) n) (\<lambda>_.
         andthen (persist (record_intervention (wb_block_id r)
                    (offer_row anchor n now Offered None salience))) (\<lambda>_.
         let seed = copy_seed (wb_block_id r) n now in
         ret (Some \<lparr>di_block_id = (case env_parse_uuid E (wb_block_id r) of
                       None \<Rightarrow> ''00000000-0000-0000-0000-000000000000'' | Some b \<Rightarrow> b),
                    di_action_id = DRIFT_ACTION_ID, di_title = drift_title seed,
                    di_body = drift_body seed n anchor, di_salience = salience\<rparr>))))"

definition evaluate_drift ::
  "wb_env \<Rightarrow> work_block_record \<Rightarrow> instant \<Rightarrow> drift_intervention option wb" where
  "evaluate_drift E r now =
     (let elapsed = elapsed_seconds r now in
      if elapsed < DRIFT_MIN_ELAPSED_SECONDS then abstain E r now AbstainedWarmup None 0
      else if wb_planned r - elapsed < DRIFT_MIN_REMAINING_SECONDS
      then abstain E r now AbstainedRemaining None 0
      else
        andthen (persist (intervention (wb_block_id r))) (\<lambda>offer.
        if offer \<noteq> None then abstain E r now AbstainedBlockCap None 0
        else
          andthen (backoff_state now) (\<lambda>bo.
          if bo_suppressed bo then abstain E r now AbstainedBackoff None 0
          else
            andthen (persist (observations (wb_block_id r))) (\<lambda>obs.
            case dominant_category obs of None \<Rightarrow> abstain E r now AbstainedNoAnchor None 0
            | Some anchor \<Rightarrow>
                (case count_departures anchor obs (window_start now) of
                   (previous_was_anchor, switch_count) \<Rightarrow>
                     if switch_count < DRIFT_MIN_SWITCHES
                     then abstain E r now AbstainedMinSwitches (Some anchor) switch_count
                     else if previous_was_anchor = Some True
                     then abstain E r now AbstainedAtAnchor (Some anchor) switch_count
                     else deliver E r now anchor switch_count (bo_salience bo))))))"

section \<open>Observations and responses\<close>

definition same_evidence ::
  "observation \<Rightarrow> string \<Rightarrow> classification_status \<Rightarrow> classification_confidence \<Rightarrow> bool" where
  "same_evidence ob category status confidence \<longleftrightarrow>
     ob_category ob = category \<and> ob_status ob = status \<and> ob_confidence ob = confidence"

definition record_return_if_pending ::
  "work_block_record \<Rightarrow> observation \<Rightarrow> instant \<Rightarrow> unit wb" where
  "record_return_if_pending r ob tm =
     (if \<not> is_confident_evidence ob then ret ()
      else andthen (persist (intervention (wb_block_id r))) (\<lambda>x.
        case x of None \<Rightarrow> ret ()
        | Some pending \<Rightarrow>
            if iv_outcome pending \<noteq> Offered
               \<or> \<not> eq_ignore_ascii_case (iv_anchor_category pending) (ob_category ob)
            then ret ()
            else andthen (persist (resolve_intervention (wb_block_id r) Returned tm)) (\<lambda>_. ret ())))"

record observation_outcome =
  oo_snapshot :: snapshot
  oo_intervention :: "drift_intervention option"

definition observe_active ::
  "wb_env \<Rightarrow> work_block_record \<Rightarrow> string \<Rightarrow> classification_status \<Rightarrow> classification_confidence
   \<Rightarrow> instant \<Rightarrow> observation_outcome option wb" where
  "observe_active E r category status confidence occurred_at =
     (let tm = min (effective_now r occurred_at) (planned_deadline r) in
      andthen (persist (latest_observation (wb_block_id r))) (\<lambda>lst.
        let same = (\<lambda>ob. same_evidence ob category status confidence);
            ob = \<lparr>ob_occurred_at = tm, ob_ended_at = None, ob_category = category,
                   ob_status = status, ob_confidence = confidence\<rparr>
        in if (case lst of None \<Rightarrow> False | Some l \<Rightarrow> ob_ended_at l = None \<and> same l) then ret None
        else
          let continues = (case lst of None \<Rightarrow> False
             | Some l \<Rightarrow> ob_ended_at l \<noteq> None \<and> same l
                 \<and> timestamp occurred_at \<le> timestamp (ob_occurred_at l))
          in andthen (persist (close_open_observation (wb_block_id r) tm)) (\<lambda>_.
             andthen (persist (append_observation (wb_block_id r) ob)) (\<lambda>_.
             if continues then
               andthen (snapshot_for E r tm) (\<lambda>sn.
               ret (Some \<lparr>oo_snapshot = sn, oo_intervention = None\<rparr>))
             else
               andthen (record_return_if_pending r ob tm) (\<lambda>_.
               andthen (evaluate_drift E r tm) (\<lambda>iv.
               andthen (snapshot_for E r tm) (\<lambda>sn.
               ret (Some \<lparr>oo_snapshot = sn, oo_intervention = iv\<rparr>))))))))"

definition observe_safe_category ::
  "wb_env \<Rightarrow> string \<Rightarrow> classification_status \<Rightarrow> classification_confidence \<Rightarrow> instant
   \<Rightarrow> observation_outcome option wb" where
  "observe_safe_category E category status confidence occurred_at =
     andthen (persist latest) (\<lambda>cur.
       case cur of None \<Rightarrow> ret None
       | Some r \<Rightarrow>
           if wb_phase r \<noteq> Active then ret None
           else if over_time r occurred_at then
             andthen (finish E r Completed (planned_deadline r)) (\<lambda>sn.
             ret (Some \<lparr>oo_snapshot = sn, oo_intervention = None\<rparr>))
           else observe_active E r category status confidence occurred_at)"

definition record_intervention_card_seen :: "wb_env \<Rightarrow> string \<Rightarrow> instant \<Rightarrow> snapshot wb" where
  "record_intervention_card_seen E b now =
     andthen (persist (get b)) (\<lambda>r.
     andthen (persist (intervention (wb_block_id r))) (\<lambda>x.
       if x \<noteq> None then
         andthen (persist (mark_intervention_card_seen (wb_block_id r) now)) (\<lambda>_.
         snapshot_for E r now)
       else snapshot_for E r now))"

definition report_intervention_outcome ::
  "wb_env \<Rightarrow> string \<Rightarrow> intervention_response \<Rightarrow> instant \<Rightarrow> snapshot wb" where
  "report_intervention_outcome E b response now =
     andthen (persist (get b)) (\<lambda>r.
     andthen (persist (intervention (wb_block_id r))) (\<lambda>x.
       case x of None \<Rightarrow> err InvalidRequest
       | Some existing \<Rightarrow>
           if is_terminal (iv_outcome existing) then snapshot_for E r now
           else andthen (persist (resolve_intervention (wb_block_id r) (outcome_for response) now))
             (\<lambda>_. snapshot_for E r now)))"

definition accept_recovery :: "wb_env \<Rightarrow> string \<Rightarrow> string \<Rightarrow> instant \<Rightarrow> snapshot wb" where
  "accept_recovery E b action now =
     (if action \<notin> {DRIFT_ACTION_ID, SOFT_RESTART_ACTION_ID} then err InvalidRequest
      else andthen (persist (get b)) (\<lambda>src.
        andthen (persist (result (wb_block_id src))) (\<lambda>res.
          case res of None \<Rightarrow> err InvalidTransition
          | Some x \<Rightarrow>
              if wb_phase src \<notin> {Completed, Abandoned, Expired} then err InvalidTransition
              else if na_action_id (rs_next_action x) \<noteq> action then err InvalidRequest
              else andthen no_live_block (\<lambda>_.
                open_block E (new_block E (wb_intention src) (wb_purpose src) (wb_intensity src)
                  RECOVERY_DURATION_SECONDS (Some (wb_block_id src)) Manual now) now))))"

definition has_active_block :: "bool wb" where
  "has_active_block = andthen (persist latest) (\<lambda>cur.
     ret (case cur of None \<Rightarrow> False | Some r \<Rightarrow> wb_phase r = Active))"

definition clear_data :: "snapshot wb" where
  "clear_data = andthen (persist clear_all) (\<lambda>_.
     andthen (publish_deadline None) (\<lambda>_. ret idle_snapshot))"

section \<open>Resolving logged decisions on their horizon\<close>

definition DECISION_OUTCOME_HORIZON_SECONDS :: int where
  "DECISION_OUTCOME_HORIZON_SECONDS = 600"

fun resolve_each :: "decision list \<Rightarrow> nat \<Rightarrow> nat repo" where
  "resolve_each [] n = ret n"
| "resolve_each (d # ds) n =
     (case (dc_block_id d, dc_anchor_category d) of
        (Some b, Some anchor) \<Rightarrow>
          let closed = dc_occurred_at d + seconds DECISION_OUTCOME_HORIZON_SECONDS in
          andthen (observed_category_between b anchor (dc_occurred_at d) closed) (\<lambda>seen.
          andthen (resolve_decision (dc_decision_id d) seen closed) (\<lambda>hit.
          resolve_each ds (if hit then n + 1 else n)))
      | _ \<Rightarrow> resolve_each ds n)"

definition resolve_outcomes :: "nat \<Rightarrow> instant \<Rightarrow> nat repo" where
  "resolve_outcomes batch_size now =
     andthen (unresolved_decisions (now - seconds DECISION_OUTCOME_HORIZON_SECONDS) batch_size)
       (\<lambda>ds. resolve_each ds 0)"

section \<open>Commands\<close>

text \<open>
  Every way the rest of the service changes the store: the manager's methods, the raw
  event buffer receiving a reported dwell, and the retention pass that resolves decisions.
\<close>

datatype command =
    CRecover instant
  | CStart start_request work_block_origin instant
  | CPause string instant
  | CResume string instant
  | CEnd string instant
  | CState instant
  | CLifecycle lifecycle_event instant
  | CObserve string classification_status classification_confidence instant
  | CSeen string instant
  | CReport string intervention_response instant
  | CAccept string string instant
  | CDemotion instant
  | CResetDemotion instant
  | CClear
  | CRawEvent raw_row
  | CResolve nat instant

definition exec :: "wb_env \<times> command \<Rightarrow> wb_state \<Rightarrow> wb_state" where
  "exec x s = (case x of (E, c) \<Rightarrow> (case c of
     CRecover t \<Rightarrow> snd (recover_after_restart E t s)
   | CStart rq org t \<Rightarrow> snd (start_with_origin E rq org t s)
   | CPause b t \<Rightarrow> snd (pause E b t s)
   | CResume b t \<Rightarrow> snd (resume E b t s)
   | CEnd b t \<Rightarrow> snd (end_block E b t s)
   | CState t \<Rightarrow> snd (request_state E t s)
   | CLifecycle e t \<Rightarrow> snd (lifecycle E e t s)
   | CObserve cat st cf t \<Rightarrow> snd (observe_safe_category E cat st cf t s)
   | CSeen b t \<Rightarrow> snd (record_intervention_card_seen E b t s)
   | CReport b rp t \<Rightarrow> snd (report_intervention_outcome E b rp t s)
   | CAccept b a t \<Rightarrow> snd (accept_recovery E b a t s)
   | CDemotion t \<Rightarrow> snd (demotion_state_payload t s)
   | CResetDemotion t \<Rightarrow> snd (reset_demotion t s)
   | CClear \<Rightarrow> snd (clear_data s)
   | CRawEvent row \<Rightarrow> s\<lparr>t_raw_event := t_raw_event s @ [row]\<rparr>
   | CResolve n t \<Rightarrow> snd (resolve_outcomes n t s)))"

definition empty_store :: wb_state where
  "empty_store = \<lparr>t_work_block = [], t_observation = [], t_result = [], t_intervention = [],
     t_correction = [], t_demotion = None, t_decision = [], t_raw_event = [], deadline = None\<rparr>"

end
