(* ===== verification/Block_Safety.thy ===== *)
theory Block_Safety
  imports Block_Manager
begin

text \<open>
  What the manager may do to the store. \<open>store_evolution\<close> is the interface between the
  manager and its repository: an evolution of the store that every writing statement
  respects. Inside it, every command of the manager is shown to respect the evolution
  too. It is interpreted for the structural invariant of the tables, and for the orders
  in which offers, results, block rows and logged decisions may move.
\<close>

section \<open>The interface\<close>

lemma obeys_persist: "obeys R m \<Longrightarrow> obeys R (persist m)"
  by (auto simp: obeys_def persist_def split: prod.splits sum.splits) (metis sndI)+

lemma persist_gets [op_simps]: "persist (gets f) = gets f"
  by (rule ext) (simp add: persist_def gets_def)

locale store_evolution = evolution R
  for R :: "wb_state \<Rightarrow> wb_state \<Rightarrow> bool" +
  assumes guarded_create: "obeys R (Prelude.andthen no_live_block
      (\<lambda>_. persist (create (new_block E it pu sty pl rec org now))))"
    and set_paused: "obeys R (set_paused b t)"
    and set_active: "obeys R (set_active b t d)"
    and mark_recovered: "obeys R (mark_recovered b t)"
    and expire_intentions: "obeys R (expire_intentions t)"
    and close_open_observation: "obeys R (close_open_observation b t)"
    and append_observation: "obeys R (append_observation b ob)"
    and finalize: "phase \<in> {Completed, Abandoned, Expired} \<Longrightarrow> obeys R (finalize b phase t res)"
    and record_intervention: "obeys R (record_intervention b (offer_row a sw t oc ot sal))"
    and mark_intervention_card_seen: "obeys R (mark_intervention_card_seen b t)"
    and resolve_intervention: "is_terminal oc \<Longrightarrow> obeys R (resolve_intervention b oc t)"
    and set_demotion_state: "obeys R (set_demotion_state dr)"
    and record_decision: "obeys R (record_decision dc)"
    and resolve_decision: "obeys R (resolve_decision dd seen t)"
    and deadline: "R s (s\<lparr>deadline := dl\<rparr>)"
    and raw_event: "R s (s\<lparr>t_raw_event := t_raw_event s @ [row]\<rparr>)"
begin

lemma prod_op: "(\<And>x y. p = (x, y) \<Longrightarrow> obeys R (f x y)) \<Longrightarrow> obeys R (case p of (x, y) \<Rightarrow> f x y)"
  by (cases p) simp

lemma reads:
  "obeys R latest" "obeys R (observations b)" "obeys R (latest_observation b)"
  "obeys R (reported_dwells t u)" "obeys R (result b)" "obeys R (intervention b)"
  "obeys R (recent_interventions n)" "obeys R (wrong_intervention_counts t)"
  "obeys R demotion_state" "obeys R (unresolved_decisions t n)"
  "obeys R (observed_category_between b c t u)"
  by (simp_all add: read_defs gets)

lemma get_op: "obeys R (get b)"
  by (auto simp: obeys_def get_def refl split: option.splits)

lemma publish_deadline: "obeys R (publish_deadline dl)"
  by (simp add: publish_deadline_def modify deadline)

lemmas steps = rules prod_op obeys_persist reads get_op publish_deadline set_paused set_active
  mark_recovered expire_intentions close_open_observation append_observation finalize
  record_intervention mark_intervention_card_seen resolve_intervention set_demotion_state
  record_decision resolve_decision

lemma evaluate_demotion: "obeys R (evaluate_demotion now)"
  unfolding evaluate_demotion_def Let_def by (intro steps)

lemma snapshot_with_result: "obeys R (snapshot_with_result E r now res)"
  unfolding snapshot_with_result_def Let_def anchor_of_record_def active_intervention_def
  by (intro steps evaluate_demotion)

lemma snapshot_for: "obeys R (snapshot_for E r now)"
  unfolding snapshot_for_def by (intro steps snapshot_with_result)

lemma close_at_reported_end: "obeys R (close_open_observation_at_reported_end b t)"
  unfolding close_open_observation_at_reported_end_def by (intro steps)

lemma finish:
  assumes "phase \<in> {Completed, Abandoned, Expired}"
  shows "obeys R (finish E r phase t)"
  unfolding finish_def Let_def
  by (intro steps snapshot_with_result close_at_reported_end assms) (simp add: is_terminal_def)

lemma require: "obeys R (require b phase)"
  unfolding require_def by (intro steps)

lemma guarded_open:
  "obeys R (Prelude.andthen no_live_block (\<lambda>_. open_block E (new_block E i p n d rec org now) now))"
  unfolding open_block_def andthen_assoc [symmetric]
  by (intro andthen guarded_create publish_deadline snapshot_for)

lemma start_with_origin: "obeys R (start_with_origin E rq org now)"
proof -
  have "obeys R no_live_block"
    unfolding no_live_block_def by (intro steps)
  then show ?thesis
    unfolding start_with_origin_def
    by (cases "normalize_intention (rq_intention rq)") (auto intro!: andthen err guarded_open)
qed

lemma pause: "obeys R (pause E b now)"
  unfolding pause_def Let_def
  by (intro steps require finish close_at_reported_end snapshot_for) simp

lemma resume: "obeys R (resume E b now)"
  unfolding resume_def Let_def by (intro steps require snapshot_for)

lemma end_block: "obeys R (end_block E b now)"
  unfolding end_block_def by (intro steps finish snapshot_with_result) simp_all

lemma request_state: "obeys R (request_state E now)"
  unfolding request_state_def by (intro steps finish snapshot_for) simp

lemma lifecycle: "obeys R (lifecycle E ev now)"
  by (cases ev) (auto simp: lifecycle_def intro!: steps finish pause request_state)

lemma recover_after_restart: "obeys R (recover_after_restart E now)"
proof -
  have "obeys R (case wb_phase r of
              Active \<Rightarrow>
                if over_time r now then Block_Manager.finish E r Expired (planned_deadline r)
                else
                  Prelude.andthen (close_open_observation_at_reported_end (wb_block_id r) now) (\<lambda>_.
                  Prelude.andthen (persist (Block_Store.mark_recovered (wb_block_id r) now)) (\<lambda>_.
                  Prelude.andthen (persist (get (wb_block_id r))) (\<lambda>rec.
                  Prelude.andthen (Block_Manager.publish_deadline (Some (planned_deadline rec))) (\<lambda>_.
                  Block_Manager.snapshot_for E rec now))))
            | Paused \<Rightarrow>
                Prelude.andthen (persist (Block_Store.mark_recovered (wb_block_id r) now)) (\<lambda>_.
                Prelude.andthen (Block_Manager.publish_deadline None) (\<lambda>_.
                Prelude.andthen (persist (get (wb_block_id r))) (\<lambda>rec.
                Block_Manager.snapshot_for E rec now)))
            | _ \<Rightarrow> Block_Manager.snapshot_for E r now)" for r
    by (cases "wb_phase r") (auto intro!: steps finish close_at_reported_end snapshot_for)
  then show ?thesis
    unfolding recover_after_restart_def by (intro steps)
qed

lemma log_decision: "obeys R (log_decision E r now v a n)"
  by (simp add: obeys_def log_decision_def obeysD [OF record_decision])

lemma evaluate_drift: "obeys R (evaluate_drift E r now)"
  unfolding evaluate_drift_def Let_def abstain_def deliver_def backoff_state_def
  by (intro steps log_decision evaluate_demotion)

lemma observe_safe_category: "obeys R (observe_safe_category E cat st cf t)"
  unfolding observe_safe_category_def observe_active_def Let_def record_return_if_pending_def
  by (intro steps evaluate_drift snapshot_for finish) (simp_all add: is_terminal_def)

lemma record_intervention_card_seen: "obeys R (record_intervention_card_seen E b t)"
  unfolding record_intervention_card_seen_def by (intro steps snapshot_for)

lemma report_intervention_outcome: "obeys R (report_intervention_outcome E b rp t)"
  unfolding report_intervention_outcome_def by (intro steps snapshot_for) simp

lemma accept_recovery: "obeys R (accept_recovery E b act t)"
  unfolding accept_recovery_def by (intro steps guarded_open)

lemma demotion_state_payload: "obeys R (demotion_state_payload t)"
  unfolding demotion_state_payload_def Let_def by (intro steps evaluate_demotion)

lemma reset_demotion: "obeys R (reset_demotion t)"
  unfolding reset_demotion_def by (intro steps demotion_state_payload)

lemma resolve_each: "obeys R (resolve_each ds n)"
  by (induction ds arbitrary: n)
    (auto simp: Let_def split: option.splits intro!: steps)

lemma resolve_outcomes: "obeys R (resolve_outcomes n t)"
  unfolding resolve_outcomes_def by (intro steps resolve_each)

lemmas commands = recover_after_restart start_with_origin pause resume end_block request_state
  lifecycle observe_safe_category record_intervention_card_seen report_intervention_outcome
  accept_recovery demotion_state_payload reset_demotion resolve_outcomes

lemma exec: "snd c \<noteq> CClear \<Longrightarrow> R s (exec c s)"
  by (cases c; cases "snd c") (auto simp: exec_def raw_event intro: commands [THEN obeysD])

lemma history: "CClear \<notin> snd ` set cs \<Longrightarrow> R s (fold Block_Manager.exec cs s)"
  by (rule run) (rule exec, force)

end

section \<open>What each statement writes\<close>

definition last_live :: "wb_state \<Rightarrow> bool" where
  "last_live s \<longleftrightarrow> t_work_block s \<noteq> [] \<and> live (wb_phase (last (t_work_block s)))"

lemma snd_persist [simp]: "snd (persist m s) = snd (m s)"
  by (auto simp: persist_def split: prod.splits sum.splits)

lemma snd_guarded:
  "snd (andthen no_live_block f s) = (if last_live s then s else snd (f () s))"
  by (simp add: no_live_block_def latest_def op_simps andthen_assoc last_live_def)

lemmas write_defs = create_def update_work_block_def set_paused_def set_active_def
  mark_recovered_def expire_intentions_def close_open_observation_def append_observation_def
  finalize_def record_intervention_def map_intervention_def mark_intervention_card_seen_def
  resolve_intervention_def set_demotion_state_def record_decision_def resolve_decision_def
  map_block_def modify_def

text \<open>The tables a statement leaves alone.\<close>

lemma unchanged_interventions:
  "t_intervention (snd (create r s)) = t_intervention s"
  "t_intervention (snd (update_work_block b p f s)) = t_intervention s"
  "t_intervention (snd (expire_intentions t s)) = t_intervention s"
  "t_intervention (snd (close_open_observation b t s)) = t_intervention s"
  "t_intervention (snd (append_observation b ob s)) = t_intervention s"
  "t_intervention (snd (finalize b phase t res s)) = t_intervention s"
  "t_intervention (snd (set_demotion_state dr s)) = t_intervention s"
  "t_intervention (snd (record_decision dc s)) = t_intervention s"
  "t_intervention (snd (resolve_decision dd seen t s)) = t_intervention s"
  by (simp_all add: write_defs Let_def split: option.splits)

lemma unchanged_results:
  "t_result (snd (create r s)) = t_result s"
  "t_result (snd (update_work_block b p f s)) = t_result s"
  "t_result (snd (expire_intentions t s)) = t_result s"
  "t_result (snd (close_open_observation b t s)) = t_result s"
  "t_result (snd (append_observation b ob s)) = t_result s"
  "t_result (snd (record_intervention b i s)) = t_result s"
  "t_result (snd (map_intervention b q g s)) = t_result s"
  "t_result (snd (set_demotion_state dr s)) = t_result s"
  "t_result (snd (record_decision dc s)) = t_result s"
  "t_result (snd (resolve_decision dd seen t s)) = t_result s"
  by (simp_all add: write_defs Let_def split: option.splits)

lemma unchanged_decisions:
  "t_decision (snd (create r s)) = t_decision s"
  "t_decision (snd (update_work_block b p f s)) = t_decision s"
  "t_decision (snd (expire_intentions t s)) = t_decision s"
  "t_decision (snd (close_open_observation b t s)) = t_decision s"
  "t_decision (snd (append_observation b ob s)) = t_decision s"
  "t_decision (snd (finalize b phase t res s)) = t_decision s"
  "t_decision (snd (record_intervention b i s)) = t_decision s"
  "t_decision (snd (map_intervention b q g s)) = t_decision s"
  "t_decision (snd (set_demotion_state dr s)) = t_decision s"
  by (simp_all add: write_defs Let_def split: option.splits)

lemma unchanged_blocks:
  "t_work_block (snd (close_open_observation b t s)) = t_work_block s"
  "t_work_block (snd (record_intervention b i s)) = t_work_block s"
  "t_work_block (snd (map_intervention b q g s)) = t_work_block s"
  "t_work_block (snd (set_demotion_state dr s)) = t_work_block s"
  "t_work_block (snd (record_decision dc s)) = t_work_block s"
  "t_work_block (snd (resolve_decision dd seen t s)) = t_work_block s"
  by (simp_all add: write_defs Let_def split: option.splits)

lemmas statement_defs = set_paused_def set_active_def mark_recovered_def
  mark_intervention_card_seen_def resolve_intervention_def

section \<open>Offers\<close>

text \<open>
  An offer never changes what it offered; its outcome is written once, and the first
  sighting of its card is the one that is kept.
\<close>

definition offer_le :: "intervention \<Rightarrow> intervention \<Rightarrow> bool" where
  "offer_le i j \<longleftrightarrow>
     iv_offered_at j = iv_offered_at i \<and> iv_action_id j = iv_action_id i
     \<and> iv_anchor_category j = iv_anchor_category i \<and> iv_switch_count j = iv_switch_count i
     \<and> iv_window_seconds j = iv_window_seconds i \<and> iv_salience j = iv_salience i
     \<and> (is_terminal (iv_outcome i) \<longrightarrow>
          iv_outcome j = iv_outcome i \<and> iv_outcome_at j = iv_outcome_at i)
     \<and> (iv_card_seen_at i \<noteq> None \<longrightarrow> iv_card_seen_at j = iv_card_seen_at i)"

lemma map_of_map_rows:
  "map_of (map (\<lambda>(k, v). (k, f k v)) xs) k = map_option (f k) (map_of xs k)"
  by (induction xs) auto

lemma map_intervention_rows:
  "intervention_of (snd (map_intervention b q g s)) k =
     map_option (\<lambda>i. if k = b \<and> q i then g i else i) (intervention_of s k)"
  unfolding intervention_of_def map_intervention_def
  by (simp add: map_of_map_rows [where f = "\<lambda>k i. if k = b \<and> q i then g i else i"])

lemma map_add_new: "m k = None \<Longrightarrow> [k \<mapsto> v] ++ m = m(k \<mapsto> v)"
  by (auto simp: fun_eq_iff map_add_def split: option.splits)

interpretation offer_rows: row_order intervention_of offer_le
  by unfold_locales (auto simp: offer_le_def)

lemma offers_record: "forward intervention_of offer_le s (snd (record_intervention b i s))"
proof (cases "snd (record_intervention b i s) = s")
  case False
  then have "intervention_of s b = None"
    "intervention_of (snd (record_intervention b i s)) =
       (intervention_of s)(b := Some (stored_intervention i))"
    by (auto simp: record_intervention_def intervention_of_def map_add_new split: if_splits)
  then show ?thesis by (intro offer_rows.new_row)
qed (simp add: offer_rows.refl)

interpretation offers: store_evolution "forward intervention_of offer_le"
proof (unfold_locales, goal_cases)
  case 1
  show ?case
    by (rule obeysI, rule offer_rows.same_rows)
      (simp add: snd_guarded intervention_of_def unchanged_interventions)
next
  case (9 b a sw t oc ot sal)
  show ?case by (rule obeysI) (rule offers_record)
next
  case (10 b t)
  show ?case
    unfolding mark_intervention_card_seen_def
    by (rule obeysI, rule offer_rows.mapped_rows, rule map_intervention_rows)
      (simp add: offer_le_def)
next
  case (11 oc b t)
  show ?case
    unfolding resolve_intervention_def
    by (rule obeysI, rule offer_rows.mapped_rows, rule map_intervention_rows)
      (simp add: offer_le_def is_terminal_def)
qed (rule obeysI | rule offer_rows.same_rows
    | simp add: intervention_of_def unchanged_interventions statement_defs)+

section \<open>Results\<close>

definition result_of :: "wb_state \<Rightarrow> string \<Rightarrow> block_result option" where
  "result_of s = map_of (t_result s)"

interpretation result_rows: row_order result_of "(=)"
  by unfold_locales auto

lemma results_finalize: "forward result_of (=) s (snd (finalize b phase t res s))"
proof (cases "result_of s b")
  case (Some old)
  then have "snd (finalize b phase t res s) = s"
    by (simp add: finalize_def result_of_def)
  then show ?thesis by (simp add: result_rows.refl)
next
  case None
  then have "result_of (snd (finalize b phase t res s)) =
      (if block_matches b live s then (result_of s)(b \<mapsto> res) else result_of s)"
    by (simp add: finalize_def result_of_def map_block_def map_add_new)
  with None show ?thesis
    by (cases "block_matches b live s") (auto intro: result_rows.new_row result_rows.same_rows)
qed

interpretation results: store_evolution "forward result_of (=)"
proof (unfold_locales, goal_cases)
  case 1
  show ?case
    by (rule obeysI, rule result_rows.same_rows)
      (simp add: snd_guarded result_of_def unchanged_results)
next
  case 8
  show ?case by (rule obeysI) (rule results_finalize)
qed (rule obeysI | rule result_rows.same_rows
    | simp add: result_of_def unchanged_results statement_defs)+

section \<open>Logged decisions\<close>

text \<open>A logged decision is never rewritten; its outcome on the horizon is filled in once.\<close>

definition decision_le :: "decision \<Rightarrow> decision \<Rightarrow> bool" where
  "decision_le d e \<longleftrightarrow>
     e\<lparr>dc_anchor_seen := None, dc_outcome_at := None\<rparr> = d\<lparr>dc_anchor_seen := None, dc_outcome_at := None\<rparr>
     \<and> (dc_anchor_seen d \<noteq> None \<longrightarrow> e = d)"

lemma find_map_key:
  "(\<And>x. key (g x) = key x) \<Longrightarrow>
   find (\<lambda>x. key x = k) (map g xs) = map_option g (find (\<lambda>x. key x = k) xs)"
  by (induction xs) auto

lemma find_append_key:
  "find (\<lambda>x. key x = key y) xs = None \<Longrightarrow>
   (\<lambda>k. find (\<lambda>x. key x = k) (xs @ [y])) = (\<lambda>k. find (\<lambda>x. key x = k) xs)(key y := Some y)"
  by (rule ext) (induction xs, auto split: if_splits)

interpretation decision_rows: row_order decision_of decision_le
  by unfold_locales (auto simp: decision_le_def)

lemma decisions_record: "forward decision_of decision_le s (snd (record_decision d s))"
proof (cases "snd (record_decision d s) = s")
  case False
  let ?d = "d\<lparr>dc_occurred_at := stored (dc_occurred_at d),
               dc_outcome_at := map_option stored (dc_outcome_at d)\<rparr>"
  from False have new: "decision_of s (dc_decision_id ?d) = None"
    and rows: "t_decision (snd (record_decision d s)) = t_decision s @ [?d]"
    by (auto simp: record_decision_def split: if_splits)
  have "decision_of (snd (record_decision d s)) = (decision_of s)(dc_decision_id ?d := Some ?d)"
    using find_append_key [of dc_decision_id ?d "t_decision s"] new
    by (simp add: decision_of_def [abs_def] rows)
  with new show ?thesis by (intro decision_rows.new_row)
qed (simp add: decision_rows.refl)

lemma decisions_resolve: "forward decision_of decision_le s (snd (resolve_decision d seen t s))"
  by (rule decision_rows.mapped_rows
      [where f = "\<lambda>_ x. if dc_decision_id x = d \<and> dc_anchor_seen x = None
        then x\<lparr>dc_anchor_seen := Some seen, dc_outcome_at := Some (stored t)\<rparr> else x"])
    (simp_all add: decision_of_def resolve_decision_def find_map_key decision_le_def)

interpretation logged: store_evolution "forward decision_of decision_le"
proof (unfold_locales, goal_cases)
  case 1
  show ?case
    by (rule obeysI, rule decision_rows.same_rows)
      (simp add: snd_guarded decision_of_def unchanged_decisions)
next
  case 13
  show ?case by (rule obeysI) (rule decisions_record)
next
  case 14
  show ?case by (rule obeysI) (rule decisions_resolve)
qed (rule obeysI | rule decision_rows.same_rows
    | simp add: decision_of_def unchanged_decisions statement_defs)+

section \<open>Block rows\<close>

text \<open>
  What was asked for at the start never changes; the intention can only be forgotten;
  and a block that has ended keeps its phase, its end and its pause total.
\<close>

definition block_of :: "wb_state \<Rightarrow> string \<Rightarrow> work_block_record option" where
  "block_of s b = find (\<lambda>r. wb_block_id r = b) (t_work_block s)"

definition block_le :: "work_block_record \<Rightarrow> work_block_record \<Rightarrow> bool" where
  "block_le r q \<longleftrightarrow>
     wb_block_id q = wb_block_id r \<and> wb_purpose q = wb_purpose r
     \<and> wb_intensity q = wb_intensity r \<and> wb_planned q = wb_planned r
     \<and> wb_started_at q = wb_started_at r \<and> wb_recovery_of q = wb_recovery_of r
     \<and> wb_origin q = wb_origin r
     \<and> (wb_intention q = wb_intention r \<or> wb_intention q = None)
     \<and> (\<not> live (wb_phase r) \<longrightarrow> wb_phase q = wb_phase r \<and> wb_ended_at q = wb_ended_at r
          \<and> wb_total_paused q = wb_total_paused r \<and> wb_paused_at q = wb_paused_at r)"

interpretation block_rows: row_order block_of block_le
proof
  show "block_le r r'' " if "block_le r r'" "block_le r' r''" for r r' r''
    using that unfolding block_le_def by (elim conjE disjE; simp)
qed (simp add: block_le_def)

lemma blocks_mapped:
  assumes "t_work_block t = map g (t_work_block s)" and "\<And>r. block_le r (g r)"
  shows "forward block_of block_le s t"
proof (rule block_rows.mapped_rows)
  show "block_of t k = map_option g (block_of s k)" for k
    unfolding block_of_def assms(1)
    by (rule find_map_key) (use assms(2) in \<open>simp add: block_le_def\<close>)
qed (rule assms(2))

lemma blocks_update:
  assumes "\<And>r. p (wb_phase r) \<Longrightarrow> block_le r (f r)"
  shows "forward block_of block_le s (snd (update_work_block b p f s))"
proof (cases "block_matches b p s")
  case True
  then have "t_work_block (snd (update_work_block b p f s)) =
      map (\<lambda>r. if wb_block_id r = b \<and> p (wb_phase r) then f r else r) (t_work_block s)"
    by (simp add: update_work_block_def map_block_def)
  then show ?thesis
    by (rule blocks_mapped) (simp add: assms block_rows.le_refl)
qed (simp add: update_work_block_def block_rows.refl)

lemma blocks_create: "forward block_of block_le s (snd (create r s))"
proof (cases "block_check s r")
  case True
  then have "wb_block_id r \<notin> wb_block_id ` set (t_work_block s)"
    by (simp add: block_check_def block_exists_def)
  then have new: "block_of s (wb_block_id (stored_block r)) = None"
    unfolding block_of_def stored_block_def find_None_iff by (auto dest: sym)
  moreover have "block_of (snd (create r s)) =
      (block_of s)(wb_block_id (stored_block r) := Some (stored_block r))"
    using True new find_append_key [of wb_block_id "stored_block r" "t_work_block s"]
    by (simp add: create_def block_of_def [abs_def])
  ultimately show ?thesis by (intro block_rows.new_row)
qed (simp add: create_def block_rows.refl)

lemma blocks_append: "forward block_of block_le s (snd (append_observation b ob s))"
proof (cases "snd (append_observation b ob s) = s")
  case False
  then have "t_work_block (snd (append_observation b ob s)) =
      map (\<lambda>r. if wb_block_id r = b then r\<lparr>wb_updated_at :=
             max (wb_updated_at r) (stored (ob_occurred_at ob))\<rparr> else r) (t_work_block s)"
    by (auto simp: append_observation_def map_block_def split: if_splits)
  then show ?thesis by (rule blocks_mapped) (simp add: block_le_def)
qed (simp add: block_rows.refl)

lemma blocks_expire: "forward block_of block_le s (snd (expire_intentions t s))"
  by (rule blocks_mapped [where g = "\<lambda>r. if wb_intention r \<noteq> None
        \<and> wb_intention_expires_at r \<le> stored t then r\<lparr>wb_intention := None\<rparr> else r"])
    (simp_all add: expire_intentions_def Let_def block_le_def)

lemma blocks_finalize: "forward block_of block_le s (snd (finalize b phase t res s))"
proof (cases "snd (finalize b phase t res s) = s")
  case False
  then have "t_work_block (snd (finalize b phase t res s)) = t_work_block (map_block b live
      (\<lambda>x. x\<lparr>wb_phase := phase, wb_ended_at := Some (stored t), wb_paused_at := None,
             wb_intention_expires_at := min (wb_intention_expires_at x)
               (stored (t + seconds (24 * 60 * 60))), wb_updated_at := stored t\<rparr>) s)"
    by (auto simp: finalize_def split: option.splits if_splits)
  then have "t_work_block (snd (finalize b phase t res s)) = map (\<lambda>x. if wb_block_id x = b
      \<and> live (wb_phase x) then x\<lparr>wb_phase := phase, wb_ended_at := Some (stored t),
         wb_paused_at := None, wb_intention_expires_at := min (wb_intention_expires_at x)
           (stored (t + seconds (24 * 60 * 60))), wb_updated_at := stored t\<rparr> else x)
      (t_work_block s)"
    by (simp add: map_block_def)
  then show ?thesis by (rule blocks_mapped) (simp add: block_le_def)
qed (simp add: block_rows.refl)

interpretation blocks: store_evolution "forward block_of block_le"
proof (unfold_locales, goal_cases)
  case 1
  show ?case
    by (rule obeysI) (simp add: snd_guarded block_rows.refl blocks_create)
next
  case 2
  show ?case unfolding set_paused_def
    by (rule obeysI, rule blocks_update) (simp add: block_le_def live_def)
next
  case 3
  show ?case unfolding set_active_def
    by (rule obeysI, rule blocks_update) (simp add: block_le_def live_def)
next
  case 4
  show ?case unfolding mark_recovered_def
    by (rule obeysI, rule blocks_update) (simp add: block_le_def)
qed (rule obeysI | rule blocks_expire blocks_append blocks_finalize block_rows.same_rows
    | simp add: block_of_def unchanged_blocks statement_defs)+

end
