(* ===== verification/Block_Invariant.thy ===== *)
theory Block_Invariant
  imports Block_Safety
begin

text \<open>
  The structural invariant of the work-block tables, and that every command keeps it.

  Blocks have distinct identifiers and only the newest may be live; a block is live
  exactly while it has no result; the pause and end instants are set exactly in the
  phases that carry them; a block has at most one offer, one result and one open
  observation; and every result, offer and observation belongs to a stored block.
\<close>

section \<open>The invariant\<close>

definition row_ok :: "work_block_record \<Rightarrow> bool \<Rightarrow> bool" where
  "row_ok r has_result \<longleftrightarrow> wb_phase r \<noteq> Idle \<and> (live (wb_phase r) \<longleftrightarrow> \<not> has_result)
     \<and> (wb_phase r = Paused \<longleftrightarrow> wb_paused_at r \<noteq> None)
     \<and> (live (wb_phase r) \<longleftrightarrow> wb_ended_at r = None)"

definition blocks_ok :: "work_block_record list \<Rightarrow> (string \<Rightarrow> bool) \<Rightarrow> bool" where
  "blocks_ok bs has \<longleftrightarrow> distinct (map wb_block_id bs)
     \<and> list_all (\<lambda>r. \<not> live (wb_phase r)) (butlast bs)
     \<and> list_all (\<lambda>r. row_ok r (has (wb_block_id r))) bs"

definition open_rows :: "wb_state \<Rightarrow> string \<Rightarrow> nat" where
  "open_rows s b = length (filter (\<lambda>ob. ob_ended_at ob = None) (block_observations s b))"

definition keys_ok :: "string list \<Rightarrow> wb_state \<Rightarrow> bool" where
  "keys_ok ids s \<longleftrightarrow> distinct (map fst (t_result s)) \<and> distinct (map fst (t_intervention s))
     \<and> fst ` set (t_result s) \<subseteq> set ids \<and> fst ` set (t_intervention s) \<subseteq> set ids
     \<and> fst ` set (t_observation s) \<subseteq> set ids
     \<and> list_all (\<lambda>b. open_rows s b \<le> 1) ids"

definition has_result :: "wb_state \<Rightarrow> string \<Rightarrow> bool" where
  "has_result s b \<longleftrightarrow> b \<in> set (map fst (t_result s))"

definition wb_inv :: "wb_state \<Rightarrow> bool" where
  "wb_inv s \<longleftrightarrow> blocks_ok (t_work_block s) (has_result s)
     \<and> keys_ok (map wb_block_id (t_work_block s)) s"

lemma has_result_cong: "t_result t = t_result s \<Longrightarrow> has_result t = has_result s"
  by (simp add: has_result_def fun_eq_iff)

lemma has_result_iff: "has_result s b \<longleftrightarrow> map_of (t_result s) b \<noteq> None"
  by (auto simp: has_result_def map_of_eq_None_iff)

lemma wb_inv_empty: "wb_inv empty_store"
  by (simp add: wb_inv_def blocks_ok_def keys_ok_def empty_store_def)

section \<open>Statements keep it\<close>

lemma blocks_ok_map:
  assumes ok: "blocks_ok bs has"
    and id: "\<And>r. wb_block_id (g r) = wb_block_id r"
    and liv: "\<And>r. live (wb_phase (g r)) \<Longrightarrow> live (wb_phase r)"
    and row: "\<And>r. r \<in> set bs \<Longrightarrow> row_ok r (has (wb_block_id r)) \<Longrightarrow>
               row_ok (g r) (has' (wb_block_id r))"
  shows "blocks_ok (map g bs) has'"
proof -
  have "map wb_block_id (map g bs) = map wb_block_id bs" by (simp add: id)
  moreover have "list_all (\<lambda>r. \<not> live (wb_phase r)) (butlast (map g bs))"
    using ok liv by (auto simp: blocks_ok_def map_butlast [symmetric] list_all_iff)
  moreover have "list_all (\<lambda>r. row_ok r (has' (wb_block_id r))) (map g bs)"
    using ok row by (auto simp: blocks_ok_def list_all_iff id)
  ultimately show ?thesis using ok unfolding blocks_ok_def by metis
qed

lemma ids_map: "(\<And>r. wb_block_id (g r) = wb_block_id r) \<Longrightarrow>
    map wb_block_id (map g bs) = map wb_block_id bs"
  by simp

lemma keys_ok_cong:
  "t_result t = t_result s \<Longrightarrow> map fst (t_intervention t) = map fst (t_intervention s) \<Longrightarrow>
   t_observation t = t_observation s \<Longrightarrow> keys_ok ids t = keys_ok ids s"
  unfolding keys_ok_def open_rows_def block_observations_def by (metis set_map)

lemma wb_inv_map:
  assumes inv: "wb_inv s" and blocks: "t_work_block t = map g (t_work_block s)"
    and id: "\<And>r. wb_block_id (g r) = wb_block_id r"
    and liv: "\<And>r. live (wb_phase (g r)) = live (wb_phase r)"
    and row: "\<And>r h. row_ok r h \<Longrightarrow> row_ok (g r) h"
    and same: "t_result t = t_result s" "t_intervention t = t_intervention s"
      "t_observation t = t_observation s"
  shows "wb_inv t"
  using inv unfolding wb_inv_def blocks ids_map [OF id] has_result_cong [OF same(1)]
  by (auto intro!: blocks_ok_map id row simp: liv keys_ok_cong [of t s] same)

lemma inv_update:
  assumes "\<And>r. p (wb_phase r) \<Longrightarrow> wb_block_id (f r) = wb_block_id r"
    and "\<And>r. p (wb_phase r) \<Longrightarrow> live (wb_phase (f r)) = live (wb_phase r)"
    and "\<And>r h. p (wb_phase r) \<Longrightarrow> row_ok r h \<Longrightarrow> row_ok (f r) h"
    and "wb_inv s"
  shows "wb_inv (snd (update_work_block b p f s))"
proof (cases "block_matches b p s")
  case True
  let ?g = "\<lambda>r. if wb_block_id r = b \<and> p (wb_phase r) then f r else r"
  have "wb_inv (map_block b p f s)"
  proof (rule wb_inv_map [of s _ ?g])
    show "t_work_block (map_block b p f s) = map ?g (t_work_block s)"
      by (simp add: map_block_def)
  qed (use assms in \<open>simp_all add: map_block_def\<close>)
  with True show ?thesis by (simp add: update_work_block_def)
qed (simp add: update_work_block_def assms)

lemma inv_same:
  "wb_inv s \<Longrightarrow> t_work_block t = t_work_block s \<Longrightarrow> t_result t = t_result s \<Longrightarrow>
   map fst (t_intervention t) = map fst (t_intervention s) \<Longrightarrow>
   t_observation t = t_observation s \<Longrightarrow> wb_inv t"
  by (simp add: wb_inv_def keys_ok_cong [of t s] has_result_cong [of t s])

lemma inv_expire: "wb_inv s \<Longrightarrow> wb_inv (snd (expire_intentions t s))"
  by (rule wb_inv_map [of s _ "\<lambda>r. if wb_intention r \<noteq> None
        \<and> wb_intention_expires_at r \<le> stored t then r\<lparr>wb_intention := None\<rparr> else r"])
    (auto simp: expire_intentions_def Let_def row_ok_def)

lemma inv_create:
  assumes inv: "wb_inv s" and new: "\<not> last_live s"
    and r: "wb_phase r = Active" "wb_paused_at r = None" "wb_ended_at r = None"
  shows "wb_inv (snd (create r s))"
proof (cases "block_check s r")
  case True
  let ?b = "wb_block_id r"
  have fresh: "?b \<notin> set (map wb_block_id (t_work_block s))"
    using True by (auto simp: block_check_def block_exists_def)
  then have no_result: "\<not> has_result s ?b"
    using inv by (auto simp: wb_inv_def keys_ok_def has_result_def)
  have "block_observations s ?b = []"
    using fresh inv
    by (auto simp: wb_inv_def keys_ok_def block_observations_def filter_empty_conv)
  then have "open_rows s ?b = 0" by (simp add: open_rows_def)
  moreover have "open_rows (snd (create r s)) = open_rows s"
    using True by (simp add: fun_eq_iff create_def open_rows_def block_observations_def)
  moreover have "list_all (\<lambda>r. \<not> live (wb_phase r)) (t_work_block s)"
    using inv new
    by (cases "t_work_block s" rule: rev_cases) (auto simp: wb_inv_def blocks_ok_def last_live_def)
  moreover have "row_ok (stored_block r) (has_result s ?b)"
    using r no_result by (simp add: row_ok_def stored_block_def live_def)
  moreover have "wb_block_id (stored_block r) = ?b"
    by (simp add: stored_block_def)
  moreover have "snd (create r s) = s\<lparr>t_work_block := t_work_block s @ [stored_block r]\<rparr>"
    using True by (simp add: create_def)
  ultimately show ?thesis
    using inv fresh has_result_cong [of "snd (create r s)" s]
    by (auto simp: wb_inv_def blocks_ok_def keys_ok_def unchanged_results)
qed (simp add: create_def inv)

lemma open_rows_close:
  "open_rows (snd (close_open_observation b t s)) k = (if k = b then 0 else open_rows s k)"
proof -
  let ?f = "\<lambda>(k', ob). (k', if k' = b then close_at t ob else ob)"
  have "filter (\<lambda>(k', _). k' = k) (map ?f xs) = map ?f (filter (\<lambda>(k', _). k' = k) xs)" for xs
    by (induction xs) auto
  moreover have "ob_ended_at (close_at t ob) \<noteq> None" for ob
    by (simp add: close_at_def)
  ultimately show ?thesis
    by (auto simp: open_rows_def block_observations_def close_open_observation_def modify_def
        filter_map o_def case_prod_beta filter_empty_conv intro!: arg_cong [where f = length] filter_cong)
qed

lemma inv_close: "wb_inv s \<Longrightarrow> wb_inv (snd (close_open_observation b t s))"
proof -
  have "fst ` set (t_observation (snd (close_open_observation b t s))) =
      fst ` set (t_observation s)"
    by (force simp: close_open_observation_def modify_def)
  moreover have "open_rows s k \<le> 1 \<Longrightarrow> open_rows (snd (close_open_observation b t s)) k \<le> 1" for k
    by (simp add: open_rows_close)
  ultimately show "wb_inv s \<Longrightarrow> wb_inv (snd (close_open_observation b t s))"
    unfolding wb_inv_def keys_ok_def list_all_iff
    using has_result_cong [of "snd (close_open_observation b t s)" s]
    by (simp add: unchanged_blocks unchanged_results unchanged_interventions)
qed

lemma block_observations_append:
  "block_observations (s\<lparr>t_observation := t_observation s @ [(b, ob)]\<rparr>) k =
     block_observations s k @ (if k = b then [ob] else [])"
  by (simp add: block_observations_def)

lemma inv_append:
  assumes inv: "wb_inv s"
  shows "wb_inv (snd (append_observation b ob s))"
proof (cases "snd (append_observation b ob s) = s")
  case False
  let ?s = "s\<lparr>t_observation := t_observation s @ [(b, stored_observation ob)]\<rparr>"
  let ?g = "\<lambda>r. if wb_block_id r = b then r\<lparr>wb_updated_at :=
     max (wb_updated_at r) (stored (ob_occurred_at ob))\<rparr> else r"
  from False have exists: "block_exists s b"
    and closed: "ob_ended_at ob \<noteq> None \<or> open_rows s b = 0"
    and t: "snd (append_observation b ob s) = ?s\<lparr>t_work_block := map ?g (t_work_block s)\<rparr>"
    by (auto simp: append_observation_def map_block_def open_rows_def filter_empty_conv
        split: if_splits)
  have "open_rows ?s k \<le> 1" if "open_rows s k \<le> 1" for k
    using that closed
    by (auto simp: open_rows_def block_observations_append stored_observation_def)
  then have "keys_ok (map wb_block_id (t_work_block s)) ?s"
    using inv exists by (auto simp: wb_inv_def keys_ok_def block_exists_def list_all_iff)
  then have "wb_inv ?s"
    using inv has_result_cong [of ?s s] by (simp add: wb_inv_def)
  then show ?thesis
    unfolding t
    by (rule wb_inv_map [where g = ?g]) (auto simp: row_ok_def)
qed (simp add: inv)

lemma blocks_ok_id_unique:
  "blocks_ok bs has \<Longrightarrow> r \<in> set bs \<Longrightarrow> q \<in> set bs \<Longrightarrow> wb_block_id r = wb_block_id q \<Longrightarrow> r = q"
  by (auto simp: blocks_ok_def distinct_map inj_on_def)

lemma inv_finalize:
  assumes inv: "wb_inv s" and phase: "phase \<in> {Completed, Abandoned, Expired}"
  shows "wb_inv (snd (finalize b phase ended res s))"
proof (cases "has_result s b \<or> \<not> block_matches b live s")
  case True
  then have "snd (finalize b phase ended res s) = s"
    by (auto simp: finalize_def has_result_iff split: option.splits)
  then show ?thesis by (simp add: inv)
next
  case False
  let ?f = "\<lambda>x. x\<lparr>wb_phase := phase, wb_ended_at := Some (stored ended), wb_paused_at := None,
      wb_intention_expires_at := min (wb_intention_expires_at x)
        (stored (ended + seconds (24 * 60 * 60))), wb_updated_at := stored ended\<rparr>"
  let ?g = "\<lambda>r. if wb_block_id r = b \<and> live (wb_phase r) then ?f r else r"
  let ?t = "snd (finalize b phase ended res s)"
  have t: "?t = s\<lparr>t_work_block := map ?g (t_work_block s), t_result := t_result s @ [(b, res)]\<rparr>"
    using False by (auto simp: finalize_def has_result_iff map_block_def split: option.splits)
  have stored: "b \<in> set (map wb_block_id (t_work_block s))"
    using False by (auto simp: block_matches_def)
  have terminal: "\<not> live phase" "phase \<noteq> Idle" "phase \<noteq> Paused"
    using phase by (auto simp: live_def)
  have "blocks_ok (map ?g (t_work_block s)) (has_result ?t)"
  proof (rule blocks_ok_map)
    show "blocks_ok (t_work_block s) (has_result s)" using inv by (simp add: wb_inv_def)
    fix r assume r: "r \<in> set (t_work_block s)" "row_ok r (has_result s (wb_block_id r))"
    obtain q where "q \<in> set (t_work_block s)" "wb_block_id q = b" "live (wb_phase q)"
      using False by (auto simp: block_matches_def)
    then have "wb_block_id r = b \<Longrightarrow> live (wb_phase r)"
      using r(1) inv blocks_ok_id_unique [of "t_work_block s" "has_result s" r q]
      by (auto simp: wb_inv_def)
    moreover have "has_result ?t (wb_block_id r) \<longleftrightarrow>
        has_result s (wb_block_id r) \<or> wb_block_id r = b"
      unfolding t by (auto simp: has_result_def)
    ultimately show "row_ok (?g r) (has_result ?t (wb_block_id r))"
      using r(2) terminal by (auto simp: row_ok_def)
  qed (use terminal in \<open>simp_all split: if_splits\<close>)
  then have "blocks_ok (t_work_block ?t) (has_result ?t)"
    unfolding t by simp
  moreover have "keys_ok (map wb_block_id (t_work_block ?t)) ?t"
  proof -
    have ids: "map wb_block_id (t_work_block ?t) = map wb_block_id (t_work_block s)"
      unfolding t by simp
    have "open_rows ?t = open_rows s"
      unfolding t by (simp add: fun_eq_iff open_rows_def block_observations_def)
    then show ?thesis
      using inv False stored unfolding ids
      by (auto simp: t keys_ok_def wb_inv_def has_result_def)
  qed
  ultimately show ?thesis by (simp add: wb_inv_def)
qed

lemma inv_record:
  assumes "wb_inv s"
  shows "wb_inv (snd (record_intervention b i s))"
proof -
  have "open_rows (s\<lparr>t_intervention := x\<rparr>) = open_rows s" for x
    by (simp add: fun_eq_iff open_rows_def block_observations_def)
  moreover have "has_result (s\<lparr>t_intervention := x\<rparr>) = has_result s" for x
    by (simp add: fun_eq_iff has_result_def)
  ultimately show ?thesis
    using assms
    by (auto simp: record_intervention_def wb_inv_def keys_ok_def block_exists_def
        map_of_eq_None_iff)
qed

lemma inv_map_intervention: "wb_inv s \<Longrightarrow> wb_inv (snd (map_intervention b q g s))"
  by (erule inv_same) (auto simp: map_intervention_def)

section \<open>Commands keep it\<close>

interpretation tables: store_evolution "keeping wb_inv"
proof (unfold_locales, goal_cases)
  case 1
  show ?case
    by (rule obeysI)
      (auto simp: keeping_def snd_guarded new_block_def intro!: inv_create)
next
  case 2
  show ?case unfolding set_paused_def
    by (rule obeysI) (auto simp: keeping_def row_ok_def live_def intro!: inv_update)
next
  case 3
  show ?case unfolding set_active_def
    by (rule obeysI) (auto simp: keeping_def row_ok_def live_def intro!: inv_update)
next
  case 4
  show ?case unfolding mark_recovered_def
    by (rule obeysI) (auto simp: keeping_def row_ok_def intro!: inv_update)
next
  case 5
  show ?case by (rule obeysI) (simp add: keeping_def inv_expire)
next
  case 6
  show ?case by (rule obeysI) (simp add: keeping_def inv_close)
next
  case 7
  show ?case by (rule obeysI) (simp add: keeping_def inv_append)
next
  case 8
  then show ?case by (intro obeysI) (simp add: keeping_def inv_finalize)
next
  case 9
  show ?case by (rule obeysI) (simp add: keeping_def inv_record)
qed (auto simp: obeys_def keeping_def statement_defs inv_map_intervention
    set_demotion_state_def record_decision_def resolve_decision_def modify_def
    elim!: inv_same)

lemma exec_inv: "wb_inv s \<Longrightarrow> wb_inv (exec c s)"
proof (cases "snd c = CClear")
  case True
  then have "exec c s = snd (clear_data s)" by (cases c) (simp add: exec_def)
  moreover have "wb_inv (snd (clear_data s))"
    by (simp add: clear_data_def clear_all_def publish_deadline_def persist_def op_defs
        wb_inv_def blocks_ok_def keys_ok_def)
  ultimately show ?thesis by simp
next
  case False
  then show "wb_inv s \<Longrightarrow> ?thesis"
    using tables.exec [of c s] by (simp add: keeping_def)
qed

lemma run_inv: "wb_inv s \<Longrightarrow> wb_inv (fold exec cs s)"
  by (induction cs arbitrary: s) (simp_all add: exec_inv)

end
