(* ===== verification/Block_Drift.thy ===== *)
theory Block_Drift
  imports Block_Invariant
begin

text \<open>
  What the drift gate, the backoff and the demotion rule compute: their outcome on a
  state, as equations the properties of the gate rest on.
\<close>

section \<open>The anchor is the category with the most observed time\<close>

definition total_seconds :: "(string \<times> nat) list \<Rightarrow> string \<Rightarrow> nat" where
  "total_seconds ev c = sum_list (map snd (filter (\<lambda>e. fst e = c) ev))"

lemma total_seconds_simps [simp]:
  "total_seconds [] c = 0"
  "total_seconds (ev @ [e]) c = total_seconds ev c + (if fst e = c then snd e else 0)"
  by (simp_all add: total_seconds_def)

lemma add_seconds_keys:
  "map fst (add_seconds t c n) = map fst t @ (if c \<in> fst ` set t then [] else [c])"
  by (induction t c n rule: add_seconds.induct) (auto simp: image_iff)

lemma add_seconds_lookup:
  "map_of (add_seconds t c n) k =
     (if k = c then Some (sat_add (case map_of t c of None \<Rightarrow> 0 | Some m \<Rightarrow> m) n) else map_of t k)"
  by (induction t c n rule: add_seconds.induct) auto

text \<open>The table has one entry per observed category, its saturated total.\<close>

lemma category_table_spec:
  "distinct (map fst (category_table ev)) \<and> set (map fst (category_table ev)) = fst ` set ev
   \<and> (\<forall>c. map_of (category_table ev) c =
        (if c \<in> fst ` set ev then Some (min (total_seconds ev c) u32_max) else None))"
proof (induction ev rule: rev_induct)
  case Nil
  show ?case by (simp add: category_table_def)
next
  case (snoc e ev)
  obtain c n where e: "e = (c, n)" by (cases e)
  have step: "category_table (ev @ [e]) = add_seconds (category_table ev) c n"
    by (simp add: category_table_def e)
  have "total_seconds ev k = 0" if "k \<notin> fst ` set ev" for k
  proof -
    have "filter (\<lambda>e. fst e = k) ev = []"
      using that by (auto simp: filter_empty_conv)
    then show ?thesis by (simp add: total_seconds_def)
  qed
  moreover have "min (min a u32_max + m) u32_max = min (a + m) u32_max" for a m
    by (simp add: min_def)
  ultimately show ?case
    using snoc unfolding step
    by (auto simp: add_seconds_keys add_seconds_lookup e sat_add_def image_Un split: if_splits)
qed

lemma category_table_entry:
  "(c, n) \<in> set (category_table ev) \<longleftrightarrow> c \<in> fst ` set ev \<and> n = min (total_seconds ev c) u32_max"
proof -
  have "distinct (map fst (category_table ev))"
    and "map_of (category_table ev) c =
        (if c \<in> fst ` set ev then Some (min (total_seconds ev c) u32_max) else None)"
    using category_table_spec [of ev] by blast+
  from map_of_eq_Some_iff [OF this(1), of c n] this(2) show ?thesis by (auto split: if_splits)
qed

text \<open>\<open>beats\<close> orders entries by time, then by the earlier name.\<close>

definition beats :: "string \<times> nat \<Rightarrow> string \<times> nat \<Rightarrow> bool" where
  "beats x y \<longleftrightarrow> snd y < snd x \<or> (snd y = snd x \<and> fst x \<le> fst y)"

lemma better_beats: "beats (better x y) x \<and> beats (better x y) y \<and> better x y \<in> {x, y}"
  by (auto simp: better_def beats_def)

lemma beats_trans: "beats x y \<Longrightarrow> beats y z \<Longrightarrow> beats x z"
  by (auto simp: beats_def)

lemma foldl_better:
  "foldl better x xs \<in> insert x (set xs) \<and> (\<forall>y \<in> insert x (set xs). beats (foldl better x xs) y)"
proof (induction xs arbitrary: x)
  case Nil
  show ?case by (simp add: beats_def)
next
  case (Cons a xs)
  let ?w = "better x a"
  have IH: "foldl better ?w xs \<in> insert ?w (set xs)"
    "\<And>y. y \<in> insert ?w (set xs) \<Longrightarrow> beats (foldl better ?w xs) y"
    using Cons.IH [of ?w] by auto
  have "beats (foldl better ?w xs) x" "beats (foldl better ?w xs) a"
    using IH(2) [of ?w] better_beats [of x a] beats_trans by blast+
  moreover have "foldl better ?w xs \<in> insert x (set (a # xs))"
    using IH(1) better_beats [of x a] by auto
  ultimately show ?case using IH(2) by auto
qed

lemma best_category_spec:
  assumes "best_category t = Some c"
  shows "\<exists>n. (c, n) \<in> set t \<and> (\<forall>y \<in> set t. beats (c, n) y)"
proof -
  obtain x xs where t: "t = x # xs"
    using assms by (auto simp: best_category_def split: list.splits)
  let ?w = "foldl better x xs"
  have "c = fst ?w" using assms by (simp add: best_category_def t)
  then have "?w = (c, snd ?w)" by simp
  then show ?thesis using foldl_better [of x xs] by (metis list.simps(15) t)
qed

lemma best_category_None: "best_category t = None \<longleftrightarrow> t = []"
  by (simp add: best_category_def split: list.splits)

lemma evidence_seconds_mem:
  "(c, n) \<in> set (evidence_seconds obs) \<Longrightarrow> 0 < n \<and> (\<exists>ob \<in> set obs. ob_category ob = c)"
proof (induction obs)
  case (Cons ob obs)
  let ?e = "case ob_ended_at ob of None \<Rightarrow> None
     | Some e \<Rightarrow> (let n = positive_seconds (e - ob_occurred_at ob) in
         if is_confident_evidence ob \<and> 0 < n then Some (ob_category ob, n) else None)"
  have "evidence_seconds (ob # obs) =
      (case ?e of None \<Rightarrow> evidence_seconds obs | Some x \<Rightarrow> x # evidence_seconds obs)"
    unfolding evidence_seconds_def map_filter_simps by (rule refl)
  with Cons show ?case
    by (auto simp: Let_def split: option.splits if_splits)
qed (simp add: evidence_seconds_def map_filter_simps)

lemma dominant_category_evidence:
  "dominant_category obs = Some a \<Longrightarrow> a \<in> fst ` set (evidence_seconds obs)"
  using best_category_spec category_table_spec [of "evidence_seconds obs"]
  unfolding dominant_category_def by (metis fst_conv image_eqI set_map)

lemma dominant_category_mem:
  "dominant_category obs = Some a \<Longrightarrow> \<exists>ob \<in> set obs. ob_category ob = a"
  using dominant_category_evidence evidence_seconds_mem by fastforce

lemma dominant_category_None: "dominant_category obs = None \<longleftrightarrow> evidence_seconds obs = []"
  using category_table_spec [of "evidence_seconds obs"]
  by (metis best_category_None dominant_category_def image_is_empty list.map_disc_iff set_empty)

section \<open>Backoff\<close>

lemma backoff_loop_streak:
  assumes "\<And>i. i \<in> set negs \<Longrightarrow> is_negative (iv_outcome i)"
    and "rest = [] \<or> \<not> is_negative (iv_outcome (hd rest))"
    and "0 < k" "k + length negs \<le> u32_max"
  shows "backoff_loop k l (negs @ rest) = (k + length negs, l)"
  using assms
proof (induction negs arbitrary: k)
  case Nil
  then show ?case by (cases rest) auto
next
  case (Cons i negs)
  have "backoff_loop (k + 1) l (negs @ rest) = (k + 1 + length negs, l)"
    using Cons.prems by (intro Cons.IH) auto
  with Cons.prems show ?case by (simp add: sat_add_def)
qed

definition answered_at :: "intervention \<Rightarrow> instant" where
  "answered_at i = (case iv_outcome_at i of None \<Rightarrow> iv_offered_at i | Some t \<Rightarrow> t)"

lemma backoff_loop_first:
  assumes "\<And>j. j \<in> set (i # negs) \<Longrightarrow> is_negative (iv_outcome j)"
    and "rest = [] \<or> \<not> is_negative (iv_outcome (hd rest))"
    and "length negs < u32_max"
  shows "backoff_loop 0 None (i # negs @ rest) = (Suc (length negs), Some (answered_at i))"
  using assms backoff_loop_streak [of negs rest 1 "Some (answered_at i)"]
  by (simp add: sat_add_def u32_max_def answered_at_def split: option.splits)

lemma cooldown_closed_form:
  "0 < n \<Longrightarrow> cooldown_seconds n = min (7200 * 2 ^ (n - 1)) 86400"
proof (cases "n - 1 \<le> 16")
  case False
  then have "(2::int) ^ 16 \<le> 2 ^ (n - 1)" by (intro power_increasing) auto
  with False show ?thesis by (simp add: cooldown_seconds_def policy_defs)
qed (simp add: cooldown_seconds_def policy_defs)

section \<open>Demotion\<close>

definition demotion_counts :: "wb_state \<Rightarrow> instant \<Rightarrow> intervention_counts" where
  "demotion_counts s now = counts_between s (timestamp (demotion_since (t_demotion s) now)) None"

definition demoted :: "wb_state \<Rightarrow> instant \<Rightarrow> bool" where
  "demoted s now \<longleftrightarrow> over_threshold (demotion_counts s now)"

text \<open>Evaluating the rule touches nothing but its own singleton; nor does rendering a snapshot.\<close>

definition demotion_only :: "wb_state \<Rightarrow> wb_state \<Rightarrow> bool" where
  "demotion_only s t \<longleftrightarrow> (\<exists>dm. t = s\<lparr>t_demotion := dm\<rparr>)"

interpretation demotion_only: evolution demotion_only
proof
  show "demotion_only s s" for s
    unfolding demotion_only_def by (rule exI [of _ "t_demotion s"]) simp
qed (auto simp: demotion_only_def)

lemmas demotion_only_reads = demotion_only.rules obeys_persist
  demotion_only.gets [where f = "\<lambda>s. f s" for f]

lemma evaluate_demotion_frame: "obeys demotion_only (evaluate_demotion now)"
  unfolding evaluate_demotion_def demotion_state_def wrong_intervention_counts_def
    set_demotion_state_def Let_def
  by (intro demotion_only_reads) (auto simp: demotion_only_def)

lemma snapshot_frame: "obeys demotion_only (snapshot_with_result E r now res)"
  unfolding snapshot_with_result_def anchor_of_record_def active_intervention_def read_defs Let_def
    case_prod_beta
  by (intro demotion_only_reads evaluate_demotion_frame)

lemma snapshot_for_frame: "obeys demotion_only (snapshot_for E r now)"
  unfolding snapshot_for_def result_def by (intro demotion_only_reads snapshot_frame)

lemma evaluate_demotion_value:
  "\<exists>ev. fst (evaluate_demotion now s) = Inr ev
     \<and> de_state ev = (if demoted s now then DemotionDemoted else DemotionActive)
     \<and> de_counts ev = demotion_counts s now"
  unfolding evaluate_demotion_def demotion_state_def wrong_intervention_counts_def
    demoted_def demotion_counts_def Let_def persist_gets andthen_gets
  by (simp add: set_demotion_state_def op_defs persist_def)

lemma evaluate_demotion_eq:
  obtains ev dm where "evaluate_demotion now s = (Inr ev, s\<lparr>t_demotion := dm\<rparr>)"
    "de_state ev = (if demoted s now then DemotionDemoted else DemotionActive)"
    "de_counts ev = demotion_counts s now"
  using evaluate_demotion_value [of now s] obeysD [OF evaluate_demotion_frame, of s now]
  unfolding demotion_only_def by (metis prod.collapse)

section \<open>The gate\<close>

text \<open>
  The verdict the gate reaches, as a function of the stored rows, the block, the clock
  and the Focus source: the same branches with the effects taken out.
\<close>

definition recent_offers :: "wb_state \<Rightarrow> intervention list" where
  "recent_offers s = take BACKOFF_HISTORY_LIMIT
     (sort_key (\<lambda>i. - iv_offered_at i) (map snd (t_intervention s)))"

definition ordered_observations :: "wb_state \<Rightarrow> string \<Rightarrow> observation list" where
  "ordered_observations s b = sort_key ob_occurred_at (block_observations s b)"

definition evidence_verdict ::
  "(instant \<Rightarrow> bool) \<Rightarrow> wb_state \<Rightarrow> work_block_record \<Rightarrow> instant \<Rightarrow> gate_verdict \<times> string option \<times> nat"
where
  "evidence_verdict focus s r now =
     (let obs = ordered_observations s (wb_block_id r) in
      case dominant_category obs of None \<Rightarrow> (AbstainedNoAnchor, None, 0)
      | Some a \<Rightarrow>
          (case count_departures a obs (window_start now) of (prev, n) \<Rightarrow>
            (if n < DRIFT_MIN_SWITCHES then AbstainedMinSwitches
             else if prev = Some True then AbstainedAtAnchor
             else if demoted s now then VerdictWithheldDemotion
             else if focus now then VerdictSuppressedDnd
             else VerdictOffered, Some a, n)))"

definition drift_verdict ::
  "(instant \<Rightarrow> bool) \<Rightarrow> wb_state \<Rightarrow> work_block_record \<Rightarrow> instant \<Rightarrow> gate_verdict \<times> string option \<times> nat"
where
  "drift_verdict focus s r now =
     (if elapsed_seconds r now < DRIFT_MIN_ELAPSED_SECONDS then (AbstainedWarmup, None, 0)
      else if wb_planned r - elapsed_seconds r now < DRIFT_MIN_REMAINING_SECONDS
      then (AbstainedRemaining, None, 0)
      else if intervention_of s (wb_block_id r) \<noteq> None then (AbstainedBlockCap, None, 0)
      else if bo_suppressed (backoff_of (recent_offers s) now) then (AbstainedBackoff, None, 0)
      else evidence_verdict focus s r now)"

definition row_for :: "gate_verdict \<Rightarrow> intervention_outcome option" where
  "row_for v = (case v of VerdictWithheldDemotion \<Rightarrow> Some WithheldDemotion
     | VerdictSuppressedDnd \<Rightarrow> Some DeliverySuppressedDnd | VerdictOffered \<Rightarrow> Some Offered
     | _ \<Rightarrow> None)"

definition categories_named :: "wb_state \<Rightarrow> bool" where
  "categories_named s \<longleftrightarrow> list_all (\<lambda>(k, ob). ob_category ob \<noteq> []) (t_observation s)"

definition logged_decision ::
  "wb_env \<Rightarrow> work_block_record \<Rightarrow> instant \<Rightarrow> gate_verdict \<Rightarrow> string option \<Rightarrow> nat \<Rightarrow> decision" where
  "logged_decision E r now v a n =
     (decision_for E r now v a n)\<lparr>dc_occurred_at := stored now\<rparr>"

lemma log_decision_eq:
  assumes "block_exists s (wb_block_id r)" and "decision_of s (env_decision_id E) = None"
  shows "log_decision E r now v a n s =
     (Inr (), s\<lparr>t_decision := t_decision s @ [logged_decision E r now v a n]\<rparr>)"
  using assms
  by (simp add: log_decision_def record_decision_def logged_decision_def decision_for_def Let_def
      policy_defs)

lemma record_offer_eq:
  assumes "block_exists s b" and "intervention_of s b = None" and "a \<noteq> []"
  shows "persist (record_intervention b (offer_row a n now oc ot sal)) s =
     (Inr (), s\<lparr>t_intervention := t_intervention s @
        [(b, stored_intervention (offer_row a n now oc ot sal))]\<rparr>)"
  using assms
  by (simp add: persist_def record_intervention_def offer_row_def intervention_of_def
      DRIFT_ACTION_ID_def policy_defs)

text \<open>What a pass through the gate leaves behind.\<close>

definition passed ::
  "wb_env \<Rightarrow> work_block_record \<Rightarrow> instant \<Rightarrow> wb_state \<Rightarrow> gate_verdict \<times> string option \<times> nat
   \<Rightarrow> (wb_error + drift_intervention option) \<times> wb_state \<Rightarrow> bool" where
  "passed E r now s v x \<longleftrightarrow> (case (v, x) of ((g, a, n), (Inr di, t)) \<Rightarrow>
       (di \<noteq> None \<longleftrightarrow> g = VerdictOffered)
       \<and> t_decision t = t_decision s @ [logged_decision E r now g a n]
       \<and> (case row_for g of
            None \<Rightarrow> t_intervention t = t_intervention s
          | Some oc \<Rightarrow> (\<exists>i. iv_outcome i = oc \<and> iv_offered_at i = stored now
               \<and> iv_switch_count i = n \<and> Some (iv_anchor_category i) = a
               \<and> t_intervention t = t_intervention s @ [(wb_block_id r, i)]))
     | _ \<Rightarrow> False)"

lemma abstain_passed:
  assumes "block_exists s (wb_block_id r)" and "decision_of s (env_decision_id E) = None"
    and "row_for v = None"
  shows "passed E r now s (v, a, n) (abstain E r now v a n s)"
  using assms
  by (auto simp: passed_def abstain_def andthen_def log_decision_eq ret_def row_for_def
      split: gate_verdict.splits)

lemma deliver_passed:
  assumes ex: "block_exists s (wb_block_id r)" and fresh: "decision_of s (env_decision_id E) = None"
    and none: "intervention_of s (wb_block_id r) = None" and a: "a \<noteq> []"
  shows "passed E r now s
     (if demoted s now then VerdictWithheldDemotion
      else if env_focus E now then VerdictSuppressedDnd else VerdictOffered, Some a, n)
     (deliver E r now a n sal s)"
proof -
  obtain ev dm where ev: "evaluate_demotion now s = (Inr ev, s\<lparr>t_demotion := dm\<rparr>)"
    "de_state ev = (if demoted s now then DemotionDemoted else DemotionActive)"
    by (rule evaluate_demotion_eq)
  let ?s = "s\<lparr>t_demotion := dm\<rparr>"
  have s: "block_exists ?s (wb_block_id r)" "decision_of ?s (env_decision_id E) = None"
    using ex fresh by (simp_all add: block_exists_def decision_of_def)
  let ?u = "\<lambda>d. ?s\<lparr>t_decision := t_decision s @ [d]\<rparr>"
  have u: "block_exists (?u d) (wb_block_id r)" "intervention_of (?u d) (wb_block_id r) = None" for d
    using ex none by (simp_all add: block_exists_def intervention_of_def)
  show ?thesis
    by (simp add: deliver_def andthen_def ev log_decision_eq [OF s] record_offer_eq [OF u a]
        ret_def Let_def passed_def row_for_def)
      (auto simp: stored_intervention_def offer_row_def)
qed

lemma deliver_verdict:
  assumes "block_exists s (wb_block_id r)" and "decision_of s (env_decision_id E) = None"
    and "intervention_of s (wb_block_id r) = None" and "a \<noteq> []"
    and "v = (if demoted s now then VerdictWithheldDemotion
      else if env_focus E now then VerdictSuppressedDnd else VerdictOffered)"
  shows "passed E r now s (v, Some a, n) (deliver E r now a n sal s)"
  using deliver_passed assms by blast

lemma evaluate_drift_passed:
  assumes ex: "block_exists s (wb_block_id r)" and fresh: "decision_of s (env_decision_id E) = None"
    and named: "categories_named s"
  shows "passed E r now s (drift_verdict (env_focus E) s r now) (evaluate_drift E r now s)"
proof -
  let ?obs = "ordered_observations s (wb_block_id r)"
  have anchor: "a \<noteq> []" if "dominant_category ?obs = Some a" for a
    using dominant_category_mem [OF that] named
    by (auto simp: ordered_observations_def block_observations_def categories_named_def list_all_iff)
  note abst = abstain_passed [OF ex fresh]
  have reads: "evaluate_drift E r now s =
     (if elapsed_seconds r now < DRIFT_MIN_ELAPSED_SECONDS then abstain E r now AbstainedWarmup None 0 s
      else if wb_planned r - elapsed_seconds r now < DRIFT_MIN_REMAINING_SECONDS
      then abstain E r now AbstainedRemaining None 0 s
      else if intervention_of s (wb_block_id r) \<noteq> None then abstain E r now AbstainedBlockCap None 0 s
      else if bo_suppressed (backoff_of (recent_offers s) now)
      then abstain E r now AbstainedBackoff None 0 s
      else case dominant_category ?obs of None \<Rightarrow> abstain E r now AbstainedNoAnchor None 0 s
      | Some a \<Rightarrow> (case count_departures a ?obs (window_start now) of (prev, n) \<Rightarrow>
          if n < DRIFT_MIN_SWITCHES then abstain E r now AbstainedMinSwitches (Some a) n s
          else if prev = Some True then abstain E r now AbstainedAtAnchor (Some a) n s
          else deliver E r now a n (bo_salience (backoff_of (recent_offers s) now)) s))"
    unfolding evaluate_drift_def Let_def backoff_state_def intervention_def observations_def
      recent_interventions_def persist_gets recent_offers_def ordered_observations_def
    by (simp add: op_simps andthen_assoc split: option.splits prod.splits)
  show ?thesis
    unfolding reads drift_verdict_def evidence_verdict_def Let_def
    by (auto simp: abst row_for_def split: option.splits prod.splits dest: anchor
        intro!: deliver_verdict [OF ex fresh])
qed

end
