(* ===== verification/Block_Commands.thy ===== *)
theory Block_Commands
  imports Block_Drift
begin

text \<open>
  What single commands return and leave behind when they succeed: a snapshot is always
  rendered, a resume adds exactly the pause to the block's pause total, and a second end
  of a block reports the stored result.
\<close>

section \<open>Snapshots are always rendered\<close>

lemma andthen_total:
  "(\<exists>a. fst (m s) = Inr a) \<Longrightarrow> (\<And>a t. \<exists>b. fst (f a t) = Inr b) \<Longrightarrow> \<exists>b. fst (andthen m f s) = Inr b"
  by (auto simp: andthen_def split: prod.splits sum.splits)

lemma gets_total: "\<exists>a. fst (gets f s) = Inr a"
  by (simp add: gets_def)

lemma evaluate_demotion_total: "\<exists>ev. fst (evaluate_demotion now s) = Inr ev"
  using evaluate_demotion_value by blast

lemma active_intervention_total: "\<exists>a. fst (active_intervention b now s) = Inr a"
  unfolding active_intervention_def intervention_def persist_gets
  by (rule andthen_total, rule gets_total)
    (auto split: option.splits simp: ret_def intro!: andthen_total evaluate_demotion_total)

lemma anchor_total: "\<exists>a. fst (anchor_of_record r s) = Inr a"
  unfolding anchor_of_record_def observations_def persist_gets
  by (auto simp: ret_def intro!: andthen_total gets_total)

lemma snapshot_with_result_value:
  "\<exists>sn. fst (snapshot_with_result E r now res s) = Inr sn
     \<and> sn_phase sn = wb_phase r \<and> sn_result sn = res \<and> sn_elapsed sn = elapsed_seconds r now
     \<and> sn_remaining sn = wb_planned r - elapsed_seconds r now"
proof -
  obtain anchor s1 where 1: "anchor_of_record r s = (Inr anchor, s1)"
    using anchor_total [of r s] by (metis prod.collapse)
  obtain card s2 where 2: "active_intervention (wb_block_id r) now s1 = (Inr card, s2)"
    using active_intervention_total [of "wb_block_id r" now s1] by (metis prod.collapse)
  show ?thesis
    unfolding snapshot_with_result_def latest_observation_def persist_gets Let_def andthen_gets
    by (simp add: andthen_def 1 2 ret_def split: prod.splits)
qed

lemma snapshot_eq:
  obtains sn dm where
    "snapshot_with_result E r now res s = (Inr sn, s\<lparr>t_demotion := dm\<rparr>)"
    "sn_phase sn = wb_phase r" "sn_result sn = res" "sn_elapsed sn = elapsed_seconds r now"
  using snapshot_with_result_value [of E r now res s] obeysD [OF snapshot_frame, of s E r now res]
  unfolding demotion_only_def by (metis prod.collapse)

lemma snapshot_for_eq:
  obtains sn dm where
    "snapshot_for E r now s = (Inr sn, s\<lparr>t_demotion := dm\<rparr>)"
    "sn_phase sn = wb_phase r" "sn_result sn = result_of s (wb_block_id r)"
    "sn_elapsed sn = elapsed_seconds r now"
proof -
  have "snapshot_for E r now s = snapshot_with_result E r now (result_of s (wb_block_id r)) s"
    by (simp add: snapshot_for_def result_def persist_gets andthen_gets result_of_def)
  then show thesis
    using that snapshot_eq [of E r now "result_of s (wb_block_id r)" s] by metis
qed

section \<open>Resume\<close>

lemma get_eq: "block_of s b = Some r \<Longrightarrow> persist (get b) s = (Inr r, s)"
  by (simp add: persist_def get_def block_of_def)

lemma block_of_id: "block_of s b = Some r \<Longrightarrow> wb_block_id r = b"
  by (auto simp: block_of_def find_Some_iff)

lemma block_of_mem: "block_of s b = Some r \<Longrightarrow> r \<in> set (t_work_block s)"
  by (auto simp: block_of_def find_Some_iff)

lemma update_eq:
  assumes "block_of s b = Some r" and "p (wb_phase r)" and "\<And>x. wb_block_id (f x) = wb_block_id x"
  shows "persist (update_work_block b p f) s = (Inr (), map_block b p f s)"
    and "block_of (map_block b p f s) b = Some (f r)"
proof -
  show "persist (update_work_block b p f) s = (Inr (), map_block b p f s)"
    using assms block_of_id [OF assms(1)] block_of_mem [OF assms(1)]
    by (auto simp: persist_def update_work_block_def block_matches_def)
  have "block_of (map_block b p f s) b =
      map_option (\<lambda>x. if wb_block_id x = b \<and> p (wb_phase x) then f x else x) (block_of s b)"
    unfolding block_of_def map_block_def by (simp add: find_map_key assms(3))
  then show "block_of (map_block b p f s) b = Some (f r)"
    using assms block_of_id [OF assms(1)] by simp
qed

definition resumed :: "work_block_record \<Rightarrow> instant \<Rightarrow> instant \<Rightarrow> work_block_record" where
  "resumed r p now = r\<lparr>wb_phase := Active, wb_paused_at := None,
     wb_total_paused := sat_add (wb_total_paused r) (positive_seconds (effective_now r now - p)),
     wb_updated_at := stored (effective_now r now)\<rparr>"

lemma resume_eq:
  assumes "block_of s b = Some r" and "wb_phase r = Paused" and "wb_paused_at r = Some p"
  obtains sn t where "resume E b now s = (Inr sn, t)" "sn_phase sn = Active"
    "block_of t b = Some (resumed r p now)" "deadline t = Some (planned_deadline (resumed r p now))"
proof -
  let ?f = "\<lambda>x. x\<lparr>wb_phase := Active, wb_paused_at := None,
     wb_total_paused := sat_add (wb_total_paused r) (positive_seconds (effective_now r now - p)),
     wb_updated_at := stored (effective_now r now)\<rparr>"
  let ?s = "map_block b (\<lambda>ph. ph = Paused) ?f s"
  let ?t = "?s\<lparr>deadline := Some (planned_deadline (resumed r p now))\<rparr>"
  have upd: "persist (update_work_block b (\<lambda>ph. ph = Paused) ?f) s = (Inr (), ?s)"
    and row: "block_of ?s b = Some (resumed r p now)"
    using update_eq [OF assms(1), of "\<lambda>ph. ph = Paused" ?f] assms(2) by (simp_all add: resumed_def)
  obtain sn dm where sn: "snapshot_for E (resumed r p now) (effective_now r now) ?t
      = (Inr sn, ?t\<lparr>t_demotion := dm\<rparr>)" "sn_phase sn = wb_phase (resumed r p now)"
    by (rule snapshot_for_eq)
  have "resume E b now s = (Inr sn, ?t\<lparr>t_demotion := dm\<rparr>)"
    using block_of_id [OF assms(1)] assms(2,3)
    by (simp add: resume_def require_def andthen_def get_eq [OF assms(1)] ret_def set_active_def upd
        Let_def get_eq [OF row] publish_deadline_def modify_def sn(1))
  moreover have "block_of (?t\<lparr>t_demotion := dm\<rparr>) b = Some (resumed r p now)"
    using row by (simp add: block_of_def)
  ultimately show thesis using that sn(2) by (simp add: resumed_def)
qed

lemma num_seconds_from_whole:
  assumes "NANOS dvd p" "p \<le> t"
  shows "num_seconds (t - p) = timestamp t - timestamp p"
proof -
  obtain k where p: "p = NANOS * k" using assms(1) by blast
  have "(t - NANOS * k) div NANOS = t div NANOS - k"
    by (metis add.commute NANOS_pos(3) diff_add_cancel div_mult_self2 add_diff_cancel_right')
  then show ?thesis using assms(2) by (simp add: num_seconds_def timestamp_def p)
qed

lemma positive_seconds_from_whole:
  assumes "NANOS dvd p" "p \<le> t" "timestamp t - timestamp p \<le> int u32_max"
  shows "int (positive_seconds (t - p)) = timestamp t - timestamp p"
  using assms timestamp_mono [OF assms(2)]
  by (simp add: positive_seconds_def num_seconds_from_whole)

lemma resumed_elapsed:
  assumes whole: "NANOS dvd wb_started_at r" "NANOS dvd p" and order: "wb_started_at r \<le> p" "p \<le> now"
    and upd: "wb_updated_at r \<le> now" and later: "now \<le> t"
    and paused: "int (wb_total_paused r) \<le> timestamp p - timestamp (wb_started_at r)"
    and fits: "timestamp t - timestamp (wb_started_at r) \<le> int u32_max"
    and ph: "wb_phase r = Paused" "wb_paused_at r = Some p"
  shows "int (elapsed_seconds (resumed r p now) t) =
     int (elapsed_seconds r now) + (timestamp t - timestamp now)"
proof -
  have ts: "timestamp (wb_started_at r) \<le> timestamp p" "timestamp p \<le> timestamp now"
    "timestamp now \<le> timestamp t"
    using order later by (simp_all add: timestamp_mono)
  have eff: "effective_now r now = now" using upd by (simp add: effective_now_def)
  have pause: "int (positive_seconds (now - p)) = timestamp now - timestamp p"
    using whole order ts fits by (intro positive_seconds_from_whole) linarith+
  have run: "int (positive_seconds (t - wb_started_at r)) = timestamp t - timestamp (wb_started_at r)"
    using whole order later fits by (intro positive_seconds_from_whole) linarith+
  have before: "int (positive_seconds (p - wb_started_at r)) = timestamp p - timestamp (wb_started_at r)"
    using whole order fits ts by (intro positive_seconds_from_whole) linarith+
  have total: "sat_add (wb_total_paused r) (positive_seconds (now - p))
      = wb_total_paused r + positive_seconds (now - p)"
    using pause paused ts fits by (intro sat_add_exact) linarith
  have "stored now \<le> t" using stored_le [of now] later by linarith
  then have "elapsed_seconds (resumed r p now) t =
      positive_seconds (t - wb_started_at r) - (wb_total_paused r + positive_seconds (now - p))"
    by (simp add: elapsed_seconds_def resumed_def effective_now_def [of "_\<lparr>wb_updated_at := _\<rparr>"]
        eff total max_def)
  moreover have "elapsed_seconds r now = positive_seconds (p - wb_started_at r) - wb_total_paused r"
    by (simp add: elapsed_seconds_def ph)
  ultimately show ?thesis
    using pause run before paused ts by linarith
qed

section \<open>Ending twice\<close>

lemma end_again:
  assumes "block_of s b = Some r" and "\<not> live (wb_phase r)" and "result_of s b = Some res"
  obtains sn dm where "end_block E b now s = (Inr sn, s\<lparr>t_demotion := dm\<rparr>)"
    "sn_result sn = Some res" "sn_phase sn = wb_phase r"
proof -
  have "end_block E b now s = snapshot_with_result E r now (Some res) s"
    using assms block_of_id [OF assms(1)]
    by (simp add: end_block_def andthen_def get_eq [OF assms(1)] result_def persist_gets
        gets_apply result_of_def)
  then show thesis
    using that snapshot_eq [of E r now "Some res" s] by metis
qed

end
