(* ===== verification/Block_Coverage.thy ===== *)
theory Block_Coverage
  imports Block_Evidence
begin

text \<open>
  Coverage is a measure. The merged spans are sorted, disjoint and cover exactly the
  instants of the reports; the two-pointer sweep over two such lists adds up the length
  of the intersection; so the covered seconds of a block are the time in which a
  confident report and an open ledger row overlap, counted once.
\<close>

section \<open>Spans as sets of instants\<close>

definition points :: "span list \<Rightarrow> instant set" where
  "points xs = (\<Union>(a, b) \<in> set xs. {a..<b})"

definition separated :: "span list \<Rightarrow> bool" where
  "separated xs \<longleftrightarrow> (\<forall>x \<in> set xs. fst x < snd x) \<and> sorted_wrt (\<lambda>x y. snd x < fst y) xs"

lemma points_simps [simp]:
  "points [] = {}" "points ((a, b) # xs) = {a..<b} \<union> points xs"
  "points (xs @ ys) = points xs \<union> points ys" "points (rev xs) = points xs"
  by (auto simp: points_def)

lemma mem_points: "t \<in> points xs \<longleftrightarrow> (\<exists>(a, b) \<in> set xs. a \<le> t \<and> t < b)"
  by (force simp: points_def)

lemma finite_points [simp]: "finite (points xs)"
  by (auto simp: points_def)

lemma separated_Cons:
  "separated ((a, b) # xs) \<longleftrightarrow> a < b \<and> (\<forall>y \<in> set xs. b < fst y) \<and> separated xs"
  by (auto simp: separated_def)

lemma separated_snoc:
  "separated (xs @ [(a, b)]) \<longleftrightarrow> separated xs \<and> a < b \<and> (\<forall>y \<in> set xs. snd y < a)"
  by (auto simp: separated_def sorted_wrt_append)

lemma merge_sorted_spec:
  assumes "separated (rev acc)" and "sorted xs" and "\<forall>x \<in> set xs. fst x < snd x"
    and "acc \<noteq> [] \<Longrightarrow> \<forall>x \<in> set xs. fst (hd acc) \<le> fst x"
  shows "separated (merge_sorted acc xs) \<and> points (merge_sorted acc xs) = points acc \<union> points xs"
  using assms
proof (induction acc xs rule: merge_sorted.induct)
  case (1 acc)
  then show ?case by simp
next
  case (2 a b xs)
  then have "\<forall>x \<in> set xs. a \<le> fst x" by (auto simp: less_eq_prod_def)
  with 2 have "separated (merge_sorted [(a, b)] xs) \<and>
      points (merge_sorted [(a, b)] xs) = points [(a, b)] \<union> points xs"
    by (intro "2.IH") (auto simp: separated_def)
  then show ?case by simp
next
  case (3 c d acc a b xs)
  have ca: "c \<le> a" using "3.prems"(4) by simp
  have ord: "\<forall>x \<in> set xs. a \<le> fst x" using "3.prems"(2) by (auto simp: less_eq_prod_def)
  show ?case
  proof (cases "a \<le> d")
    case True
    have "separated (merge_sorted ((c, max d b) # acc) xs) \<and>
        points (merge_sorted ((c, max d b) # acc) xs) = points ((c, max d b) # acc) \<union> points xs"
      using "3.prems" True ca ord
      by (intro "3.IH"(1)) (auto simp: separated_snoc)
    moreover have "{c..<max d b} = {c..<d} \<union> {a..<b}"
      using True ca "3.prems"(3) by auto
    ultimately show ?thesis using True by auto
  next
    case False
    have "separated (merge_sorted ((a, b) # (c, d) # acc) xs) \<and>
        points (merge_sorted ((a, b) # (c, d) # acc) xs) = points ((a, b) # (c, d) # acc) \<union> points xs"
      using "3.prems" False ord
      by (intro "3.IH"(2)) (auto simp: separated_def sorted_wrt_append)
    then show ?thesis using False by auto
  qed
qed

lemma merged_spans_spec:
  "separated (merged_spans spans from until)
   \<and> points (merged_spans spans from until) = points spans \<inter> {from..<until}"
proof -
  let ?c = "filter (\<lambda>(a, b). a < b) (map (\<lambda>(a, b). (max a from, min b until)) spans)"
  have "separated (merge_sorted [] (sort ?c)) \<and>
      points (merge_sorted [] (sort ?c)) = points [] \<union> points (sort ?c)"
    by (rule merge_sorted_spec) (auto simp: separated_def)
  moreover have "points (sort ?c) = points spans \<inter> {from..<until}"
    by (force simp: points_def)
  ultimately show ?thesis by (simp add: merged_spans_def)
qed

section \<open>The sweep measures the intersection\<close>

lemma separated_after: "separated ((a, b) # xs) \<Longrightarrow> t \<in> points xs \<Longrightarrow> b < t"
  by (force simp: separated_Cons mem_points)

function overlap_nanos :: "span list \<Rightarrow> span list \<Rightarrow> int" where
  "overlap_nanos [] ys = 0"
| "overlap_nanos (x # xs) [] = 0"
| "overlap_nanos ((a, b) # xs) ((c, d) # ys) =
     (if max a c < min b d then min b d - max a c else 0)
     + (if b < d then overlap_nanos xs ((c, d) # ys) else overlap_nanos ((a, b) # xs) ys)"
  by pat_completeness auto
termination
  by (relation "measure (\<lambda>(xs, ys). length xs + length ys)") auto

lemma card_slice: "int (card {x..<y}) = (if x < y then y - x else 0)" for x y :: int
  by simp

lemma card_slice_add:
  fixes x y :: int
  assumes "finite S" "{x..<y} \<inter> S = {}"
  shows "int (card ({x..<y} \<union> S)) = (if x < y then y - x else 0) + int (card S)"
  using assms card_slice [of x y] by (simp add: card_Un_disjoint del: card_atLeastLessThan_int)

lemma overlap_nanos_card:
  "separated xs \<Longrightarrow> separated ys \<Longrightarrow> overlap_nanos xs ys = int (card (points xs \<inter> points ys))"
proof (induction xs ys rule: overlap_nanos.induct)
  case (3 a b xs c d ys)
  have sep: "separated xs" "separated ys" using "3.prems" by (auto simp: separated_Cons)
  note after = separated_after [OF "3.prems"(1)] separated_after [OF "3.prems"(2)]
  let ?I = "{max a c..<min b d}"
  show ?case
  proof (cases "b < d")
    case True
    have "points ((a, b) # xs) \<inter> points ((c, d) # ys) = ?I \<union> (points xs \<inter> points ((c, d) # ys))"
      using after True by (auto dest: order.strict_trans) fastforce+
    moreover have "?I \<inter> (points xs \<inter> points ((c, d) # ys)) = {}"
      using after(1) by force
    ultimately show ?thesis
      using "3.IH"(1) [OF True sep(1) "3.prems"(2)] True
      by (simp only: overlap_nanos.simps card_slice_add finite_Int finite_points simp_thms if_True if_False)
  next
    case False
    have "points ((a, b) # xs) \<inter> points ((c, d) # ys) = ?I \<union> (points ((a, b) # xs) \<inter> points ys)"
      using after False by (auto dest: order.strict_trans) fastforce+
    moreover have "?I \<inter> (points ((a, b) # xs) \<inter> points ys) = {}"
      using after(2) by force
    ultimately show ?thesis
      using "3.IH"(2) [OF False "3.prems"(1) sep(2)] False
      by (simp only: overlap_nanos.simps card_slice_add finite_Int finite_points simp_thms if_True if_False)
  qed
qed auto

lemma num_seconds_floor: "0 \<le> d \<Longrightarrow> num_seconds d * NANOS \<le> d"
  by (simp add: num_seconds_def minus_mod_eq_div_mult [symmetric])

lemma num_seconds_whole: "NANOS dvd d \<Longrightarrow> num_seconds d * NANOS = d"
  by (auto simp: mult.commute elim!: dvdE)

lemma overlap_seconds_le: "overlap_seconds xs ys * NANOS \<le> overlap_nanos xs ys"
  by (induction xs ys rule: overlap_seconds.induct)
    (auto simp: distrib_right intro!: add_mono num_seconds_floor)

definition whole :: "span list \<Rightarrow> bool" where
  "whole xs \<longleftrightarrow> (\<forall>x \<in> set xs. NANOS dvd fst x \<and> NANOS dvd snd x)"

lemma overlap_seconds_whole:
  "whole xs \<Longrightarrow> whole ys \<Longrightarrow> overlap_seconds xs ys * NANOS = overlap_nanos xs ys"
proof (induction xs ys rule: overlap_seconds.induct)
  case (3 a b xs c d ys)
  have "NANOS dvd max a c" "NANOS dvd min b d"
    using "3.prems" by (auto simp: whole_def max_def min_def)
  then have "num_seconds (min b d - max a c) * NANOS = min b d - max a c"
    by (intro num_seconds_whole) simp
  moreover have "whole xs" "whole ys" "whole ((a, b) # xs)" "whole ((c, d) # ys)"
    using "3.prems" by (simp_all add: whole_def)
  ultimately show ?case using "3.IH" by (simp add: distrib_right)
qed auto

lemma overlap_seconds_nonneg: "0 \<le> overlap_seconds xs ys"
  by (induction xs ys rule: overlap_seconds.induct) (auto intro!: add_nonneg_nonneg num_seconds_nonneg)

lemma merge_sorted_whole: "whole acc \<Longrightarrow> whole xs \<Longrightarrow> whole (merge_sorted acc xs)"
  by (induction acc xs rule: merge_sorted.induct) (auto simp: whole_def max_def)

lemma merged_spans_whole:
  assumes "whole spans" "NANOS dvd from" "NANOS dvd until"
  shows "whole (merged_spans spans from until)"
  unfolding merged_spans_def
  by (rule merge_sorted_whole) (use assms in \<open>auto simp: whole_def max_def min_def\<close>)

section \<open>Covered time\<close>

text \<open>The instants of a block at which a confident report and a closed ledger row hold.\<close>

definition seen_at :: "reported_dwell list \<Rightarrow> instant \<Rightarrow> bool" where
  "seen_at reported t \<longleftrightarrow> (\<exists>d \<in> set reported.
     is_confident (rd_category d) (rd_status d) (rd_confidence d)
     \<and> rd_occurred_at d \<le> t \<and> t < rd_ended_at d)"

definition running_at :: "observation list \<Rightarrow> instant \<Rightarrow> bool" where
  "running_at obs t \<longleftrightarrow>
     (\<exists>ob \<in> set obs. \<exists>e. ob_ended_at ob = Some e \<and> ob_occurred_at ob \<le> t \<and> t < e)"

definition covered_instants ::
  "reported_dwell list \<Rightarrow> observation list \<Rightarrow> instant \<Rightarrow> instant \<Rightarrow> instant set" where
  "covered_instants reported obs started ended =
     {t. started \<le> t \<and> t < ended \<and> seen_at reported t \<and> running_at obs t}"

lemma points_seen: "t \<in> points (seen_spans reported) \<longleftrightarrow> seen_at reported t"
  by (auto simp: points_def seen_spans_def seen_at_def)

lemma set_running_spans:
  "x \<in> set (running_spans obs) \<longleftrightarrow>
     (\<exists>ob \<in> set obs. \<exists>e. ob_ended_at ob = Some e \<and> x = (ob_occurred_at ob, e))"
  by (auto simp: running_spans_def map_filter_def image_iff)

lemma points_running: "t \<in> points (running_spans obs) \<longleftrightarrow> running_at obs t"
proof -
  have "t \<in> points (running_spans obs) \<longleftrightarrow>
      (\<exists>x \<in> set (running_spans obs). fst x \<le> t \<and> t < snd x)"
    by (simp add: mem_points case_prod_beta)
  then show ?thesis
    unfolding Bex_def set_running_spans running_at_def by (auto; metis fst_conv snd_conv)
qed

lemma covered_instants_eq:
  "covered_instants reported obs started ended =
     points (merged_spans (seen_spans reported) started ended)
     \<inter> points (merged_spans (running_spans obs) started ended)"
  by (auto simp: covered_instants_def merged_spans_spec points_seen points_running)

lemma overlap_nanos_covered:
  "overlap_nanos (merged_spans (seen_spans reported) started ended)
     (merged_spans (running_spans obs) started ended)
   = int (card (covered_instants reported obs started ended))"
  unfolding covered_instants_eq
  by (rule overlap_nanos_card) (simp_all add: merged_spans_spec)

lemma coverage_le:
  "int (reported_coverage_seconds reported obs started ended) * NANOS
     \<le> int (card (covered_instants reported obs started ended))"
proof -
  let ?n = "overlap_seconds (merged_spans (seen_spans reported) started ended)
     (merged_spans (running_spans obs) started ended)"
  have "int (reported_coverage_seconds reported obs started ended) \<le> ?n"
    using overlap_seconds_nonneg by (simp add: reported_coverage_seconds_def)
  then have "int (reported_coverage_seconds reported obs started ended) * NANOS \<le> ?n * NANOS"
    by (simp add: NANOS_def)
  also have "\<dots> \<le> int (card (covered_instants reported obs started ended))"
    using overlap_seconds_le overlap_nanos_covered by metis
  finally show ?thesis .
qed

lemma coverage_exact:
  assumes "whole (seen_spans reported)" "whole (running_spans obs)"
    and "NANOS dvd started" "NANOS dvd ended"
    and "int (card (covered_instants reported obs started ended)) \<le> int u32_max * NANOS"
  shows "int (reported_coverage_seconds reported obs started ended) * NANOS
     = int (card (covered_instants reported obs started ended))"
proof -
  let ?n = "overlap_seconds (merged_spans (seen_spans reported) started ended)
     (merged_spans (running_spans obs) started ended)"
  have eq: "?n * NANOS = int (card (covered_instants reported obs started ended))"
    unfolding overlap_nanos_covered [symmetric]
    by (rule overlap_seconds_whole) (use assms in \<open>simp_all add: merged_spans_whole\<close>)
  with assms(5) have "?n \<le> int u32_max" by (simp add: NANOS_def)
  then show ?thesis
    using eq overlap_seconds_nonneg by (simp add: reported_coverage_seconds_def)
qed

lemma covered_le_span:
  "int (card (covered_instants reported obs started ended)) \<le> max 0 (ended - started)"
proof -
  have "card (covered_instants reported obs started ended) \<le> card {started..<ended}"
    by (rule card_mono) (auto simp: covered_instants_def)
  then show ?thesis by simp
qed

section \<open>Departures and returns of a finished block\<close>

definition agg_inv :: "agg \<Rightarrow> bool" where
  "agg_inv g \<longleftrightarrow> ag_aways g = (if ag_away g then sat_add (ag_recoveries g) 1 else ag_recoveries g)
     \<and> ag_recoveries g \<le> u32_max \<and> (ag_away g \<longrightarrow> ag_seen g)"

lemma agg_step_inv: "agg_inv g \<Longrightarrow> agg_inv (agg_step (Some d) g e)"
  by (auto simp: agg_inv_def agg_step_def agg_anchor_def agg_run_def Let_def sat_add_mono)

lemma agg_fold_inv: "agg_inv g \<Longrightarrow> agg_inv (foldl (agg_step (Some d)) g ev)"
  by (induction ev arbitrary: g) (simp_all add: agg_step_inv)

lemma agg_fold_seen:
  "ag_seen (foldl (agg_step (Some d)) g ev) \<longleftrightarrow> ag_seen g \<or> d \<in> fst ` set ev"
  by (induction ev arbitrary: g)
    (auto simp: agg_step_def agg_anchor_def agg_run_def Let_def)

lemma agg_fold_away:
  assumes "agg_inv g" and "d \<in> fst ` set ev \<or> ag_seen g" and "ev \<noteq> []"
  shows "ag_away (foldl (agg_step (Some d)) g ev) \<longleftrightarrow> fst (last ev) \<noteq> d"
proof -
  obtain e init where ev: "ev = init @ [e]" using assms(3) by (cases ev rule: rev_cases) auto
  let ?g = "foldl (agg_step (Some d)) g init"
  have "agg_inv ?g" by (rule agg_fold_inv) (rule assms(1))
  moreover have "fst e \<noteq> d \<Longrightarrow> ag_seen ?g"
    using assms(2) by (auto simp: ev agg_fold_seen)
  ultimately show ?thesis
    by (auto simp: ev agg_step_def agg_anchor_def agg_run_def Let_def agg_inv_def)
qed

end
