(* ===== verification/Block_Properties.thy ===== *)
theory Block_Properties
  imports Block_Commands Block_Coverage
begin

text \<open>
  The properties of the work-block subsystem, with the concrete states their witnesses
  are applied to.
\<close>

section \<open>Concrete states\<close>

definition sample_env :: wb_env where
  "sample_env = \<lparr>env_focus = (\<lambda>_. False), env_block_id = ''b2'', env_decision_id = ''d1'',
     env_parse_uuid = Some\<rparr>"

definition sample_block :: work_block_record where
  "sample_block = \<lparr>wb_block_id = ''b1'', wb_phase = Active, wb_intention = None,
     wb_purpose = Some DeepWork, wb_intensity = LightIntensity, wb_planned = 1500,
     wb_started_at = 0, wb_paused_at = None, wb_total_paused = 0, wb_ended_at = None,
     wb_recovered = False, wb_recovery_of = None, wb_origin = Manual,
     wb_intention_expires_at = seconds 86400, wb_updated_at = seconds 700\<rparr>"

definition dwell :: "int \<Rightarrow> int \<Rightarrow> string \<Rightarrow> observation" where
  "dwell a b c = \<lparr>ob_occurred_at = seconds a, ob_ended_at = Some (seconds b), ob_category = c,
     ob_status = Classified, ob_confidence = High\<rparr>"

definition sample_rows :: "observation list" where
  "sample_rows = [dwell 0 400 ''DEVELOPMENT'', dwell 400 430 ''SOCIAL'',
     dwell 430 500 ''DEVELOPMENT'', dwell 500 520 ''SOCIAL'', dwell 520 600 ''DEVELOPMENT'',
     dwell 600 700 ''SOCIAL'']"

definition sample_store :: wb_state where
  "sample_store = empty_store\<lparr>t_work_block := [sample_block],
     t_observation := map (Pair ''b1'') sample_rows\<rparr>"

definition sample_offer :: intervention where
  "sample_offer = offer_row ''DEVELOPMENT'' 3 0 Offered None Normal"

definition offered_store :: wb_state where
  "offered_store = sample_store\<lparr>t_intervention := [(''b1'', sample_offer)]\<rparr>"

section \<open>The tables stay consistent\<close>

text \<open>
  C1: Whatever sequence of commands runs from an empty database, with whatever clock
  readings, identifiers and Focus answers, the tables satisfy the structural invariant:
  block ids are distinct, at most the newest block is live, a block is live exactly
  while it has no result, the pause and end instants are set exactly in the phases that
  carry them, no block has two offers, two results or two open observations, and every
  dependent row belongs to a stored block.
\<close>

theorem tables_stay_consistent: "wb_inv (fold exec cs empty_store)"
  by (rule run_inv) (rule wb_inv_empty)

text \<open>
  C2: An offer is made once and answered once. As long as the data is not cleared, an
  offer keeps its block, its evidence and its salience through every later command; once
  it has an outcome that outcome and its instant are never rewritten, and the first
  sighting of its card is the one kept.
\<close>

theorem offer_outcome_is_final:
  assumes "CClear \<notin> snd ` set cs" and "intervention_of s b = Some i"
  shows "\<exists>j. intervention_of (fold exec cs s) b = Some j \<and> offer_le i j"
  using offers.history [OF assms(1)] assms(2) by (rule forwardD)

theorem offer_outcome_is_final_witness:
  "\<exists>j. intervention_of (fold exec
      [(sample_env, CReport ''b1'' RespDismissed (seconds 800)),
       (sample_env, CReport ''b1'' RespAcceptedAction (seconds 801))] offered_store) ''b1'' = Some j
     \<and> offer_le sample_offer j"
  by (rule offer_outcome_is_final)
    (simp_all add: intervention_of_def offered_store_def)

text \<open>
  C3: A finished block is history. As long as the data is not cleared, no later command
  changes the phase, the end, the pause total or the start parameters of a block that has
  ended, nor the result that was stored for it; its intention can only be forgotten.
\<close>

theorem finished_block_is_frozen:
  assumes "CClear \<notin> snd ` set cs" and "block_of s b = Some r" and "\<not> live (wb_phase r)"
    and "result_of s b = Some res"
  shows "result_of (fold exec cs s) b = Some res
     \<and> (\<exists>q. block_of (fold exec cs s) b = Some q \<and> block_le r q \<and> wb_phase q = wb_phase r
           \<and> wb_ended_at q = wb_ended_at r \<and> wb_total_paused q = wb_total_paused r)"
proof -
  have "result_of (fold exec cs s) b = Some res"
    using forwardD [OF results.history [OF assms(1)] assms(4)] by auto
  moreover obtain q where "block_of (fold exec cs s) b = Some q" "block_le r q"
    using forwardD [OF blocks.history [OF assms(1)] assms(2)] by auto
  ultimately show ?thesis
    using assms(3) by (auto simp: block_le_def)
qed

definition ended_block :: work_block_record where
  "ended_block = sample_block\<lparr>wb_phase := Abandoned, wb_ended_at := Some (seconds 700)\<rparr>"

definition ended_result :: block_result where
  "ended_result = aggregate_result sample_block Abandoned 700 sample_rows 700"

definition ended_store :: wb_state where
  "ended_store = sample_store\<lparr>t_work_block := [ended_block], t_result := [(''b1'', ended_result)]\<rparr>"

theorem finished_block_is_frozen_witness:
  "result_of (fold exec [(sample_env, CEnd ''b1'' (seconds 900)),
      (sample_env, CResume ''b1'' (seconds 950))] ended_store) ''b1'' = Some ended_result"
  by (rule finished_block_is_frozen [where r = ended_block, THEN conjunct1])
    (simp_all add: ended_store_def block_of_def result_of_def ended_block_def sample_block_def
      live_def)

section \<open>The drift gate\<close>

text \<open>
  C4: Every pass through the drift gate logs exactly one decision, and the log tells the
  truth: the verdict logged is the one the stored evidence, the clock, the backoff, the
  demotion rule and Focus determine; an offer is returned exactly when that verdict is
  \<open>Offered\<close>; and an intervention row (offered, held by Focus or withheld by demotion) is
  written exactly for the three verdicts that decided on one. The pass never fails.
\<close>

theorem drift_gate_logs_its_decision:
  assumes "block_exists s (wb_block_id r)" and "decision_of s (env_decision_id E) = None"
    and "categories_named s"
  shows "passed E r now s (drift_verdict (env_focus E) s r now) (evaluate_drift E r now s)"
  using assms by (rule evaluate_drift_passed)

lemmas sample_defs = sample_store_def sample_block_def empty_store_def sample_rows_def dwell_def
  sample_env_def

lemma sample_exists: "block_exists sample_store (wb_block_id sample_block)"
  by (simp add: block_exists_def sample_defs)

lemma sample_fresh: "decision_of sample_store (env_decision_id sample_env) = None"
  by (simp add: decision_of_def sample_defs)

lemma sample_named: "categories_named sample_store"
  by (simp add: categories_named_def sample_defs)

theorem drift_gate_logs_its_decision_witness:
  "passed sample_env sample_block (seconds 700) sample_store
     (drift_verdict (env_focus sample_env) sample_store sample_block (seconds 700))
     (evaluate_drift sample_env sample_block (seconds 700) sample_store)"
  by (rule drift_gate_logs_its_decision [OF sample_exists sample_fresh sample_named])

text \<open>
  C5: An offer is made exactly when every gate is clear: the block has run three minutes
  and has two left, it has had no offer, no cooldown is running, there is an anchor, the
  person left it at least three times in the last ten minutes and is away from it now,
  the demotion rule does not hold and Focus is off.
\<close>

theorem drift_offer_iff:
  assumes "block_exists s (wb_block_id r)" and "decision_of s (env_decision_id E) = None"
    and "categories_named s"
  shows "(\<exists>di t. evaluate_drift E r now s = (Inr (Some di), t)) \<longleftrightarrow>
     180 \<le> elapsed_seconds r now \<and> 120 \<le> wb_planned r - elapsed_seconds r now
     \<and> intervention_of s (wb_block_id r) = None
     \<and> \<not> bo_suppressed (backoff_of (recent_offers s) now)
     \<and> (\<exists>anchor prev n. dominant_category (ordered_observations s (wb_block_id r)) = Some anchor
          \<and> count_departures anchor (ordered_observations s (wb_block_id r)) (now - seconds 600)
              = (prev, n)
          \<and> 3 \<le> n \<and> prev \<noteq> Some True)
     \<and> \<not> demoted s now \<and> \<not> env_focus E now"
proof -
  obtain g a n where v: "drift_verdict (env_focus E) s r now = (g, a, n)"
    by (metis prod_cases3)
  have "passed E r now s (g, a, n) (evaluate_drift E r now s)"
    using evaluate_drift_passed [OF assms, of now] by (simp add: v)
  then have "(\<exists>di t. evaluate_drift E r now s = (Inr (Some di), t)) \<longleftrightarrow> g = VerdictOffered"
    by (auto simp: passed_def split: prod.splits sum.splits)
  also have "\<dots> \<longleftrightarrow> fst (drift_verdict (env_focus E) s r now) = VerdictOffered"
    by (simp add: v)
  finally show ?thesis
    unfolding drift_verdict_def evidence_verdict_def Let_def policy_defs window_start_def
    by (auto split: option.splits prod.splits if_splits)
qed

lemma sample_confident:
  "is_confident_evidence (dwell a b ''DEVELOPMENT'')" "is_confident_evidence (dwell a b ''SOCIAL'')"
  by (simp_all add: is_confident_evidence_def is_confident_def dwell_def) code_simp+

lemma sample_evidence:
  "evidence_seconds sample_rows = [(''DEVELOPMENT'', 400), (''SOCIAL'', 30), (''DEVELOPMENT'', 70),
     (''SOCIAL'', 20), (''DEVELOPMENT'', 80), (''SOCIAL'', 100)]"
proof -
  have "positive_seconds (seconds b - seconds a) = nat (b - a)"
    if "a \<le> b" "b \<le> 1000" "0 \<le> a" for a b
    using that by (simp add: positive_seconds_def seconds_def left_diff_distrib [symmetric] u32_max_def)
  then show ?thesis
    by (simp add: evidence_seconds_def sample_rows_def map_filter_simps sample_confident)
      (simp add: dwell_def sample_confident [unfolded dwell_def])
qed

lemma sample_anchor: "dominant_category sample_rows = Some ''DEVELOPMENT''"
  by (simp add: dominant_category_def sample_evidence category_table_def sat_add_def u32_max_def
      best_category_def better_def)

lemma sample_departures:
  "count_departures ''DEVELOPMENT'' sample_rows (seconds 700 - seconds 600) = (Some False, 3)"
proof -
  have same: "eq_ignore_ascii_case ''DEVELOPMENT'' ''DEVELOPMENT''" by simp
  have other: "\<not> eq_ignore_ascii_case ''SOCIAL'' ''DEVELOPMENT''" by code_simp
  have time: "ob_occurred_at (dwell a b c) = seconds a" "ob_category (dwell a b c) = c" for a b c
    by (simp_all add: dwell_def)
  show ?thesis
    unfolding count_departures_def seed_previous_def sample_rows_def
    by (simp add: time sample_confident seconds_def NANOS_def departure_step_def same other
        sat_add_def u32_max_def Let_def)
qed

theorem drift_offer_iff_witness:
  "\<exists>di t. evaluate_drift sample_env sample_block (seconds 700) sample_store = (Inr (Some di), t)"
proof -
  have "ordered_observations sample_store (wb_block_id sample_block) = sample_rows"
    by (simp add: ordered_observations_def block_observations_def sample_defs seconds_def NANOS_def)
  moreover have "elapsed_seconds sample_block (seconds 700) = 700"
    by (simp add: elapsed_seconds_def effective_now_def sample_block_def positive_seconds_def
        seconds_def u32_max_def)
  moreover have "\<not> bo_suppressed (backoff_of (recent_offers sample_store) (seconds 700))"
    by (simp add: backoff_of_def recent_offers_def sample_defs)
  moreover have "\<not> demoted sample_store (seconds 700)"
    by (simp add: demoted_def demotion_counts_def counts_between_def over_threshold_def sample_defs
        policy_defs)
  moreover have "intervention_of sample_store (wb_block_id sample_block) = None"
    "wb_planned sample_block = 1500" "\<not> env_focus sample_env (seconds 700)"
    by (simp_all add: intervention_of_def sample_defs)
  ultimately show ?thesis
    by (subst drift_offer_iff [OF sample_exists sample_fresh sample_named])
      (simp add: sample_anchor sample_departures)
qed

section \<open>Backoff and demotion\<close>

text \<open>
  After a run of \<open>n\<close> negative answers, the newest of them given at \<open>t\<close>, no offer is
  made before \<open>t\<close> plus two hours doubled \<open>n - 1\<close> times, capped at a day, and the next one
  is quiet. The run is the unbroken sequence of negative outcomes at the head of the
  answered offers.
\<close>

theorem backoff_cooldown:
  assumes "filter (\<lambda>i. is_terminal (iv_outcome i)) recent = (i # negs) @ rest"
    and "list_all (\<lambda>i. is_negative (iv_outcome i)) (i # negs)"
    and "rest = [] \<or> \<not> is_negative (iv_outcome (hd rest))"
    and "length recent \<le> BACKOFF_HISTORY_LIMIT"
  shows "backoff_of recent now =
     \<lparr>bo_suppressed =
        (now < answered_at i + seconds (min (7200 * 2 ^ length negs) 86400)),
      bo_salience = Quiet\<rparr>"
proof -
  have "length (filter (\<lambda>i. is_terminal (iv_outcome i)) recent) \<le> 20"
    by (rule le_trans [OF length_filter_le]) (use assms(4) in \<open>simp add: policy_defs\<close>)
  then have "length negs < u32_max"
    by (simp add: assms(1) u32_max_def)
  then have "backoff_loop 0 None (i # negs @ rest) = (Suc (length negs), Some (answered_at i))"
    using assms(2,3) by (intro backoff_loop_first) (auto simp: list_all_iff)
  then show ?thesis
    by (simp add: backoff_of_def assms(1) cooldown_closed_form)
qed

definition declined :: "int \<Rightarrow> intervention" where
  "declined t = (offer_row ''DEVELOPMENT'' 3 (seconds t) Dismissed (Some (seconds t)) Normal)"

theorem backoff_cooldown_witness:
  "backoff_of [declined 9000, declined 1000] (seconds 10000) =
     \<lparr>bo_suppressed = (seconds 10000 < seconds 9000 + seconds 14400), bo_salience = Quiet\<rparr>"
  using backoff_cooldown [of "[declined 9000, declined 1000]" "declined 9000" "[declined 1000]" "[]"
      "seconds 10000"]
  by (simp add: declined_def offer_row_def is_terminal_def is_negative_def answered_at_def policy_defs)

text \<open>
  A decision that was held by Focus or withheld by demotion, like one that got no
  response, ends the run of negative answers. While such a row is the newest answered
  offer there is no cooldown and offers are at full salience, whatever was answered
  before it.
\<close>

theorem neutral_row_lifts_backoff:
  assumes "filter (\<lambda>i. is_terminal (iv_outcome i)) recent = i # rest"
    and "iv_outcome i \<in> {DeliverySuppressedDnd, WithheldDemotion, NoResponse}"
  shows "backoff_of recent now = \<lparr>bo_suppressed = False, bo_salience = Normal\<rparr>"
  using assms by (auto simp: backoff_of_def is_negative_def)

theorem neutral_row_lifts_backoff_witness:
  "backoff_of [(declined 9000)\<lparr>iv_outcome := DeliverySuppressedDnd\<rparr>, declined 8999] (seconds 9001)
     = \<lparr>bo_suppressed = False, bo_salience = Normal\<rparr>"
  by (rule neutral_row_lifts_backoff
      [where i = "(declined 9000)\<lparr>iv_outcome := DeliverySuppressedDnd\<rparr>" and rest = "[declined 8999]"])
    (simp_all add: declined_def offer_row_def is_terminal_def)

text \<open>
  The reference for the demotion rule: the offers of the last fourteen days, none of them from
  before a manual reset, counted off the table by what became of them.
\<close>

definition recent_offer :: "wb_state \<Rightarrow> instant \<Rightarrow> intervention \<Rightarrow> bool" where
  "recent_offer s now i \<longleftrightarrow> timestamp now - 14 * 86400 \<le> timestamp (iv_offered_at i)
     \<and> (case Option.bind (t_demotion s) dm_manual_reset_at of None \<Rightarrow> True
        | Some r \<Rightarrow> timestamp r \<le> timestamp (iv_offered_at i))"

definition recent_offers_that :: "(intervention_outcome \<Rightarrow> bool) \<Rightarrow> wb_state \<Rightarrow> instant \<Rightarrow> nat" where
  "recent_offers_that P s now =
     length (filter (\<lambda>(b, i). recent_offer s now i \<and> P (iv_outcome i)) (t_intervention s))"

definition was_delivered :: "intervention_outcome \<Rightarrow> bool" where
  "was_delivered oc \<longleftrightarrow> oc \<noteq> DeliverySuppressedDnd \<and> oc \<noteq> WithheldDemotion"

lemma demotion_window:
  "timestamp (demotion_since (t_demotion s) now) \<le> timestamp (iv_offered_at i) \<longleftrightarrow> recent_offer s now i"
proof -
  have "timestamp (now - seconds (14 * 86400)) = timestamp now - 14 * 86400"
    using div_mult_self1 [of NANOS now "- (14 * 86400)"] by (simp add: timestamp_def seconds_def NANOS_def)
  moreover have "timestamp (max a b) = max (timestamp a) (timestamp b)" for a b
    using timestamp_mono [of a b] timestamp_mono [of b a] by (auto simp: max_def)
  ultimately show ?thesis
    by (auto simp: demotion_since_def recent_offer_def Let_def policy_defs split: option.splits)
qed

lemma demotion_counts_eq:
  "demotion_counts s now = \<lparr>delivered = recent_offers_that was_delivered s now,
     was_focused = recent_offers_that (\<lambda>oc. oc = WasFocused) s now\<rparr>"
  by (simp add: demotion_counts_def counts_between_def demotion_window recent_offers_that_def was_delivered_def
      Let_def filter_map filter_filter o_def case_prod_unfold)

lemma demotion_is_stored:
  assumes "evaluate_demotion now s = (Inr ev, t)"
  shows "map_option dm_state (t_demotion t) = Some (de_state ev)"
  using assms unfolding evaluate_demotion_def demotion_state_def wrong_intervention_counts_def
    Let_def persist_gets andthen_gets
  by (auto simp: set_demotion_state_def op_defs persist_def split: if_splits)

text \<open>
  C7: The demotion rule. Evaluating it never fails, touches nothing but its own record, and
  stores and reports \<open>Demoted\<close> exactly when at least ten of the offers of the last fourteen days
  that follow the last manual reset were delivered, and more than fifteen percent of those were
  answered "was focused"; an offer suppressed by Do Not Disturb or withheld counts for neither.
\<close>

theorem demotion_rule:
  fixes s now
  defines "shown \<equiv> recent_offers_that was_delivered s now"
    and "focused \<equiv> recent_offers_that (\<lambda>oc. oc = WasFocused) s now"
  assumes few: "shown \<le> 42949672"
  shows "\<exists>ev dm. evaluate_demotion now s = (Inr ev, s\<lparr>t_demotion := Some dm\<rparr>) \<and> dm_state dm = de_state ev
     \<and> (de_state ev = DemotionDemoted \<longleftrightarrow> 10 \<le> shown \<and> 15 * shown < 100 * focused)"
proof -
  have counts: "demotion_counts s now = \<lparr>delivered = shown, was_focused = focused\<rparr>"
    unfolding shown_def focused_def by (rule demotion_counts_eq)
  have "focused \<le> shown"
    unfolding shown_def focused_def recent_offers_that_def
    by (intro length_filter_implies) (auto simp: was_delivered_def)
  then have "demoted s now \<longleftrightarrow> 10 \<le> shown \<and> 15 * shown < 100 * focused"
    using few by (auto simp: demoted_def counts over_threshold_def sat_mul_def u32_max_def policy_defs)
  moreover obtain ev dm where ev: "evaluate_demotion now s = (Inr ev, s\<lparr>t_demotion := dm\<rparr>)"
    "de_state ev = (if demoted s now then DemotionDemoted else DemotionActive)"
    by (rule evaluate_demotion_eq)
  moreover have "map_option dm_state dm = Some (de_state ev)"
    using demotion_is_stored [OF ev(1)] by simp
  ultimately show ?thesis by auto
qed

definition focused_store :: wb_state where
  "focused_store = empty_store\<lparr>t_intervention :=
     map (\<lambda>k. (''b'' @ nat_str k, (declined 1000)\<lparr>iv_outcome := (if k < 2 then WasFocused else Returned)\<rparr>))
       [0..<10]\<rparr>"

theorem demotion_rule_witness:
  "\<exists>ev dm. evaluate_demotion (seconds 2000) focused_store = (Inr ev, focused_store\<lparr>t_demotion := Some dm\<rparr>)
     \<and> de_state ev = DemotionDemoted"
proof -
  have "recent_offers_that was_delivered focused_store (seconds 2000) = 10"
    "recent_offers_that (\<lambda>oc. oc = WasFocused) focused_store (seconds 2000) = 2"
    by (simp_all add: recent_offers_that_def recent_offer_def was_delivered_def focused_store_def
        empty_store_def declined_def offer_row_def timestamp_def seconds_def upt_rec NANOS_def)
  then show ?thesis using demotion_rule [of focused_store "seconds 2000"] by auto
qed

text \<open>
  Resuming after a demotion. A manual reset never fails, leaves the recorded offers
  as they are, and reports \<open>Active\<close> unless ten offers were recorded at or after the
  second of the reset.
\<close>

theorem reset_restarts_the_window:
  assumes "length (filter (\<lambda>x. timestamp now \<le> timestamp (iv_offered_at (snd x))) (t_intervention s)) < 10"
  shows "\<exists>p t. reset_demotion now s = (Inr p, t) \<and> dp_state p = DemotionActive
     \<and> dp_disclosure p = None \<and> t_intervention t = t_intervention s"
proof -
  let ?dm = "\<lparr>dm_state = DemotionActive, dm_demoted_at = None, dm_manual_reset_at = Some (stored now),
     dm_threshold_version = DEMOTION_THRESHOLD_POLICY_VERSION,
     dm_repromotion_version = DEMOTION_REPROMOTION_POLICY_VERSION, dm_updated_at = stored now\<rparr>"
  let ?s = "s\<lparr>t_demotion := Some ?dm\<rparr>"
  let ?since = "timestamp (demotion_since (Some ?dm) now)"
  have since: "timestamp now \<le> ?since"
    by (simp add: demotion_since_def Let_def)
      (metis max.cobounded2 timestamp_mono timestamp_stored)
  have "delivered (demotion_counts ?s now)
      \<le> length (filter (\<lambda>i. ?since \<le> timestamp (iv_offered_at i)) (map snd (t_intervention s)))"
    by (auto simp: demotion_counts_def counts_between_def Let_def filter_filter
        intro!: length_filter_implies simp del: filter_map)
  also have "\<dots> = length (filter (\<lambda>x. ?since \<le> timestamp (iv_offered_at (snd x))) (t_intervention s))"
    by (simp add: filter_map o_def)
  also have "\<dots> \<le> length (filter (\<lambda>x. timestamp now \<le> timestamp (iv_offered_at (snd x))) (t_intervention s))"
    using since by (intro length_filter_implies) auto
  finally have "\<not> demoted ?s now"
    using assms by (simp add: demoted_def over_threshold_def policy_defs)
  then obtain ev dm where "evaluate_demotion now ?s = (Inr ev, ?s\<lparr>t_demotion := dm\<rparr>)"
    "de_state ev = DemotionActive"
    using evaluate_demotion_eq [of now ?s] by metis
  then show ?thesis
    by (simp add: reset_demotion_def demotion_state_payload_def set_demotion_state_def andthen_def
        persist_def modify_def ret_def Let_def)
qed

theorem reset_restarts_the_window_witness:
  "\<exists>p t. reset_demotion (seconds 2000) focused_store = (Inr p, t) \<and> dp_state p = DemotionActive"
proof -
  have "filter (\<lambda>x. timestamp (seconds 2000) \<le> timestamp (iv_offered_at (snd x)))
      (t_intervention focused_store) = []"
    by (simp add: focused_store_def empty_store_def declined_def offer_row_def timestamp_def
        seconds_def filter_empty_conv)
  then show ?thesis using reset_restarts_the_window [of "seconds 2000" focused_store] by auto
qed

section \<open>What a result says\<close>

text \<open>
  Coverage never exceeds what was seen. The covered seconds of a block are at most
  the measure of the instants, within the block, at which both a confident report and a
  closed ledger row hold; overlapping reports count once, and the total is at most the
  length of the block.
\<close>

theorem coverage_counts_only_what_was_seen:
  "int (reported_coverage_seconds reported obs started ended) * NANOS
      \<le> int (card {t. started \<le> t \<and> t < ended \<and> seen_at reported t \<and> running_at obs t})
   \<and> int (reported_coverage_seconds reported obs started ended) * NANOS \<le> max 0 (ended - started)"
  using coverage_le [of reported obs started ended] covered_le_span [of reported obs started ended]
  unfolding covered_instants_def by linarith

text \<open>
  C6: On whole seconds, the resolution the database stores, coverage is exact: the covered
  seconds are the measure of the instants at which a confident report and a closed ledger
  row both hold.
\<close>

theorem coverage_is_exact_on_stored_instants:
  assumes "list_all (\<lambda>d. NANOS dvd rd_occurred_at d) reported"
    and "list_all (\<lambda>ob. NANOS dvd ob_occurred_at ob
           \<and> (case ob_ended_at ob of None \<Rightarrow> True | Some e \<Rightarrow> NANOS dvd e)) obs"
    and "NANOS dvd started" and "NANOS dvd ended" and "ended - started \<le> int u32_max * NANOS"
  shows "int (reported_coverage_seconds reported obs started ended) * NANOS
      = int (card {t. started \<le> t \<and> t < ended \<and> seen_at reported t \<and> running_at obs t})"
  unfolding covered_instants_def [symmetric]
proof (rule coverage_exact)
  show "whole (seen_spans reported)"
    using assms(1) by (auto simp: whole_def seen_spans_def rd_ended_at_def seconds_def list_all_iff)
  show "whole (running_spans obs)"
    using assms(2) by (auto simp: whole_def set_running_spans list_all_iff split: option.splits)
  have "0 \<le> int u32_max * NANOS" by simp
  then show "int (card (covered_instants reported obs started ended)) \<le> int u32_max * NANOS"
    using covered_le_span [of reported obs started ended] assms(5) by linarith
qed (rule assms)+

theorem coverage_is_exact_on_stored_instants_witness:
  "int (reported_coverage_seconds [\<lparr>rd_occurred_at = seconds 10, rd_duration_seconds = 60,
       rd_category = ''SOCIAL'', rd_status = Classified, rd_confidence = High\<rparr>]
       sample_rows 0 (seconds 700)) * NANOS
   = int (card {t. 0 \<le> t \<and> t < seconds 700
       \<and> seen_at [\<lparr>rd_occurred_at = seconds 10, rd_duration_seconds = 60,
            rd_category = ''SOCIAL'', rd_status = Classified, rd_confidence = High\<rparr>] t
       \<and> running_at sample_rows t})"
  by (rule coverage_is_exact_on_stored_instants)
    (simp_all add: sample_rows_def dwell_def seconds_def u32_max_def NANOS_def)

text \<open>
  The anchor is the category with the most confidently observed time, and equal
  times are decided by the name, so the choice is independent of the order in which the
  categories are tabulated: any other observed category has less time, or the same time
  and a later name. There is an anchor exactly when some confident row has closed.
\<close>

theorem anchor_is_the_most_observed:
  "(dominant_category obs = None \<longleftrightarrow> evidence_seconds obs = [])
   \<and> (\<forall>a. dominant_category obs = Some a \<longrightarrow>
        a \<in> fst ` set (evidence_seconds obs)
        \<and> (\<forall>c \<in> fst ` set (evidence_seconds obs).
             min (total_seconds (evidence_seconds obs) c) u32_max
               < min (total_seconds (evidence_seconds obs) a) u32_max
             \<or> (min (total_seconds (evidence_seconds obs) c) u32_max
                 = min (total_seconds (evidence_seconds obs) a) u32_max \<and> a \<le> c)))"
proof -
  let ?ev = "evidence_seconds obs"
  let ?t = "category_table ?ev"
  have some: "a \<in> fst ` set ?ev \<and> (\<forall>c \<in> fst ` set ?ev.
      beats (a, min (total_seconds ?ev a) u32_max) (c, min (total_seconds ?ev c) u32_max))"
    if dom: "dominant_category obs = Some a" for a
  proof -
    obtain n where n: "(a, n) \<in> set ?t" "\<forall>y \<in> set ?t. beats (a, n) y"
      using best_category_spec dom unfolding dominant_category_def by blast
    then show ?thesis by (auto simp: category_table_entry)
  qed
  show ?thesis
    using dominant_category_None [of obs] some unfolding beats_def fst_conv snd_conv by blast
qed

theorem anchor_is_the_most_observed_witness:
  "dominant_category sample_rows = Some ''DEVELOPMENT''
   \<and> total_seconds (evidence_seconds sample_rows) ''SOCIAL''
       \<le> total_seconds (evidence_seconds sample_rows) ''DEVELOPMENT''"
proof -
  have "''SOCIAL'' \<in> fst ` set (evidence_seconds sample_rows)"
    by (simp add: sample_evidence)
  then have "min (total_seconds (evidence_seconds sample_rows) ''SOCIAL'') u32_max
      \<le> min (total_seconds (evidence_seconds sample_rows) ''DEVELOPMENT'') u32_max"
    using anchor_is_the_most_observed [of sample_rows] sample_anchor by fastforce
  moreover have "total_seconds (evidence_seconds sample_rows) c \<le> u32_max" for c
    by (simp add: sample_evidence total_seconds_def u32_max_def)
  ultimately show ?thesis by (simp add: sample_anchor min_absorb1)
qed

text \<open>
  Departures and returns pair up. In the result of a block with evidence, the person
  came back from every departure, or from every departure but the last; which of the two
  is decided by whether the last confident evidence is the anchor.
\<close>

theorem departures_and_returns_pair_up:
  assumes "evidence_seconds obs \<noteq> []"
  shows "rs_switch_aways (aggregate_result r phase elapsed obs covered) =
     (if Some (fst (last (evidence_seconds obs))) = dominant_category obs
      then rs_recoveries (aggregate_result r phase elapsed obs covered)
      else sat_add (rs_recoveries (aggregate_result r phase elapsed obs covered)) 1)"
proof -
  let ?ev = "evidence_seconds obs"
  obtain d where d: "dominant_category obs = Some d"
    using assms dominant_category_None [of obs] by blast
  let ?g = "foldl (agg_step (Some d)) agg_init ?ev"
  have init: "agg_inv agg_init" by (simp add: agg_inv_def agg_init_def)
  have "d \<in> fst ` set ?ev" using d by (rule dominant_category_evidence)
  then have "ag_away ?g \<longleftrightarrow> fst (last ?ev) \<noteq> d"
    using agg_fold_away [OF init, of d ?ev] assms by simp
  moreover have "agg_inv ?g" by (rule agg_fold_inv) (rule init)
  moreover have "rs_switch_aways (aggregate_result r phase elapsed obs covered) = ag_aways ?g"
    "rs_recoveries (aggregate_result r phase elapsed obs covered) = ag_recoveries ?g"
    using d by (simp_all add: aggregate_result_def Let_def dominant_category_def)
  ultimately show ?thesis by (auto simp: d agg_inv_def)
qed

theorem departures_and_returns_pair_up_witness:
  "rs_switch_aways (aggregate_result sample_block Abandoned 700 sample_rows 700) =
     sat_add (rs_recoveries (aggregate_result sample_block Abandoned 700 sample_rows 700)) 1"
  using departures_and_returns_pair_up [of sample_rows sample_block Abandoned 700 700]
  by (simp add: sample_evidence sample_anchor)

section \<open>Time\<close>

text \<open>
  Paused time is never worked time. Resuming a paused block succeeds, arms its
  deadline, and from then on the block's elapsed time is what it was at the pause plus
  the seconds since the resume, however long the pause was.
\<close>

theorem pause_is_not_elapsed_time:
  assumes "block_of s b = Some r" and "wb_phase r = Paused" and "wb_paused_at r = Some p"
    and "NANOS dvd wb_started_at r" and "NANOS dvd p" and "wb_started_at r \<le> p" and "p \<le> now"
    and "wb_updated_at r \<le> now" and "now \<le> t"
    and "int (wb_total_paused r) \<le> timestamp p - timestamp (wb_started_at r)"
    and "timestamp t - timestamp (wb_started_at r) \<le> int u32_max"
  shows "\<exists>sn s' r'. resume E b now s = (Inr sn, s') \<and> sn_phase sn = Active
     \<and> block_of s' b = Some r' \<and> deadline s' = Some (planned_deadline r')
     \<and> int (elapsed_seconds r' t) = int (elapsed_seconds r now) + (timestamp t - timestamp now)"
proof -
  obtain sn s' where "resume E b now s = (Inr sn, s')" "sn_phase sn = Active"
    "block_of s' b = Some (resumed r p now)" "deadline s' = Some (planned_deadline (resumed r p now))"
    by (rule resume_eq [OF assms(1-3)])
  moreover have "int (elapsed_seconds (resumed r p now) t) =
      int (elapsed_seconds r now) + (timestamp t - timestamp now)"
    using assms by (intro resumed_elapsed)
  ultimately show ?thesis by blast
qed

definition paused_block :: work_block_record where
  "paused_block = sample_block\<lparr>wb_phase := Paused, wb_paused_at := Some (seconds 700)\<rparr>"

definition paused_store :: wb_state where
  "paused_store = sample_store\<lparr>t_work_block := [paused_block]\<rparr>"

theorem pause_is_not_elapsed_time_witness:
  "\<exists>sn s' r'. resume sample_env ''b1'' (seconds 5000) paused_store = (Inr sn, s')
     \<and> block_of s' ''b1'' = Some r'
     \<and> int (elapsed_seconds r' (seconds 5060)) = int (elapsed_seconds paused_block (seconds 5000)) + 60"
  using pause_is_not_elapsed_time [of paused_store "''b1''" paused_block "seconds 700" "seconds 5000"
      "seconds 5060" sample_env]
  by (auto simp: paused_store_def paused_block_def sample_block_def block_of_def seconds_def
      timestamp_def u32_max_def)

text \<open>
  Ending a block is idempotent. Ending a block that has ended succeeds, reports the
  stored result and the stored phase, and writes nothing to any table of the record.
\<close>

theorem ending_twice_reports_the_same_result:
  assumes "block_of s b = Some r" and "\<not> live (wb_phase r)" and "result_of s b = Some res"
  shows "\<exists>sn dm. end_block E b now s = (Inr sn, s\<lparr>t_demotion := dm\<rparr>)
     \<and> sn_result sn = Some res \<and> sn_phase sn = wb_phase r"
  by (rule end_again [OF assms]) blast

theorem ending_twice_reports_the_same_result_witness:
  "\<exists>sn dm. end_block sample_env ''b1'' (seconds 900) ended_store
       = (Inr sn, ended_store\<lparr>t_demotion := dm\<rparr>)
     \<and> sn_result sn = Some ended_result \<and> sn_phase sn = Abandoned"
  using ending_twice_reports_the_same_result [of ended_store "''b1''" ended_block ended_result sample_env
      "seconds 900"]
  by (simp add: ended_store_def block_of_def result_of_def ended_block_def sample_block_def live_def)

end
