(* ===== verification/Auth.thy ===== *)
theory Auth
  imports Prelude
begin

text \<open>
  Authentication (\<^verbatim>\<open>auth/state.rs\<close>, \<^verbatim>\<open>auth/manager.rs\<close>, \<^verbatim>\<open>auth/device.rs\<close>,
  \<^verbatim>\<open>auth/account.rs\<close>): the state machine, the manager that attaches, refreshes and
  reissues device tokens, and the account relay.

  The state holds the machine's current state and the credential store. Two scripts stand
  for the environment: \<open>au_net\<close> is what the server answers, one entry per request in the
  order they are sent (a transport failure once it is used up), and \<open>au_store_ok\<close> says
  which accesses to the credential store succeed (all, once it is used up). \<open>au_sent\<close> is
  the log of requests. A caller may drop the future of an operation while it waits for an
  answer, as the long poll's \<^verbatim>\<open>tokio::time::timeout\<close> does: the script then says \<open>ErrDropped\<close>,
  which is no variant of the source's \<^verbatim>\<open>AuthError\<close>, and nothing of the operation runs after it.
  The refresh mutex keeps two refreshes apart, and each operation is one step; a clock reading \<open>now\<close> and the refresh buffer are arguments.
  JSON bodies are association lists of the fields the code writes.
\<close>

section \<open>The state machine\<close>

datatype auth_state = Unauthenticated | Authenticated string | NeedsReauth | DeviceRevoked
  | RefreshInFlight

fun is_authenticated :: "auth_state \<Rightarrow> bool" where
  "is_authenticated (Authenticated d) = True"
| "is_authenticated _ = False"

fun valid_transition :: "auth_state \<Rightarrow> auth_state \<Rightarrow> bool" where
  "valid_transition Unauthenticated t = (t = Unauthenticated \<or> is_authenticated t)"
| "valid_transition (Authenticated d) t =
     (t = Authenticated d \<or> t \<in> {Unauthenticated, RefreshInFlight, NeedsReauth, DeviceRevoked})"
| "valid_transition RefreshInFlight t = True"
| "valid_transition NeedsReauth t =
     (t = NeedsReauth \<or> is_authenticated t \<or> t = Unauthenticated)"
| "valid_transition DeviceRevoked t = (t \<in> {DeviceRevoked, Unauthenticated})"

datatype token_store_error = Unavailable | InvalidData

datatype auth_error = ErrNeedsReauth | ErrDeviceRevoked | ErrForbidden | ErrRateLimited
  | ErrTransport | ErrInvalidResponse | ErrTokenStore token_store_error | ErrTransition
  | ErrDropped

record token_pair =
  access_token :: string
  refresh_token :: string
  expires_at :: instant

datatype http_method = Get | Post | Patch | Delete

record http_request =
  rq_method :: http_method
  rq_path :: string
  rq_authorization :: "string option"
  rq_refresh_token :: "string option"
  rq_body :: "(string \<times> string) list option"

record http_response =
  rs_status :: nat
  rs_error_code :: "string option"
  rs_tokens :: "token_pair option"
  rs_message :: "string option"
  rs_user_id :: "string option"
  rs_device_id :: "string option"

definition http :: "http_method \<Rightarrow> string \<Rightarrow> http_request" where
  "http meth p = \<lparr>rq_method = meth, rq_path = p, rq_authorization = None, rq_refresh_token = None,
     rq_body = None\<rparr>"

record auth =
  au_state :: auth_state
  au_tokens :: "token_pair option"
  au_user_tokens :: "token_pair option"
  au_device_id :: "string option"
  au_net :: "(auth_error + http_response) list"
  au_store_ok :: "bool list"
  au_sent :: "http_request list"

type_synonym 'a auth_op = "(auth, auth_error, 'a) op"

definition transition :: "auth_state \<Rightarrow> unit auth_op" where
  "transition next = (\<lambda>s. if valid_transition (au_state s) next
     then (Inr (), s\<lparr>au_state := next\<rparr>) else (Inl ErrTransition, s))"

definition send :: "http_request \<Rightarrow> http_response auth_op" where
  "send rq = (\<lambda>s. case au_net s of
     [] \<Rightarrow> (Inl ErrTransport, s\<lparr>au_sent := au_sent s @ [rq]\<rparr>)
   | r # rs \<Rightarrow> (r, s\<lparr>au_net := rs, au_sent := au_sent s @ [rq]\<rparr>))"

text \<open>
  An operation's error as a value, for the places that do not return it. No handler runs in a
  dropped future, so a drop is passed on.
\<close>

definition caught :: "'a auth_op \<Rightarrow> (auth_error + 'a) auth_op" where
  "caught m = (\<lambda>s. case m s of (r, t) \<Rightarrow> (if r = Inl ErrDropped then Inl ErrDropped else Inr r, t))"

definition store_access :: "unit auth_op" where
  "store_access = (\<lambda>s. case au_store_ok s of
     [] \<Rightarrow> (Inr (), s)
   | ok # oks \<Rightarrow> (if ok then Inr () else Inl (ErrTokenStore Unavailable), s\<lparr>au_store_ok := oks\<rparr>))"

definition load_tokens :: "token_pair option auth_op" where
  "load_tokens = andthen store_access (\<lambda>_. gets au_tokens)"

definition load_user_tokens :: "token_pair option auth_op" where
  "load_user_tokens = andthen store_access (\<lambda>_. gets au_user_tokens)"

definition load_device_id :: "string option auth_op" where
  "load_device_id = andthen store_access (\<lambda>_. gets au_device_id)"

definition store_pair :: "token_pair \<Rightarrow> unit auth_op" where
  "store_pair p = andthen store_access (\<lambda>_. modify (\<lambda>s. s\<lparr>au_tokens := Some p\<rparr>))"

definition store_user_pair :: "token_pair \<Rightarrow> unit auth_op" where
  "store_user_pair p = andthen store_access (\<lambda>_. modify (\<lambda>s. s\<lparr>au_user_tokens := Some p\<rparr>))"

definition store_device_id :: "string \<Rightarrow> unit auth_op" where
  "store_device_id d = andthen store_access (\<lambda>_. modify (\<lambda>s. s\<lparr>au_device_id := Some d\<rparr>))"

definition clear_tokens :: "unit auth_op" where
  "clear_tokens = andthen store_access (\<lambda>_. modify (\<lambda>s. s\<lparr>au_tokens := None\<rparr>))"

definition clear_user_tokens :: "unit auth_op" where
  "clear_user_tokens = andthen store_access (\<lambda>_. modify (\<lambda>s. s\<lparr>au_user_tokens := None\<rparr>))"

definition clear_device_id :: "unit auth_op" where
  "clear_device_id = andthen store_access (\<lambda>_. modify (\<lambda>s. s\<lparr>au_device_id := None\<rparr>))"

definition some_or :: "auth_error \<Rightarrow> 'a option \<Rightarrow> 'a auth_op" where
  "some_or e x = (case x of None \<Rightarrow> err e | Some a \<Rightarrow> ret a)"

section \<open>The manager\<close>

definition bad_access_token :: "http_response \<Rightarrow> bool" where
  "bad_access_token r \<longleftrightarrow> rs_status r = 401
     \<and> rs_error_code r \<in> {Some ''invalid_credentials'', Some ''invalid_token'', Some ''token_expired''}"

definition device_revoked :: "http_response \<Rightarrow> bool" where
  "device_revoked r \<longleftrightarrow> rs_status r = 403 \<and> rs_error_code r = Some ''device_revoked''"

definition device_token_revoked :: "http_response \<Rightarrow> bool" where
  "device_token_revoked r \<longleftrightarrow>
     rs_status r \<in> {401, 403} \<and> rs_error_code r = Some ''device_token_revoked''"

definition refusal :: "http_response \<Rightarrow> auth_error" where
  "refusal r = (if rs_status r = 403 then ErrForbidden
     else if rs_status r = 429 then ErrRateLimited else ErrNeedsReauth)"

definition refresh_request :: "token_pair \<Rightarrow> http_request" where
  "refresh_request p = (http Post ''/v1/auth/refresh'')\<lparr>rq_refresh_token := Some (refresh_token p)\<rparr>"

definition fail_to :: "auth_state \<Rightarrow> auth_error \<Rightarrow> 'a auth_op" where
  "fail_to st e = andthen (transition st) (\<lambda>_. err e)"

definition refresh_user_tokens :: "token_pair auth_op" where
  "refresh_user_tokens =
     andthen load_user_tokens (\<lambda>x.
     andthen (some_or ErrNeedsReauth x) (\<lambda>tokens.
     andthen (send (refresh_request tokens)) (\<lambda>r.
       if rs_status r = 200 then
         (case rs_tokens r of None \<Rightarrow> fail_to NeedsReauth ErrInvalidResponse
          | Some fresh \<Rightarrow>
              andthen (caught (store_user_pair fresh)) (\<lambda>res.
                case res of Inl e \<Rightarrow> fail_to NeedsReauth e | Inr _ \<Rightarrow> ret fresh))
       else fail_to NeedsReauth (refusal r))))"

definition user_tokens_for_reissue :: "instant \<Rightarrow> int \<Rightarrow> token_pair auth_op" where
  "user_tokens_for_reissue now buffer =
     andthen load_user_tokens (\<lambda>x.
     andthen (some_or ErrNeedsReauth x) (\<lambda>tokens.
       if now + buffer < expires_at tokens then ret tokens else refresh_user_tokens))"

text \<open>What the refresh and the reissue do with the answer to the request they sent.\<close>

definition install_tokens :: "string \<Rightarrow> http_response \<Rightarrow> token_pair auth_op" where
  "install_tokens device_id r =
     (case rs_tokens r of None \<Rightarrow> fail_to NeedsReauth ErrInvalidResponse
      | Some fresh \<Rightarrow>
          andthen (caught (store_pair fresh)) (\<lambda>res.
            case res of Inl e \<Rightarrow> fail_to NeedsReauth e
            | Inr _ \<Rightarrow> andthen (transition (Authenticated device_id)) (\<lambda>_. ret fresh)))"

definition reissue_with :: "string \<Rightarrow> token_pair \<Rightarrow> token_pair auth_op" where
  "reissue_with device_id user_tokens =
     andthen (transition RefreshInFlight) (\<lambda>_.
     andthen (caught (send ((http Post ''/v1/auth/devices/reissue'')
         \<lparr>rq_authorization := Some (access_token user_tokens),
          rq_body := Some [(''device_id'', device_id)]\<rparr>))) (\<lambda>res.
       case res of Inl e \<Rightarrow> fail_to (Authenticated device_id) e
       | Inr r \<Rightarrow>
           if rs_status r = 200 then install_tokens device_id r
           else if device_revoked r then fail_to DeviceRevoked ErrDeviceRevoked
           else fail_to NeedsReauth (refusal r)))"

definition reissue_device_tokens :: "instant \<Rightarrow> int \<Rightarrow> token_pair auth_op" where
  "reissue_device_tokens now buffer =
     andthen (caught (user_tokens_for_reissue now buffer)) (\<lambda>x.
       case x of Inl e \<Rightarrow> fail_to NeedsReauth e
       | Inr user_tokens \<Rightarrow>
           andthen (gets au_state) (\<lambda>st.
             case st of Authenticated device_id \<Rightarrow> reissue_with device_id user_tokens
             | DeviceRevoked \<Rightarrow> err ErrDeviceRevoked
             | _ \<Rightarrow> err ErrNeedsReauth))"

definition refresh_with :: "instant \<Rightarrow> int \<Rightarrow> string \<Rightarrow> token_pair \<Rightarrow> token_pair auth_op" where
  "refresh_with now buffer device_id tokens =
     andthen (transition RefreshInFlight) (\<lambda>_.
     andthen (caught (send (refresh_request tokens))) (\<lambda>res.
       case res of Inl e \<Rightarrow> fail_to (Authenticated device_id) e
       | Inr r \<Rightarrow>
           if rs_status r = 200 then install_tokens device_id r
           else if device_revoked r then fail_to DeviceRevoked ErrDeviceRevoked
           else if device_token_revoked r then
             andthen (transition (Authenticated device_id)) (\<lambda>_. reissue_device_tokens now buffer)
           else fail_to NeedsReauth (refusal r)))"

definition refresh_tokens :: "instant \<Rightarrow> int \<Rightarrow> bool \<Rightarrow> token_pair auth_op" where
  "refresh_tokens now buffer force =
     andthen load_tokens (\<lambda>x.
     andthen (some_or ErrNeedsReauth x) (\<lambda>tokens.
       if \<not> force \<and> now + buffer < expires_at tokens then ret tokens
       else andthen (gets au_state) (\<lambda>st.
         case st of Authenticated device_id \<Rightarrow> refresh_with now buffer device_id tokens
         | DeviceRevoked \<Rightarrow> err ErrDeviceRevoked
         | _ \<Rightarrow> err ErrNeedsReauth)))"

definition tokens_for_request :: "instant \<Rightarrow> int \<Rightarrow> token_pair auth_op" where
  "tokens_for_request now buffer =
     andthen load_tokens (\<lambda>x.
     andthen (some_or ErrNeedsReauth x) (\<lambda>tokens.
       if now + buffer < expires_at tokens then ret tokens
       else refresh_tokens now buffer False))"

definition handle_retried :: "http_response \<Rightarrow> http_response auth_op" where
  "handle_retried r =
     (if device_revoked r then fail_to DeviceRevoked ErrDeviceRevoked
      else if device_token_revoked r \<or> bad_access_token r \<or> rs_status r = 403
      then fail_to NeedsReauth ErrNeedsReauth
      else if rs_status r = 429 then err ErrRateLimited
      else ret r)"

definition handle_response ::
  "instant \<Rightarrow> int \<Rightarrow> http_response \<Rightarrow> http_request \<Rightarrow> http_response auth_op" where
  "handle_response now buffer r rq =
     (if device_revoked r then fail_to DeviceRevoked ErrDeviceRevoked
      else if device_token_revoked r then
        andthen (reissue_device_tokens now buffer) (\<lambda>fresh.
        andthen (send (rq\<lparr>rq_authorization := Some (access_token fresh)\<rparr>)) handle_retried)
      else if bad_access_token r \<or> rs_status r = 403 then fail_to NeedsReauth ErrNeedsReauth
      else if rs_status r = 429 then err ErrRateLimited
      else ret r)"

definition send_authenticated :: "instant \<Rightarrow> int \<Rightarrow> http_request \<Rightarrow> http_response auth_op" where
  "send_authenticated now buffer rq =
     andthen (gets au_state) (\<lambda>st.
       if st = DeviceRevoked then err ErrDeviceRevoked
       else
         andthen (tokens_for_request now buffer) (\<lambda>tokens.
         let rq1 = rq\<lparr>rq_authorization := Some (access_token tokens)\<rparr> in
         andthen (send rq1) (\<lambda>r.
           if bad_access_token r then
             andthen (refresh_tokens now buffer True) (\<lambda>fresh.
             let rq2 = rq1\<lparr>rq_authorization := Some (access_token fresh)\<rparr> in
             andthen (send rq2) (\<lambda>retried. handle_response now buffer retried rq2))
           else handle_response now buffer r rq1)))"

definition validate_session :: "instant \<Rightarrow> int \<Rightarrow> unit auth_op" where
  "validate_session now buffer =
     andthen (send_authenticated now buffer (http Get ''/v1/auth/session'')) (\<lambda>r.
       if 200 \<le> rs_status r \<and> rs_status r \<le> 299 then ret ()
       else if rs_status r = 429 then err ErrRateLimited else err ErrInvalidResponse)"

section \<open>The account relay\<close>

datatype failure_code = InvalidCredentials | NetworkError | ServerError

record auth_success =
  as_user_id :: string
  as_device_id :: string
  as_tokens :: token_pair
  as_user_tokens :: "token_pair option"

datatype server_reply = AuthSuccess auth_success | AuthFailure failure_code string
  | AccountDeletionAccepted | ErrorReply string string

definition map_auth_failure :: "http_response \<Rightarrow> server_reply" where
  "map_auth_failure r =
     (if rs_status r \<in> {401, 403} \<or> rs_error_code r = Some ''invalid_credentials''
      then AuthFailure InvalidCredentials
        (case rs_message r of None \<Rightarrow> ''Incorrect email or password.'' | Some t \<Rightarrow> t)
      else AuthFailure ServerError
        (case rs_message r of None \<Rightarrow> ''Something went wrong. Please try again.'' | Some t \<Rightarrow> t))"

definition NETWORK_MESSAGE :: string where
  "NETWORK_MESSAGE = ''Could not reach the server. Check your connection and try again.''"

definition credential_flow :: "string \<Rightarrow> nat \<Rightarrow> string \<Rightarrow> string \<Rightarrow> server_reply auth_op" where
  "credential_flow path success_status email password =
     andthen (caught (send ((http Post path)
        \<lparr>rq_body := Some [(''email'', email), (''password'', password)]\<rparr>))) (\<lambda>res.
       case res of Inl _ \<Rightarrow> ret (AuthFailure NetworkError NETWORK_MESSAGE)
       | Inr r \<Rightarrow>
           if rs_status r = success_status then
             (case (rs_user_id r, rs_tokens r) of
                (Some u, Some t) \<Rightarrow> ret (AuthSuccess \<lparr>as_user_id = u, as_device_id = [],
                   as_tokens = t, as_user_tokens = None\<rparr>)
              | _ \<Rightarrow> ret (AuthFailure ServerError ''The server response was invalid.''))
           else ret (map_auth_failure r))"

definition register_device :: "string \<Rightarrow> auth_success \<Rightarrow> server_reply auth_op" where
  "register_device version success =
     andthen (caught (send ((http Post ''/v1/devices'')
        \<lparr>rq_authorization := Some (access_token (as_tokens success)),
         rq_body := Some [(''client_version'', version)]\<rparr>))) (\<lambda>res.
       case res of Inl _ \<Rightarrow> ret (AuthSuccess success)
       | Inr r \<Rightarrow>
           if \<not> (200 \<le> rs_status r \<and> rs_status r < 300) then ret (AuthSuccess success)
           else (case (rs_device_id r, rs_tokens r) of
             (Some device_id, Some tokens) \<Rightarrow>
               andthen (caught (store_pair tokens)) (\<lambda>x.
                 case x of Inl _ \<Rightarrow> ret (AuthSuccess success)
                 | Inr _ \<Rightarrow>
                     andthen (caught (store_device_id device_id)) (\<lambda>y.
                       case y of Inl _ \<Rightarrow> ret (AuthSuccess success)
                       | Inr _ \<Rightarrow>
                           andthen (caught (transition (Authenticated device_id))) (\<lambda>_.
                           andthen (caught (store_user_pair (as_tokens success))) (\<lambda>_.
                           ret (AuthSuccess \<lparr>as_user_id = as_user_id success,
                             as_device_id = device_id, as_tokens = tokens,
                             as_user_tokens = Some (as_tokens success)\<rparr>)))))
           | _ \<Rightarrow> ret (AuthSuccess success)))"

definition relay_reissue ::
  "string \<Rightarrow> string \<Rightarrow> token_pair \<Rightarrow> string \<Rightarrow> server_reply auth_op" where
  "relay_reissue version user_id user_tokens device_id =
     andthen (caught (send ((http Post ''/v1/auth/devices/reissue'')
        \<lparr>rq_authorization := Some (access_token user_tokens),
         rq_body := Some [(''device_id'', device_id)]\<rparr>))) (\<lambda>res.
       case res of Inl _ \<Rightarrow> ret (AuthFailure NetworkError NETWORK_MESSAGE)
       | Inr r \<Rightarrow>
           if rs_status r = 200 then
             (case rs_tokens r of
                None \<Rightarrow> ret (AuthFailure ServerError ''The server response was invalid.'')
              | Some tokens \<Rightarrow>
                  andthen (caught (store_pair tokens)) (\<lambda>x.
                    case x of Inl _ \<Rightarrow> ret (AuthFailure ServerError ''Unable to save this device session.'')
                    | Inr _ \<Rightarrow>
                        andthen (caught (transition (Authenticated device_id))) (\<lambda>_.
                        ret (AuthSuccess \<lparr>as_user_id = user_id, as_device_id = device_id,
                          as_tokens = tokens, as_user_tokens = Some user_tokens\<rparr>))))
           else if rs_status r = 404 then
             andthen (caught clear_device_id) (\<lambda>_.
             register_device version \<lparr>as_user_id = user_id, as_device_id = [],
               as_tokens = user_tokens, as_user_tokens = None\<rparr>)
           else ret (AuthFailure ServerError ''Unable to register this device.''))"

definition ensure_device_registered :: "string \<Rightarrow> server_reply \<Rightarrow> server_reply auth_op" where
  "ensure_device_registered version outcome =
     (case outcome of
        AuthSuccess success \<Rightarrow>
          andthen (caught load_device_id) (\<lambda>x.
            case x of Inl _ \<Rightarrow> ret (AuthSuccess success)
            | Inr None \<Rightarrow> register_device version success
            | Inr (Some device_id) \<Rightarrow>
                andthen (caught (store_user_pair (as_tokens success))) (\<lambda>_.
                relay_reissue version (as_user_id success) (as_tokens success) device_id))
      | _ \<Rightarrow> ret outcome)"

definition sign_up :: "string \<Rightarrow> string \<Rightarrow> string \<Rightarrow> server_reply auth_op" where
  "sign_up version email password =
     andthen (credential_flow ''/v1/auth/signup'' 201 email password)
       (ensure_device_registered version)"

definition log_in :: "string \<Rightarrow> string \<Rightarrow> string \<Rightarrow> server_reply auth_op" where
  "log_in version email password =
     andthen (credential_flow ''/v1/auth/login'' 200 email password)
       (ensure_device_registered version)"

record auth_session =
  se_device_id :: string
  se_tokens :: token_pair
  se_user_access :: "string option"
  se_user_refresh :: "string option"
  se_user_expires :: "instant option"

definition store_session_user :: "auth_session \<Rightarrow> bool auth_op" where
  "store_session_user se =
     (case (se_user_access se, se_user_refresh se, se_user_expires se) of
        (Some a, Some r, Some e) \<Rightarrow>
          andthen (caught (store_user_pair \<lparr>access_token = a, refresh_token = r, expires_at = e\<rparr>))
            (\<lambda>x. ret (case x of Inl _ \<Rightarrow> False | Inr _ \<Rightarrow> True))
      | (None, None, None) \<Rightarrow> ret True
      | _ \<Rightarrow> ret False)"

definition apply_session :: "auth_session \<Rightarrow> unit auth_op" where
  "apply_session se =
     andthen (store_session_user se) (\<lambda>user_ok.
     andthen (caught (store_pair (se_tokens se))) (\<lambda>x.
       case x of Inl _ \<Rightarrow> ret ()
       | Inr _ \<Rightarrow>
           andthen (caught (store_device_id (se_device_id se))) (\<lambda>y.
             case y of Inl _ \<Rightarrow> ret ()
             | Inr _ \<Rightarrow>
                 if user_ok
                 then andthen (caught (transition (Authenticated (se_device_id se)))) (\<lambda>_. ret ())
                 else ret ())))"

definition clear_local_session :: "bool \<Rightarrow> unit auth_op" where
  "clear_local_session device =
     andthen (caught clear_tokens) (\<lambda>_.
     andthen (caught clear_user_tokens) (\<lambda>_.
     andthen (if device then caught clear_device_id else ret (Inr ())) (\<lambda>_.
     andthen (caught (transition Unauthenticated)) (\<lambda>_. ret ()))))"

definition log_out :: "unit auth_op" where
  "log_out =
     andthen (caught load_tokens) (\<lambda>x.
     andthen (caught (transition Unauthenticated)) (\<lambda>_.
     andthen (case x of
         Inr (Some tokens) \<Rightarrow>
           andthen (caught (send ((http Post ''/v1/auth/logout'')
             \<lparr>rq_authorization := Some (access_token tokens)\<rparr>))) (\<lambda>_. ret ())
       | _ \<Rightarrow> ret ()) (\<lambda>_.
     clear_local_session False)))"

definition delete_account :: "instant \<Rightarrow> int \<Rightarrow> server_reply auth_op" where
  "delete_account now buffer =
     andthen (caught (send_authenticated now buffer (http Delete ''/v1/account''))) (\<lambda>x.
       case x of
         Inr r \<Rightarrow>
           if rs_status r = 202
           then andthen (clear_local_session True) (\<lambda>_. ret AccountDeletionAccepted)
           else ret (ErrorReply ''account_deletion_failed'' ''Unable to delete account'')
       | Inl _ \<Rightarrow> ret (ErrorReply ''account_deletion_failed'' ''Unable to delete account''))"

section \<open>Device registration\<close>

datatype registration_error = RegUnavailable | RegRejected | RegInvalidResponse | RegInvalidRequest

definition register :: "(string \<times> string) list \<Rightarrow> (auth, registration_error, unit) op" where
  "register payload = (\<lambda>s.
     case send ((http Post ''/v1/devices'')\<lparr>rq_body := Some payload\<rparr>) s of
       (Inl _, s1) \<Rightarrow> (Inl RegUnavailable, s1)
     | (Inr r, s1) \<Rightarrow>
         if \<not> (200 \<le> rs_status r \<and> rs_status r < 300) then (Inl RegRejected, s1)
         else (case (rs_device_id r, rs_tokens r) of
           (Some d, Some t) \<Rightarrow>
             (case store_pair t s1 of (Inl _, s2) \<Rightarrow> (Inl RegUnavailable, s2)
              | (Inr _, s2) \<Rightarrow>
                  (case store_device_id d s2 of (Inl _, s3) \<Rightarrow> (Inl RegUnavailable, s3)
                   | (Inr _, s3) \<Rightarrow> (Inr (), s3)))
         | _ \<Rightarrow> (Inl RegInvalidResponse, s1)))"

end
