(* ===== verification/Auth_Properties.thy ===== *)
theory Auth_Properties
  imports Auth
begin

text \<open>
  What the authentication commands may do to the state machine and to the requests that
  leave the device. As for the block store, one locale carries a property of the
  primitive accesses to every command.
\<close>

section \<open>Commands\<close>

datatype auth_command =
    ASend instant int http_request
  | AValidate instant int
  | ASignUp string string string
  | ALogIn string string string
  | AApply auth_session
  | ALogOut
  | ADelete instant int

definition exec_auth :: "auth_command \<Rightarrow> auth \<Rightarrow> auth" where
  "exec_auth c s = (case c of
     ASend now buf rq \<Rightarrow> snd (send_authenticated now buf rq s)
   | AValidate now buf \<Rightarrow> snd (validate_session now buf s)
   | ASignUp v e p \<Rightarrow> snd (sign_up v e p s)
   | ALogIn v e p \<Rightarrow> snd (log_in v e p s)
   | AApply se \<Rightarrow> snd (apply_session se s)
   | ALogOut \<Rightarrow> snd (log_out s)
   | ADelete now buf \<Rightarrow> snd (delete_account now buf s))"

fun signs_out :: "auth_command \<Rightarrow> bool" where
  "signs_out ALogOut = True"
| "signs_out (ADelete _ _) = True"
| "signs_out _ = False"

section \<open>The interface to the credential store, the network and the machine\<close>

lemma snd_caught [simp]: "snd (caught m s) = snd (m s)"
  by (auto simp: caught_def split: prod.splits sum.splits)

lemma obeys_caught: "obeys R m \<Longrightarrow> obeys R (caught m)"
  by (simp add: obeys_def)

text \<open>
  \<open>allowed\<close> says which states the component may move the machine to, \<open>clean\<close> which
  requests it may send.
\<close>

locale auth_evolution = evolution R
  for R :: "auth \<Rightarrow> auth \<Rightarrow> bool" +
  fixes allowed :: "auth_state \<Rightarrow> bool"
    and clean :: "http_request \<Rightarrow> bool"
  assumes transition_ok: "allowed st \<Longrightarrow> obeys R (transition st)"
    and send_ok: "clean rq \<Longrightarrow> obeys R (send rq)"
    and store_access_ok: "obeys R store_access"
    and tokens_ok: "R s (s\<lparr>au_tokens := p\<rparr>)"
    and user_tokens_ok: "R s (s\<lparr>au_user_tokens := p\<rparr>)"
    and device_id_ok: "R s (s\<lparr>au_device_id := d\<rparr>)"
    and manager_states: "allowed RefreshInFlight" "allowed NeedsReauth" "allowed DeviceRevoked"
      "allowed (Authenticated dev)"
    and authorize: "clean rq \<Longrightarrow> clean (rq\<lparr>rq_authorization := a\<rparr>)"
    and bodies: "clean rq \<Longrightarrow> clean (rq\<lparr>rq_body := b\<rparr>)"
    and plain: "clean (http meth path)"
    and refresh_clean: "clean (refresh_request tp)"
begin

lemma store_ops:
  "obeys R load_tokens" "obeys R load_user_tokens" "obeys R load_device_id"
  "obeys R (store_pair p)" "obeys R (store_user_pair p)" "obeys R (store_device_id d)"
  "obeys R clear_tokens" "obeys R clear_user_tokens" "obeys R clear_device_id"
  unfolding load_tokens_def load_user_tokens_def load_device_id_def store_pair_def
    store_user_pair_def store_device_id_def clear_tokens_def clear_user_tokens_def clear_device_id_def
  by (intro rules store_access_ok tokens_ok user_tokens_ok device_id_ok)+

lemma some_or: "obeys R (some_or e x)"
  unfolding some_or_def by (intro rules)

lemma fail_to: "allowed st \<Longrightarrow> obeys R (fail_to st e)"
  unfolding fail_to_def by (intro rules transition_ok)

lemmas steps = rules obeys_caught store_ops some_or fail_to transition_ok send_ok manager_states
  plain authorize bodies refresh_clean

lemma refresh_user_tokens: "obeys R refresh_user_tokens"
  unfolding refresh_user_tokens_def by (intro steps)

lemma user_tokens_for_reissue: "obeys R (user_tokens_for_reissue now buf)"
  unfolding user_tokens_for_reissue_def by (intro steps refresh_user_tokens)

lemma install_tokens: "obeys R (install_tokens dev r)"
  unfolding install_tokens_def by (intro steps)

lemma reissue_with: "obeys R (reissue_with dev ut)"
  unfolding reissue_with_def by (intro steps install_tokens)

lemma state_op:
  "(\<And>d. obeys R (f d)) \<Longrightarrow> obeys R (case st of Authenticated d \<Rightarrow> f d
     | DeviceRevoked \<Rightarrow> err ErrDeviceRevoked | _ \<Rightarrow> err ErrNeedsReauth)"
  by (cases st) (simp_all add: err)

lemma reissue_device_tokens: "obeys R (reissue_device_tokens now buf)"
  unfolding reissue_device_tokens_def
  by (intro steps state_op user_tokens_for_reissue reissue_with)

lemma refresh_with: "obeys R (refresh_with now buf dev tok)"
  unfolding refresh_with_def by (intro steps install_tokens reissue_device_tokens)

lemma refresh_tokens: "obeys R (refresh_tokens now buf force)"
  unfolding refresh_tokens_def by (intro steps state_op refresh_with)

lemma tokens_for_request: "obeys R (tokens_for_request now buf)"
  unfolding tokens_for_request_def by (intro steps refresh_tokens)

lemma handle_retried: "obeys R (handle_retried r)"
  unfolding handle_retried_def by (intro steps)

lemma handle_response: "clean rq \<Longrightarrow> obeys R (handle_response now buf r rq)"
  unfolding handle_response_def by (intro steps reissue_device_tokens handle_retried)

lemma send_authenticated: "clean rq \<Longrightarrow> obeys R (send_authenticated now buf rq)"
  unfolding send_authenticated_def Let_def
  by (intro steps tokens_for_request refresh_tokens handle_response)

lemma validate_session: "obeys R (validate_session now buf)"
  unfolding validate_session_def by (intro steps send_authenticated)

lemma credential_flow: "obeys R (credential_flow path st e p)"
  unfolding credential_flow_def case_prod_beta by (intro steps)

lemma register_device: "obeys R (register_device v su)"
  unfolding register_device_def case_prod_beta by (intro steps)

lemma relay_reissue: "obeys R (relay_reissue v u ut d)"
  unfolding relay_reissue_def by (intro steps register_device)

lemma ensure_device_registered: "obeys R (ensure_device_registered v out)"
  by (cases out)
    (auto simp: ensure_device_registered_def intro!: steps register_device relay_reissue)

lemma sign_up: "obeys R (sign_up v e p)"
  unfolding sign_up_def by (intro steps credential_flow ensure_device_registered)

lemma log_in: "obeys R (log_in v e p)"
  unfolding log_in_def by (intro steps credential_flow ensure_device_registered)

lemma apply_session: "obeys R (apply_session se)"
  unfolding apply_session_def store_session_user_def case_prod_beta by (intro steps)

lemma clear_local_session: "allowed Unauthenticated \<Longrightarrow> obeys R (clear_local_session d)"
  unfolding clear_local_session_def by (intro steps)

lemma log_out: "allowed Unauthenticated \<Longrightarrow> obeys R log_out"
  unfolding log_out_def by (intro steps clear_local_session)

lemma delete_account: "allowed Unauthenticated \<Longrightarrow> obeys R (delete_account now buf)"
  unfolding delete_account_def by (intro steps clear_local_session send_authenticated)

lemmas commands = validate_session sign_up log_in apply_session

lemma exec:
  assumes "\<And>now buf rq. c = ASend now buf rq \<Longrightarrow> clean rq"
    and "signs_out c \<Longrightarrow> allowed Unauthenticated"
  shows "R s (exec_auth c s)"
  using assms
  by (cases c) (auto simp: exec_auth_def
      intro: obeysD [OF send_authenticated] commands [THEN obeysD] obeysD [OF log_out]
        obeysD [OF delete_account])

end

section \<open>Revocation\<close>

lemma keeping_frame: "(\<And>s. P (f s) = P s) \<Longrightarrow> obeys (keeping P) (modify f)"
  by (simp add: obeys_def keeping_def modify_def)

lemma store_access_state [simp]: "au_state (snd (store_access s)) = au_state s"
  "au_sent (snd (store_access s)) = au_sent s"
  by (simp_all add: store_access_def split: list.splits)

lemma send_state [simp]: "au_state (snd (send rq s)) = au_state s"
  "au_sent (snd (send rq s)) = au_sent s @ [rq]"
  by (simp_all add: send_def split: list.splits)

interpretation revoked: auth_evolution "keeping (\<lambda>s. au_state s = DeviceRevoked)"
  "\<lambda>st. st \<noteq> Unauthenticated" "\<lambda>_. True"
  by unfold_locales (auto simp: keeping_def obeys_def transition_def)

text \<open>
  C9: Revocation is final until sign-out. Once the server has revoked the device, no
  request, refresh, restored session, sign-up or log-in moves the machine out of
  \<open>DeviceRevoked\<close>; only signing out or deleting the account does. While it is revoked,
  an authenticated request is refused before anything is sent.
\<close>

theorem revoked_device_stays_revoked:
  assumes "au_state s = DeviceRevoked" and "list_all (\<lambda>c. \<not> signs_out c) cs"
  shows "au_state (fold exec_auth cs s) = DeviceRevoked
    \<and> send_authenticated now buf rq (fold exec_auth cs s) = (Inl ErrDeviceRevoked, fold exec_auth cs s)"
proof -
  have "keeping (\<lambda>s. au_state s = DeviceRevoked) s (fold exec_auth cs s)"
    by (rule keeping.run, rule revoked.exec) (use assms(2) in \<open>auto simp: list_all_iff\<close>)
  then have "au_state (fold exec_auth cs s) = DeviceRevoked"
    using assms(1) by (simp add: keeping_def)
  then show ?thesis
    by (simp add: send_authenticated_def andthen_gets err_apply)
qed

definition device_tokens :: token_pair where
  "device_tokens = \<lparr>access_token = ''acc'', refresh_token = ''ref'', expires_at = 0\<rparr>"

definition revoked_auth :: auth where
  "revoked_auth = \<lparr>au_state = DeviceRevoked, au_tokens = Some device_tokens,
     au_user_tokens = Some device_tokens, au_device_id = Some ''dev'',
     au_net = [Inr \<lparr>rs_status = 200, rs_error_code = None, rs_tokens = Some device_tokens,
       rs_message = None, rs_user_id = Some ''u'', rs_device_id = None\<rparr>],
     au_store_ok = [], au_sent = []\<rparr>"

theorem revoked_device_stays_revoked_witness:
  "au_state (fold exec_auth [ALogIn ''1'' ''a'' ''b'', AApply \<lparr>se_device_id = ''dev'',
      se_tokens = device_tokens, se_user_access = None, se_user_refresh = None,
      se_user_expires = None\<rparr>] revoked_auth) = DeviceRevoked"
  using revoked_device_stays_revoked [of revoked_auth "[ALogIn ''1'' ''a'' ''b'',
      AApply \<lparr>se_device_id = ''dev'', se_tokens = device_tokens, se_user_access = None,
        se_user_refresh = None, se_user_expires = None\<rparr>]"]
  by (simp add: revoked_auth_def)

section \<open>Where refresh tokens go\<close>

definition confined :: "http_request \<Rightarrow> bool" where
  "confined rq \<longleftrightarrow> (rq_refresh_token rq = None \<or> (rq_method rq = Post \<and> rq_path rq = ''/v1/auth/refresh''))"

interpretation refresh_only: auth_evolution "keeping (\<lambda>s. list_all confined (au_sent s))"
  "\<lambda>_. True" confined
  by unfold_locales
    (auto simp: keeping_def obeys_def transition_def confined_def http_def refresh_request_def)

text \<open>
  C10: A refresh token is sent to the refresh endpoint and nowhere else: whatever commands
  run and whatever the server answers, every request that leaves the device with a
  refresh token in its body is a \<open>POST\<close> to \<^verbatim>\<open>/v1/auth/refresh\<close>, provided no caller puts
  one into a request of its own.
\<close>

theorem refresh_tokens_only_go_to_refresh:
  assumes "list_all confined (au_sent s)"
    and "list_all (\<lambda>c. case c of ASend now buf rq \<Rightarrow> rq_refresh_token rq = None | _ \<Rightarrow> True) cs"
  shows "list_all confined (au_sent (fold exec_auth cs s))"
proof -
  have "keeping (\<lambda>s. list_all confined (au_sent s)) s (fold exec_auth cs s)"
    by (rule keeping.run, rule refresh_only.exec)
      (use assms(2) in \<open>auto simp: list_all_iff confined_def\<close>)
  then show ?thesis using assms(1) by (simp add: keeping_def)
qed

theorem refresh_tokens_only_go_to_refresh_witness:
  "list_all confined (au_sent (fold exec_auth
     [ASend 0 60 (http Get ''/v1/insights''), ALogIn ''1'' ''a'' ''b'', ALogOut] revoked_auth))"
  by (rule refresh_tokens_only_go_to_refresh) (simp_all add: revoked_auth_def http_def)

section \<open>No command leaves a refresh in flight\<close>

text \<open>\<open>settled\<close>: no refresh is in flight and no answer to come is a drop.\<close>

definition undropped :: "auth \<Rightarrow> bool" where
  "undropped s \<longleftrightarrow> Inl ErrDropped \<notin> set (au_net s)"

definition settled :: "auth \<Rightarrow> bool" where
  "settled s \<longleftrightarrow> au_state s \<noteq> RefreshInFlight \<and> undropped s"

definition settles :: "'a auth_op \<Rightarrow> bool" where
  "settles m \<longleftrightarrow> (\<forall>s. undropped s \<longrightarrow> settled (snd (m s)))"

definition answers :: "'a auth_op \<Rightarrow> bool" where
  "answers m \<longleftrightarrow> (\<forall>s. undropped s \<longrightarrow> undropped (snd (m s)) \<and> fst (m s) \<noteq> Inl ErrDropped)"

lemma answers_send: "answers (send rq)"
  by (auto simp: answers_def undropped_def send_def split: list.splits)

lemma answers_store_pair: "answers (store_pair p)"
  by (auto simp: answers_def undropped_def store_pair_def store_access_def op_defs split: list.splits)

lemma settled_transition: "st \<noteq> RefreshInFlight \<Longrightarrow> undropped s \<Longrightarrow> settled (snd (transition st s))"
  by (auto simp: settled_def transition_def undropped_def)

lemma settles_after:
  assumes "st \<noteq> RefreshInFlight" and "obeys (keeping settled) m"
  shows "settles (andthen (transition st) (\<lambda>_. m))"
  using settled_transition [OF assms(1)] obeysD [OF assms(2)]
  by (auto simp: settles_def keeping_def andthen_def split: prod.splits sum.splits)
    (metis snd_conv)+

lemma settles_fail_to: "st \<noteq> RefreshInFlight \<Longrightarrow> settles (fail_to st e)"
  unfolding fail_to_def by (intro settles_after keeping.rules)

lemma settles_caught: "answers m \<Longrightarrow> (\<And>r. settles (f r)) \<Longrightarrow> settles (andthen (caught m) f)"
  unfolding settles_def answers_def andthen_def caught_def
  by (fastforce split: prod.splits sum.splits)

lemma settles_install: "settles (install_tokens dev r)"
  unfolding install_tokens_def
  by (auto split: option.splits sum.splits
      intro!: settles_caught answers_store_pair settles_fail_to settles_after keeping.rules)

text \<open>A refresh or reissue enters \<open>RefreshInFlight\<close> and leaves it on every branch.\<close>

lemma settled_critical:
  assumes "answers m" and "\<And>r. settles (f r)"
  shows "obeys (keeping settled) (andthen (transition RefreshInFlight) (\<lambda>_. andthen (caught m) f))"
  using settles_caught [of m f, OF assms]
  by (auto simp: obeys_def keeping_def settles_def settled_def undropped_def andthen_def transition_def)

lemma settled_steps:
  "st \<noteq> RefreshInFlight \<Longrightarrow> obeys (keeping settled) (transition st)"
  "obeys (keeping settled) (send rq)" "obeys (keeping settled) store_access"
  by (auto simp: obeys_def keeping_def settled_def undropped_def transition_def send_def store_access_def
      split: list.splits)

lemma settled_store:
  "obeys (keeping settled) load_tokens" "obeys (keeping settled) load_user_tokens"
  "obeys (keeping settled) load_device_id" "obeys (keeping settled) (store_pair p)"
  "obeys (keeping settled) (store_user_pair p)" "obeys (keeping settled) (store_device_id d)"
  "obeys (keeping settled) clear_tokens" "obeys (keeping settled) clear_user_tokens"
  "obeys (keeping settled) clear_device_id" "obeys (keeping settled) (some_or e x)"
  unfolding load_tokens_def load_user_tokens_def load_device_id_def store_pair_def
    store_user_pair_def store_device_id_def clear_tokens_def clear_user_tokens_def clear_device_id_def
    some_or_def
  by (intro keeping.rules settled_steps keeping_frame; simp add: settled_def undropped_def keeping_def)+

lemma settles_keeping: "settles m \<Longrightarrow> obeys (keeping settled) m"
  by (simp add: settles_def obeys_def keeping_def settled_def)

lemmas settled_rules = keeping.rules obeys_caught settled_store settled_steps
  settles_keeping [OF settles_fail_to]

lemma settled_refresh_user: "obeys (keeping settled) refresh_user_tokens"
  unfolding refresh_user_tokens_def by (intro settled_rules) simp_all

lemma settled_user_tokens: "obeys (keeping settled) (user_tokens_for_reissue now buf)"
  unfolding user_tokens_for_reissue_def by (intro settled_rules settled_refresh_user)

lemma settled_reissue_with: "obeys (keeping settled) (reissue_with dev ut)"
  unfolding reissue_with_def
  by (rule settled_critical, rule answers_send)
    (auto split: sum.splits intro!: settles_fail_to settles_install)

lemma settled_state_op:
  "(\<And>d. obeys (keeping settled) (f d)) \<Longrightarrow> obeys (keeping settled) (case st of Authenticated d \<Rightarrow> f d
     | DeviceRevoked \<Rightarrow> err ErrDeviceRevoked | _ \<Rightarrow> err ErrNeedsReauth)"
  by (cases st) (simp_all add: keeping.err)

lemma settled_reissue: "obeys (keeping settled) (reissue_device_tokens now buf)"
  unfolding reissue_device_tokens_def
  by (intro settled_rules settled_user_tokens settled_state_op settled_reissue_with) simp

lemma settled_refresh_with: "obeys (keeping settled) (refresh_with now buf dev tok)"
  unfolding refresh_with_def
  by (rule settled_critical, rule answers_send)
    (auto split: sum.splits intro!: settles_fail_to settles_install settles_after settled_reissue)

lemma settled_refresh: "obeys (keeping settled) (refresh_tokens now buf force)"
  unfolding refresh_tokens_def by (intro settled_rules settled_state_op settled_refresh_with)

lemma settled_handle: "obeys (keeping settled) (handle_response now buf r rq)"
  unfolding handle_response_def handle_retried_def by (intro settled_rules settled_reissue) simp_all

lemma settled_send_authenticated: "obeys (keeping settled) (send_authenticated now buf rq)"
  unfolding send_authenticated_def tokens_for_request_def Let_def
  by (intro settled_rules settled_refresh settled_handle)

lemma settled_register: "obeys (keeping settled) (register_device v su)"
  unfolding register_device_def case_prod_beta by (intro settled_rules) simp_all

lemma settled_ensure: "obeys (keeping settled) (ensure_device_registered v out)"
  unfolding ensure_device_registered_def relay_reissue_def
  by (cases out) (auto intro!: settled_rules settled_register)

lemma settled_clear: "obeys (keeping settled) (clear_local_session d)"
  unfolding clear_local_session_def by (intro settled_rules) simp_all

lemma settled_exec: "keeping settled s (exec_auth c s)"
proof -
  have "obeys (keeping settled) (validate_session now buf)" for now buf
    unfolding validate_session_def by (intro settled_rules settled_send_authenticated)
  moreover have "obeys (keeping settled) (sign_up v e p)" "obeys (keeping settled) (log_in v e p)" for v e p
    unfolding sign_up_def log_in_def credential_flow_def case_prod_beta
    by (intro settled_rules settled_ensure)+
  moreover have "obeys (keeping settled) (apply_session se)" for se
    unfolding apply_session_def store_session_user_def case_prod_beta
    by (intro settled_rules) simp_all
  moreover have "obeys (keeping settled) log_out"
    unfolding log_out_def by (intro settled_rules settled_clear) simp_all
  moreover have "obeys (keeping settled) (delete_account now buf)" for now buf
    unfolding delete_account_def by (intro settled_rules settled_clear settled_send_authenticated)
  ultimately show ?thesis
    by (cases c) (simp_all add: exec_auth_def obeysD settled_send_authenticated)
qed

lemma keeps_unauthenticated:
  defines "U \<equiv> \<lambda>s. au_state s = Unauthenticated"
  shows "obeys (keeping U) (transition Unauthenticated)" "obeys (keeping U) (send rq)"
    "obeys (keeping U) (clear_local_session d)"
proof -
  show t: "obeys (keeping U) (transition Unauthenticated)" and "obeys (keeping U) (send rq)"
    by (auto simp: obeys_def keeping_def U_def transition_def)
  have "obeys (keeping U) store_access" by (simp add: obeys_def keeping_def U_def)
  then show "obeys (keeping U) (clear_local_session d)"
    unfolding clear_local_session_def clear_tokens_def clear_user_tokens_def clear_device_id_def
    by (intro keeping.rules obeys_caught t keeping_frame; simp add: U_def keeping_def)
qed

lemma log_out_unauthenticates: "au_state (snd (log_out s)) = Unauthenticated"
proof -
  have un: "valid_transition st Unauthenticated" for st by (cases st) simp_all
  obtain x t where x: "caught load_tokens s = (Inr x, t)"
    by (cases "caught load_tokens s")
      (auto simp: caught_def load_tokens_def store_access_def op_defs split: list.splits if_splits)
  let ?rest = "andthen (case x of Inr (Some tokens) \<Rightarrow> andthen (caught (send ((http Post ''/v1/auth/logout'')
             \<lparr>rq_authorization := Some (access_token tokens)\<rparr>))) (\<lambda>_. ret ())
       | _ \<Rightarrow> ret ()) (\<lambda>_. clear_local_session False)"
  have "obeys (keeping (\<lambda>s. au_state s = Unauthenticated)) ?rest"
    by (intro keeping.rules obeys_caught keeps_unauthenticated)
  then have "au_state (snd (?rest (t\<lparr>au_state := Unauthenticated\<rparr>))) = Unauthenticated"
    by (auto simp: obeys_def keeping_def)
  moreover have "caught (transition Unauthenticated) t = (Inr (Inr ()), t\<lparr>au_state := Unauthenticated\<rparr>)"
    by (simp add: caught_def transition_def un)
  ultimately show ?thesis by (simp add: log_out_def andthen_def [of "caught _"] x)
qed

text \<open>
  C8: No command leaves a refresh in flight, unless its caller drops it. Whatever the server
  answers and whichever accesses to the credential store fail, a machine that was not in
  \<open>RefreshInFlight\<close> is not in it after any sequence of commands in which every request was waited
  for to its answer, error or timeout. And a machine that a dropped request did leave there is
  out of it after the next sign-out, whatever was dropped before.
\<close>

theorem no_refresh_left_in_flight:
  assumes "au_state s \<noteq> RefreshInFlight" and "Inl ErrDropped \<notin> set (au_net s)"
  shows "au_state (fold exec_auth cs s) \<noteq> RefreshInFlight
    \<and> au_state (exec_auth ALogOut t) = Unauthenticated"
proof
  have "keeping settled s (fold exec_auth cs s)"
    by (rule keeping.run) (rule settled_exec)
  then show "au_state (fold exec_auth cs s) \<noteq> RefreshInFlight"
    using assms by (simp add: keeping_def settled_def undropped_def)
  show "au_state (exec_auth ALogOut t) = Unauthenticated"
    by (simp add: exec_auth_def log_out_unauthenticates)
qed

definition live_auth :: auth where
  "live_auth = revoked_auth\<lparr>au_state := Authenticated ''dev'', au_net := [], au_store_ok := [True, False]\<rparr>"

theorem no_refresh_left_in_flight_witness:
  "au_state (fold exec_auth [ASend (seconds 5) 60 (http Get ''/v1/insights''), AValidate (seconds 6) 60]
     live_auth) \<noteq> RefreshInFlight"
  by (rule no_refresh_left_in_flight [THEN conjunct1]) (simp_all add: live_auth_def)

text \<open>
  What a dropped refresh does. The machine stays in \<open>RefreshInFlight\<close>; from then on, once the
  stored tokens need a refresh, an authenticated request is refused without anything being sent
  and leaves the machine as it was, so only a sign-in, a restored session or a sign-out ends it.
\<close>

lemma dropped_refresh_stays_in_flight:
  assumes "au_state s = Authenticated d" and "au_tokens s = Some p" and "expires_at p \<le> now + buf"
    and "au_store_ok s = []" and "au_net s = Inl ErrDropped # rs"
  shows "au_state (exec_auth (ASend now buf rq) s) = RefreshInFlight"
  using assms
  by (simp add: exec_auth_def send_authenticated_def tokens_for_request_def refresh_tokens_def refresh_with_def
      load_tokens_def store_access_def some_or_def transition_def send_def caught_def op_defs)

lemma in_flight_refuses_requests:
  assumes "au_state s = RefreshInFlight" and "\<And>p. au_tokens s = Some p \<Longrightarrow> expires_at p \<le> now + buf"
  shows "fst (send_authenticated now buf rq s) \<in> {Inl ErrNeedsReauth, Inl (ErrTokenStore Unavailable)}"
    and "au_sent (snd (send_authenticated now buf rq s)) = au_sent s"
    and "au_state (snd (send_authenticated now buf rq s)) = RefreshInFlight"
  using assms
  by (auto simp: send_authenticated_def tokens_for_request_def refresh_tokens_def load_tokens_def
      store_access_def some_or_def op_defs not_less split: list.splits option.splits)

section \<open>Bounded retries\<close>

definition sends_at_most :: "nat \<Rightarrow> 'a auth_op \<Rightarrow> bool" where
  "sends_at_most n m \<longleftrightarrow> (\<forall>s. length (au_sent (snd (m s))) \<le> length (au_sent s) + n)"

lemma sends_andthen:
  assumes m: "sends_at_most a m" and f: "\<And>x. sends_at_most b (f x)" and "a + b \<le> n"
  shows "sends_at_most n (andthen m f)"
  unfolding sends_at_most_def
proof
  fix s
  obtain r t where mt: "m s = (r, t)" by (cases "m s")
  have 1: "length (au_sent t) \<le> length (au_sent s) + a"
    using m mt unfolding sends_at_most_def by (metis snd_conv)
  have 2: "length (au_sent (snd (f x t))) \<le> length (au_sent t) + b" for x
    using f unfolding sends_at_most_def by blast
  show "length (au_sent (snd (andthen m f s))) \<le> length (au_sent s) + n"
    using 1 2 assms(3) by (cases r) (auto simp: andthen_def mt intro: le_trans [OF 2])
qed

lemma sends_mono: "sends_at_most a m \<Longrightarrow> a \<le> b \<Longrightarrow> sends_at_most b m"
  unfolding sends_at_most_def by (meson add_left_mono le_trans)

lemma sends_none:
  "sends_at_most 0 (ret x)" "sends_at_most 0 (err e)" "sends_at_most 0 (gets f)"
  "sends_at_most 0 (some_or e y)" "sends_at_most 0 (transition st)" "sends_at_most 0 (fail_to st e)"
  "sends_at_most 0 store_access" "sends_at_most 0 load_tokens" "sends_at_most 0 load_user_tokens"
  "sends_at_most 0 (store_pair p)" "sends_at_most 0 (store_user_pair p)"
  by (auto simp: sends_at_most_def op_defs some_or_def transition_def fail_to_def load_tokens_def
      load_user_tokens_def store_pair_def store_user_pair_def store_access_def
      split: option.splits list.splits)

lemma sends_one: "sends_at_most 1 (send rq)"
  by (simp add: sends_at_most_def)

lemma sends_caught: "sends_at_most n m \<Longrightarrow> sends_at_most n (caught m)"
  by (simp add: sends_at_most_def)

lemma sends_if: "sends_at_most n m \<Longrightarrow> sends_at_most n m' \<Longrightarrow> sends_at_most n (if b then m else m')"
  by simp

lemma sends_option:
  "sends_at_most n m \<Longrightarrow> (\<And>y. sends_at_most n (f y)) \<Longrightarrow>
   sends_at_most n (case x of None \<Rightarrow> m | Some y \<Rightarrow> f y)"
  by (cases x) simp_all

lemma sends_sum:
  "(\<And>e. sends_at_most n (f e)) \<Longrightarrow> (\<And>a. sends_at_most n (g a)) \<Longrightarrow>
   sends_at_most n (case x of Inl e \<Rightarrow> f e | Inr a \<Rightarrow> g a)"
  by (cases x) simp_all

lemma sends_state:
  "(\<And>d. sends_at_most n (f d)) \<Longrightarrow> sends_at_most n (case st of Authenticated d \<Rightarrow> f d
     | DeviceRevoked \<Rightarrow> err ErrDeviceRevoked | _ \<Rightarrow> err ErrNeedsReauth)"
  by (cases st) (auto intro: sends_mono [OF sends_none(2)])

lemmas sends_zero = sends_andthen [where a = 0 and b = 0 and n = 0] sends_if [where n = 0]
  sends_option [where n = 0] sends_sum [where n = 0] sends_none sends_caught

lemma sends_refresh_user: "sends_at_most 1 refresh_user_tokens"
  unfolding refresh_user_tokens_def
  by (rule sends_andthen [where a = 0 and b = 1], rule sends_none,
      rule sends_andthen [where a = 0 and b = 1], rule sends_none,
      rule sends_andthen [where a = 1 and b = 0], rule sends_one)
    (intro sends_zero, simp_all)

lemma sends_user_tokens: "sends_at_most 1 (user_tokens_for_reissue now buf)"
  unfolding user_tokens_for_reissue_def
  by (rule sends_andthen [where a = 0 and b = 1], rule sends_none,
      rule sends_andthen [where a = 0 and b = 1], rule sends_none, rule sends_if,
      rule sends_mono [OF sends_none(1)], simp, rule sends_refresh_user) simp_all

lemma sends_install: "sends_at_most 0 (install_tokens dev r)"
  unfolding install_tokens_def
  by (intro sends_zero) simp_all

lemma sends_reissue_with: "sends_at_most 1 (reissue_with dev ut)"
  unfolding reissue_with_def
  by (rule sends_andthen [where a = 0 and b = 1], rule sends_none,
      rule sends_andthen [where a = 1 and b = 0], rule sends_caught, rule sends_one)
    (auto intro!: sends_sum sends_none sends_install split: sum.splits)

lemma sends_reissue: "sends_at_most 2 (reissue_device_tokens now buf)"
  unfolding reissue_device_tokens_def
  by (rule sends_andthen [where a = 1 and b = 1], rule sends_caught, rule sends_user_tokens)
    (auto intro!: sends_sum sends_andthen [where a = 0 and b = 1] sends_state sends_reissue_with
      sends_none sends_mono [OF sends_none(6)])

lemma sends_refresh_with: "sends_at_most 3 (refresh_with now buf dev tok)"
  unfolding refresh_with_def
  by (rule sends_andthen [where a = 0 and b = 3], rule sends_none,
      rule sends_andthen [where a = 1 and b = 2], rule sends_caught, rule sends_one)
    (auto intro!: sends_sum sends_andthen [where a = 0 and b = 2] sends_reissue
      sends_none sends_mono [OF sends_none(6)] sends_mono [OF sends_install] sends_if)

lemma sends_refresh: "sends_at_most 3 (refresh_tokens now buf force)"
  unfolding refresh_tokens_def
  by (rule sends_andthen [where a = 0 and b = 3], rule sends_none,
      rule sends_andthen [where a = 0 and b = 3], rule sends_none)
    (auto intro!: sends_if sends_mono [OF sends_none(1)] sends_andthen [where a = 0 and b = 3]
      sends_none sends_state sends_refresh_with)

lemma sends_tokens: "sends_at_most 3 (tokens_for_request now buf)"
  unfolding tokens_for_request_def
  by (rule sends_andthen [where a = 0 and b = 3], rule sends_none,
      rule sends_andthen [where a = 0 and b = 3], rule sends_none)
    (auto intro: sends_refresh sends_mono [OF sends_none(1)])

lemma sends_handle_retried: "sends_at_most 0 (handle_retried r)"
  unfolding handle_retried_def by (auto intro: sends_none)

lemma sends_handle: "sends_at_most 3 (handle_response now buf r rq)"
proof -
  have retry: "sends_at_most 3 (andthen (reissue_device_tokens now buf) (\<lambda>fresh.
      andthen (send (rq\<lparr>rq_authorization := Some (access_token fresh)\<rparr>)) handle_retried))"
    by (rule sends_andthen [where a = 2 and b = 1], rule sends_reissue,
        rule sends_andthen [where a = 1 and b = 0], rule sends_one, rule sends_handle_retried) simp_all
  show ?thesis
    unfolding handle_response_def
    by (intro sends_if retry sends_mono [OF sends_none(6)] sends_mono [OF sends_none(1)]
        sends_mono [OF sends_none(2)]) simp_all
qed

text \<open>
  C11: Retries are bounded. One authenticated request causes at most eleven requests on
  the wire, counting token refreshes, user-token refreshes, device reissues and the
  repeated attempts, whatever the server answers.
\<close>

theorem authenticated_request_is_bounded:
  "length (au_sent (snd (send_authenticated now buf rq s))) \<le> length (au_sent s) + 11"
proof -
  have after: "sends_at_most 7 (if bad_access_token r
      then andthen (refresh_tokens now buf True) (\<lambda>fresh.
        andthen (send (rq1\<lparr>rq_authorization := Some (access_token fresh)\<rparr>)) (\<lambda>retried.
          handle_response now buf retried (rq1\<lparr>rq_authorization := Some (access_token fresh)\<rparr>)))
      else handle_response now buf r rq1)" for r rq1
    by (intro sends_if sends_andthen [where a = 3 and b = 4] sends_refresh
        sends_andthen [where a = 1 and b = 3] sends_one sends_handle sends_mono [OF sends_handle])
      simp_all
  have "sends_at_most 11 (send_authenticated now buf rq)"
    unfolding send_authenticated_def Let_def
    by (rule sends_andthen [where a = 0 and b = 11], rule sends_none, rule sends_if,
        rule sends_mono [OF sends_none(2)], simp,
        rule sends_andthen [where a = 3 and b = 8], rule sends_tokens,
        rule sends_andthen [where a = 1 and b = 7], rule sends_one, rule after) simp_all
  then show ?thesis by (simp add: sends_at_most_def)
qed

section \<open>Signing out\<close>

text \<open>
  Signing out always succeeds locally. From every state of the machine and whatever
  the server answers, with a working credential store and a caller that waits, \<open>log_out\<close> ends unauthenticated with
  the device and user tokens gone, keeps the device identifier, and sends at most the one
  revocation request.
\<close>

theorem log_out_clears_the_session:
  assumes "au_store_ok s = []" and "Inl ErrDropped \<notin> set (au_net s)"
  shows "\<exists>t. log_out s = (Inr (), t) \<and> au_state t = Unauthenticated \<and> au_tokens t = None
     \<and> au_user_tokens t = None \<and> au_device_id t = au_device_id s
     \<and> length (au_sent t) \<le> length (au_sent s) + 1"
proof -
  have un: "valid_transition st Unauthenticated" for st by (cases st) simp_all
  show ?thesis
    using assms
    by (cases "au_tokens s"; cases "au_net s")
      (auto simp: log_out_def clear_local_session_def op_defs caught_def load_tokens_def
        store_access_def clear_tokens_def clear_user_tokens_def transition_def un send_def
        split: sum.splits)
qed

theorem log_out_clears_the_session_witness:
  "\<exists>t. log_out revoked_auth = (Inr (), t) \<and> au_state t = Unauthenticated \<and> au_tokens t = None"
  using log_out_clears_the_session [of revoked_auth] by (auto simp: revoked_auth_def)

end
