(* ===== verification/Egress.thy ===== *)
theory Egress
  imports Prelude "HOL-Library.List_Lexorder"
begin

text \<open>
  The egress ledger (\<^verbatim>\<open>egress/mod.rs\<close>, \<^verbatim>\<open>persistence/egress_ledger.rs\<close>): what is recorded about
  a request before it leaves, the hash chain over the records, its append and prune, and the
  verifier. The client that writes it is in theory \<^verbatim>\<open>Client\<close>.

  SHA-256 and the JSON encoder are third-party code: \<open>H\<close> is the lower-case hexadecimal
  digest of a byte string and \<open>enc\<close> the encoder's bytes. Text is a list of code points;
  its UTF-8 bytes are computed here. The schema's constraints (migration 0038) are
  branches of \<open>append\<close>. Sequence numbers and sizes are \<open>int\<close>; the service cannot reach the
  bounds of \<open>i64\<close>.
\<close>

section \<open>UTF-8\<close>

definition utf8 :: "nat \<Rightarrow> nat list" where
  "utf8 c =
     (if c < 128 then [c]
      else if c < 2048 then [192 + c div 64, 128 + c mod 64]
      else if c < 65536 then [224 + c div 4096, 128 + c div 64 mod 64, 128 + c mod 64]
      else [240 + c div 262144, 128 + c div 4096 mod 64, 128 + c div 64 mod 64, 128 + c mod 64])"

definition as_bytes :: "ustr \<Rightarrow> nat list" where
  "as_bytes s = concat (map utf8 s)"

definition is_control :: "nat \<Rightarrow> bool" where
  "is_control c \<longleftrightarrow> c < 32 \<or> (127 \<le> c \<and> c < 160)"

definition hex_digit :: "nat \<Rightarrow> nat" where
  "hex_digit n = (if n < 10 then 48 + n else 55 + n)"

definition percent :: "nat \<Rightarrow> ustr" where
  "percent b = [37, hex_digit (b div 16), hex_digit (b mod 16)]"

definition ledger_endpoint :: "ustr \<Rightarrow> ustr" where
  "ledger_endpoint url = concat (map (\<lambda>c.
     if c = 124 \<or> is_control c then concat (map percent (utf8 c)) else [c]) url)"

section \<open>Redaction\<close>

datatype json = JNull | JBool bool | JNumber ustr | JString ustr | JArray "json list"
  | JObject "(ustr \<times> json) list"

definition REDACTED :: ustr where
  "REDACTED = of_str ''[redacted]''"

definition SECRET_FIELDS :: "ustr list" where
  "SECRET_FIELDS = map of_str [''password'', ''refresh_token'', ''access_token'']"

fun walk :: "json \<Rightarrow> json \<times> bool" where
  "walk (JObject fields) =
     (let rs = map (\<lambda>(k, v). if k \<in> set SECRET_FIELDS then (k, (JString REDACTED, True))
                             else (k, walk v)) fields
      in (JObject (map (\<lambda>(k, r). (k, fst r)) rs), list_ex (\<lambda>(k, r). snd r) rs))"
| "walk (JArray items) =
     (let rs = map walk items in (JArray (map fst rs), list_ex snd rs))"
| "walk v = (v, False)"

definition redact_secrets :: "json \<Rightarrow> json option" where
  "redact_secrets v = (case walk v of (copy, found) \<Rightarrow> if found then Some copy else None)"

section \<open>Records and entries\<close>

record egress_record =
  er_method :: ustr
  er_endpoint :: ustr
  er_body_bytes :: nat
  er_body_sha256 :: ustr
  er_body_redacted :: bool
  er_bearer :: bool

definition new_record ::
  "(nat list \<Rightarrow> ustr) \<Rightarrow> (json \<Rightarrow> nat list) \<Rightarrow> ustr \<Rightarrow> ustr \<Rightarrow> nat list \<Rightarrow> json option \<Rightarrow> bool
   \<Rightarrow> egress_record" where
  "new_record H enc meth url body js bearer =
     (let redacted = Option.bind js redact_secrets in
      \<lparr>er_method = meth, er_endpoint = ledger_endpoint url, er_body_bytes = length body,
       er_body_sha256 = (case redacted of Some r \<Rightarrow> H (enc r) | None \<Rightarrow> H body),
       er_body_redacted = (redacted \<noteq> None), er_bearer = bearer\<rparr>)"

record ledger_entry =
  le_seq :: int
  le_recorded_at :: int
  le_method :: ustr
  le_endpoint :: ustr
  le_body_bytes :: int
  le_body_sha256 :: ustr
  le_body_redacted :: bool
  le_bearer :: bool
  le_prev_hash :: ustr
  le_entry_hash :: ustr

record checkpoint =
  cp_through_seq :: int
  cp_through_hash :: ustr

definition LEDGER_HASH_DOMAIN :: ustr where
  "LEDGER_HASH_DOMAIN = of_str ''velvt-egress-v1''"

definition GENESIS_HASH :: ustr where
  "GENESIS_HASH = replicate 64 48"

definition flag :: "bool \<Rightarrow> ustr" where
  "flag b = (if b then [49] else [48])"

definition line_fields :: "ledger_entry \<Rightarrow> ustr list" where
  "line_fields e = [LEDGER_HASH_DOMAIN, of_str (int_str (le_seq e)),
     of_str (int_str (le_recorded_at e)), le_method e, le_endpoint e,
     of_str (int_str (le_body_bytes e)), le_body_sha256 e, flag (le_body_redacted e),
     flag (le_bearer e), le_prev_hash e]"

definition chain_line :: "ledger_entry \<Rightarrow> ustr" where
  "chain_line e = join [124] (line_fields e)"

definition computed_hash :: "(nat list \<Rightarrow> ustr) \<Rightarrow> ledger_entry \<Rightarrow> ustr" where
  "computed_hash H e = H (as_bytes (chain_line e))"

section \<open>The verifier\<close>

record chain_summary =
  cs_entries :: nat
  cs_anchor_seq :: int
  cs_head_seq :: int
  cs_head_hash :: ustr

datatype chain_break = Gap int int | Link int | Hash int

fun verify_loop ::
  "(nat list \<Rightarrow> ustr) \<Rightarrow> int \<Rightarrow> ustr \<Rightarrow> ledger_entry list \<Rightarrow> chain_break + (int \<times> ustr)" where
  "verify_loop H expected_seq expected_prev [] = Inr (expected_seq, expected_prev)"
| "verify_loop H expected_seq expected_prev (e # es) =
     (if le_seq e \<noteq> expected_seq then Inl (Gap (le_seq e) expected_seq)
      else if le_prev_hash e \<noteq> expected_prev then Inl (Link (le_seq e))
      else if computed_hash H e \<noteq> le_entry_hash e then Inl (Hash (le_seq e))
      else verify_loop H (expected_seq + 1) (le_entry_hash e) es)"

definition anchor_seq :: "checkpoint option \<Rightarrow> int" where
  "anchor_seq a = (case a of None \<Rightarrow> 0 | Some c \<Rightarrow> cp_through_seq c)"

definition anchor_hash :: "checkpoint option \<Rightarrow> ustr" where
  "anchor_hash a = (case a of None \<Rightarrow> GENESIS_HASH | Some c \<Rightarrow> cp_through_hash c)"

definition verify_chain ::
  "(nat list \<Rightarrow> ustr) \<Rightarrow> checkpoint option \<Rightarrow> ledger_entry list \<Rightarrow> chain_break + chain_summary" where
  "verify_chain H a es =
     (case verify_loop H (anchor_seq a + 1) (anchor_hash a) es of
        Inl b \<Rightarrow> Inl b
      | Inr (next_seq, prev) \<Rightarrow> Inr \<lparr>cs_entries = length es, cs_anchor_seq = anchor_seq a,
          cs_head_seq = next_seq - 1, cs_head_hash = prev\<rparr>)"

section \<open>The ledger table\<close>

record ledger =
  lg_entries :: "ledger_entry list"
  lg_checkpoints :: "checkpoint list"

datatype ledger_error = LedgerSqlite

definition newest_checkpoint :: "ledger \<Rightarrow> checkpoint option" where
  "newest_checkpoint s = (if lg_checkpoints s = [] then None
     else Some (last (sort_key cp_through_seq (lg_checkpoints s))))"

definition head :: "ledger \<Rightarrow> int \<times> ustr" where
  "head s = (if lg_entries s \<noteq> []
     then (le_seq (last (lg_entries s)), le_entry_hash (last (lg_entries s)))
     else (anchor_seq (newest_checkpoint s), anchor_hash (newest_checkpoint s)))"

definition entry_check :: "ledger_entry \<Rightarrow> bool" where
  "entry_check e \<longleftrightarrow> 1 \<le> le_seq e
     \<and> le_method e \<in> set (map of_str [''GET'', ''POST'', ''PATCH'', ''DELETE''])
     \<and> le_endpoint e \<noteq> [] \<and> 124 \<notin> set (le_endpoint e) \<and> 10 \<notin> set (le_endpoint e)
     \<and> 13 \<notin> set (le_endpoint e) \<and> 0 \<le> le_body_bytes e
     \<and> length (le_body_sha256 e) = 64 \<and> length (le_prev_hash e) = 64
     \<and> length (le_entry_hash e) = 64"

definition append ::
  "(nat list \<Rightarrow> ustr) \<Rightarrow> egress_record \<Rightarrow> instant \<Rightarrow> (ledger, ledger_error, ledger_entry) op" where
  "append H r now = (\<lambda>s.
     case head s of (head_seq, head_hash) \<Rightarrow>
       let e0 = \<lparr>le_seq = head_seq + 1, le_recorded_at = timestamp now, le_method = er_method r,
                 le_endpoint = er_endpoint r, le_body_bytes = int (er_body_bytes r),
                 le_body_sha256 = er_body_sha256 r, le_body_redacted = er_body_redacted r,
                 le_bearer = er_bearer r, le_prev_hash = head_hash, le_entry_hash = []\<rparr>;
           e = e0\<lparr>le_entry_hash := computed_hash H e0\<rparr>
       in if entry_check e \<and> le_entry_hash e \<notin> set (map le_entry_hash (lg_entries s))
          then (Inr e, s\<lparr>lg_entries := lg_entries s @ [e]\<rparr>)
          else (Inl LedgerSqlite, s))"

definition prune_through :: "ledger \<Rightarrow> int \<Rightarrow> int \<Rightarrow> int \<Rightarrow> int" where
  "prune_through s cutoff max_entries batch_size =
     (let first = le_seq (hd (lg_entries s)); lst = le_seq (last (lg_entries s));
          by_age = Max (insert 0 (le_seq ` {e \<in> set (lg_entries s). le_recorded_at e < cutoff}))
      in min (max by_age (lst - max_entries)) (first - 1 + batch_size))"

definition prune :: "instant \<Rightarrow> nat \<Rightarrow> nat \<Rightarrow> (ledger, ledger_error, nat) op" where
  "prune cutoff max_entries batch_size = (\<lambda>s.
     if lg_entries s = [] then (Inr 0, s)
     else
       let through = prune_through s (timestamp cutoff) (int max_entries) (int batch_size) in
       if through < le_seq (hd (lg_entries s)) then (Inr 0, s)
       else
         (case find (\<lambda>e. le_seq e = through) (lg_entries s) of
            None \<Rightarrow> (Inl LedgerSqlite, s)
          | Some e \<Rightarrow>
              if anchor_seq (newest_checkpoint s) < through then
                (Inr (length (filter (\<lambda>x. le_seq x \<le> through) (lg_entries s))),
                 \<lparr>lg_entries = filter (\<lambda>x. through < le_seq x) (lg_entries s),
                  lg_checkpoints = filter (\<lambda>c. through \<le> cp_through_seq c)
                    (lg_checkpoints s @ [\<lparr>cp_through_seq = through, cp_through_hash = le_entry_hash e\<rparr>])\<rparr>)
              else (Inl LedgerSqlite, s)))"

end
