(* ===== verification/Egress_Properties.thy ===== *)
theory Egress_Properties
  imports Egress
begin

text \<open>
  The ledger's guarantees: the chain verifies after every append and prune, an edited
  chain has another head, and what is recorded about a body does not depend on its secrets.
\<close>

section \<open>Decimal and UTF-8 text determine what they encode\<close>

lemma nat_str_ne [simp]: "nat_str n \<noteq> []"
  by (subst nat_str.simps) simp

fun str_nat :: "string \<Rightarrow> nat" where
  "str_nat s = foldl (\<lambda>n c. 10 * n + (of_char c - 48)) 0 s"

lemma str_nat_nat_str: "str_nat (nat_str n) = n"
proof (induction n rule: nat_str.induct)
  case (1 n)
  then show ?case
    by (subst nat_str.simps) (auto simp: div_mult_mod_eq)
qed

lemma nat_str_inj: "nat_str a = nat_str b \<Longrightarrow> a = b"
  by (metis str_nat_nat_str)

lemma nat_str_digits: "c \<in> set (nat_str n) \<Longrightarrow> 48 \<le> (of_char c :: nat) \<and> (of_char c :: nat) \<le> 57"
proof (induction n rule: nat_str.induct)
  case (1 n)
  from "1.prems" show ?case
    by (subst (asm) nat_str.simps) (auto dest: "1.IH" split: if_splits)
qed

lemma int_str_digits:
  "c \<in> set (int_str i) \<Longrightarrow> (of_char c :: nat) = 45 \<or> (48 \<le> (of_char c :: nat) \<and> (of_char c :: nat) \<le> 57)"
  by (auto simp: int_str_def dest: nat_str_digits split: if_splits)

lemma int_str_inj: "int_str i = int_str j \<Longrightarrow> i = j"
proof -
  have minus: "CHR ''-'' \<notin> set (nat_str n)" for n
    using nat_str_digits [of "CHR ''-''" n] by auto
  have "nat_str n \<noteq> CHR ''-'' # xs" for n xs
    using minus [of n] by (metis list.set_intros(1))
  then show "int_str i = int_str j \<Longrightarrow> i = j"
    by (auto simp: int_str_def dest: nat_str_inj split: if_splits) (metis)+
qed

lemma of_str_inj: "of_str s = of_str t \<Longrightarrow> s = t"
  unfolding of_str_def by (metis inj_map_eq_map inj_of_char)

definition decode :: "nat list \<Rightarrow> nat \<times> nat list" where
  "decode bs = (let b = hd bs; x = bs ! 1 - 128; y = bs ! 2 - 128; z = bs ! 3 - 128 in
     if b < 128 then (b, tl bs)
     else if b < 224 then ((b - 192) * 64 + x, drop 2 bs)
     else if b < 240 then (((b - 224) * 64 + x) * 64 + y, drop 3 bs)
     else ((((b - 240) * 64 + x) * 64 + y) * 64 + z, drop 4 bs))"

lemma decode_utf8: "decode (utf8 c @ xs) = (c, xs)"
proof -
  have div2: "c div 64 div 64 = c div 4096" "c div 4096 div 64 = c div 262144"
    by (simp_all add: div_mult2_eq [symmetric])
  have 1: "c div 64 * 64 + c mod 64 = c" by simp
  have 2: "c div 4096 * 64 + c div 64 mod 64 = c div 64"
    using div_mult_mod_eq [of "c div 64" 64] by (simp add: div2)
  have 3: "c div 262144 * 64 + c div 4096 mod 64 = c div 4096"
    using div_mult_mod_eq [of "c div 4096" 64] by (simp add: div2)
  have small: "c < 2048 \<Longrightarrow> c div 64 < 32" "c < 65536 \<Longrightarrow> c div 4096 < 16"
    by (simp_all add: less_mult_imp_div_less)
  consider "c < 128" | "128 \<le> c" "c < 2048" | "2048 \<le> c" "c < 65536" | "65536 \<le> c"
    by linarith
  then show ?thesis
  proof cases
    case 1
    then show ?thesis by (simp add: decode_def utf8_def Let_def)
  next
    case 2
    then show ?thesis using small(1) \<open>c div 64 * 64 + c mod 64 = c\<close>
      by (simp add: decode_def utf8_def Let_def del: div_mult_mod_eq)
  next
    case 3
    then show ?thesis
      using small(2) \<open>c div 4096 * 64 + c div 64 mod 64 = c div 64\<close> by (simp add: decode_def utf8_def Let_def)
  next
    case 4
    then show ?thesis
      using \<open>c div 4096 * 64 + c div 64 mod 64 = c div 64\<close>
        \<open>c div 262144 * 64 + c div 4096 mod 64 = c div 4096\<close>
      by (simp add: decode_def utf8_def Let_def)
  qed
qed

lemma utf8_cancel: "utf8 c @ xs = utf8 d @ ys \<Longrightarrow> c = d \<and> xs = ys"
  by (metis decode_utf8 prod.inject)

lemma as_bytes_inj:
  "as_bytes s = as_bytes t \<Longrightarrow> s = t"
proof (induction s arbitrary: t)
  case Nil
  then show ?case by (cases t) (auto simp: as_bytes_def utf8_def split: if_splits)
next
  case (Cons c s)
  then obtain d t' where t: "t = d # t'"
    by (cases t) (auto simp: as_bytes_def utf8_def split: if_splits)
  then have "utf8 c @ as_bytes s = utf8 d @ as_bytes t'"
    using Cons.prems by (simp add: as_bytes_def)
  then show ?case
    using utf8_cancel [of c "as_bytes s" d "as_bytes t'"] Cons t by auto
qed

section \<open>A line determines its entry\<close>

lemma sep_cancel:
  "x \<notin> set f \<Longrightarrow> x \<notin> set g \<Longrightarrow> f @ x # r = g @ x # r' \<Longrightarrow> f = g \<and> r = r'"
proof (induction f arbitrary: g)
  case Nil
  then show ?case by (cases g) auto
next
  case (Cons a f)
  then show ?case by (cases g) auto
qed

lemma chain_line_eq:
  "chain_line e = LEDGER_HASH_DOMAIN @ 124 # of_str (int_str (le_seq e)) @ 124 #
     of_str (int_str (le_recorded_at e)) @ 124 # le_method e @ 124 # le_endpoint e @ 124 #
     of_str (int_str (le_body_bytes e)) @ 124 # le_body_sha256 e @ 124 #
     flag (le_body_redacted e) @ 124 # flag (le_bearer e) @ 124 # le_prev_hash e"
  by (simp add: chain_line_def line_fields_def)

lemma no_bar_int: "124 \<notin> set (of_str (int_str i))"
  by (auto simp: of_str_def dest!: int_str_digits)

lemma no_bar_method: "entry_check e \<Longrightarrow> 124 \<notin> set (le_method e)"
  by (auto simp: entry_check_def of_str_def)

lemma flag_cancel: "flag a @ 124 # r = flag b @ 124 # r' \<Longrightarrow> a = b \<and> r = r'"
  by (auto simp: flag_def split: if_splits)

lemma chain_line_inj:
  assumes "entry_check e" "entry_check f" "chain_line e = chain_line f"
    and "le_entry_hash e = le_entry_hash f"
  shows "e = f"
proof -
  note line = assms(3) [unfolded chain_line_eq same_append_eq list.inject simp_thms]
  have 1: "of_str (int_str (le_seq e)) = of_str (int_str (le_seq f))"
    using sep_cancel [OF no_bar_int no_bar_int line] by blast
  note line1 = sep_cancel [OF no_bar_int no_bar_int line, THEN conjunct2]
  have 2: "of_str (int_str (le_recorded_at e)) = of_str (int_str (le_recorded_at f))"
    using sep_cancel [OF no_bar_int no_bar_int line1] by blast
  note line2 = sep_cancel [OF no_bar_int no_bar_int line1, THEN conjunct2]
  have 3: "le_method e = le_method f"
    using sep_cancel [OF no_bar_method [OF assms(1)] no_bar_method [OF assms(2)] line2] by blast
  note line3 = sep_cancel [OF no_bar_method [OF assms(1)] no_bar_method [OF assms(2)] line2, THEN conjunct2]
  have bars: "124 \<notin> set (le_endpoint e)" "124 \<notin> set (le_endpoint f)"
    and len: "length (le_body_sha256 e) = length (le_body_sha256 f)"
    using assms(1,2) by (auto simp: entry_check_def)
  have 4: "le_endpoint e = le_endpoint f" using sep_cancel [OF bars line3] by blast
  note line4 = sep_cancel [OF bars line3, THEN conjunct2]
  have 5: "of_str (int_str (le_body_bytes e)) = of_str (int_str (le_body_bytes f))"
    using sep_cancel [OF no_bar_int no_bar_int line4] by blast
  note line5 = sep_cancel [OF no_bar_int no_bar_int line4, THEN conjunct2]
  have 6: "le_body_sha256 e = le_body_sha256 f" and line6: "flag (le_body_redacted e) @ 124 #
      flag (le_bearer e) @ 124 # le_prev_hash e = flag (le_body_redacted f) @ 124 #
      flag (le_bearer f) @ 124 # le_prev_hash f"
    using line5 len by (simp_all add: append_eq_append_conv)
  have 7: "le_body_redacted e = le_body_redacted f" using flag_cancel [OF line6] by blast
  note line7 = flag_cancel [OF line6, THEN conjunct2]
  have 8: "le_bearer e = le_bearer f" "le_prev_hash e = le_prev_hash f"
    using flag_cancel [OF line7] by blast+
  show ?thesis
    using 1 2 3 4 5 6 7 8 assms(4) by (auto dest!: of_str_inj int_str_inj intro!: ledger_entry.equality)
qed

section \<open>Chains\<close>

lemma verify_append:
  "verify_loop H n p (es @ fs) =
     (case verify_loop H n p es of Inl b \<Rightarrow> Inl b | Inr (m, q) \<Rightarrow> verify_loop H m q fs)"
  by (induction H n p es rule: verify_loop.induct) auto

lemma verify_length: "verify_loop H n p es = Inr (m, q) \<Longrightarrow> m = n + int (length es)"
  by (induction H n p es rule: verify_loop.induct) (auto split: if_splits)

lemma verify_seq:
  "verify_loop H n p es = Inr x \<Longrightarrow> i < length es \<Longrightarrow> le_seq (es ! i) = n + int i"
proof (induction H n p es arbitrary: i rule: verify_loop.induct)
  case (2 H n p e es)
  then show ?case by (cases i) (auto split: if_splits)
qed simp

lemma verify_snoc:
  "verify_loop H n p (es @ [e]) = Inr (m, q) \<longleftrightarrow>
     (\<exists>r. verify_loop H n p es = Inr (le_seq e, r) \<and> m = le_seq e + 1 \<and> le_prev_hash e = r
        \<and> computed_hash H e = le_entry_hash e \<and> q = le_entry_hash e)"
  by (auto simp: verify_append split: sum.splits if_splits prod.splits)

text \<open>
  Two verified chains with one anchor and one head are equal, if the hash tells apart the lines
  that occur in them.
\<close>

definition hashed_lines :: "ledger_entry list \<Rightarrow> nat list set" where
  "hashed_lines es = (\<lambda>e. as_bytes (chain_line e)) ` set es"

lemma same_head_same_chain:
  assumes "verify_loop H n p es = Inr (m, h)" "verify_loop H n p fs = Inr (m, h)"
    and "list_all entry_check es" "list_all entry_check fs"
    and "inj_on H (hashed_lines es \<union> hashed_lines fs)"
  shows "es = fs"
  using assms
proof (induction es arbitrary: fs m h rule: rev_induct)
  case Nil
  then show ?case using verify_length by fastforce
next
  case (snoc e es)
  obtain f gs where fs: "fs = gs @ [f]"
    using snoc.prems(1,2) verify_length by (cases fs rule: rev_cases) fastforce+
  from snoc.prems(1) have e: "verify_loop H n p es = Inr (le_seq e, le_prev_hash e)"
    "m = le_seq e + 1" "computed_hash H e = le_entry_hash e" "h = le_entry_hash e"
    by (simp_all add: verify_snoc)
  from snoc.prems(2) have f: "verify_loop H n p gs = Inr (le_seq f, le_prev_hash f)"
    "m = le_seq f + 1" "computed_hash H f = le_entry_hash f" "h = le_entry_hash f"
    by (simp_all add: fs verify_snoc)
  have "H (as_bytes (chain_line e)) = H (as_bytes (chain_line f))"
    using e f by (simp add: computed_hash_def)
  then have "as_bytes (chain_line e) = as_bytes (chain_line f)"
    by (rule inj_onD [OF snoc.prems(5)]) (simp_all add: fs hashed_lines_def)
  then have "e = f"
    using snoc.prems(3,4) e(4) f(4) as_bytes_inj chain_line_inj by (simp add: fs)
  moreover have "es = gs"
  proof (rule snoc.IH)
    show "verify_loop H n p es = Inr (le_seq e, le_prev_hash e)" by (rule e(1))
    show "verify_loop H n p gs = Inr (le_seq e, le_prev_hash e)" using f(1) \<open>e = f\<close> by simp
    show "inj_on H (hashed_lines es \<union> hashed_lines gs)"
      by (rule inj_on_subset [OF snoc.prems(5)]) (auto simp: hashed_lines_def fs)
  qed (use snoc.prems(3,4) in \<open>simp_all add: fs\<close>)
  ultimately show ?case by (simp add: fs)
qed

section \<open>The table keeps its chain\<close>

definition ledger_ok :: "(nat list \<Rightarrow> ustr) \<Rightarrow> ledger \<Rightarrow> bool" where
  "ledger_ok H s \<longleftrightarrow>
     verify_loop H (anchor_seq (newest_checkpoint s) + 1) (anchor_hash (newest_checkpoint s))
       (lg_entries s) = Inr (fst (head s) + 1, snd (head s))
     \<and> list_all entry_check (lg_entries s)
     \<and> list_all (\<lambda>c. 1 \<le> cp_through_seq c) (lg_checkpoints s)
     \<and> length (lg_checkpoints s) \<le> 1"

lemma newest_single: "newest_checkpoint s = Some c" if "lg_checkpoints s = [c]"
  using that by (simp add: newest_checkpoint_def)

lemma computed_hash_own: "computed_hash H (e\<lparr>le_entry_hash := h\<rparr>) = computed_hash H e"
  by (simp add: computed_hash_def chain_line_eq)

lemma append_ok: "ledger_ok H s \<Longrightarrow> ledger_ok H (snd (append H r now s))"
proof -
  assume ok: "ledger_ok H s"
  obtain n h where head: "head s = (n, h)" by (cases "head s")
  define e0 where "e0 = \<lparr>le_seq = n + 1, le_recorded_at = timestamp now, le_method = er_method r,
     le_endpoint = er_endpoint r, le_body_bytes = int (er_body_bytes r),
     le_body_sha256 = er_body_sha256 r, le_body_redacted = er_body_redacted r,
     le_bearer = er_bearer r, le_prev_hash = h, le_entry_hash = []\<rparr>"
  define e where "e = e0\<lparr>le_entry_hash := computed_hash H e0\<rparr>"
  let ?t = "s\<lparr>lg_entries := lg_entries s @ [e]\<rparr>"
  have step: "snd (append H r now s) =
      (if entry_check e \<and> le_entry_hash e \<notin> set (map le_entry_hash (lg_entries s)) then ?t else s)"
    by (simp add: append_def head Let_def e_def e0_def)
  have fields: "le_seq e = n + 1" "le_prev_hash e = h" "computed_hash H e = le_entry_hash e"
    using computed_hash_own [of H "computed_hash H e0" e0] by (simp_all add: e_def e0_def)
  have newest: "newest_checkpoint ?t = newest_checkpoint s"
    by (simp add: newest_checkpoint_def)
  have "head ?t = (n + 1, le_entry_hash e)"
    by (simp add: Egress.head_def fields)
  then have "ledger_ok H ?t" if "entry_check e"
    using ok that unfolding ledger_ok_def newest by (simp add: verify_snoc fields head)
  with ok show ?thesis by (auto simp: step)
qed

lemma prune_ok:
  assumes ok: "ledger_ok H s"
  shows "ledger_ok H (snd (prune cutoff mx bs s))"
proof (cases "snd (prune cutoff mx bs s) = s")
  case False
  define th where "th = prune_through s (timestamp cutoff) (int mx) (int bs)"
  obtain e where e: "find (\<lambda>e. le_seq e = th) (lg_entries s) = Some e"
    and past: "anchor_seq (newest_checkpoint s) < th"
    and t: "snd (prune cutoff mx bs s) =
      \<lparr>lg_entries = filter (\<lambda>x. th < le_seq x) (lg_entries s),
       lg_checkpoints = filter (\<lambda>c. th \<le> cp_through_seq c)
         (lg_checkpoints s @ [\<lparr>cp_through_seq = th, cp_through_hash = le_entry_hash e\<rparr>])\<rparr>"
    using False by (auto simp: prune_def Let_def th_def split: if_splits option.splits)
  let ?n = "anchor_seq (newest_checkpoint s) + 1"
  have ver: "verify_loop H ?n (anchor_hash (newest_checkpoint s)) (lg_entries s)
      = Inr (fst (head s) + 1, snd (head s))"
    using ok by (simp add: ledger_ok_def)
  obtain i where i: "i < length (lg_entries s)" "lg_entries s ! i = e" "le_seq e = th"
    using e by (auto simp: find_Some_iff)
  define xs ys where "xs = take (Suc i) (lg_entries s)" and "ys = drop (Suc i) (lg_entries s)"
  have split: "lg_entries s = xs @ ys" by (simp add: xs_def ys_def)
  have seq: "le_seq (lg_entries s ! j) = ?n + int j" if "j < length (lg_entries s)" for j
    using verify_seq [OF ver that] .
  have "le_seq x \<le> th" if "x \<in> set xs" for x
    using that i seq unfolding xs_def by (auto simp: in_set_conv_nth)
  moreover have "th < le_seq x" if "x \<in> set ys" for x
    using that i seq [of i] seq unfolding ys_def by (auto simp: in_set_conv_nth)
  ultimately have rest: "filter (\<lambda>x. th < le_seq x) (lg_entries s) = ys"
    unfolding split by (auto simp: filter_empty_conv not_less)
  have xs: "xs = take i (lg_entries s) @ [e]"
    using i by (simp add: xs_def take_Suc_conv_app_nth)
  obtain m q where mq: "verify_loop H ?n (anchor_hash (newest_checkpoint s)) xs = Inr (m, q)"
    using ver unfolding split verify_append by (auto split: sum.splits)
  then have "m = th + 1" "q = le_entry_hash e"
    using i(3) unfolding xs verify_snoc by auto
  with mq have "verify_loop H ?n (anchor_hash (newest_checkpoint s)) xs = Inr (th + 1, le_entry_hash e)"
    by simp
  then have tail: "verify_loop H (th + 1) (le_entry_hash e) ys = Inr (fst (head s) + 1, snd (head s))"
    using ver unfolding split verify_append by simp
  have "filter (\<lambda>c. th \<le> cp_through_seq c) (lg_checkpoints s) = []"
  proof (cases "lg_checkpoints s")
    case (Cons c cs)
    then have "lg_checkpoints s = [c]" using ok by (simp add: ledger_ok_def)
    then show ?thesis using past newest_single [of s c] by (simp add: anchor_seq_def)
  qed simp
  then have cps: "lg_checkpoints (snd (prune cutoff mx bs s)) =
      [\<lparr>cp_through_seq = th, cp_through_hash = le_entry_hash e\<rparr>]"
    by (simp add: t)
  have ents: "lg_entries (snd (prune cutoff mx bs s)) = ys"
    by (simp add: t rest)
  have head: "head (snd (prune cutoff mx bs s)) = head s"
  proof (cases "ys = []")
    case True
    then have "lg_entries s = take i (lg_entries s) @ [e]"
      using split xs by simp
    then have "last (lg_entries s) = e" "lg_entries s \<noteq> []" by (metis last_snoc, auto)
    then show ?thesis
      using True i(3) newest_single [OF cps]
      by (simp add: Egress.head_def ents anchor_seq_def anchor_hash_def)
  next
    case False
    moreover have "last (lg_entries s) = last ys" "lg_entries s \<noteq> []"
      using False split by auto
    ultimately show ?thesis by (simp add: Egress.head_def ents)
  qed
  have "1 \<le> th"
    using ok i by (auto simp: ledger_ok_def list_all_iff entry_check_def)
  then show ?thesis
    using ok tail head cps newest_single [OF cps] split
    unfolding ledger_ok_def ents by (simp add: anchor_seq_def anchor_hash_def)
qed (use ok in simp)

datatype ledger_command = LAppend egress_record instant | LPrune instant nat nat

definition exec_ledger :: "(nat list \<Rightarrow> ustr) \<Rightarrow> ledger_command \<Rightarrow> ledger \<Rightarrow> ledger" where
  "exec_ledger H c s = (case c of LAppend r now \<Rightarrow> snd (append H r now s)
     | LPrune cutoff mx bs \<Rightarrow> snd (prune cutoff mx bs s))"

definition empty_ledger :: ledger where
  "empty_ledger = \<lparr>lg_entries = [], lg_checkpoints = []\<rparr>"

lemma empty_ok: "ledger_ok H empty_ledger"
  by (simp add: ledger_ok_def empty_ledger_def Egress.head_def newest_checkpoint_def)

lemma exec_ledger_ok: "keeping (ledger_ok H) s (exec_ledger H c s)"
  by (cases c) (simp_all add: keeping_def exec_ledger_def append_ok prune_ok)

lemma ledger_run_ok: "ledger_ok H (fold (exec_ledger H) cs empty_ledger)"
proof -
  have "keeping (ledger_ok H) empty_ledger (fold (exec_ledger H) cs empty_ledger)"
    by (rule keeping.run) (rule exec_ledger_ok)
  then show ?thesis by (simp add: keeping_def empty_ok)
qed

text \<open>
  C12: The ledger always verifies. After any sequence of appends and prunes on an empty
  ledger, whatever the hash function, the verifier accepts the surviving entries against
  the newest checkpoint, counts all of them, and reports the head the next entry will
  link to.
\<close>

theorem ledger_always_verifies:
  fixes H cs
  defines "s \<equiv> fold (exec_ledger H) cs empty_ledger"
  shows "verify_chain H (newest_checkpoint s) (lg_entries s) =
     Inr \<lparr>cs_entries = length (lg_entries s), cs_anchor_seq = anchor_seq (newest_checkpoint s),
          cs_head_seq = fst (head s), cs_head_hash = snd (head s)\<rparr>"
  using ledger_run_ok [of H cs] unfolding s_def ledger_ok_def verify_chain_def by simp

text \<open>
  C13: Tampering shows in the head. Two different ledgers that satisfy the schema and verify
  against the same anchor differ in the sequence number or the hash of their head, whenever
  SHA-256 tells apart the lines hashed in the two of them. Somebody who noted the head can
  therefore tell any edit, insertion, removal or reordering of entries, in whichever field,
  short of one that comes with an actual collision.
\<close>

theorem edited_history_changes_the_head:
  assumes verified: "verify_chain H a es = Inr x" "verify_chain H a fs = Inr y"
    and schema: "list_all entry_check es" "list_all entry_check fs"
    and hash: "inj_on H (hashed_lines es \<union> hashed_lines fs)"
    and edited: "es \<noteq> fs"
  shows "(cs_head_seq x, cs_head_hash x) \<noteq> (cs_head_seq y, cs_head_hash y)"
proof
  assume "(cs_head_seq x, cs_head_hash x) = (cs_head_seq y, cs_head_hash y)"
  then obtain m h where "verify_loop H (anchor_seq a + 1) (anchor_hash a) es = Inr (m, h)"
    "verify_loop H (anchor_seq a + 1) (anchor_hash a) fs = Inr (m, h)"
    using verified by (auto simp: verify_chain_def split: sum.splits prod.splits)
  then have "es = fs" by (rule same_head_same_chain [OF _ _ schema hash])
  with edited show False by simp
qed

text \<open>A request recorded at one second, and the same request with its time changed and rehashed.\<close>

definition byte_sum_hash :: "nat list \<Rightarrow> ustr" where
  "byte_sum_hash bs = replicate 62 97 @ [97 + sum_list bs div 16 mod 16, 97 + sum_list bs mod 16]"

definition entry_at :: "int \<Rightarrow> ledger_entry" where
  "entry_at t = (let e = \<lparr>le_seq = 1, le_recorded_at = t, le_method = of_str ''GET'',
     le_endpoint = of_str ''https://api.velvt.app/v1/ready'', le_body_bytes = 0,
     le_body_sha256 = replicate 64 97, le_body_redacted = False, le_bearer = False,
     le_prev_hash = GENESIS_HASH, le_entry_hash = []\<rparr>
     in e\<lparr>le_entry_hash := computed_hash byte_sum_hash e\<rparr>)"

lemma entry_at_verifies:
  "verify_chain byte_sum_hash None [entry_at t] = Inr \<lparr>cs_entries = 1, cs_anchor_seq = 0,
     cs_head_seq = 1, cs_head_hash = le_entry_hash (entry_at t)\<rparr>"
  by (simp add: verify_chain_def anchor_seq_def anchor_hash_def entry_at_def Let_def computed_hash_def
      chain_line_eq)

lemma entry_at_check: "entry_check (entry_at t)"
  by (simp add: entry_check_def entry_at_def Let_def of_str_def GENESIS_HASH_def computed_hash_def
      byte_sum_hash_def)

theorem edited_history_changes_the_head_witness:
  "le_entry_hash (entry_at 7) \<noteq> le_entry_hash (entry_at 8)"
proof -
  let ?n = "\<lambda>t. sum_list (as_bytes (chain_line (entry_at t)))"
  have digits: "int_str 7 = ''7''" "int_str 8 = ''8''" by code_simp+
  have "?n 8 = ?n 7 + 1"
    by (simp add: chain_line_eq entry_at_def Let_def as_bytes_def digits of_str_def utf8_def)
  moreover have "n mod 16 \<noteq> (n + 1) mod 16" for n :: nat by (auto simp: mod_Suc)
  ultimately have "?n 7 mod 16 \<noteq> ?n 8 mod 16" by simp
  then have "byte_sum_hash (as_bytes (chain_line (entry_at 7))) \<noteq> byte_sum_hash (as_bytes (chain_line (entry_at 8)))"
    by (simp add: byte_sum_hash_def)
  then have "inj_on byte_sum_hash (hashed_lines [entry_at 7] \<union> hashed_lines [entry_at 8])"
    by (auto simp: inj_on_def hashed_lines_def)
  moreover have "[entry_at 7] \<noteq> [entry_at 8]" by (simp add: entry_at_def Let_def)
  ultimately show ?thesis
    using edited_history_changes_the_head [OF entry_at_verifies entry_at_verifies, of 7 8]
    by (simp add: entry_at_check)
qed

section \<open>Endpoints\<close>

text \<open>
  A stored endpoint contains no separator and no control character, so the hashed
  line can be read back field by field and line by line.
\<close>

theorem ledger_endpoint_is_clean:
  "list_all (\<lambda>c. c \<noteq> 124 \<and> \<not> is_control c) (ledger_endpoint url)"
proof -
  have small: "b < 256" if "c = 124 \<or> is_control c" "b \<in> set (utf8 c)" for b c
    using that by (auto simp: is_control_def utf8_def split: if_splits)
  have "list_all (\<lambda>c. c \<noteq> 124 \<and> \<not> is_control c) (percent b)" if "b < 256" for b
  proof -
    have "b div 16 < 16" "b mod 16 < 16" using that by (simp_all add: less_mult_imp_div_less)
    then show ?thesis by (auto simp: percent_def hex_digit_def is_control_def)
  qed
  then have "list_all (\<lambda>c. c \<noteq> 124 \<and> \<not> is_control c) (concat (map percent (utf8 c)))"
    if "c = 124 \<or> is_control c" for c
    using small [OF that] by (auto simp: list_all_iff)
  then show ?thesis
    by (induction url) (auto simp: ledger_endpoint_def)
qed

section \<open>Redaction\<close>

text \<open>Two JSON values that differ in nothing but the values of secret fields.\<close>

inductive agree :: "json \<Rightarrow> json \<Rightarrow> bool" where
  same: "agree v v"
| obj: "list_all2 (\<lambda>x y. fst x = fst y \<and> (fst x \<in> set SECRET_FIELDS \<or> agree (snd x) (snd y))) f g
     \<Longrightarrow> agree (JObject f) (JObject g)"
| arr: "list_all2 agree xs ys \<Longrightarrow> agree (JArray xs) (JArray ys)"

lemma list_all2_same_image:
  assumes "list_all2 P xs ys" and step: "\<And>x y. P x y \<Longrightarrow> f x = f y \<and> (q (f x) \<or> x = y)"
  shows "map f xs = map f ys \<and> (list_ex q (map f xs) \<or> xs = ys)"
  using assms(1)
proof (induction rule: list_all2_induct)
  case (Cons x xs y ys)
  have "f x = f y" "q (f x) \<or> x = y" using step [OF Cons.hyps(1)] by blast+
  then show ?case using Cons.IH by (elim conjE disjE) simp_all
qed simp

definition walk_field :: "ustr \<times> json \<Rightarrow> ustr \<times> json \<times> bool" where
  "walk_field x = (case x of (k, v) \<Rightarrow>
     if k \<in> set SECRET_FIELDS then (k, (JString REDACTED, True)) else (k, walk v))"

lemma walk_object:
  "walk (JObject fs) = (JObject (map (\<lambda>(k, r). (k, fst r)) (map walk_field fs)),
     list_ex (\<lambda>(k, r). snd r) (map walk_field fs))"
  by (simp only: walk.simps Let_def walk_field_def [abs_def])

lemma agree_walk: "agree v w \<Longrightarrow> walk v = walk w \<and> (snd (walk v) \<or> v = w)"
proof (induction rule: agree.induct)
  case (obj f g)
  have "map walk_field f = map walk_field g
      \<and> (list_ex (\<lambda>(k, r). snd r) (map walk_field f) \<or> f = g)"
    by (rule list_all2_same_image [OF obj]) (auto simp: walk_field_def case_prod_beta)
  then show ?case unfolding walk_object by (elim conjE disjE) simp_all
next
  case (arr xs ys)
  have "map walk xs = map walk ys \<and> (list_ex snd (map walk xs) \<or> xs = ys)"
    by (rule list_all2_same_image [OF arr]) blast
  then show ?case by (elim conjE disjE) (simp_all add: Let_def)
qed simp

text \<open>
  The ledger cannot be used to test guesses of a secret. Two request bodies that
  differ only in the values of password and token fields are recorded with the same body
  hash, whatever the hash function and the JSON encoder.
\<close>

theorem recorded_hash_is_independent_of_secrets:
  assumes "agree v w"
  shows "er_body_sha256 (new_record H enc meth url (enc v) (Some v) bearer)
       = er_body_sha256 (new_record H enc meth url (enc w) (Some w) bearer)"
proof -
  have "walk v = walk w" "snd (walk v) \<or> v = w" using agree_walk [OF assms] by blast+
  then show ?thesis
    by (elim disjE) (simp_all add: new_record_def Let_def redact_secrets_def case_prod_beta)
qed

definition demo_enc :: "json \<Rightarrow> nat list" where
  "demo_enc v = (case v of JObject f \<Rightarrow> concat (map fst f) | JString t \<Rightarrow> t | _ \<Rightarrow> [0])"

definition demo_login :: "string \<Rightarrow> json" where
  "demo_login p = JObject [(of_str ''email'', JString (of_str ''a@b.c'')),
     (of_str ''password'', JString (of_str p))]"

theorem recorded_hash_is_independent_of_secrets_witness:
  "er_body_sha256 (new_record (\<lambda>b. b) demo_enc [] [] (demo_enc (demo_login ''hunter2''))
      (Some (demo_login ''hunter2'')) False)
   = er_body_sha256 (new_record (\<lambda>b. b) demo_enc [] [] (demo_enc (demo_login ''correct horse''))
      (Some (demo_login ''correct horse'')) False)"
proof (rule recorded_hash_is_independent_of_secrets)
  show "agree (demo_login ''hunter2'') (demo_login ''correct horse'')"
    unfolding demo_login_def by (rule agree.obj) (simp add: SECRET_FIELDS_def agree.same)
qed

end
