(* ===== verification/Client.thy ===== *)
theory Client
  imports Auth Egress
begin

text \<open>
  The sending half of \<^verbatim>\<open>ReqwestHttpClient\<close> (\<^verbatim>\<open>auth/http.rs\<close>): how a request becomes the bytes
  that leave the device and the ledger entry that describes them. Text is a list of code
  points here, and a body is JSON; theory \<^verbatim>\<open>Auth\<close> has the same request as far as the account
  logic reads it. SHA-256 and \<^verbatim>\<open>serde_json\<close>'s encoder, which may fail, are parameters.
  \<open>cl_wire\<close> is what was handed to the network, in order.
\<close>

record outbound =
  ob_method :: http_method
  ob_path :: ustr
  ob_authorization :: "ustr option"
  ob_refresh_token :: "ustr option"
  ob_json_body :: "json option"
  ob_timeout :: "int option"

record wire_request =
  wi_method :: http_method
  wi_url :: ustr
  wi_bearer :: "ustr option"
  wi_body :: "nat list option"
  wi_timeout :: "int option"

record client_env =
  ce_base_url :: ustr
  ce_sha256 :: "nat list \<Rightarrow> ustr"
  ce_to_vec :: "json \<Rightarrow> nat list option"

record client =
  cl_ledger :: ledger
  cl_wire :: "wire_request list"

fun method_str :: "http_method \<Rightarrow> ustr" where
  "method_str Get = of_str ''GET''"
| "method_str Post = of_str ''POST''"
| "method_str Patch = of_str ''PATCH''"
| "method_str Delete = of_str ''DELETE''"

definition trim_end_slashes :: "ustr \<Rightarrow> ustr" where
  "trim_end_slashes s = rev (dropWhile (\<lambda>c. c = 47) (rev s))"

definition encode_body :: "client_env \<Rightarrow> outbound \<Rightarrow> auth_error + (json \<times> nat list) option" where
  "encode_body E rq =
     (let encoded = (\<lambda>v. case ce_to_vec E v of None \<Rightarrow> Inl ErrTransport | Some bytes \<Rightarrow> Inr (Some (v, bytes)))
      in case (ob_refresh_token rq, ob_json_body rq) of
           (Some token, _) \<Rightarrow> encoded (JObject [(of_str ''refresh_token'', JString token)])
         | (None, Some body) \<Rightarrow> encoded body
         | (None, None) \<Rightarrow> Inr None)"

definition describe_request ::
  "client_env \<Rightarrow> outbound \<Rightarrow> auth_error + (egress_record \<times> nat list option)" where
  "describe_request E rq =
     (let url = trim_end_slashes (ce_base_url E) @ ob_path rq in
      case encode_body E rq of Inl e \<Rightarrow> Inl e
      | Inr body \<Rightarrow> Inr
          (new_record (ce_sha256 E) (\<lambda>v. case ce_to_vec E v of None \<Rightarrow> [] | Some bytes \<Rightarrow> bytes)
             (method_str (ob_method rq)) url (case body of None \<Rightarrow> [] | Some (_, bytes) \<Rightarrow> bytes)
             (map_option fst body) (ob_authorization rq \<noteq> None),
           map_option snd body))"

definition client_send :: "client_env \<Rightarrow> outbound \<Rightarrow> instant \<Rightarrow> (client, auth_error, unit) op" where
  "client_send E rq now = (\<lambda>s.
     let url = trim_end_slashes (ce_base_url E) @ ob_path rq in
     case describe_request E rq of Inl e \<Rightarrow> (Inl e, s)
     | Inr (r, body) \<Rightarrow>
         (case append (ce_sha256 E) r now (cl_ledger s) of
            (Inl _, l) \<Rightarrow> (Inl ErrTransport, s\<lparr>cl_ledger := l\<rparr>)
          | (Inr _, l) \<Rightarrow> (Inr (), s\<lparr>cl_ledger := l, cl_wire := cl_wire s @
              [\<lparr>wi_method = ob_method rq, wi_url = url, wi_bearer = ob_authorization rq,
                wi_body = body, wi_timeout = ob_timeout rq\<rparr>]\<rparr>)))"

end
