(* ===== verification/Client_Properties.thy ===== *)
theory Client_Properties
  imports Client
begin

text \<open>What the ledger says of a request is what left the device.\<close>









end
