(* ===== verification/Upload.thy ===== *)
theory Upload
  imports Auth Egress
begin

text \<open>
  The upload pipeline (\<^verbatim>\<open>upload/\<close>, and the \<^verbatim>\<open>UploadBatchRepo\<close> statements of
  \<^verbatim>\<open>persistence/sqlite.rs\<close>): events are buffered in an assembler, leave it as batches, are
  written to the queue table before anything is sent, and are retried from there.

  The state is one record: the assembler, the queue's tables in \<^verbatim>\<open>rowid\<close> order, the
  in-memory host back-off, and scripts for the environment. \<open>uq_io\<close> says which accesses to
  the database succeed (all, once it is used up), \<open>uq_clock\<close> what the clock reads next,
  \<open>uq_net\<close> what the HTTP client answers, one entry per request (a transport failure once it
  is used up). \<open>uq_posted\<close> is the log of the batches posted and \<open>uq_alerts\<close> the privacy
  alerts raised. SHA-256, RFC 2822 and RFC 3339, the floating-point jitter and the retention
  policy are fields of \<open>up_env\<close>. A text is the list of its UTF-8 bytes, so \<open>length\<close> is
  Rust's \<^verbatim>\<open>len\<close>. A panic is the error \<open>Panicked\<close>. Operations run one at a time here; what
  happens when two network calls overlap is stated separately, over \<open>post\<close> and
  \<open>record_outcome\<close>.
\<close>

section \<open>Data\<close>

record payload_event =
  pe_event_id :: string
  pe_stable_id :: string
  pe_label :: string
  pe_category :: string
  pe_taxonomy_version :: string
  pe_classification_tier :: string
  pe_occurred_at :: instant
  pe_duration_seconds :: nat

record batch_payload =
  bp_batch_id :: string
  bp_schema_version :: string
  bp_client_version :: string
  bp_supported :: "string list"
  bp_taxonomy_version :: string
  bp_events :: "payload_event list"

datatype upload_batch_status = Pending | Sent | Failed | Rejected | Abandoned

record upload_row =
  ur_batch_id :: string
  ur_status :: upload_batch_status
  ur_sent_at :: "int option"
  ur_attempt_count :: nat
  ur_next_attempt_at :: int
  ur_last_error_code :: "string option"
  ur_created_at :: int

record queued_batch =
  ub_batch_id :: string
  ub_status :: upload_batch_status
  ub_attempt_count :: nat
  ub_next_attempt_at :: instant
  ub_events :: "payload_event list"

record assembler =
  as_opened_at :: "instant option"
  as_events :: "payload_event list"

record raw_event =
  re_event :: payload_event
  re_upload_eligible :: bool
  re_created_at :: int

datatype upload_outcome = Accepted | Duplicate | RawFieldRejected string
  | RateLimited "ustr option" | Retryable string

datatype batch_upload_error = Transport | AuthenticationRequired

record batch_response = http_response +
  rs_retry_after :: "ustr option"
  rs_body_status :: "string option"

datatype upload_error = Sqlite | NotFound | Panicked

record up_env =
  ev_device_id :: string
  ev_count_threshold :: nat
  ev_age_seconds :: int
  ev_host :: string
  ev_base_seconds :: nat
  ev_cap_seconds :: nat
  ev_jittered :: "nat \<Rightarrow> int"
  ev_rfc2822 :: "ustr \<Rightarrow> instant option"
  ev_rfc3339 :: "instant \<Rightarrow> ustr"
  ev_sha256 :: "nat list \<Rightarrow> string"
  ev_client_version :: string
  ev_should_discard :: "queued_batch \<Rightarrow> bool"

record upload =
  uq_assembler :: assembler
  uq_batches :: "upload_row list"
  uq_events :: "(string \<times> payload_event) list"
  uq_host_backoff :: "(string \<times> (nat \<times> int)) list"
  uq_attempts :: "(string \<times> nat) list"
  uq_raw :: "raw_event list"
  uq_io :: "bool list"
  uq_clock :: "instant list"
  uq_now :: instant
  uq_net :: "(auth_error + batch_response) list"
  uq_posted :: "batch_payload list"
  uq_alerts :: "string list"

type_synonym 'a up = "(upload, upload_error, 'a) op"

section \<open>The outbound shape\<close>

definition API_ABSTRACTION_TYPE_VERSION :: string where
  "API_ABSTRACTION_TYPE_VERSION = ''1''"

definition cloud_abstraction_type :: "string \<Rightarrow> string" where
  "cloud_abstraction_type category =
     (if category = ''FOCUS_WORK'' then ''document:inferred''
      else if category = ''PASSIVE_CONSUMPTION'' then ''video:inferred''
      else if category = ''SOCIAL_FEED'' then ''social:inferred''
      else if category = ''COMMUNICATION'' then ''communication:inferred''
      else if category = ''TASK_MANAGEMENT'' then ''task:inferred''
      else if category = ''REFERENCE'' then ''reference:inferred''
      else if category = ''SYSTEM'' then ''system:inferred''
      else if category = ''UNLOGGED'' then ''unlogged''
      else ''system:unknown'')"

definition jstr :: "string \<Rightarrow> json" where
  "jstr s = JString (of_str s)"

definition serialize_event :: "up_env \<Rightarrow> payload_event \<Rightarrow> json" where
  "serialize_event E e = JObject
     [(of_str ''event_id'', jstr (pe_event_id e)),
      (of_str ''occurred_at'', JString (ev_rfc3339 E (pe_occurred_at e))),
      (of_str ''abstraction_type'', jstr (cloud_abstraction_type (pe_category e))),
      (of_str ''abstraction_type_version'', jstr API_ABSTRACTION_TYPE_VERSION),
      (of_str ''classification_tier'', jstr (pe_classification_tier e)),
      (of_str ''payload'', JObject
         [(of_str ''duration_seconds'', JNumber (of_str (nat_str (pe_duration_seconds e)))),
          (of_str ''category'', jstr (pe_category e))])]"

definition serialize_batch :: "up_env \<Rightarrow> batch_payload \<Rightarrow> json" where
  "serialize_batch E b = JObject
     [(of_str ''batch_id'', jstr (bp_batch_id b)),
      (of_str ''schema_version'', jstr (bp_schema_version b)),
      (of_str ''client_version'', jstr (bp_client_version b)),
      (of_str ''supported_abstraction_types'', JArray (map jstr (bp_supported b))),
      (of_str ''category_taxonomy_version'', jstr (bp_taxonomy_version b)),
      (of_str ''events'', JArray (map (serialize_event E) (bp_events b)))]"

text \<open>First occurrences, in order: the loop that pushes what is not there yet.\<close>

fun push_unique :: "'a list \<Rightarrow> 'a list \<Rightarrow> 'a list" where
  "push_unique acc [] = acc"
| "push_unique acc (x # xs) = push_unique (if x \<in> set acc then acc else acc @ [x]) xs"

definition new_payload ::
  "string \<Rightarrow> string \<Rightarrow> string \<Rightarrow> string list \<Rightarrow> string \<Rightarrow> payload_event list \<Rightarrow> batch_payload" where
  "new_payload batch_id schema client supported_types taxonomy events =
     \<lparr>bp_batch_id = batch_id, bp_schema_version = schema, bp_client_version = client,
      bp_supported = push_unique [] (map (\<lambda>e. cloud_abstraction_type (pe_category e)) events),
      bp_taxonomy_version = taxonomy, bp_events = events\<rparr>"

section \<open>The assembler\<close>

definition u64_be :: "nat \<Rightarrow> nat list" where
  "u64_be n = map (\<lambda>i. n div 256 ^ (7 - i) mod 256) [0..<8]"

definition str_bytes :: "string \<Rightarrow> nat list" where
  "str_bytes s = map of_char s"

definition length_prefixed :: "string \<Rightarrow> nat list" where
  "length_prefixed s = u64_be (length s) @ str_bytes s"

definition batch_id_bytes :: "string \<Rightarrow> payload_event list \<Rightarrow> nat list" where
  "batch_id_bytes device events = str_bytes ''velvt:upload-batch:v1'' @ length_prefixed device
     @ concat (map (\<lambda>e. length_prefixed (pe_event_id e)) events)"

definition deterministic_batch_id :: "up_env \<Rightarrow> payload_event list \<Rightarrow> string" where
  "deterministic_batch_id E events = ev_sha256 E (batch_id_bytes (ev_device_id E) events)"

definition take_batch :: "up_env \<Rightarrow> assembler \<Rightarrow> batch_payload option \<times> assembler" where
  "take_batch E a =
     (case as_events a of [] \<Rightarrow> (None, a)
      | e # _ \<Rightarrow>
          let taxonomy = pe_taxonomy_version e;
              (events, remainder) = partition (\<lambda>x. pe_taxonomy_version x = taxonomy) (as_events a)
          in (Some (new_payload (deterministic_batch_id E events) ''1'' (ev_client_version E)
                (push_unique [] (map pe_label events)) taxonomy events),
              \<lparr>as_opened_at = (if remainder = [] then None else as_opened_at a),
               as_events = remainder\<rparr>))"

definition buffer_event :: "payload_event \<Rightarrow> instant \<Rightarrow> assembler \<Rightarrow> assembler" where
  "buffer_event e now a =
     \<lparr>as_opened_at = Some (case as_opened_at a of None \<Rightarrow> now | Some t \<Rightarrow> t),
      as_events = as_events a @ [e]\<rparr>"

definition push ::
  "up_env \<Rightarrow> payload_event \<Rightarrow> instant \<Rightarrow> assembler \<Rightarrow> batch_payload option \<times> assembler" where
  "push E e now a =
     (if (case as_events a of [] \<Rightarrow> False | f # _ \<Rightarrow> pe_taxonomy_version f \<noteq> pe_taxonomy_version e)
      then (case take_batch E a of (closed, b) \<Rightarrow> (closed, buffer_event e now b))
      else let b = buffer_event e now a in
           if ev_count_threshold E \<le> length (as_events b) then take_batch E b else (None, b))"

definition assembler_flush_due ::
  "up_env \<Rightarrow> instant \<Rightarrow> assembler \<Rightarrow> batch_payload option \<times> assembler" where
  "assembler_flush_due E now a =
     (case as_opened_at a of None \<Rightarrow> (None, a)
      | Some opened \<Rightarrow> if ev_age_seconds E \<le> num_seconds (now - opened) then take_batch E a
                       else (None, a))"

definition assembler_flush_shutdown :: "up_env \<Rightarrow> assembler \<Rightarrow> batch_payload option \<times> assembler" where
  "assembler_flush_shutdown E a = take_batch E a"

definition assembler_flush_sleep :: "up_env \<Rightarrow> assembler \<Rightarrow> batch_payload option \<times> assembler" where
  "assembler_flush_sleep E a = take_batch E a"

definition min_instant :: "instant list \<Rightarrow> instant option" where
  "min_instant ts = (case ts of [] \<Rightarrow> None | t # us \<Rightarrow> Some (fold min us t))"

definition requeue :: "batch_payload \<Rightarrow> assembler \<Rightarrow> assembler" where
  "requeue b a =
     (if bp_events b = [] then a
      else \<lparr>as_opened_at =
              (case (as_opened_at a, min_instant (map pe_occurred_at (bp_events b))) of
                 (Some current, Some reopened) \<Rightarrow> Some (min current reopened)
               | (None, reopened) \<Rightarrow> reopened
               | (current, None) \<Rightarrow> current),
            as_events = bp_events b @ as_events a\<rparr>)"

section \<open>Database, clock and network\<close>

definition io :: "unit up" where
  "io = (\<lambda>s. case uq_io s of [] \<Rightarrow> (Inr (), s)
     | ok # oks \<Rightarrow> (if ok then Inr () else Inl Sqlite, s\<lparr>uq_io := oks\<rparr>))"

definition utc_now :: "instant up" where
  "utc_now = (\<lambda>s. case uq_clock s of [] \<Rightarrow> (Inr (uq_now s), s)
     | t # ts \<Rightarrow> (Inr t, s\<lparr>uq_clock := ts, uq_now := t\<rparr>))"

definition http_post :: "batch_payload \<Rightarrow> (auth_error + batch_response) up" where
  "http_post b = (\<lambda>s. let t = s\<lparr>uq_posted := uq_posted s @ [b]\<rparr> in
     case uq_net s of [] \<Rightarrow> (Inr (Inl ErrTransport), t)
     | r # rs \<Rightarrow> (Inr r, t\<lparr>uq_net := rs\<rparr>))"

section \<open>The queue table\<close>

definition i64_max :: nat where
  "i64_max = 9223372036854775807"

definition batch_ids :: "upload \<Rightarrow> string list" where
  "batch_ids s = map ur_batch_id (uq_batches s)"

definition event_ids :: "upload \<Rightarrow> string list" where
  "event_ids s = map (\<lambda>(b, e). pe_event_id e) (uq_events s)"

definition insert_batch :: "string \<Rightarrow> instant \<Rightarrow> unit up" where
  "insert_batch b now = (\<lambda>s. if b = [] \<or> b \<in> set (batch_ids s) then (Inl Sqlite, s)
     else (Inr (), s\<lparr>uq_batches := uq_batches s @
       [\<lparr>ur_batch_id = b, ur_status = Pending, ur_sent_at = None, ur_attempt_count = 0,
         ur_next_attempt_at = 0, ur_last_error_code = None, ur_created_at = timestamp now\<rparr>]\<rparr>))"

definition event_check :: "upload \<Rightarrow> string \<Rightarrow> payload_event \<Rightarrow> bool" where
  "event_check s b e \<longleftrightarrow> b \<in> set (batch_ids s)
     \<and> pe_event_id e \<noteq> [] \<and> pe_event_id e \<notin> set (event_ids s)
     \<and> pe_stable_id e \<noteq> [] \<and> pe_label e \<noteq> [] \<and> pe_category e \<noteq> []
     \<and> pe_taxonomy_version e \<noteq> [] \<and> pe_duration_seconds e \<le> i64_max"

definition stored_event :: "payload_event \<Rightarrow> payload_event" where
  "stored_event e = e\<lparr>pe_occurred_at := stored (pe_occurred_at e)\<rparr>"

definition add_event_to_batch :: "string \<Rightarrow> payload_event \<Rightarrow> unit up" where
  "add_event_to_batch b e = (\<lambda>s. if event_check s b e
     then (Inr (), s\<lparr>uq_events := uq_events s @ [(b, stored_event e)]\<rparr>) else (Inl Sqlite, s))"

fun add_events :: "string \<Rightarrow> payload_event list \<Rightarrow> unit up" where
  "add_events b [] = ret ()"
| "add_events b (e # es) = andthen (add_event_to_batch b e) (\<lambda>_. add_events b es)"

definition transaction :: "'a up \<Rightarrow> 'a up" where
  "transaction m = (\<lambda>s. case m s of (Inl e, _) \<Rightarrow> (Inl e, s) | (Inr a, t) \<Rightarrow> (Inr a, t))"

definition insert_batch_with_events :: "string \<Rightarrow> payload_event list \<Rightarrow> unit up" where
  "insert_batch_with_events b es =
     andthen io (\<lambda>_. andthen utc_now (\<lambda>now.
       transaction (andthen (insert_batch b now) (\<lambda>_. add_events b es))))"

definition map_batch :: "string \<Rightarrow> (upload_row \<Rightarrow> upload_row) \<Rightarrow> unit up" where
  "map_batch b f = (\<lambda>s. if b \<in> set (batch_ids s)
     then (Inr (), s\<lparr>uq_batches := map (\<lambda>r. if ur_batch_id r = b then f r else r) (uq_batches s)\<rparr>)
     else (Inl NotFound, s))"

definition UPLOAD_BATCH_ATTEMPT_CEILING :: nat where
  "UPLOAD_BATCH_ATTEMPT_CEILING = 288"

definition mark_sent :: "string \<Rightarrow> unit up" where
  "mark_sent b = andthen io (\<lambda>_. andthen utc_now (\<lambda>now.
     map_batch b (\<lambda>r. r\<lparr>ur_status := Sent, ur_sent_at := Some (timestamp now),
                       ur_last_error_code := None\<rparr>)))"

definition update_batch_retry_state ::
  "upload_batch_status \<Rightarrow> string \<Rightarrow> int \<Rightarrow> string \<Rightarrow> unit up" where
  "update_batch_retry_state retry_status b next code = andthen io (\<lambda>_.
     map_batch b (\<lambda>r. r\<lparr>
       ur_status := (if UPLOAD_BATCH_ATTEMPT_CEILING \<le> ur_attempt_count r + 1 then Abandoned
                     else retry_status),
       ur_attempt_count := ur_attempt_count r + 1,
       ur_next_attempt_at := next, ur_last_error_code := Some code\<rparr>))"

definition mark_failed :: "string \<Rightarrow> instant \<Rightarrow> string \<Rightarrow> unit up" where
  "mark_failed b next code = update_batch_retry_state Failed b (timestamp next) code"

definition mark_pending_retry :: "string \<Rightarrow> instant \<Rightarrow> string \<Rightarrow> unit up" where
  "mark_pending_retry b next code = update_batch_retry_state Pending b (timestamp next) code"

definition mark_rejected :: "string \<Rightarrow> string \<Rightarrow> unit up" where
  "mark_rejected b code = andthen io (\<lambda>_.
     map_batch b (\<lambda>r. r\<lparr>ur_status := Rejected, ur_last_error_code := Some code\<rparr>))"

definition drop_batches :: "(upload_row \<Rightarrow> bool) \<Rightarrow> upload \<Rightarrow> upload" where
  "drop_batches gone s =
     (let ids = map ur_batch_id (filter gone (uq_batches s))
      in s\<lparr>uq_batches := filter (\<lambda>r. \<not> gone r) (uq_batches s),
           uq_events := filter (\<lambda>(b, e). b \<notin> set ids) (uq_events s)\<rparr>)"

definition discard_batch :: "string \<Rightarrow> unit up" where
  "discard_batch b = andthen io (\<lambda>_ s. if b \<in> set (batch_ids s)
     then (Inr (), drop_batches (\<lambda>r. ur_batch_id r = b) s) else (Inl NotFound, s))"

definition batch_status :: "string \<Rightarrow> upload_batch_status up" where
  "batch_status b = andthen io (\<lambda>_ s. case find (\<lambda>r. ur_batch_id r = b) (uq_batches s) of
     None \<Rightarrow> (Inl NotFound, s) | Some r \<Rightarrow> (Inr (ur_status r), s))"

definition batch_of_row :: "upload \<Rightarrow> upload_row \<Rightarrow> queued_batch" where
  "batch_of_row s r = \<lparr>ub_batch_id = ur_batch_id r, ub_status = ur_status r,
     ub_attempt_count = ur_attempt_count r, ub_next_attempt_at = from_timestamp (ur_next_attempt_at r),
     ub_events = map snd (filter (\<lambda>(b, e). b = ur_batch_id r) (uq_events s))\<rparr>"

definition resumable :: "int \<Rightarrow> upload_row \<Rightarrow> bool" where
  "resumable now r \<longleftrightarrow> ur_status r \<in> {Pending, Failed} \<and> ur_next_attempt_at r \<le> now"

definition resumable_batches :: "instant \<Rightarrow> queued_batch list up" where
  "resumable_batches now = andthen io (\<lambda>_. gets (\<lambda>s. map (batch_of_row s)
     (sort_key ur_created_at (filter (resumable (timestamp now)) (uq_batches s)))))"

definition pending_batches :: "queued_batch list up" where
  "pending_batches = resumable_batches MAX_UTC"

definition host_backoff_attempt :: "string \<Rightarrow> nat up" where
  "host_backoff_attempt host = andthen io (\<lambda>_. gets (\<lambda>s.
     case map_of (uq_host_backoff s) host of None \<Rightarrow> 0 | Some (n, _) \<Rightarrow> n))"

definition host_backoff_until :: "string \<Rightarrow> instant option up" where
  "host_backoff_until host = andthen io (\<lambda>_. gets (\<lambda>s.
     map_option (\<lambda>(_, t). from_timestamp t) (map_of (uq_host_backoff s) host)))"

definition set_host_backoff :: "string \<Rightarrow> nat \<Rightarrow> instant \<Rightarrow> unit up" where
  "set_host_backoff host n next = andthen io (\<lambda>_ s. if host = [] then (Inl Sqlite, s)
     else (Inr (), s\<lparr>uq_host_backoff := (host, (n, timestamp next))
             # filter (\<lambda>(h, _). h \<noteq> host) (uq_host_backoff s)\<rparr>))"

definition clear_host_backoff :: "string \<Rightarrow> unit up" where
  "clear_host_backoff host = andthen io (\<lambda>_.
     modify (\<lambda>s. s\<lparr>uq_host_backoff := filter (\<lambda>(h, _). h \<noteq> host) (uq_host_backoff s)\<rparr>))"

definition update_event_classification :: "string \<Rightarrow> string \<Rightarrow> string \<Rightarrow> unit up" where
  "update_event_classification i label category = andthen io (\<lambda>_ s.
     if (label = [] \<or> category = []) \<and> i \<in> set (event_ids s) then (Inl Sqlite, s)
     else (Inr (), s\<lparr>uq_events := map (\<lambda>(b, e). (b, if pe_event_id e = i
       then e\<lparr>pe_label := label, pe_category := category, pe_classification_tier := ''exact_match''\<rparr>
       else e)) (uq_events s)\<rparr>))"

text \<open>
  A sweep deletes at most \<open>limit\<close> of the rows its condition selects; which of them a
  \<^verbatim>\<open>LIMIT\<close> without an order picks is the database's choice, \<open>visit\<close>.
\<close>

definition sweep ::
  "(upload_row list \<Rightarrow> upload_row list) \<Rightarrow> (upload_row \<Rightarrow> bool) \<Rightarrow> nat \<Rightarrow> nat up" where
  "sweep visit p limit = andthen io (\<lambda>_ s.
     let picked = take limit (filter p (visit (uq_batches s)));
         gone = (\<lambda>r. r \<in> set picked)
     in (Inr (length (filter gone (uq_batches s))), drop_batches gone s))"

definition delete_sent_batch ::
  "(upload_row list \<Rightarrow> upload_row list) \<Rightarrow> instant \<Rightarrow> nat \<Rightarrow> nat up" where
  "delete_sent_batch visit cutoff limit = sweep visit (\<lambda>r. ur_status r = Sent
     \<and> (case ur_sent_at r of None \<Rightarrow> False | Some t \<Rightarrow> t < timestamp cutoff)) limit"

definition delete_rejected_batch ::
  "(upload_row list \<Rightarrow> upload_row list) \<Rightarrow> instant \<Rightarrow> nat \<Rightarrow> nat up" where
  "delete_rejected_batch visit cutoff limit =
     sweep visit (\<lambda>r. ur_status r = Rejected \<and> ur_created_at r < timestamp cutoff) limit"

definition delete_stale_queued_batch ::
  "(upload_row list \<Rightarrow> upload_row list) \<Rightarrow> instant \<Rightarrow> nat \<Rightarrow> nat up" where
  "delete_stale_queued_batch visit cutoff limit =
     sweep visit (\<lambda>r. ur_created_at r < timestamp cutoff) limit"

definition upload_retention ::
  "(upload_row list \<Rightarrow> upload_row list) \<Rightarrow> int \<Rightarrow> int \<Rightarrow> nat \<Rightarrow> nat up" where
  "upload_retention visit sent_retention rejected_audit batch_size =
     andthen utc_now (\<lambda>now1. andthen utc_now (\<lambda>now2.
     andthen (delete_sent_batch visit (now1 - seconds sent_retention) batch_size) (\<lambda>a.
     andthen (delete_rejected_batch visit (now2 - seconds rejected_audit) batch_size) (\<lambda>b.
     andthen (delete_stale_queued_batch visit (now1 - seconds sent_retention) batch_size) (\<lambda>c.
     ret (a + b + c))))))"

record diagnostics =
  qd_pending :: nat
  qd_failed :: nat
  qd_rejected :: nat
  qd_next_attempt_at :: "instant option"
  qd_last_error_code :: "string option"
  qd_last_successful_sync_at :: "instant option"

definition count_status :: "upload \<Rightarrow> upload_batch_status \<Rightarrow> nat" where
  "count_status s st = length (filter (\<lambda>r. ur_status r = st) (uq_batches s))"

definition fold_option :: "(int \<Rightarrow> int \<Rightarrow> int) \<Rightarrow> int list \<Rightarrow> int option" where
  "fold_option f ts = (case ts of [] \<Rightarrow> None | t # us \<Rightarrow> Some (fold f us t))"

definition last_error :: "upload \<Rightarrow> string option" where
  "last_error s =
     (case sort_key ur_created_at (filter (\<lambda>r. ur_status r \<in> {Pending, Failed, Rejected, Abandoned}
        \<and> ur_last_error_code r \<noteq> None) (uq_batches s)) of
        [] \<Rightarrow> None | r # rs \<Rightarrow> ur_last_error_code (last (r # rs)))"

definition queue_diagnostics :: "diagnostics up" where
  "queue_diagnostics = andthen io (\<lambda>_. andthen utc_now (\<lambda>now. gets (\<lambda>s.
     \<lparr>qd_pending = count_status s Pending, qd_failed = count_status s Failed,
      qd_rejected = count_status s Rejected,
      qd_next_attempt_at = map_option from_timestamp (fold_option min (map ur_next_attempt_at
        (filter (\<lambda>r. ur_status r \<in> {Pending, Failed} \<and> timestamp now < ur_next_attempt_at r)
          (uq_batches s)))),
      qd_last_error_code = last_error s,
      qd_last_successful_sync_at = map_option from_timestamp (fold_option max
        (List.map_filter ur_sent_at (filter (\<lambda>r. ur_status r = Sent) (uq_batches s))))\<rparr>)))"

section \<open>Host back-off\<close>

definition parse_retry_after :: "up_env \<Rightarrow> ustr \<Rightarrow> int option up" where
  "parse_retry_after E v =
     (case parse_u64 (trim v) of Some n \<Rightarrow> ret (Some (seconds (int n)))
      | None \<Rightarrow> (case ev_rfc2822 E v of None \<Rightarrow> ret None
          | Some retry_at \<Rightarrow> andthen utc_now (\<lambda>now. ret (Some (max 0 (retry_at - now))))))"

definition backoff_seconds :: "up_env \<Rightarrow> nat \<Rightarrow> nat" where
  "backoff_seconds E tries =
     min (min (ev_base_seconds E * min (2 ^ tries) u32_max) u64_max) (ev_cap_seconds E)"

definition attempts_of :: "upload \<Rightarrow> string \<Rightarrow> nat" where
  "attempts_of s host = (case map_of (uq_attempts s) host of None \<Rightarrow> 0 | Some n \<Rightarrow> n)"

definition set_attempt :: "string \<Rightarrow> nat \<Rightarrow> unit up" where
  "set_attempt host n = modify (\<lambda>s. s\<lparr>uq_attempts := (host, n)
     # filter (\<lambda>(h, _). h \<noteq> host) (uq_attempts s)\<rparr>)"

definition reset_attempts :: "string \<Rightarrow> unit up" where
  "reset_attempts host = modify (\<lambda>s. s\<lparr>uq_attempts := filter (\<lambda>(h, _). h \<noteq> host) (uq_attempts s)\<rparr>)"

definition next_delay :: "up_env \<Rightarrow> string \<Rightarrow> ustr option \<Rightarrow> int up" where
  "next_delay E host retry_after =
     andthen (case retry_after of None \<Rightarrow> ret None | Some v \<Rightarrow> parse_retry_after E v) (\<lambda>parsed.
       case parsed of Some delay \<Rightarrow> ret delay
       | None \<Rightarrow> andthen (gets (\<lambda>s. attempts_of s host)) (\<lambda>tries.
           andthen (set_attempt host (sat_add tries 1)) (\<lambda>_.
           ret (min (ev_jittered E (backoff_seconds E tries)) (seconds (int (ev_cap_seconds E)))))))"

section \<open>The coordinator\<close>

text \<open>\<^verbatim>\<open>Duration::from_std\<close> fails above \<open>i64\<close> milliseconds; adding past \<open>MAX_UTC\<close> panics.\<close>

definition after_delay :: "instant \<Rightarrow> int \<Rightarrow> instant up" where
  "after_delay now delay =
     (let d = (if int i64_max * 1000000 < delay then seconds (15 * 60) else delay)
      in if MAX_UTC < now + d then err Panicked else ret (now + d))"

definition back_off_host :: "up_env \<Rightarrow> ustr option \<Rightarrow> instant up" where
  "back_off_host E retry_after =
     andthen (host_backoff_attempt (ev_host E)) (\<lambda>tries.
     andthen (set_attempt (ev_host E) tries) (\<lambda>_.
     andthen (next_delay E (ev_host E) retry_after) (\<lambda>delay.
     andthen utc_now (\<lambda>now.
     andthen (after_delay now delay) (\<lambda>next.
     andthen (set_host_backoff (ev_host E) (sat_add tries 1) next) (\<lambda>_.
     ret next))))))"

definition schedule_network_retry :: "up_env \<Rightarrow> string \<Rightarrow> unit up" where
  "schedule_network_retry E b =
     andthen (back_off_host E None) (\<lambda>next. mark_pending_retry b next ''transport'')"

definition upload_error_of :: "auth_error \<Rightarrow> batch_upload_error" where
  "upload_error_of e = (if e \<in> {ErrNeedsReauth, ErrDeviceRevoked, ErrForbidden}
     then AuthenticationRequired else Transport)"

definition outcome_of :: "batch_response \<Rightarrow> upload_outcome" where
  "outcome_of r =
     (if 200 \<le> rs_status r \<and> rs_status r < 300
      then if rs_body_status r = Some ''duplicate'' then Duplicate else Accepted
      else if rs_status r = 409 \<and> rs_error_code r \<in> {Some ''duplicate_batch'', Some ''duplicate''}
      then Duplicate
      else if rs_status r = 422 \<and> rs_error_code r = Some ''raw_field_rejected''
      then RawFieldRejected (case rs_message r of None \<Rightarrow> ''raw_field_rejected'' | Some m \<Rightarrow> m)
      else if rs_status r = 429 then RateLimited (rs_retry_after r)
      else Retryable (''http_'' @ nat_str (rs_status r)))"

definition post :: "batch_payload \<Rightarrow> (batch_upload_error + upload_outcome) up" where
  "post b = andthen (http_post b) (\<lambda>r.
     ret (case r of Inl e \<Rightarrow> Inl (upload_error_of e) | Inr rs \<Rightarrow> Inr (outcome_of rs)))"

definition privacy_message :: string where
  "privacy_message = ''Sensitive activity details were blocked before upload.''"

definition record_outcome ::
  "up_env \<Rightarrow> string \<Rightarrow> batch_upload_error + upload_outcome \<Rightarrow> unit up" where
  "record_outcome E b r =
     (case r of
        Inl Transport \<Rightarrow> schedule_network_retry E b
      | Inl AuthenticationRequired \<Rightarrow>
          andthen utc_now (\<lambda>now. mark_failed b (now + seconds (15 * 60)) ''authentication_required'')
      | Inr (RawFieldRejected _) \<Rightarrow>
          andthen (mark_rejected b ''raw_field_rejected'') (\<lambda>_.
          modify (\<lambda>s. s\<lparr>uq_alerts := uq_alerts s @ [privacy_message]\<rparr>))
      | Inr (RateLimited retry_after) \<Rightarrow>
          andthen (back_off_host E retry_after) (\<lambda>next. mark_failed b next ''rate_limited'')
      | Inr (Retryable code) \<Rightarrow>
          andthen (back_off_host E None) (\<lambda>next. mark_failed b next code)
      | Inr _ \<Rightarrow>
          andthen (mark_sent b) (\<lambda>_.
          andthen (reset_attempts (ev_host E)) (\<lambda>_. clear_host_backoff (ev_host E))))"

definition held_back :: "up_env \<Rightarrow> bool \<Rightarrow> instant option up" where
  "held_back E respect_host_backoff =
     (if respect_host_backoff then
        andthen (host_backoff_until (ev_host E)) (\<lambda>until.
          case until of None \<Rightarrow> ret None
          | Some next \<Rightarrow> andthen utc_now (\<lambda>now. ret (if now < next then Some next else None)))
      else ret None)"

definition upload_batch_with_backoff :: "up_env \<Rightarrow> batch_payload \<Rightarrow> bool \<Rightarrow> unit up" where
  "upload_batch_with_backoff E b respect_host_backoff =
     andthen (held_back E respect_host_backoff) (\<lambda>hold.
       case hold of
         Some next \<Rightarrow> mark_failed (bp_batch_id b) next ''host_backoff''
       | None \<Rightarrow> andthen (post b) (\<lambda>r. record_outcome E (bp_batch_id b) r))"

definition upload_batch :: "up_env \<Rightarrow> batch_payload \<Rightarrow> unit up" where
  "upload_batch E b = upload_batch_with_backoff E b True"

definition discard_disowned :: "up_env \<Rightarrow> queued_batch \<Rightarrow> bool up" where
  "discard_disowned E b =
     (if \<not> ev_should_discard E b then ret False
      else andthen (discard_batch (ub_batch_id b)) (\<lambda>_. ret True))"

definition unique_abstraction_types :: "payload_event list \<Rightarrow> string list" where
  "unique_abstraction_types events = push_unique [] (map pe_label events)"

definition payload_for_queued_batch :: "queued_batch \<Rightarrow> string \<Rightarrow> string \<Rightarrow> batch_payload" where
  "payload_for_queued_batch b schema client = new_payload (ub_batch_id b) schema client
     (unique_abstraction_types (ub_events b))
     (case ub_events b of [] \<Rightarrow> [] | e # _ \<Rightarrow> pe_taxonomy_version e) (ub_events b)"

fun drain :: "up_env \<Rightarrow> bool \<Rightarrow> string \<Rightarrow> string \<Rightarrow> queued_batch list \<Rightarrow> unit up" where
  "drain E respect schema client [] = ret ()"
| "drain E respect schema client (b # bs) =
     andthen (discard_disowned E b) (\<lambda>gone.
     andthen (if gone then ret ()
              else upload_batch_with_backoff E (payload_for_queued_batch b schema client) respect)
       (\<lambda>_. drain E respect schema client bs))"

definition flush_all_pending :: "up_env \<Rightarrow> string \<Rightarrow> string \<Rightarrow> nat up" where
  "flush_all_pending E schema client =
     andthen pending_batches (\<lambda>bs.
     andthen (drain E False schema client bs) (\<lambda>_. ret (length bs)))"

definition resume_pending :: "up_env \<Rightarrow> string \<Rightarrow> string \<Rightarrow> nat up" where
  "resume_pending E schema client =
     andthen utc_now (\<lambda>now.
     andthen (resumable_batches now) (\<lambda>bs.
     andthen (drain E True schema client bs) (\<lambda>_. ret (length bs))))"

definition persist_batch :: "batch_payload \<Rightarrow> unit up" where
  "persist_batch b = insert_batch_with_events (bp_batch_id b) (bp_events b)"

definition submit_batch :: "up_env \<Rightarrow> batch_payload \<Rightarrow> unit up" where
  "submit_batch E b = andthen (persist_batch b) (\<lambda>_. upload_batch E b)"

section \<open>The batcher\<close>

record abstracted_event =
  ae_stable_id :: string
  ae_label :: string
  ae_category :: string
  ae_taxonomy_version :: string
  ae_classification_tier :: string
  ae_occurred_at :: instant

definition from_abstracted :: "string \<Rightarrow> abstracted_event \<Rightarrow> nat \<Rightarrow> payload_event" where
  "from_abstracted i e d = \<lparr>pe_event_id = i, pe_stable_id = ae_stable_id e, pe_label = ae_label e,
     pe_category = ae_category e, pe_taxonomy_version = ae_taxonomy_version e,
     pe_classification_tier = ae_classification_tier e, pe_occurred_at = ae_occurred_at e,
     pe_duration_seconds = d\<rparr>"

definition assemble :: "(assembler \<Rightarrow> batch_payload option \<times> assembler) \<Rightarrow> batch_payload option up" where
  "assemble f = (\<lambda>s. case f (uq_assembler s) of (b, a) \<Rightarrow> (Inr b, s\<lparr>uq_assembler := a\<rparr>))"

definition or_requeue :: "batch_payload \<Rightarrow> unit up \<Rightarrow> unit up" where
  "or_requeue b m = andthen (attempt m) (\<lambda>r.
     case r of Inr _ \<Rightarrow> ret ()
     | Inl e \<Rightarrow> andthen (modify (\<lambda>s. s\<lparr>uq_assembler := requeue b (uq_assembler s)\<rparr>)) (\<lambda>_. err e))"

definition submit :: "up_env \<Rightarrow> batch_payload \<Rightarrow> unit up" where
  "submit E b = andthen (or_requeue b (persist_batch b)) (\<lambda>_. upload_batch E b)"

definition submit_with_inner_released :: "up_env \<Rightarrow> batch_payload \<Rightarrow> unit up" where
  "submit_with_inner_released E b =
     andthen (or_requeue b (persist_batch b)) (\<lambda>_. upload_batch E b)"

definition ingest :: "up_env \<Rightarrow> string \<Rightarrow> abstracted_event \<Rightarrow> nat \<Rightarrow> instant \<Rightarrow> unit up" where
  "ingest E i ev d now =
     andthen (assemble (push E (from_abstracted i ev d) now)) (\<lambda>batch.
       case batch of None \<Rightarrow> ret () | Some b \<Rightarrow> submit_with_inner_released E b)"

definition flush_with ::
  "up_env \<Rightarrow> (assembler \<Rightarrow> batch_payload option \<times> assembler) \<Rightarrow> bool up" where
  "flush_with E f = andthen (assemble f) (\<lambda>batch.
     case batch of None \<Rightarrow> ret False
     | Some b \<Rightarrow> andthen (submit_with_inner_released E b) (\<lambda>_. ret True))"

definition flush_due :: "up_env \<Rightarrow> instant \<Rightarrow> bool up" where
  "flush_due E now = flush_with E (assembler_flush_due E now)"

definition flush_shutdown :: "up_env \<Rightarrow> bool up" where
  "flush_shutdown E = flush_with E (assembler_flush_shutdown E)"

definition flush_sleep :: "up_env \<Rightarrow> bool up" where
  "flush_sleep E = flush_with E (assembler_flush_sleep E)"

definition flush_now :: "up_env \<Rightarrow> bool up" where
  "flush_now E =
     andthen (assemble (assembler_flush_shutdown E)) (\<lambda>batch.
       case batch of
         Some b \<Rightarrow>
           andthen (or_requeue b (persist_batch b)) (\<lambda>_.
           andthen (flush_all_pending E ''1'' (ev_client_version E)) (\<lambda>_. ret True))
       | None \<Rightarrow> andthen (flush_all_pending E ''1'' (ev_client_version E)) (\<lambda>_. ret False))"

section \<open>Recovery and retention of raw events\<close>

definition unbatched :: "upload \<Rightarrow> raw_event \<Rightarrow> bool" where
  "unbatched s r \<longleftrightarrow> re_upload_eligible r \<and> pe_event_id (re_event r) \<notin> set (event_ids s)"

definition unbatched_events :: "nat \<Rightarrow> raw_event list up" where
  "unbatched_events limit = andthen io (\<lambda>_. gets (\<lambda>s. take limit
     (sort_key (\<lambda>r. - pe_occurred_at (re_event r)) (filter (unbatched s) (uq_raw s)))))"

fun reingest :: "up_env \<Rightarrow> instant \<Rightarrow> payload_event list \<Rightarrow> unit up" where
  "reingest E now [] = ret ()"
| "reingest E now (e # es) =
     andthen (assemble (push E e now)) (\<lambda>batch.
     andthen (case batch of None \<Rightarrow> ret () | Some b \<Rightarrow> submit E b) (\<lambda>_. reingest E now es))"

definition recover_unbatched :: "up_env \<Rightarrow> nat \<Rightarrow> instant \<Rightarrow> nat up" where
  "recover_unbatched E limit now =
     andthen (unbatched_events limit) (\<lambda>pending.
       if pending = [] then ret 0
       else andthen (reingest E now (rev (map re_event pending))) (\<lambda>_. ret (length pending)))"

definition delete_expired_raw ::
  "(raw_event list \<Rightarrow> raw_event list) \<Rightarrow> instant \<Rightarrow> nat \<Rightarrow> nat up" where
  "delete_expired_raw visit cutoff limit = andthen io (\<lambda>_ s.
     let picked = take limit (filter (\<lambda>r. re_created_at r < timestamp cutoff \<and> \<not> unbatched s r)
           (visit (uq_raw s)))
     in (Inr (length (filter (\<lambda>r. r \<in> set picked) (uq_raw s))),
         s\<lparr>uq_raw := filter (\<lambda>r. r \<notin> set picked) (uq_raw s)\<rparr>))"

definition raw_retention :: "(raw_event list \<Rightarrow> raw_event list) \<Rightarrow> int \<Rightarrow> nat \<Rightarrow> nat up" where
  "raw_retention visit ttl batch_size =
     andthen utc_now (\<lambda>now. delete_expired_raw visit (now - seconds ttl) batch_size)"

section \<open>Runs\<close>

datatype up_command =
    UIngest string abstracted_event nat instant
  | UFlushDue instant
  | UFlushSleep
  | UFlushShutdown
  | UFlushNow
  | UResume
  | UReclassify string string string
  | UDiagnostics
  | URetainRaw "raw_event list \<Rightarrow> raw_event list" int nat

fun exec_upload :: "up_env \<Rightarrow> up_command \<Rightarrow> upload \<Rightarrow> upload" where
  "exec_upload E (UIngest i ev d now) s = snd (ingest E i ev d now s)"
| "exec_upload E (UFlushDue now) s = snd (flush_due E now s)"
| "exec_upload E UFlushSleep s = snd (flush_sleep E s)"
| "exec_upload E UFlushShutdown s = snd (flush_shutdown E s)"
| "exec_upload E UFlushNow s = snd (flush_now E s)"
| "exec_upload E UResume s = snd (resume_pending E ''1'' (ev_client_version E) s)"
| "exec_upload E (UReclassify i l c) s = snd (update_event_classification i l c s)"
| "exec_upload E UDiagnostics s = snd (queue_diagnostics s)"
| "exec_upload E (URetainRaw visit ttl n) s = snd (raw_retention visit ttl n s)"

text \<open>
  What else runs beside the commands: recovery of raw events at start-up, and the retention of
  the queue.
\<close>

datatype up_task =
    UTask up_command
  | URecover nat instant
  | URetain "upload_row list \<Rightarrow> upload_row list" int int nat

fun exec_task :: "up_env \<Rightarrow> up_task \<Rightarrow> upload \<Rightarrow> upload" where
  "exec_task E (UTask c) s = exec_upload E c s"
| "exec_task E (URecover limit now) s = snd (recover_unbatched E limit now s)"
| "exec_task E (URetain visit sent rejected n) s = snd (upload_retention visit sent rejected n s)"

text \<open>
  The writes to the queue's two tables, one at a time. An upload holds no lock while it waits for
  the server, and the repository locks the connection for one method only, so the writes of
  overlapping uploads, flushes, corrections and sweeps can follow each other in any order. A write
  that fails changes neither table; here each succeeds, at the clock reading it is given.
\<close>

datatype queue_write =
    QInsert string "payload_event list" instant
  | QSent string instant
  | QFailed string instant string
  | QPendingRetry string instant string
  | QRejected string string
  | QDiscard string
  | QSweep "upload_row list \<Rightarrow> upload_row list" "upload_row \<Rightarrow> bool" nat
  | QReclassify string string string

definition succeeding :: "instant \<Rightarrow> upload \<Rightarrow> upload" where
  "succeeding now s = s\<lparr>uq_io := [], uq_clock := [now]\<rparr>"

fun exec_write :: "queue_write \<Rightarrow> upload \<Rightarrow> upload" where
  "exec_write (QInsert b es now) s = snd (insert_batch_with_events b es (succeeding now s))"
| "exec_write (QSent b now) s = snd (mark_sent b (succeeding now s))"
| "exec_write (QFailed b next code) s = snd (mark_failed b next code (succeeding 0 s))"
| "exec_write (QPendingRetry b next code) s = snd (mark_pending_retry b next code (succeeding 0 s))"
| "exec_write (QRejected b code) s = snd (mark_rejected b code (succeeding 0 s))"
| "exec_write (QDiscard b) s = snd (discard_batch b (succeeding 0 s))"
| "exec_write (QSweep visit p limit) s = snd (sweep visit p limit (succeeding 0 s))"
| "exec_write (QReclassify i l c) s = snd (update_event_classification i l c (succeeding 0 s))"

end
