(* ===== verification/Upload_Safety.thy ===== *)
theory Upload_Safety
  imports Upload "HOL-Library.Multiset"
begin

text \<open>
  What one upload may do to the queue. Everything that is not the verdict on the batch being
  sent is \<open>quiet\<close>: it leaves the assembler, the tables and the log of posts alone. An upload
  of batch \<open>b\<close> posts at most that batch and then changes at most its row, once, by one of
  the three verdicts. From this one lemma follow the effect of a whole drain on the held
  events, on finished batches and on the queue's invariant.
\<close>

section \<open>Quiet operations\<close>

definition quiet :: "upload \<Rightarrow> upload \<Rightarrow> bool" where
  "quiet s t \<longleftrightarrow> uq_assembler t = uq_assembler s \<and> uq_batches t = uq_batches s
     \<and> uq_events t = uq_events s \<and> uq_raw t = uq_raw s \<and> uq_posted t = uq_posted s"

interpretation quiet: evolution quiet
  by unfold_locales (simp_all add: quiet_def)

lemma quiet_modify: "(\<And>s. quiet s (f s)) \<Longrightarrow> obeys quiet (modify f)"
  by (rule quiet.modify)

lemma quiet_io: "obeys quiet io"
  by (rule obeysI) (simp add: io_def quiet_def split: list.split)

lemma quiet_utc_now: "obeys quiet utc_now"
  by (rule obeysI) (simp add: utc_now_def quiet_def split: list.split)

lemma utc_now_reads: "\<exists>now t. utc_now s = (Inr now, t)"
  by (cases "uq_clock s") (auto simp: utc_now_def)

lemma quiet_set_attempt: "obeys quiet (set_attempt h n)"
  unfolding set_attempt_def by (rule quiet_modify) (simp add: quiet_def)

lemma quiet_reset_attempts: "obeys quiet (reset_attempts h)"
  unfolding reset_attempts_def by (rule quiet_modify) (simp add: quiet_def)

lemma quiet_set_host_backoff: "obeys quiet (set_host_backoff h n t)"
  unfolding set_host_backoff_def
  by (intro quiet.andthen quiet_io) (rule obeysI, simp add: quiet_def)

lemma quiet_clear_host_backoff: "obeys quiet (clear_host_backoff h)"
  unfolding clear_host_backoff_def
  by (intro quiet.andthen quiet_io quiet_modify) (simp add: quiet_def)

lemma quiet_host_backoff_attempt: "obeys quiet (host_backoff_attempt h)"
  unfolding host_backoff_attempt_def by (intro quiet.rules quiet_io)

lemma quiet_host_backoff_until: "obeys quiet (host_backoff_until h)"
  unfolding host_backoff_until_def by (intro quiet.rules quiet_io)

lemma quiet_parse_retry_after: "obeys quiet (parse_retry_after E v)"
  unfolding parse_retry_after_def by (intro quiet.rules quiet_utc_now)

lemma quiet_next_delay: "obeys quiet (next_delay E h v)"
  unfolding next_delay_def
  by (intro quiet.rules quiet_parse_retry_after quiet_set_attempt)

lemma quiet_after_delay: "obeys quiet (after_delay now d)"
  unfolding after_delay_def Let_def by (intro quiet.rules)

lemma quiet_back_off_host: "obeys quiet (back_off_host E v)"
  unfolding back_off_host_def
  by (intro quiet.rules quiet_host_backoff_attempt quiet_set_attempt quiet_next_delay quiet_utc_now
      quiet_after_delay quiet_set_host_backoff)

lemma quiet_held_back: "obeys quiet (held_back E respect)"
  unfolding held_back_def
  by (intro quiet.rules quiet_host_backoff_until quiet_utc_now)

lemma quiet_resumable: "obeys quiet (resumable_batches now)"
  unfolding resumable_batches_def by (intro quiet.rules quiet_io)

lemma quiet_unbatched: "obeys quiet (unbatched_events n)"
  unfolding unbatched_events_def by (intro quiet.rules quiet_io)

lemma quiet_diagnostics: "obeys quiet Upload.queue_diagnostics"
  unfolding Upload.queue_diagnostics_def by (intro quiet.rules quiet_io quiet_utc_now)

section \<open>The verdict on one batch\<close>

definition sent_verdict :: "int \<Rightarrow> upload_row \<Rightarrow> upload_row" where
  "sent_verdict t r = r\<lparr>ur_status := Sent, ur_sent_at := Some t, ur_last_error_code := None\<rparr>"

definition retry_verdict :: "upload_batch_status \<Rightarrow> int \<Rightarrow> string \<Rightarrow> upload_row \<Rightarrow> upload_row" where
  "retry_verdict st next code r = r\<lparr>
     ur_status := (if 288 \<le> ur_attempt_count r + 1 then Abandoned else st),
     ur_attempt_count := ur_attempt_count r + 1,
     ur_next_attempt_at := next, ur_last_error_code := Some code\<rparr>"

definition rejected_verdict :: "string \<Rightarrow> upload_row \<Rightarrow> upload_row" where
  "rejected_verdict code r = r\<lparr>ur_status := Rejected, ur_last_error_code := Some code\<rparr>"

definition verdict :: "(upload_row \<Rightarrow> upload_row) \<Rightarrow> bool" where
  "verdict f \<longleftrightarrow> f = id \<or> (\<exists>t. f = sent_verdict t) \<or> (\<exists>c. f = rejected_verdict c)
     \<or> (\<exists>st n c. st \<in> {Pending, Failed} \<and> f = retry_verdict st n c)"

lemma verdict_id [simp]: "verdict id" "verdict (\<lambda>r. r)"
  by (auto simp: verdict_def id_def)

lemma verdict_intros:
  "verdict (sent_verdict t)" "verdict (rejected_verdict c)"
  "verdict (retry_verdict Pending n c)" "verdict (retry_verdict Failed n c)"
  unfolding verdict_def by blast+

lemma verdict_keeps: "verdict f \<Longrightarrow> ur_batch_id (f r) = ur_batch_id r \<and> ur_created_at (f r) = ur_created_at r"
  by (auto simp: verdict_def sent_verdict_def rejected_verdict_def retry_verdict_def)

definition on_row :: "string \<Rightarrow> (upload_row \<Rightarrow> upload_row) \<Rightarrow> upload_row list \<Rightarrow> upload_row list" where
  "on_row b f rs = map (\<lambda>r. if ur_batch_id r = b then f r else r) rs"

definition uploads :: "string \<Rightarrow> upload \<Rightarrow> upload \<Rightarrow> bool" where
  "uploads b s t \<longleftrightarrow> uq_assembler t = uq_assembler s \<and> uq_events t = uq_events s
     \<and> uq_raw t = uq_raw s
     \<and> (\<exists>f. verdict f \<and> uq_batches t = on_row b f (uq_batches s))
     \<and> (\<exists>ps. uq_posted t = uq_posted s @ ps \<and> list_all (\<lambda>p. bp_batch_id p = b) ps)"

lemma on_row_id [simp]: "on_row b id rs = rs" "on_row b (\<lambda>r. r) rs = rs"
  by (simp_all add: on_row_def cong: if_cong)

lemma quiet_uploads: "quiet s t \<Longrightarrow> uploads b s t"
  unfolding uploads_def quiet_def
  by (auto intro!: exI [where x = id] exI [where x = "[] :: batch_payload list"])

lemma uploads_after_quiet: "quiet s t \<Longrightarrow> uploads b t u \<Longrightarrow> uploads b s u"
  by (simp add: uploads_def quiet_def)

lemma uploads_then_quiet: "uploads b s t \<Longrightarrow> quiet t u \<Longrightarrow> uploads b s u"
  by (simp add: uploads_def quiet_def)

lemma andthen_after_quiet:
  assumes "obeys quiet m" and "\<And>a s. uploads b s (snd (f a s))"
  shows "uploads b s (snd (andthen m f s))"
proof (cases "m s")
  case (Pair r t)
  then have "quiet s t" using obeysD [OF assms(1), of s] by simp
  then show ?thesis
    using Pair assms(2) uploads_after_quiet quiet_uploads
    by (cases r) (auto simp: op_defs)
qed

lemma andthen_then_quiet:
  assumes "\<And>s. uploads b s (snd (m s))" and "\<And>a. obeys quiet (f a)"
  shows "uploads b s (snd (andthen m f s))"
proof (cases "m s")
  case (Pair r t)
  then have "uploads b s t" using assms(1) [of s] by simp
  then show ?thesis
    using Pair obeysD [OF assms(2), where s = t] uploads_then_quiet
    by (cases r) (auto simp: op_defs)
qed

lemma uploads_map_batch: "verdict f \<Longrightarrow> uploads b s (snd (map_batch b f s))"
  using quiet_uploads [OF quiet.refl [of s], of b]
  by (auto simp: map_batch_def uploads_def on_row_def)

lemma uploads_mark_sent: "uploads b s (snd (mark_sent b s))"
  unfolding mark_sent_def sent_verdict_def [symmetric]
  by (intro andthen_after_quiet quiet_io quiet_utc_now uploads_map_batch verdict_intros)

lemma uploads_mark_rejected: "uploads b s (snd (mark_rejected b c s))"
  unfolding mark_rejected_def rejected_verdict_def [symmetric]
  by (intro andthen_after_quiet quiet_io uploads_map_batch verdict_intros)

lemma uploads_mark_failed: "uploads b s (snd (mark_failed b t c s))"
  unfolding mark_failed_def update_batch_retry_state_def UPLOAD_BATCH_ATTEMPT_CEILING_def
    retry_verdict_def [symmetric]
  by (intro andthen_after_quiet quiet_io uploads_map_batch verdict_intros)

lemma uploads_mark_pending_retry: "uploads b s (snd (mark_pending_retry b t c s))"
  unfolding mark_pending_retry_def update_batch_retry_state_def UPLOAD_BATCH_ATTEMPT_CEILING_def
    retry_verdict_def [symmetric]
  by (intro andthen_after_quiet quiet_io uploads_map_batch verdict_intros)

lemma uploads_record_outcome: "uploads b s (snd (record_outcome E b r s))"
proof -
  have "obeys quiet (modify (\<lambda>s. s\<lparr>uq_alerts := uq_alerts s @ [privacy_message]\<rparr>))"
    by (rule quiet_modify) (simp add: quiet_def)
  then show ?thesis
    unfolding record_outcome_def schedule_network_retry_def
    by (cases r)
      (auto split: batch_upload_error.split upload_outcome.split
        intro!: andthen_after_quiet quiet_back_off_host quiet_utc_now uploads_mark_failed
          uploads_mark_pending_retry andthen_then_quiet [OF uploads_mark_sent]
          andthen_then_quiet [OF uploads_mark_rejected]
          quiet.andthen quiet_reset_attempts quiet_clear_host_backoff)
qed

lemma uploads_upload:
  "uploads (bp_batch_id p) s (snd (upload_batch_with_backoff E p respect s))"
proof -
  have "uploads (bp_batch_id p) s (snd (andthen (post p) (record_outcome E (bp_batch_id p)) s))"
    for s
  proof -
    obtain r t where t: "post p s = (Inr r, t)" "uq_posted t = uq_posted s @ [p]"
      "uq_assembler t = uq_assembler s" "uq_batches t = uq_batches s"
      "uq_events t = uq_events s" "uq_raw t = uq_raw s"
      by (cases "uq_net s") (auto simp: post_def http_post_def op_defs Let_def)
    have "uploads (bp_batch_id p) t (snd (record_outcome E (bp_batch_id p) r t))"
      by (rule uploads_record_outcome)
    then show ?thesis using t by (auto simp: uploads_def op_defs)
  qed
  then show ?thesis
    unfolding upload_batch_with_backoff_def
    by (intro andthen_after_quiet quiet_held_back) (simp add: uploads_mark_failed split: option.split)
qed

section \<open>Persisting a batch\<close>

definition fresh_row :: "string \<Rightarrow> int \<Rightarrow> upload_row" where
  "fresh_row b t = \<lparr>ur_batch_id = b, ur_status = Pending, ur_sent_at = None, ur_attempt_count = 0,
     ur_next_attempt_at = 0, ur_last_error_code = None, ur_created_at = t\<rparr>"

lemma stored_event_id [simp]: "pe_event_id (stored_event e) = pe_event_id e"
  by (simp add: stored_event_def)

lemma add_events_cases:
  "add_events b es s = (Inr (), t) \<Longrightarrow>
     t = s\<lparr>uq_events := uq_events s @ map (\<lambda>e. (b, stored_event e)) es\<rparr>
     \<and> distinct (map pe_event_id es) \<and> set (map pe_event_id es) \<inter> set (event_ids s) = {}"
proof (induction es arbitrary: s)
  case Nil
  then show ?case by (simp add: op_defs)
next
  case (Cons e es)
  from Cons.prems obtain u where u: "add_event_to_batch b e s = (Inr (), u)"
    and rest: "add_events b es u = (Inr (), t)"
    by (auto elim!: andthen_InrE)
  from u have eq: "u = s\<lparr>uq_events := uq_events s @ [(b, stored_event e)]\<rparr>"
    and new: "pe_event_id e \<notin> set (event_ids s)"
    by (auto simp: add_event_to_batch_def event_check_def split: if_splits)
  show ?case
    using Cons.IH [OF rest] eq new by (auto simp: event_ids_def)
qed

lemma persist_cases:
  obtains (ok) t u now where "persist_batch p s = (Inr (), t)" "quiet s u"
    "t = u\<lparr>uq_batches := uq_batches u @ [fresh_row (bp_batch_id p) now],
           uq_events := uq_events u @ map (\<lambda>e. (bp_batch_id p, stored_event e)) (bp_events p)\<rparr>"
    "bp_batch_id p \<notin> set (batch_ids s)" "bp_batch_id p \<noteq> []"
    "distinct (map pe_event_id (bp_events p))"
    "set (map pe_event_id (bp_events p)) \<inter> set (event_ids s) = {}"
  | (failed) e t where "persist_batch p s = (Inl e, t)" "quiet s t"
proof -
  let ?m = "\<lambda>now. transaction (andthen (insert_batch (bp_batch_id p) now) (\<lambda>_. add_events (bp_batch_id p) (bp_events p)))"
  obtain r u where ru: "andthen io (\<lambda>_. utc_now) s = (r, u)" by fastforce
  have "obeys quiet (andthen io (\<lambda>_. utc_now))"
    by (intro quiet.andthen quiet_io quiet_utc_now)
  then have q: "quiet s u" using obeysD [where s = s] ru by fastforce
  have split: "persist_batch p s = (case r of Inl e \<Rightarrow> (Inl e, u) | Inr now \<Rightarrow> ?m now u)"
    using ru unfolding persist_batch_def insert_batch_with_events_def
    by (auto simp: op_defs split: prod.splits sum.splits)
  have ids: "batch_ids u = batch_ids s" "event_ids u = event_ids s"
    using q by (simp_all add: quiet_def batch_ids_def event_ids_def)
  show thesis
  proof (cases r)
    case (Inl e)
    with split q failed show thesis by auto
  next
    case (Inr now)
    show thesis
    proof (cases "?m now u")
      case (Pair x t)
      show thesis
      proof (cases x)
        case (Inl e)
        then have "t = u" using Pair by (auto simp: transaction_def split: prod.splits sum.splits)
        with Inl Pair split Inr q failed show thesis by auto
      next
        case x: (Inr y)
        then have "andthen (insert_batch (bp_batch_id p) now)
            (\<lambda>_. add_events (bp_batch_id p) (bp_events p)) u = (Inr (), t)"
          using Pair by (auto simp: transaction_def split: prod.splits sum.splits)
        then obtain v where v: "insert_batch (bp_batch_id p) now u = (Inr (), v)"
          and es: "add_events (bp_batch_id p) (bp_events p) v = (Inr (), t)"
          by (auto elim!: andthen_InrE)
        have v': "v = u\<lparr>uq_batches := uq_batches u @ [fresh_row (bp_batch_id p) (timestamp now)]\<rparr>"
          "bp_batch_id p \<notin> set (batch_ids s)" "bp_batch_id p \<noteq> []"
          using v ids by (auto simp: insert_batch_def fresh_row_def split: if_splits)
        then have "event_ids v = event_ids s" using ids by (simp add: event_ids_def)
        then show thesis
          using add_events_cases [OF es] v' x Pair split Inr q
          by (intro ok [of t u "timestamp now"]) auto
      qed
    qed
  qed
qed

section \<open>Held events\<close>

definition buffered :: "upload \<Rightarrow> string list" where
  "buffered s = map pe_event_id (as_events (uq_assembler s))"

definition held :: "upload \<Rightarrow> string multiset" where
  "held s = mset (buffered s) + mset (event_ids s)"

definition still :: "upload \<Rightarrow> upload \<Rightarrow> bool" where
  "still s t \<longleftrightarrow> uq_assembler t = uq_assembler s \<and> event_ids t = event_ids s \<and> uq_raw t = uq_raw s"

interpretation still: evolution still
  by unfold_locales (simp_all add: still_def)

lemma uploads_still: "uploads b s t \<Longrightarrow> still s t"
  by (simp add: uploads_def still_def event_ids_def)

lemma quiet_still: "obeys quiet m \<Longrightarrow> obeys still m"
  by (auto simp: obeys_def quiet_def still_def event_ids_def)

lemma still_upload: "obeys still (upload_batch_with_backoff E p respect)"
  by (rule obeysI) (rule uploads_still, rule uploads_upload)

lemma still_drain:
  assumes "ev_should_discard E = (\<lambda>_. False)"
  shows "obeys still (drain E respect v c bs)"
  using assms
  by (induction bs) (auto simp: discard_disowned_def intro!: still.rules still_upload)

lemma still_drains:
  assumes "ev_should_discard E = (\<lambda>_. False)"
  shows "obeys still (flush_all_pending E v c)" "obeys still (resume_pending E v c)"
  unfolding flush_all_pending_def resume_pending_def pending_batches_def
  by (intro still.rules quiet_still quiet_resumable quiet_utc_now still_drain assms)+

lemma still_held: "still s t \<Longrightarrow> held t = held s"
  by (simp add: still_def held_def buffered_def)

lemma take_batch_ids:
  "take_batch E a = (x, b) \<Longrightarrow>
     mset (map pe_event_id (as_events a)) = mset (map pe_event_id (as_events b))
       + (case x of None \<Rightarrow> {#} | Some p \<Rightarrow> mset (map pe_event_id (bp_events p)))"
proof -
  assume "take_batch E a = (x, b)"
  moreover have "mset xs = mset (filter (\<lambda>x. \<not> P x) xs) + mset (filter P xs)"
    for P and xs :: "payload_event list"
    by (simp add: add.commute)
  ultimately show ?thesis
    by (auto simp: take_batch_def new_payload_def Let_def o_def mset_map
        simp flip: image_mset_union split: list.splits)
qed

lemma push_ids:
  "push E e now a = (x, b) \<Longrightarrow>
     mset (map pe_event_id (as_events a)) + {#pe_event_id e#} = mset (map pe_event_id (as_events b))
       + (case x of None \<Rightarrow> {#} | Some p \<Rightarrow> mset (map pe_event_id (bp_events p)))"
  using take_batch_ids [of E a] take_batch_ids [of E "buffer_event e now a"]
  by (auto simp: push_def buffer_event_def Let_def split: if_splits prod.splits)

definition carried :: "batch_payload option \<Rightarrow> string multiset" where
  "carried x = (case x of None \<Rightarrow> {#} | Some p \<Rightarrow> mset (map pe_event_id (bp_events p)))"

lemma requeue_ids:
  "mset (map pe_event_id (as_events (requeue p a))) =
     mset (map pe_event_id (bp_events p)) + mset (map pe_event_id (as_events a))"
  by (simp add: requeue_def)

text \<open>A batch that was taken out is either written to the queue or put back.\<close>

lemma persist_holds:
  "held (snd (or_requeue p (persist_batch p) s)) = held s + carried (Some p)"
proof (cases rule: persist_cases [of p s])
  case (ok t u now)
  then have "snd (or_requeue p (persist_batch p) s) = t"
    by (simp add: or_requeue_def attempt_def op_defs)
  moreover have "held t = held s + carried (Some p)"
    using ok by (simp add: held_def buffered_def event_ids_def carried_def quiet_def o_def case_prod_beta
        split_def)
  ultimately show ?thesis by simp
next
  case (failed e t)
  then have "snd (or_requeue p (persist_batch p) s) = t\<lparr>uq_assembler := requeue p (uq_assembler t)\<rparr>"
    by (simp add: or_requeue_def attempt_def op_defs)
  with failed show ?thesis
    by (simp add: held_def buffered_def event_ids_def carried_def quiet_def requeue_ids [simplified] add.commute)
qed

text \<open>Taking a batch out and submitting it leaves everything held.\<close>

lemma holds_andthen:
  assumes "held (snd (m s)) = X" and "\<And>a. obeys still (f a)"
  shows "held (snd (andthen m f s)) = X"
proof (cases "m s")
  case (Pair r t)
  show ?thesis
    using Pair assms(1) still_held [OF obeysD [OF assms(2), where s = t]]
    by (cases r) (auto simp: op_defs)
qed

lemma submit_holds: "held (snd (submit_with_inner_released E p s)) = held s + carried (Some p)"
  unfolding submit_with_inner_released_def upload_batch_def
  by (rule holds_andthen [OF persist_holds]) (rule still_upload)

lemma assemble_holds:
  assumes taken: "\<And>a x b. f a = (x, b) \<Longrightarrow>
      mset (map pe_event_id (as_events a)) + D = mset (map pe_event_id (as_events b)) + carried x"
    and sub: "\<And>p s. held (snd (g (Some p) s)) = held s + carried (Some p)"
    and none: "\<And>s. held (snd (g None s)) = held s"
  shows "held (snd (andthen (assemble f) g s)) = held s + D"
proof -
  obtain x b where f: "f (uq_assembler s) = (x, b)" by fastforce
  let ?t = "s\<lparr>uq_assembler := b\<rparr>"
  have "held ?t + carried x = held s + D"
    using taken [OF f] by (simp add: held_def buffered_def event_ids_def ac_simps)
  moreover have "andthen (assemble f) g s = g x ?t"
    using f by (simp add: assemble_def op_defs)
  ultimately show ?thesis
    using sub [where s = ?t] none [of ?t] by (cases x) (auto simp: carried_def)
qed

lemma take_batch_carried:
  "take_batch E a = (x, b) \<Longrightarrow>
     mset (map pe_event_id (as_events a)) + {#} = mset (map pe_event_id (as_events b)) + carried x"
  using take_batch_ids [of E a x b] by (simp add: carried_def)

lemma flush_due_carried:
  "assembler_flush_due E now a = (x, b) \<Longrightarrow>
     mset (map pe_event_id (as_events a)) + {#} = mset (map pe_event_id (as_events b)) + carried x"
  using take_batch_carried [of E a x b]
  by (auto simp: assembler_flush_due_def carried_def split: option.splits if_splits)

lemma push_carried:
  "push E e now a = (x, b) \<Longrightarrow>
     mset (map pe_event_id (as_events a)) + {#pe_event_id e#}
       = mset (map pe_event_id (as_events b)) + carried x"
  using push_ids [of E e now a x b] by (simp add: carried_def)

lemma ingest_holds: "held (snd (ingest E i ev d now s)) = held s + {#i#}"
  using assemble_holds [OF push_carried [of E "from_abstracted i ev d" now], where
      g = "\<lambda>batch. case batch of None \<Rightarrow> ret () | Some b \<Rightarrow> submit_with_inner_released E b"]
  by (simp add: ingest_def submit_holds op_simps from_abstracted_def)

lemma flush_with_holds:
  assumes "\<And>a x b. f a = (x, b) \<Longrightarrow>
      mset (map pe_event_id (as_events a)) + {#} = mset (map pe_event_id (as_events b)) + carried x"
  shows "held (snd (flush_with E f s)) = held s"
proof -
  have "held (snd (andthen (submit_with_inner_released E p) (\<lambda>_. ret True) s))
      = held s + carried (Some p)" for p s
    by (rule holds_andthen [OF submit_holds]) (rule still.ret)
  then show ?thesis
    using assemble_holds [OF assms, where g = "\<lambda>batch. case batch of None \<Rightarrow> ret False
        | Some b \<Rightarrow> andthen (submit_with_inner_released E b) (\<lambda>_. ret True)"]
    by (simp add: flush_with_def op_simps)
qed

lemma flush_now_holds:
  assumes "ev_should_discard E = (\<lambda>_. False)"
  shows "held (snd (flush_now E s)) = held s"
proof -
  let ?f = "flush_all_pending E ''1'' (ev_client_version E)"
  have q: "obeys still (andthen ?f (\<lambda>_. ret x))" for x :: bool
    by (intro still.rules still_drains assms)
  have "held (snd (andthen (or_requeue p (persist_batch p)) (\<lambda>_. andthen ?f (\<lambda>_. ret True)) s))
      = held s + carried (Some p)" for p s
    by (rule holds_andthen [OF persist_holds]) (rule q)
  then show ?thesis
    using assemble_holds [OF take_batch_carried [of E], where s = s and g =
        "\<lambda>batch. case batch of Some b \<Rightarrow> andthen (or_requeue b (persist_batch b))
             (\<lambda>_. andthen ?f (\<lambda>_. ret True))
           | None \<Rightarrow> andthen ?f (\<lambda>_. ret False)"]
      still_held [OF obeysD [OF q]]
    by (simp add: flush_now_def assembler_flush_shutdown_def [abs_def])
qed

lemma reclassify_still: "event_ids (snd (update_event_classification i l c s)) = event_ids s
    \<and> uq_assembler (snd (update_event_classification i l c s)) = uq_assembler s
    \<and> uq_raw (snd (update_event_classification i l c s)) = uq_raw s"
proof -
  obtain r u where u: "io s = (r, u)" by fastforce
  have "quiet s u" using obeysD [OF quiet_io, of s] u by simp
  then show ?thesis using u
    by (cases r) (auto simp: update_event_classification_def andthen_def event_ids_def quiet_def
        case_prod_beta)
qed

lemma raw_retention_held: "held (snd (raw_retention visit ttl n s)) = held s"
proof -
  have "uq_assembler (snd (m s)) = uq_assembler s \<and> event_ids (snd (m s)) = event_ids s"
    if "m = raw_retention visit ttl n" for m
    using that
    by (auto simp: raw_retention_def delete_expired_raw_def utc_now_def io_def andthen_def Let_def
        event_ids_def split: list.splits)
  then show ?thesis by (simp add: held_def buffered_def)
qed

fun ingested :: "up_command \<Rightarrow> string multiset" where
  "ingested (UIngest i _ _ _) = {#i#}"
| "ingested _ = {#}"

lemma exec_holds:
  assumes "ev_should_discard E = (\<lambda>_. False)"
  shows "held (exec_upload E c s) = held s + ingested c"
proof (cases c)
  case (UReclassify i l k)
  then show ?thesis using reclassify_still [of i l k s] by (simp add: held_def buffered_def)
next
  case UDiagnostics
  then show ?thesis
    using still_held [OF obeysD [OF quiet_still [OF quiet_diagnostics]]] by simp
next
  case UResume
  then show ?thesis using still_held [OF obeysD [OF still_drains(2) [OF assms]]] by simp
qed (simp_all add: ingest_holds flush_due_def flush_sleep_def flush_shutdown_def flush_with_holds [OF flush_due_carried]
    assembler_flush_sleep_def [abs_def] assembler_flush_shutdown_def [abs_def]
    flush_with_holds [OF take_batch_carried] flush_now_holds [OF assms] raw_retention_held)

end
