(* ===== verification/Upload_Invariant.thy ===== *)
theory Upload_Invariant
  imports Upload_Safety
begin

text \<open>
  The queue's invariant and the finality of its finished batches. \<open>queue_inv\<close> says that
  batch and event identifiers are unique, every event belongs to a stored batch, a batch
  that may still be retried has attempts left, and a send time is there exactly for sent
  batches. \<open>lawful\<close> relates the states before and after an operation: the invariant is kept,
  and the row and the posts of a finished batch do not change.
\<close>

section \<open>Rows and posts\<close>

definition row_of :: "upload \<Rightarrow> string \<Rightarrow> upload_row option" where
  "row_of s b = find (\<lambda>r. ur_batch_id r = b) (uq_batches s)"

definition posts_of :: "upload \<Rightarrow> string \<Rightarrow> batch_payload list" where
  "posts_of s b = filter (\<lambda>p. bp_batch_id p = b) (uq_posted s)"

definition finished :: "upload_batch_status \<Rightarrow> bool" where
  "finished st \<longleftrightarrow> st \<in> {Sent, Rejected, Abandoned}"

definition row_ok :: "upload_row \<Rightarrow> bool" where
  "row_ok r \<longleftrightarrow> ur_attempt_count r \<le> 288 \<and> (ur_status r \<in> {Pending, Failed} \<longrightarrow> ur_attempt_count r < 288)
     \<and> (ur_status r = Sent \<longleftrightarrow> ur_sent_at r \<noteq> None)"

definition queue_inv :: "upload \<Rightarrow> bool" where
  "queue_inv s \<longleftrightarrow> distinct (batch_ids s) \<and> distinct (event_ids s)
     \<and> fst ` set (uq_events s) \<subseteq> set (batch_ids s) \<and> list_all row_ok (uq_batches s)"

definition finished_kept :: "upload \<Rightarrow> upload \<Rightarrow> bool" where
  "finished_kept s t \<longleftrightarrow> (\<forall>b r. row_of s b = Some r \<longrightarrow> finished (ur_status r) \<longrightarrow>
     row_of t b = Some r \<and> posts_of t b = posts_of s b)"

definition lawful :: "upload \<Rightarrow> upload \<Rightarrow> bool" where
  "lawful s t \<longleftrightarrow> (queue_inv s \<longrightarrow> queue_inv t \<and> finished_kept s t)"

interpretation lawful: evolution lawful
  by unfold_locales (auto simp: lawful_def finished_kept_def)

lemma row_of_in: "row_of s b = Some r \<Longrightarrow> r \<in> set (uq_batches s) \<and> ur_batch_id r = b"
  by (auto simp: row_of_def find_Some_iff in_set_conv_nth)

lemma row_of_unique:
  assumes "distinct (batch_ids s)" and "r \<in> set (uq_batches s)"
  shows "row_of s (ur_batch_id r) = Some r"
proof (cases "row_of s (ur_batch_id r)")
  case None
  with assms(2) show ?thesis by (auto simp: row_of_def find_None_iff)
next
  case (Some q)
  then have "q \<in> set (uq_batches s)" "ur_batch_id q = ur_batch_id r"
    using row_of_in by auto
  then have "q = r"
    using assms by (auto simp: batch_ids_def distinct_map inj_on_def)
  with Some show ?thesis by simp
qed

lemma find_on_row:
  assumes "\<And>r. ur_batch_id (f r) = ur_batch_id r"
  shows "find (\<lambda>r. ur_batch_id r = c) (on_row b f rs)
    = map_option (\<lambda>r. if ur_batch_id r = b then f r else r) (find (\<lambda>r. ur_batch_id r = c) rs)"
  using assms by (induction rs) (auto simp: on_row_def)

lemma on_row_ids: "verdict f \<Longrightarrow> map ur_batch_id (on_row b f rs) = map ur_batch_id rs"
  by (auto simp: on_row_def verdict_keeps)

section \<open>Elsewhere nothing changes\<close>

definition elsewhere :: "string set \<Rightarrow> upload \<Rightarrow> upload \<Rightarrow> bool" where
  "elsewhere B s t \<longleftrightarrow> (\<forall>b. b \<notin> B \<longrightarrow> row_of t b = row_of s b \<and> posts_of t b = posts_of s b)"

interpretation elsewhere: evolution "elsewhere B"
  by unfold_locales (simp_all add: elsewhere_def)

lemma elsewhere_mono: "elsewhere A s t \<Longrightarrow> A \<subseteq> B \<Longrightarrow> elsewhere B s t"
  by (auto simp: elsewhere_def)

lemma quiet_elsewhere: "quiet s t \<Longrightarrow> elsewhere B s t"
  by (simp add: quiet_def elsewhere_def row_of_def posts_of_def)

lemma uploads_elsewhere:
  assumes "uploads b s t" shows "elsewhere {b} s t"
proof -
  from assms obtain f ps where f: "verdict f" "uq_batches t = on_row b f (uq_batches s)"
    and ps: "uq_posted t = uq_posted s @ ps" "list_all (\<lambda>p. bp_batch_id p = b) ps"
    by (auto simp: uploads_def)
  have "row_of t c = row_of s c" if "c \<noteq> b" for c
    using that f verdict_keeps [of f]
    by (cases "row_of s c") (auto simp: row_of_def find_on_row dest!: row_of_in [unfolded row_of_def])
  moreover have "filter (\<lambda>p. bp_batch_id p = c) ps = []" if "c \<noteq> b" for c
    using that ps(2) by (auto simp: filter_empty_conv list_all_iff)
  ultimately show ?thesis
    using ps(1) by (simp add: elsewhere_def posts_of_def)
qed

lemma find_filter:
  "(\<And>r. r \<in> set rs \<Longrightarrow> P r \<Longrightarrow> Q r) \<Longrightarrow> find P (filter Q rs) = find P rs"
  by (induction rs) auto

lemma discard_elsewhere: "elsewhere {b} s (snd (discard_batch b s))"
proof -
  have "elsewhere {b} s (drop_batches (\<lambda>r. ur_batch_id r = b) s)" for s
    by (auto simp: elsewhere_def row_of_def posts_of_def drop_batches_def Let_def intro!: find_filter)
  then show ?thesis
    using quiet_elsewhere [OF obeysD [OF quiet_io, of s], of "{b}"]
      elsewhere.trans [of "{b}" s _ _]
    by (auto simp: discard_batch_def andthen_def elsewhere.refl split: prod.splits sum.splits)
qed

section \<open>The invariant\<close>

lemma verdict_row_ok:
  assumes "verdict f" and "row_ok r" and "\<not> finished (ur_status r)"
  shows "row_ok (f r)"
  using assms
  by (cases "ur_status r")
    (auto simp: verdict_def row_ok_def finished_def sent_verdict_def retry_verdict_def
      rejected_verdict_def split: if_splits)

lemma uploads_inv:
  assumes up: "uploads b s t" and inv: "queue_inv s"
    and open_row: "\<And>r. row_of s b = Some r \<Longrightarrow> \<not> finished (ur_status r)"
  shows "queue_inv t"
proof -
  from up obtain f where f: "verdict f" "uq_batches t = on_row b f (uq_batches s)"
    "uq_events t = uq_events s" by (auto simp: uploads_def)
  have ids: "batch_ids t = batch_ids s" "event_ids t = event_ids s"
    using f by (simp_all add: batch_ids_def on_row_ids event_ids_def)
  have "row_ok (if ur_batch_id r = b then f r else r)" if r: "r \<in> set (uq_batches s)" for r
  proof -
    have ok: "row_ok r" using inv r by (auto simp: queue_inv_def list_all_iff)
    have "\<not> finished (ur_status r)" if "ur_batch_id r = b"
      using open_row row_of_unique [OF _ r] inv that by (auto simp: queue_inv_def)
    then show ?thesis using ok f(1) verdict_row_ok by auto
  qed
  then have "list_all row_ok (uq_batches t)"
    unfolding f(2) on_row_def list_all_iff set_map by blast
  then show ?thesis using inv ids f(3) by (simp add: queue_inv_def)
qed

lemma drop_orphans:
  assumes "fst ` set (uq_events s) \<subseteq> set (batch_ids s)"
  shows "fst ` set (uq_events (drop_batches gone s)) \<subseteq> set (batch_ids (drop_batches gone s))"
proof -
  have "b \<in> ur_batch_id ` {r \<in> set (uq_batches s). \<not> gone r}"
    if be: "(b, e) \<in> set (uq_events s)" and keep: "b \<notin> ur_batch_id ` {r \<in> set (uq_batches s). gone r}"
    for b e
  proof -
    have "b \<in> ur_batch_id ` set (uq_batches s)"
      using assms imageI [OF be, of fst] by (auto simp: batch_ids_def)
    with keep show ?thesis by blast
  qed
  then show ?thesis by (fastforce simp: drop_batches_def batch_ids_def Let_def)
qed

lemma drop_inv:
  assumes "queue_inv s" shows "queue_inv (drop_batches gone s)"
  using assms drop_orphans [of s gone]
  by (auto simp: queue_inv_def drop_batches_def batch_ids_def event_ids_def Let_def list_all_iff
      distinct_map_filter)

lemma quiet_inv: "quiet s t \<Longrightarrow> queue_inv t \<longleftrightarrow> queue_inv s"
  by (simp add: quiet_def queue_inv_def batch_ids_def event_ids_def)

lemma quiet_lawful: "quiet s t \<Longrightarrow> lawful s t"
  using quiet_elsewhere [of s t "{}"] by (auto simp: lawful_def quiet_inv finished_kept_def elsewhere_def)

lemma quiet_lawful_op: "obeys quiet m \<Longrightarrow> obeys lawful m"
  by (auto simp: obeys_def quiet_lawful)

lemma discard_inv: "queue_inv s \<Longrightarrow> queue_inv (snd (discard_batch b s))"
  using obeysD [OF quiet_io, of s]
  by (auto simp: discard_batch_def andthen_def quiet_inv drop_inv split: prod.splits sum.splits)

section \<open>Draining\<close>

definition open_batches :: "queued_batch list \<Rightarrow> upload \<Rightarrow> bool" where
  "open_batches bs s \<longleftrightarrow>
     (\<forall>b \<in> set bs. \<forall>r. row_of s (ub_batch_id b) = Some r \<longrightarrow> \<not> finished (ur_status r))"

definition drain_one ::
  "up_env \<Rightarrow> bool \<Rightarrow> string \<Rightarrow> string \<Rightarrow> queued_batch \<Rightarrow> unit up" where
  "drain_one E respect v c b = andthen (discard_disowned E b) (\<lambda>gone. if gone then ret ()
     else upload_batch_with_backoff E (payload_for_queued_batch b v c) respect)"

lemma drain_Cons:
  "drain E respect v c (b # bs) = andthen (drain_one E respect v c b) (\<lambda>_. drain E respect v c bs)"
  by (simp add: drain_one_def andthen_assoc)

lemma payload_id [simp]: "bp_batch_id (payload_for_queued_batch b v c) = ub_batch_id b"
  by (simp add: payload_for_queued_batch_def new_payload_def)

lemma drain_one_cases:
  obtains "snd (drain_one E respect v c b s) = snd (discard_batch (ub_batch_id b) s)"
  | "uploads (ub_batch_id b) s (snd (drain_one E respect v c b s))"
proof (cases "ev_should_discard E b")
  case True
  then have "snd (drain_one E respect v c b s) = snd (discard_batch (ub_batch_id b) s)"
    by (auto simp: drain_one_def discard_disowned_def op_defs split: prod.splits sum.splits)
  then show ?thesis by (rule that(1))
next
  case False
  then have "drain_one E respect v c b s
      = upload_batch_with_backoff E (payload_for_queued_batch b v c) respect s"
    by (simp add: drain_one_def discard_disowned_def op_simps)
  then show ?thesis
    using uploads_upload [of "payload_for_queued_batch b v c" s E respect] that(2) by simp
qed

lemma drain_one_elsewhere: "elsewhere {ub_batch_id b} s (snd (drain_one E respect v c b s))"
  by (cases rule: drain_one_cases [of E respect v c b s])
    (simp_all add: discard_elsewhere uploads_elsewhere)

lemma drain_one_inv:
  assumes "queue_inv s" and "open_batches [b] s"
  shows "queue_inv (snd (drain_one E respect v c b s))"
  by (cases rule: drain_one_cases [of E respect v c b s])
    (use assms uploads_inv in \<open>auto simp: discard_inv open_batches_def\<close>)

lemma drain_elsewhere: "elsewhere (ub_batch_id ` set bs) s (snd (drain E respect v c bs s))"
proof (induction bs arbitrary: s)
  case Nil
  show ?case by (simp add: op_simps elsewhere.refl)
next
  case (Cons b bs)
  have "elsewhere (ub_batch_id ` set (b # bs)) s (snd (drain_one E respect v c b s))"
    by (rule elsewhere_mono [OF drain_one_elsewhere]) simp
  moreover have "elsewhere (ub_batch_id ` set (b # bs)) t (snd (drain E respect v c bs t))" for t
    by (rule elsewhere_mono [OF Cons.IH]) auto
  ultimately have "obeys (elsewhere (ub_batch_id ` set (b # bs)))
      (andthen (\<lambda>t. if t = s then drain_one E respect v c b s else (Inr (), t)) (\<lambda>_. drain E respect v c bs))"
    by (intro elsewhere.andthen) (auto simp: obeys_def elsewhere.refl)
  from obeysD [OF this, of s] show ?case
    by (simp add: drain_Cons andthen_def del: drain.simps)
qed

lemma open_elsewhere:
  "open_batches bs s \<Longrightarrow> elsewhere {b} s t \<Longrightarrow> b \<notin> ub_batch_id ` set bs \<Longrightarrow> open_batches bs t"
  by (auto simp: open_batches_def elsewhere_def image_iff)

lemma drain_inv:
  assumes "queue_inv s" and "open_batches bs s" and "distinct (map ub_batch_id bs)"
  shows "queue_inv (snd (drain E respect v c bs s))"
  using assms
proof (induction bs arbitrary: s)
  case Nil
  then show ?case by (simp add: op_simps)
next
  case (Cons b bs)
  let ?t = "snd (drain_one E respect v c b s)"
  have "queue_inv ?t" using Cons.prems by (intro drain_one_inv) (auto simp: open_batches_def)
  moreover have "open_batches bs ?t"
    by (rule open_elsewhere [OF _ drain_one_elsewhere]) (use Cons.prems in \<open>auto simp: open_batches_def\<close>)
  moreover have "distinct (map ub_batch_id bs)" using Cons.prems(3) by simp
  ultimately have "queue_inv (snd (drain E respect v c bs ?t))" by (rule Cons.IH)
  with \<open>queue_inv ?t\<close> show ?case
    by (cases "drain_one E respect v c b s") (auto simp: drain_Cons andthen_def simp del: drain.simps split: sum.splits)
qed

lemma drain_lawful:
  assumes "open_batches bs s" and "distinct (map ub_batch_id bs)"
  shows "lawful s (snd (drain E respect v c bs s))"
proof -
  have "b \<notin> ub_batch_id ` set bs" if "row_of s b = Some r" "finished (ur_status r)" for b r
    using assms(1) that by (auto simp: open_batches_def)
  then show ?thesis
    using drain_inv [OF _ assms] drain_elsewhere [of bs s E respect v c]
    by (simp add: lawful_def finished_kept_def elsewhere_def)
qed

text \<open>The rows a drain starts from are the open ones of the table it read.\<close>

lemma listed_open:
  fixes now :: int
  assumes "distinct (batch_ids s)"
  defines "bs \<equiv> map (batch_of_row s) (sort_key ur_created_at (filter (resumable now) (uq_batches s)))"
  shows "open_batches bs s" and "distinct (map ub_batch_id bs)"
proof -
  have "row_of s (ur_batch_id r) = Some r" if "r \<in> set (uq_batches s)" for r
    by (rule row_of_unique [OF assms(1) that])
  then show "open_batches bs s"
    by (auto simp: open_batches_def bs_def batch_of_row_def resumable_def finished_def)
  have "map ub_batch_id bs = map ur_batch_id (sort_key ur_created_at (filter (resumable now) (uq_batches s)))"
    by (simp add: bs_def batch_of_row_def o_def)
  moreover have "distinct (map ur_batch_id (sort_key ur_created_at rs)) \<longleftrightarrow> distinct (map ur_batch_id rs)"
    for rs :: "upload_row list" by (simp add: distinct_map)
  moreover have "distinct (map ur_batch_id (filter (resumable now) (uq_batches s)))"
    using assms(1) unfolding batch_ids_def by (rule distinct_map_filter)
  ultimately show "distinct (map ub_batch_id bs)" by simp
qed

lemma drain_resumable_lawful:
  "obeys lawful (andthen (resumable_batches now) (\<lambda>bs. andthen (drain E respect v c bs) (\<lambda>_. ret (f bs))))"
proof (rule obeysI)
  fix s
  obtain r t where t: "io s = (r, t)" by fastforce
  then have q: "quiet s t" using obeysD [OF quiet_io, of s] by simp
  let ?bs = "map (batch_of_row t) (sort_key ur_created_at (filter (resumable (timestamp now)) (uq_batches t)))"
  have "lawful t (snd (drain E respect v c ?bs t))"
  proof (cases "queue_inv t")
    case True
    then show ?thesis
      by (intro drain_lawful listed_open) (simp_all add: queue_inv_def)
  qed (simp add: lawful_def)
  moreover have "snd (andthen m (\<lambda>_. ret x) u) = snd (m u)" for m :: "unit up" and x :: 'a and u
    by (auto simp: op_defs split: prod.splits sum.splits)
  moreover have "andthen (resumable_batches now) g s
      = (case r of Inl e \<Rightarrow> (Inl e, t) | Inr _ \<Rightarrow> g ?bs t)" for g :: "queued_batch list \<Rightarrow> 'a up"
    using t by (auto simp: resumable_batches_def op_defs split: sum.splits)
  ultimately show "lawful s (snd (andthen (resumable_batches now)
      (\<lambda>bs. andthen (drain E respect v c bs) (\<lambda>_. ret (f bs))) s))"
    using quiet_lawful [OF q] lawful.trans [of s t] by (auto split: sum.split)
qed

lemma drains_lawful: "obeys lawful (flush_all_pending E v c)" "obeys lawful (resume_pending E v c)"
  unfolding flush_all_pending_def resume_pending_def pending_batches_def
  by (intro drain_resumable_lawful lawful.andthen quiet_lawful_op quiet_utc_now)+

section \<open>Submitting\<close>

lemma assembler_lawful: "lawful s (s\<lparr>uq_assembler := a\<rparr>)"
  by (simp add: lawful_def queue_inv_def finished_kept_def batch_ids_def event_ids_def row_of_def
      posts_of_def)

lemma assemble_lawful: "obeys lawful (assemble f)"
  by (rule obeysI) (simp add: assemble_def assembler_lawful split: prod.split)

lemma find_append_old: "find P xs = Some x \<Longrightarrow> find P (xs @ ys) = Some x"
  by (induction xs) (auto split: if_splits)

lemma persist_lawful:
  assumes "persist_batch p s = (Inr (), t)"
  shows "lawful s t" and "row_of s (bp_batch_id p) = None"
    and "\<And>r. row_of t (bp_batch_id p) = Some r \<Longrightarrow> ur_status r = Pending"
proof -
  from assms obtain u now where q: "quiet s u"
    and t: "t = u\<lparr>uq_batches := uq_batches u @ [fresh_row (bp_batch_id p) now],
           uq_events := uq_events u @ map (\<lambda>e. (bp_batch_id p, stored_event e)) (bp_events p)\<rparr>"
    and new: "bp_batch_id p \<notin> set (batch_ids s)"
    and evs: "distinct (map pe_event_id (bp_events p))"
      "set (map pe_event_id (bp_events p)) \<inter> set (event_ids s) = {}"
    by (cases rule: persist_cases [of p s]) auto
  show none: "row_of s (bp_batch_id p) = None"
    using new by (auto simp: row_of_def find_None_iff batch_ids_def image_iff)
  have rows: "uq_batches u = uq_batches s" "uq_events u = uq_events s" "uq_posted u = uq_posted s"
    using q by (simp_all add: quiet_def)
  show "ur_status r = Pending" if "row_of t (bp_batch_id p) = Some r" for r
    using that row_of_in [OF that] new
    by (auto simp: t rows fresh_row_def batch_ids_def image_iff)
  have "queue_inv t" if "queue_inv s"
    using that new evs
    by (auto simp: queue_inv_def t rows batch_ids_def event_ids_def fresh_row_def row_ok_def o_def
        case_prod_beta)
  moreover have "finished_kept s t"
    by (auto simp: finished_kept_def row_of_def posts_of_def t rows find_append_old)
  ultimately show "lawful s t" by (simp add: lawful_def)
qed

lemma or_requeue_cases:
  obtains (ok) t where "persist_batch p s = (Inr (), t)" "or_requeue p (persist_batch p) s = (Inr (), t)"
  | (failed) e t where "quiet s t" "or_requeue p (persist_batch p) s
      = (Inl e, t\<lparr>uq_assembler := requeue p (uq_assembler t)\<rparr>)"
  by (cases rule: persist_cases [of p s]) (auto simp: or_requeue_def attempt_def op_defs)

lemma or_requeue_lawful: "obeys lawful (or_requeue p (persist_batch p))"
proof (rule obeysI)
  fix s
  show "lawful s (snd (or_requeue p (persist_batch p) s))"
    by (cases rule: or_requeue_cases [of p s])
      (auto simp: persist_lawful intro: lawful.trans quiet_lawful assembler_lawful)
qed

lemma fresh_upload_lawful:
  assumes "persist_batch p s = (Inr (), t)"
  shows "lawful s (snd (upload_batch_with_backoff E p respect t))"
proof -
  let ?u = "snd (upload_batch_with_backoff E p respect t)"
  have up: "uploads (bp_batch_id p) t ?u" by (rule uploads_upload)
  have "queue_inv ?u" if "queue_inv t"
    by (rule uploads_inv [OF up that])
      (use persist_lawful(3) [OF assms] in \<open>auto simp: finished_def\<close>)
  moreover have "finished_kept s ?u" if "finished_kept s t"
    using that uploads_elsewhere [OF up] persist_lawful(2) [OF assms]
    unfolding finished_kept_def elsewhere_def by (metis option.distinct(1) singletonD)
  ultimately show ?thesis
    using persist_lawful(1) [OF assms] by (auto simp: lawful_def)
qed

lemma submit_lawful: "obeys lawful (submit_with_inner_released E p)"
proof (rule obeysI)
  fix s
  show "lawful s (snd (submit_with_inner_released E p s))"
    by (cases rule: or_requeue_cases [of p s])
      (auto simp: submit_with_inner_released_def upload_batch_def andthen_def fresh_upload_lawful
        intro: lawful.trans quiet_lawful assembler_lawful)
qed

lemma flush_with_lawful: "obeys lawful (flush_with E f)"
  unfolding flush_with_def by (intro lawful.rules assemble_lawful submit_lawful)

lemma ingest_lawful: "obeys lawful (ingest E i ev d now)"
  unfolding ingest_def by (intro lawful.rules assemble_lawful submit_lawful)

lemma flush_now_lawful: "obeys lawful (flush_now E)"
  unfolding flush_now_def
  by (intro lawful.andthen assemble_lawful)
    (auto split: option.split intro!: lawful.rules or_requeue_lawful drains_lawful)

lemma events_lawful:
  "fst ` set es = fst ` set (uq_events s) \<Longrightarrow> map (\<lambda>(b, e). pe_event_id e) es = event_ids s \<Longrightarrow>
   lawful s (s\<lparr>uq_events := es\<rparr>)"
  by (simp add: lawful_def queue_inv_def finished_kept_def batch_ids_def event_ids_def row_of_def
      posts_of_def)

lemma reclassify_lawful: "obeys lawful (update_event_classification i l c)"
proof -
  let ?g = "\<lambda>(b :: string, e). (b, if pe_event_id e = i
       then e\<lparr>pe_label := l, pe_category := c, pe_classification_tier := ''exact_match''\<rparr> else e)"
  have "fst ` set (map ?g es) = fst ` set es"
    "map (\<lambda>(b, e). pe_event_id e) (map ?g es) = map (\<lambda>(b, e). pe_event_id e) es" for es
    by (induction es) auto
  then have events: "lawful s (s\<lparr>uq_events := map ?g (uq_events s)\<rparr>)" for s
    by (intro events_lawful) (simp_all only: event_ids_def)
  show ?thesis
    unfolding update_event_classification_def
    by (rule lawful.andthen [OF quiet_lawful_op [OF quiet_io]])
      (rule obeysI, simp add: lawful.refl events)
qed

lemma raw_retention_lawful: "obeys lawful (raw_retention visit ttl n)"
proof -
  have raw: "lawful s (s\<lparr>uq_raw := rs\<rparr>)" for s rs
    by (simp add: lawful_def queue_inv_def finished_kept_def batch_ids_def event_ids_def row_of_def
        posts_of_def)
  show ?thesis
    unfolding raw_retention_def delete_expired_raw_def
    by (intro lawful.andthen [OF quiet_lawful_op [OF quiet_io]]
        lawful.andthen [OF quiet_lawful_op [OF quiet_utc_now]])
      (rule obeysI, simp add: Let_def raw)
qed

lemma exec_lawful: "lawful s (exec_upload E c s)"
  by (cases c)
    (simp_all add: obeysD ingest_lawful flush_due_def flush_sleep_def flush_shutdown_def
      flush_with_lawful flush_now_lawful drains_lawful reclassify_lawful raw_retention_lawful
      quiet_lawful_op quiet_diagnostics)

lemma run_lawful: "lawful s (fold (exec_upload E) cs s)"
  by (rule lawful.run) (rule exec_lawful)

section \<open>Recovery and retention\<close>

lemma reingest_lawful: "obeys lawful (reingest E now es)"
proof (induction es)
  case (Cons e es)
  have "obeys lawful (submit E p)" for p
    using submit_lawful [of E p] by (simp add: submit_def submit_with_inner_released_def)
  with Cons.IH show ?case by (auto intro!: lawful.rules assemble_lawful)
qed (simp add: lawful.ret)

lemma recover_lawful: "obeys lawful (recover_unbatched E limit now)"
  unfolding recover_unbatched_def
  by (intro lawful.rules quiet_lawful_op quiet_unbatched reingest_lawful)

text \<open>Retention removes a row only once its time is up, by the two clock readings it makes.\<close>

definition due_for_deletion :: "int \<Rightarrow> int \<Rightarrow> instant \<Rightarrow> instant \<Rightarrow> upload_row \<Rightarrow> bool" where
  "due_for_deletion sent rejected now1 now2 r \<longleftrightarrow>
     (\<exists>t. ur_status r = Sent \<and> ur_sent_at r = Some t \<and> t < timestamp (now1 - seconds sent))
     \<or> ur_status r = Rejected \<and> ur_created_at r < timestamp (now2 - seconds rejected)
     \<or> ur_created_at r < timestamp (now1 - seconds sent)"

definition spared :: "(upload_row \<Rightarrow> bool) \<Rightarrow> upload \<Rightarrow> upload \<Rightarrow> bool" where
  "spared p s t \<longleftrightarrow> (queue_inv s \<longrightarrow> queue_inv t)
     \<and> (\<forall>b. posts_of t b = posts_of s b)
     \<and> (\<forall>b r. row_of s b = Some r \<longrightarrow> \<not> p r \<longrightarrow> row_of t b = Some r)"

interpretation spared: evolution "spared p"
  by unfold_locales (auto simp: spared_def)

lemma quiet_spared: "obeys quiet m \<Longrightarrow> obeys (spared p) m"
proof -
  have "spared p s t" if q: "quiet s t" for s t
    using quiet_inv [OF q] quiet_elsewhere [OF q, of "{}"] by (simp add: spared_def elsewhere_def)
  then show "obeys quiet m \<Longrightarrow> obeys (spared p) m" by (simp add: obeys_def)
qed

lemma drop_spared: "(\<And>r. gone r \<Longrightarrow> p r) \<Longrightarrow> spared p s (drop_batches gone s)"
proof -
  assume gone: "\<And>r. gone r \<Longrightarrow> p r"
  have "find P (filter (\<lambda>r. \<not> gone r) rs) = Some r" if "find P rs = Some r" "\<not> p r" for P r rs
    using that by (induction rs) (auto simp: gone split: if_splits)
  then have "row_of (drop_batches gone s) b = Some r" if "row_of s b = Some r" "\<not> p r" for b r
    using that by (simp add: row_of_def drop_batches_def Let_def)
  moreover have "posts_of (drop_batches gone s) b = posts_of s b" for b
    by (simp add: posts_of_def drop_batches_def Let_def)
  ultimately show ?thesis by (simp add: spared_def drop_inv)
qed

lemma sweep_spared: "(\<And>r. q r \<Longrightarrow> p r) \<Longrightarrow> obeys (spared p) (sweep visit q limit)"
  unfolding sweep_def
  by (rule spared.andthen [OF quiet_spared [OF quiet_io]])
    (rule obeysI, auto simp: Let_def dest: in_set_takeD intro!: drop_spared)

lemma retention_spares:
  assumes "utc_now s = (Inr now1, u)" and "utc_now u = (Inr now2, v)"
  shows "spared (due_for_deletion sent rejected now1 now2) s (snd (upload_retention visit sent rejected n s))"
proof -
  let ?p = "due_for_deletion sent rejected now1 now2"
  let ?m = "andthen (delete_sent_batch visit (now1 - seconds sent) n) (\<lambda>a.
     andthen (delete_rejected_batch visit (now2 - seconds rejected) n) (\<lambda>b.
     andthen (delete_stale_queued_batch visit (now1 - seconds sent) n) (\<lambda>c. ret (a + b + c))))"
  have "obeys (spared ?p) ?m"
    unfolding delete_sent_batch_def delete_rejected_batch_def delete_stale_queued_batch_def
    by (intro spared.rules sweep_spared) (auto simp: due_for_deletion_def split: option.splits)
  then have "spared ?p v (snd (?m v))" by (rule obeysD)
  moreover have "spared ?p s u" "spared ?p u v"
    using assms obeysD [OF quiet_spared [OF quiet_utc_now], of ?p s] obeysD [OF quiet_spared [OF quiet_utc_now], of ?p u]
    by simp_all
  moreover have "upload_retention visit sent rejected n s = ?m v"
    using assms by (simp add: upload_retention_def andthen_def [of utc_now])
  ultimately show ?thesis using spared.trans by metis
qed

end
