(* ===== verification/Upload_Properties.thy ===== *)
theory Upload_Properties
  imports Upload_Invariant
begin

text \<open>
  What the upload pipeline promises: no accepted event is lost or sent twice by the queue,
  finished batches stay finished, the queue keeps its invariant, the wire carries only the
  documented facts, a queued batch is rebuilt as it was assembled, and batch identifiers
  determine their events.
\<close>

section \<open>Events are conserved\<close>

text \<open>
  C15: No accepted event is lost or duplicated on the device. Whatever sequence of ingestions,
  flushes, retries, reclassifications and raw-event sweeps runs, with database and network
  failing at any point, the events in the assembler together with those in the queue are
  exactly those held before plus the ones ingested, each as often as it was ingested (with
  the retention policy the service runs with, which discards nothing).
\<close>

theorem no_event_lost_or_duplicated:
  assumes "ev_should_discard E = (\<lambda>_. False)"
  shows "held (fold (exec_upload E) cs s) = held s + (\<Sum>c \<leftarrow> cs. ingested c)"
proof (induction cs arbitrary: s)
  case Nil
  show ?case by simp
next
  case (Cons c cs)
  show ?case using Cons.IH [of "exec_upload E c s"] by (simp add: exec_holds [OF assms] ac_simps)
qed

definition sample_up_env :: up_env where
  "sample_up_env = \<lparr>ev_device_id = ''dev'', ev_count_threshold = 2, ev_age_seconds = 60,
     ev_host = ''api'', ev_base_seconds = 30, ev_cap_seconds = 900, ev_jittered = \<lambda>n. seconds (int n),
     ev_rfc2822 = \<lambda>_. None, ev_rfc3339 = \<lambda>_. [], ev_sha256 = \<lambda>_. ''digest'',
     ev_client_version = ''1.0.0'', ev_should_discard = \<lambda>_. False\<rparr>"

definition empty_upload :: upload where
  "empty_upload = \<lparr>uq_assembler = \<lparr>as_opened_at = None, as_events = []\<rparr>, uq_batches = [],
     uq_events = [], uq_host_backoff = [], uq_attempts = [], uq_raw = [], uq_io = [],
     uq_clock = [], uq_now = 0, uq_net = [], uq_posted = [], uq_alerts = []\<rparr>"

definition sample_abstracted :: abstracted_event where
  "sample_abstracted = \<lparr>ae_stable_id = ''s'', ae_label = ''video:x'', ae_category = ''SYSTEM'',
     ae_taxonomy_version = ''mvp-1'', ae_classification_tier = ''exact_match'', ae_occurred_at = 0\<rparr>"

theorem no_event_lost_or_duplicated_witness:
  "held (fold (exec_upload sample_up_env)
      [UIngest ''e1'' sample_abstracted 5 0, UIngest ''e2'' sample_abstracted 5 0, UFlushNow]
      (empty_upload\<lparr>uq_io := [False]\<rparr>)) = {#''e1'', ''e2''#}"
  using no_event_lost_or_duplicated [of sample_up_env
      "[UIngest ''e1'' sample_abstracted 5 0, UIngest ''e2'' sample_abstracted 5 0, UFlushNow]"
      "empty_upload\<lparr>uq_io := [False]\<rparr>"]
  by (simp add: sample_up_env_def empty_upload_def held_def buffered_def event_ids_def)

section \<open>Finished batches\<close>

text \<open>
  C16: A finished batch is not posted again while its row is kept. Take a batch whose queue row
  says sent, rejected or abandoned, and any run, one task after the other, of ingestions, flushes,
  retries, corrections, recoveries of raw events and retention sweeps, whatever the server
  answers. Either the row is unchanged at the end and the batch was not posted, or the run has a
  retention sweep that found the row as it was, the batch not posted until then, and the row past
  the time it is kept for.
\<close>

theorem finished_batch_is_never_posted_again:
  assumes "queue_inv s" and "row_of s b = Some r" and "ur_status r \<in> {Sent, Rejected, Abandoned}"
  shows "row_of (fold (exec_task E) ts s) b = Some r
      \<and> posts_of (fold (exec_task E) ts s) b = posts_of s b
    \<or> (\<exists>us visit sent rejected n vs now1 u now2 v. ts = us @ URetain visit sent rejected n # vs
        \<and> row_of (fold (exec_task E) us s) b = Some r
        \<and> posts_of (fold (exec_task E) us s) b = posts_of s b
        \<and> utc_now (fold (exec_task E) us s) = (Inr now1, u) \<and> utc_now u = (Inr now2, v)
        \<and> due_for_deletion sent rejected now1 now2 r)"
  using assms(1,2)
proof (induction ts arbitrary: s)
  case Nil
  then show ?case by simp
next
  case (Cons t ts)
  let ?s = "exec_task E t s"
  have continue: ?case if kept: "queue_inv ?s" "row_of ?s b = Some r" "posts_of ?s b = posts_of s b"
    using Cons.IH [OF kept(1,2)]
  proof (elim disjE exE conjE)
    assume "row_of (fold (exec_task E) ts ?s) b = Some r" "posts_of (fold (exec_task E) ts ?s) b = posts_of ?s b"
    then show ?thesis using kept(3) by simp
  next
    fix us visit sent rejected n vs now1 u now2 v
    assume "ts = us @ URetain visit sent rejected n # vs" "row_of (fold (exec_task E) us ?s) b = Some r"
      "posts_of (fold (exec_task E) us ?s) b = posts_of ?s b" "due_for_deletion sent rejected now1 now2 r"
      "utc_now (fold (exec_task E) us ?s) = (Inr now1, u)" "utc_now u = (Inr now2, v)"
    then show ?thesis using kept(3)
      by (intro disjI2 exI [of _ "t # us"] exI [of _ visit] exI [of _ sent] exI [of _ rejected] exI [of _ n]
          exI [of _ vs] exI [of _ now1] exI [of _ u] exI [of _ now2] exI [of _ v]) simp
  qed
  have law: ?case if "lawful s ?s"
  proof (rule continue)
    have "finished (ur_status r)" using assms(3) by (simp add: finished_def)
    then show "row_of ?s b = Some r" "posts_of ?s b = posts_of s b" "queue_inv ?s"
      using that Cons.prems unfolding lawful_def finished_kept_def by blast+
  qed
  show ?case
  proof (cases t)
    case (URetain visit sent rejected n)
    obtain now1 u now2 v where clock: "utc_now s = (Inr now1, u)" "utc_now u = (Inr now2, v)"
      by (metis utc_now_reads)
    note sp = retention_spares [OF clock, of sent rejected visit n]
    show ?thesis
    proof (cases "due_for_deletion sent rejected now1 now2 r")
      case True
      then show ?thesis using URetain clock Cons.prems
        by (intro disjI2 exI [of _ "[]"] exI [of _ visit] exI [of _ sent] exI [of _ rejected] exI [of _ n]
          exI [of _ ts] exI [of _ now1] exI [of _ u] exI [of _ now2] exI [of _ v]) simp
    next
      case False
      then show ?thesis using URetain sp Cons.prems by (intro continue) (simp_all add: spared_def)
    qed
  next
    case (UTask c)
    then have "lawful s ?s" by (simp add: exec_lawful)
    then show ?thesis by (rule law)
  next
    case (URecover limit now)
    then have "lawful s ?s" by (simp add: recover_lawful [THEN obeysD])
    then show ?thesis by (rule law)
  qed
qed

definition rejected_upload :: upload where
  "rejected_upload = empty_upload\<lparr>uq_batches := [\<lparr>ur_batch_id = ''b1'', ur_status = Rejected,
     ur_sent_at = None, ur_attempt_count = 3, ur_next_attempt_at = 0,
     ur_last_error_code = Some ''raw_field_rejected'', ur_created_at = 0\<rparr>]\<rparr>"

theorem finished_batch_is_never_posted_again_witness:
  "posts_of (fold (exec_task sample_up_env) [UTask UResume, URecover 500 0, UTask UFlushNow] rejected_upload) ''b1'' = []"
proof -
  have "queue_inv rejected_upload"
    by (simp add: queue_inv_def batch_ids_def event_ids_def rejected_upload_def empty_upload_def row_ok_def)
  moreover have "row_of rejected_upload ''b1'' = Some (hd (uq_batches rejected_upload))"
    by (simp add: row_of_def rejected_upload_def)
  moreover have "posts_of rejected_upload ''b1'' = []"
    by (simp add: posts_of_def rejected_upload_def empty_upload_def)
  moreover have "ur_status (hd (uq_batches rejected_upload)) = Rejected"
    by (simp add: rejected_upload_def)
  moreover have "[UTask UResume, URecover 500 0, UTask UFlushNow] \<noteq> us @ URetain visit a c n # vs" for us visit a c n vs
    by (auto simp: Cons_eq_append_conv)
  ultimately show ?thesis
    using finished_batch_is_never_posted_again [of rejected_upload "''b1''" "hd (uq_batches rejected_upload)"
        sample_up_env "[UTask UResume, URecover 500 0, UTask UFlushNow]"] by (simp del: exec_task.simps)
qed

text \<open>
  From the empty queue, commands that run one after the other keep the invariant: batch and event
  identifiers are unique, every queued event belongs to a stored batch, no batch is charged more
  than 288 attempts, a batch still waiting for a retry has fewer, and a send time is recorded
  exactly for sent batches.
\<close>

theorem queue_stays_exact_in_sequence:
  "queue_inv (fold (exec_upload E) cs empty_upload)"
proof -
  have "queue_inv empty_upload"
    by (simp add: queue_inv_def empty_upload_def batch_ids_def event_ids_def)
  then show ?thesis using run_lawful [of empty_upload E cs] by (simp add: lawful_def)
qed

section \<open>Recovery\<close>

text \<open>
  The raw-event sweep deletes nothing that is still owed. A raw event that recovery would
  re-queue is not deleted by the retention of raw events, and whatever the sweep deletes was
  either not eligible for upload or already in the queue.
\<close>

theorem raw_retention_spares_unbatched:
  "\<exists>t. raw_retention visit ttl n s = (Inr (length (uq_raw s) - length (uq_raw t)), t)
         \<and> filter (unbatched s) (uq_raw t) = filter (unbatched s) (uq_raw s)
     \<or> raw_retention visit ttl n s = (Inl Sqlite, t) \<and> uq_raw t = uq_raw s"
proof -
  obtain now u where u: "utc_now s = (Inr now, u)" "quiet s u"
    using obeysD [OF quiet_utc_now, of s] by (cases "uq_clock s") (auto simp: utc_now_def)
  obtain r v where v: "io u = (r, v)" "quiet s v"
    using obeysD [OF quiet_io, of u] u(2) quiet.trans by (metis snd_conv surj_pair)
  then have same: "uq_raw v = uq_raw s" "unbatched v = unbatched s"
    by (auto simp: quiet_def unbatched_def event_ids_def fun_eq_iff)
  show ?thesis
  proof (cases r)
    case (Inl e)
    moreover have "e = Sqlite" using v(1) Inl by (auto simp: io_def split: list.splits if_splits)
    ultimately show ?thesis
      using u v same by (simp add: raw_retention_def delete_expired_raw_def andthen_def)
  next
    case (Inr a)
    then show ?thesis
      using u v same sum_length_filter_compl [of "\<lambda>r. r \<in> set (take n (filter
          (\<lambda>r. re_created_at r < timestamp (now - seconds ttl) \<and> \<not> unbatched s r) (visit (uq_raw s))))"
          "uq_raw s"]
      by (auto simp: raw_retention_def delete_expired_raw_def andthen_def Let_def
          dest: in_set_takeD intro!: filter_cong)
  qed
qed

section \<open>The wire\<close>

text \<open>What the wire may show of an event.\<close>

definition visible :: "payload_event \<Rightarrow> string \<times> instant \<times> string \<times> string \<times> nat" where
  "visible e = (pe_event_id e, pe_occurred_at e, pe_category e, pe_classification_tier e,
     pe_duration_seconds e)"

definition CLOUD_TYPES :: "string list" where
  "CLOUD_TYPES = [''document:inferred'', ''video:inferred'', ''social:inferred'',
     ''communication:inferred'', ''task:inferred'', ''reference:inferred'', ''system:inferred'',
     ''unlogged'', ''system:unknown'']"

lemma push_unique_set: "set (push_unique acc xs) = set acc \<union> set xs"
  by (induction acc xs rule: push_unique.induct) auto

lemma push_unique_distinct: "distinct acc \<Longrightarrow> distinct (push_unique acc xs)"
  by (induction acc xs rule: push_unique.induct) auto

lemma cloud_type_in: "cloud_abstraction_type c \<in> set CLOUD_TYPES"
  by (simp add: cloud_abstraction_type_def CLOUD_TYPES_def)

lemma serialize_visible:
  "visible e = visible f \<Longrightarrow> serialize_event E e = serialize_event E f \<and> pe_category e = pe_category f"
  by (simp only: visible_def prod.inject serialize_event_def simp_thms)

lemma serialize_visible_list:
  assumes "map visible es = map visible fs"
  shows "map (serialize_event E) es = map (serialize_event E) fs"
    and "map (\<lambda>e. cloud_abstraction_type (pe_category e)) es
       = map (\<lambda>e. cloud_abstraction_type (pe_category e)) fs"
proof -
  have "list_all2 (\<lambda>e f. visible e = visible f) es fs"
    using assms by (simp add: list_all2_conv_all_nth list_eq_iff_nth_eq)
  then show "map (serialize_event E) es = map (serialize_event E) fs"
    and "map (\<lambda>e. cloud_abstraction_type (pe_category e)) es
       = map (\<lambda>e. cloud_abstraction_type (pe_category e)) fs"
    by (induction rule: list_all2_induct) (simp_all, (metis serialize_visible)+)
qed

text \<open>
  C18: Local detail does not reach the wire. The JSON body posted for a queued batch is the
  same for any two batches whose events agree in identifier, time, category, tier and
  duration and whose taxonomy version is the same: labels and stable identifiers, which may
  name an application or a site, cannot influence it, and the abstraction types it lists are
  distinct and come from the closed cloud vocabulary.
\<close>

theorem upload_body_shows_only_documented_facts:
  assumes "map visible (ub_events a) = map visible (ub_events b)"
    and "ub_batch_id a = ub_batch_id b"
    and "map pe_taxonomy_version (ub_events a) = map pe_taxonomy_version (ub_events b)"
  shows "serialize_batch E (payload_for_queued_batch a v c)
       = serialize_batch E (payload_for_queued_batch b v c)
    \<and> distinct (bp_supported (payload_for_queued_batch a v c))
    \<and> set (bp_supported (payload_for_queued_batch a v c)) \<subseteq> set CLOUD_TYPES"
proof -
  have "(case ub_events a of [] \<Rightarrow> [] | e # _ \<Rightarrow> pe_taxonomy_version e)
      = (case ub_events b of [] \<Rightarrow> [] | e # _ \<Rightarrow> pe_taxonomy_version e)"
    using assms(3) by (auto split: list.splits)
  moreover have "set (bp_supported (payload_for_queued_batch a v c)) \<subseteq> set CLOUD_TYPES"
    by (auto simp: payload_for_queued_batch_def new_payload_def push_unique_set cloud_type_in)
  ultimately show ?thesis
    using serialize_visible_list [OF assms(1)] assms(2)
    by (simp add: serialize_batch_def payload_for_queued_batch_def new_payload_def
        push_unique_distinct)
qed

definition sample_payload_event :: "string \<Rightarrow> string \<Rightarrow> payload_event" where
  "sample_payload_event i label = \<lparr>pe_event_id = i, pe_stable_id = ''k'' @ label, pe_label = label,
     pe_category = ''SYSTEM'', pe_taxonomy_version = ''mvp-1'', pe_classification_tier = ''exact_match'',
     pe_occurred_at = 0, pe_duration_seconds = 60\<rparr>"

definition sample_queued :: "string \<Rightarrow> queued_batch" where
  "sample_queued label = \<lparr>ub_batch_id = ''b1'', ub_status = Pending, ub_attempt_count = 0,
     ub_next_attempt_at = 0, ub_events = [sample_payload_event ''e1'' label]\<rparr>"

theorem upload_body_shows_only_documented_facts_witness:
  "serialize_batch sample_up_env (payload_for_queued_batch (sample_queued ''system:terminal'') ''1'' ''v'')
   = serialize_batch sample_up_env (payload_for_queued_batch (sample_queued ''system:finder'') ''1'' ''v'')"
  using upload_body_shows_only_documented_facts [of "sample_queued ''system:terminal''"
      "sample_queued ''system:finder''" sample_up_env "''1''" "''v''"]
  by (simp add: sample_queued_def sample_payload_event_def visible_def)

section \<open>Round trip through the queue\<close>

lemma take_batch_Some:
  assumes "take_batch E a = (Some p, b)"
  shows "bp_events p \<noteq> []" and "list_all (\<lambda>e. pe_taxonomy_version e = bp_taxonomy_version p) (bp_events p)"
    and "p = new_payload (bp_batch_id p) ''1'' (ev_client_version E) [] (bp_taxonomy_version p) (bp_events p)"
  using assms by (auto simp: take_batch_def new_payload_def Let_def list_all_iff split: list.splits)

text \<open>
  What is retried is what was assembled. When a batch the assembler minted is persisted,
  the payload rebuilt from the database for a later attempt is that batch, field by field,
  with the instants of its events truncated to the second, and every event in it carries the
  taxonomy version the batch names.
\<close>

theorem queued_batch_round_trip:
  assumes "take_batch E a = (Some p, a')" and "persist_batch p s = (Inr (), t)" and "queue_inv s"
  shows "\<exists>r. row_of t (bp_batch_id p) = Some r
     \<and> payload_for_queued_batch (batch_of_row t r) ''1'' (ev_client_version E)
         = p\<lparr>bp_events := map stored_event (bp_events p)\<rparr>
     \<and> list_all (\<lambda>e. pe_taxonomy_version e = bp_taxonomy_version p) (bp_events p)"
proof -
  note p = take_batch_Some [OF assms(1)]
  from assms(2) obtain u now where q: "quiet s u"
    and t: "t = u\<lparr>uq_batches := uq_batches u @ [fresh_row (bp_batch_id p) now],
           uq_events := uq_events u @ map (\<lambda>e. (bp_batch_id p, stored_event e)) (bp_events p)\<rparr>"
    and new: "bp_batch_id p \<notin> set (batch_ids s)"
    by (cases rule: persist_cases [of p s]) auto
  let ?r = "fresh_row (bp_batch_id p) now"
  have row: "row_of t (bp_batch_id p) = Some ?r"
  proof -
    have "find (\<lambda>r. ur_batch_id r = bp_batch_id p) (uq_batches u) = None"
      using new q by (auto simp: find_None_iff quiet_def batch_ids_def image_iff)
    moreover have "find P xs = None \<Longrightarrow> find P (xs @ ys) = find P ys" for P and xs ys :: "upload_row list"
      by (induction xs) (auto split: if_splits)
    ultimately show ?thesis by (simp add: row_of_def t fresh_row_def)
  qed
  have "filter (\<lambda>(b, e). b = bp_batch_id p) (uq_events u) = []"
    using assms(3) new q
    by (fastforce simp: filter_empty_conv queue_inv_def quiet_def)
  then have "ub_events (batch_of_row t ?r) = map stored_event (bp_events p)"
    by (simp add: batch_of_row_def fresh_row_def t o_def)
  moreover have "pe_taxonomy_version (stored_event e) = pe_taxonomy_version e"
    "pe_category (stored_event e) = pe_category e" for e
    by (simp_all add: stored_event_def)
  moreover obtain e es where "bp_events p = e # es" using p(1) by (cases "bp_events p") auto
  ultimately have "payload_for_queued_batch (batch_of_row t ?r) ''1'' (ev_client_version E)
      = p\<lparr>bp_events := map stored_event (bp_events p)\<rparr>"
    using p(2) by (subst p(3)) (simp add: payload_for_queued_batch_def new_payload_def batch_of_row_def
        fresh_row_def o_def)
  with row p(2) show ?thesis by blast
qed

definition sample_assembler :: assembler where
  "sample_assembler = \<lparr>as_opened_at = Some 0, as_events = [sample_payload_event ''e1'' ''l'']\<rparr>"

theorem queued_batch_round_trip_witness:
  "\<exists>p r t. take_batch sample_up_env sample_assembler = (Some p, \<lparr>as_opened_at = None, as_events = []\<rparr>)
     \<and> persist_batch p empty_upload = (Inr (), t) \<and> row_of t (bp_batch_id p) = Some r
     \<and> payload_for_queued_batch (batch_of_row t r) ''1'' ''1.0.0''
         = p\<lparr>bp_events := map stored_event (bp_events p)\<rparr>"
proof -
  let ?p = "new_payload ''digest'' ''1'' ''1.0.0'' [] ''mvp-1'' [sample_payload_event ''e1'' ''l'']"
  have tk: "take_batch sample_up_env sample_assembler = (Some ?p, \<lparr>as_opened_at = None, as_events = []\<rparr>)"
    by (simp add: take_batch_def sample_assembler_def sample_up_env_def sample_payload_event_def
        new_payload_def deterministic_batch_id_def Let_def)
  obtain t where ps: "persist_batch ?p empty_upload = (Inr (), t)"
    by (simp add: persist_batch_def insert_batch_with_events_def io_def utc_now_def empty_upload_def
        transaction_def insert_batch_def batch_ids_def add_event_to_batch_def event_check_def
        event_ids_def new_payload_def sample_payload_event_def i64_max_def op_defs)
  have "queue_inv empty_upload"
    by (simp add: queue_inv_def empty_upload_def batch_ids_def event_ids_def)
  from queued_batch_round_trip [OF tk ps this] tk ps show ?thesis
    by (auto simp: sample_up_env_def)
qed

section \<open>Batch identifiers\<close>

lemma digits_determine:
  "(\<And>j. j < k \<Longrightarrow> n div 256 ^ j mod 256 = m div 256 ^ j mod 256) \<Longrightarrow>
     (n :: nat) mod 256 ^ k = m mod 256 ^ k"
proof (induction k)
  case (Suc k)
  have "x mod 256 ^ Suc k = 256 ^ k * (x div 256 ^ k mod 256) + x mod 256 ^ k" for x :: nat
    using mod_mult2_eq [of x "256 ^ k" 256] by (simp add: mult.commute)
  then show ?case using Suc.IH Suc.prems by simp
qed simp

lemma u64_be_inj:
  assumes "u64_be n = u64_be m" and "n < 2 ^ 64" and "m < 2 ^ 64"
  shows "n = m"
proof -
  have "n div 256 ^ j mod 256 = m div 256 ^ j mod 256" if "j < 8" for j
  proof -
    have "u64_be x ! (7 - j) = x div 256 ^ j mod 256" for x
    proof -
      have "[0..<8] ! (7 - j) = 7 - j" by (subst nth_upt) auto
      then show ?thesis using that by (simp add: u64_be_def del: upt_Suc)
    qed
    then show ?thesis using assms(1) by metis
  qed
  then have "n mod 256 ^ 8 = m mod 256 ^ 8" by (rule digits_determine)
  then show ?thesis using assms(2,3) by simp
qed

lemma length_u64_be [simp]: "length (u64_be n) = 8"
  by (simp add: u64_be_def)

lemma str_bytes_inj: "str_bytes a = str_bytes b \<Longrightarrow> a = b"
  unfolding str_bytes_def by (rule map_injective [OF _ inj_of_char])

lemma length_prefixed_inj:
  assumes "length_prefixed a @ x = length_prefixed b @ y" and "length a < 2 ^ 64" and "length b < 2 ^ 64"
  shows "a = b \<and> x = y"
proof -
  from assms(1) have "u64_be (length a) = u64_be (length b)"
    and rest: "str_bytes a @ x = str_bytes b @ y"
    by (simp_all add: length_prefixed_def append_eq_append_conv)
  then have "length a = length b" using u64_be_inj assms(2,3) by blast
  then have "str_bytes a = str_bytes b \<and> x = y"
    using rest by (simp add: str_bytes_def append_eq_append_conv)
  then show ?thesis using str_bytes_inj by blast
qed

lemma prefixed_list_inj:
  assumes "concat (map length_prefixed xs) = concat (map length_prefixed ys)"
    and "list_all (\<lambda>s. length s < 2 ^ 64) xs" and "list_all (\<lambda>s. length s < 2 ^ 64) ys"
  shows "xs = ys"
  using assms
proof (induction xs arbitrary: ys)
  case Nil
  then show ?case by (cases ys) (auto simp: length_prefixed_def u64_be_def)
next
  case (Cons x xs)
  have "length (length_prefixed x) \<noteq> 0" by (simp add: length_prefixed_def)
  with Cons.prems(1) obtain y zs where ys: "ys = y # zs" by (cases ys) auto
  have "x = y \<and> concat (map length_prefixed xs) = concat (map length_prefixed zs)"
    using Cons.prems unfolding ys by (intro length_prefixed_inj) simp_all
  then show ?case using Cons.IH [of zs] Cons.prems ys by simp
qed

text \<open>
  A batch identifier stands for one device and one sequence of events. If two batches,
  assembled for any two devices, get the same identifier, they were assembled for the same
  device and hold the same event identifiers in the same order, or two different byte strings
  with the same SHA-256 have been found (no text is 2^64 bytes long).
\<close>

theorem batch_id_determines_device_and_events:
  assumes "deterministic_batch_id E es = deterministic_batch_id F fs" and "ev_sha256 F = ev_sha256 E"
    and "list_all (\<lambda>s. length s < 2 ^ 64) (ev_device_id E # map pe_event_id es)"
    and "list_all (\<lambda>s. length s < 2 ^ 64) (ev_device_id F # map pe_event_id fs)"
  shows "ev_device_id E = ev_device_id F \<and> map pe_event_id es = map pe_event_id fs
     \<or> (\<exists>x y. x \<noteq> y \<and> ev_sha256 E x = ev_sha256 E y)"
proof (cases "batch_id_bytes (ev_device_id E) es = batch_id_bytes (ev_device_id F) fs")
  case True
  then have "concat (map length_prefixed (ev_device_id E # map pe_event_id es))
      = concat (map length_prefixed (ev_device_id F # map pe_event_id fs))"
    by (simp add: batch_id_bytes_def o_def)
  from prefixed_list_inj [OF this assms(3,4)] show ?thesis by simp
next
  case False
  then show ?thesis using assms(1,2) by (auto simp: deterministic_batch_id_def)
qed

theorem batch_id_determines_device_and_events_witness:
  "ev_device_id (sample_up_env\<lparr>ev_sha256 := map char_of\<rparr>) = ''dev''
     \<and> map pe_event_id [sample_payload_event ''e1'' ''a''] = map pe_event_id [sample_payload_event ''e1'' ''b'']
   \<or> (\<exists>x y. x \<noteq> y \<and> map char_of x = (map char_of y :: string))"
  using batch_id_determines_device_and_events [of "sample_up_env\<lparr>ev_sha256 := map char_of\<rparr>"
      "[sample_payload_event ''e1'' ''a'']" "sample_up_env\<lparr>ev_sha256 := map char_of\<rparr>"
      "[sample_payload_event ''e1'' ''b'']"]
  by (simp add: sample_up_env_def sample_payload_event_def deterministic_batch_id_def batch_id_bytes_def)

section \<open>Failures\<close>

text \<open>
  A server can make the retry scheduler panic. When the answer to an upload is a rate
  limit whose Retry-After is a number of seconds that fits the duration type but leads past
  the last representable instant, recording the outcome panics, and the batch's row is left
  as it was: still waiting, with no attempt charged and no back-off recorded.
\<close>

theorem huge_retry_after_panics:
  assumes "parse_u64 (trim v) = Some n" and "n \<le> 9223372036854775"
    and "8210266876799 < int n" and "uq_io s = []" and "uq_clock s = []" and "0 \<le> uq_now s"
  shows "\<exists>t. record_outcome E b (Inr (RateLimited (Some v))) s = (Inl Panicked, t)
     \<and> uq_batches t = uq_batches s \<and> uq_host_backoff t = uq_host_backoff s"
proof -
  have no_cap: "\<not> int i64_max * 1000000 < seconds (int n)"
    using assms(2) by (simp add: i64_max_def seconds_def NANOS_def)
  have over: "MAX_UTC < uq_now s + seconds (int n)"
    using assms(3,6) by (simp add: MAX_UTC_def seconds_def NANOS_def)
  have "\<exists>t. back_off_host E (Some v) s = (Inl Panicked, t)
     \<and> uq_batches t = uq_batches s \<and> uq_host_backoff t = uq_host_backoff s"
    using assms(1,4,5) no_cap over
    by (simp add: back_off_host_def host_backoff_attempt_def io_def set_attempt_def next_delay_def
        parse_retry_after_def utc_now_def after_delay_def andthen_def gets_def modify_def ret_def err_def)
  then show ?thesis
    by (auto simp: record_outcome_def andthen_def)
qed

theorem huge_retry_after_panics_witness:
  "\<exists>t. record_outcome sample_up_env ''b1'' (Inr (RateLimited (Some (of_str ''9000000000000'')))) empty_upload
        = (Inl Panicked, t)"
proof -
  have "parse_u64 (trim (of_str ''9000000000000'')) = Some 9000000000000"
    by (simp add: parse_u64_def trim_def of_str_def is_whitespace_def is_ascii_digit_def u64_max_def)
  then show ?thesis
    using huge_retry_after_panics [of "of_str ''9000000000000''" 9000000000000 empty_upload sample_up_env "''b1''"]
    by (auto simp: empty_upload_def)
qed

lemma map_batch_ok:
  assumes "row_of s b = Some r" and "\<And>r. ur_batch_id (f r) = ur_batch_id r" and "uq_io s = []"
  shows "\<exists>t. map_batch b f s = (Inr (), t) \<and> row_of t b = Some (f r) \<and> uq_io t = []"
proof -
  have "b \<in> set (batch_ids s)" and "ur_batch_id r = b"
    using row_of_in [OF assms(1)] by (auto simp: batch_ids_def)
  then show ?thesis
    using assms by (simp add: map_batch_def row_of_def find_on_row on_row_def [symmetric])
qed

lemma mark_rejected_ok:
  assumes "row_of s b = Some r" and "uq_io s = []"
  shows "\<exists>t. mark_rejected b c s = (Inr (), t) \<and> row_of t b = Some (rejected_verdict c r) \<and> uq_io t = []"
  using map_batch_ok [OF assms(1), of "rejected_verdict c"] assms(2)
  by (simp add: mark_rejected_def io_def andthen_def rejected_verdict_def [abs_def])

lemma mark_failed_ok:
  assumes "row_of s b = Some r" and "uq_io s = []"
  shows "\<exists>t. mark_failed b n c s = (Inr (), t) \<and> row_of t b = Some (retry_verdict Failed (timestamp n) c r)
     \<and> uq_io t = []"
  using map_batch_ok [OF assms(1), of "retry_verdict Failed (timestamp n) c"] assms(2)
  by (simp add: mark_failed_def update_batch_retry_state_def UPLOAD_BATCH_ATTEMPT_CEILING_def io_def
      andthen_def retry_verdict_def [abs_def])

text \<open>
  Overlapping uploads can revive a rejected batch. "Send all now" may post a batch whose
  first upload is still in flight. If the first call is told the batch was rejected for
  privacy and the second then loses its authentication, the row goes from rejected back to
  failed and is resumable again, although a rejection is meant to be terminal.
\<close>

theorem overlapping_uploads_revive_rejected:
  assumes "row_of s b = Some r" and "ur_attempt_count r < 287" and "uq_io s = []"
  shows "\<exists>t r'. andthen (record_outcome E b (Inr (RawFieldRejected m)))
        (\<lambda>_. record_outcome E b (Inl AuthenticationRequired)) s = (Inr (), t)
     \<and> row_of t b = Some r' \<and> ur_status r' = Failed"
proof -
  obtain t where t: "mark_rejected b ''raw_field_rejected'' s = (Inr (), t)"
    "row_of t b = Some (rejected_verdict ''raw_field_rejected'' r)" "uq_io t = []"
    using mark_rejected_ok [OF assms(1,3)] by blast
  let ?t = "t\<lparr>uq_alerts := uq_alerts t @ [privacy_message]\<rparr>"
  obtain now u where u: "utc_now ?t = (Inr now, u)" "uq_batches u = uq_batches t" "uq_io u = []"
    using t(3) by (cases "uq_clock t") (auto simp: utc_now_def)
  then have "row_of u b = Some (rejected_verdict ''raw_field_rejected'' r)"
    using t(2) by (simp add: row_of_def)
  from mark_failed_ok [OF this u(3)] show ?thesis
    using t(1) u(1) assms(2)
    by (fastforce simp: record_outcome_def andthen_def modify_def retry_verdict_def rejected_verdict_def)
qed

theorem overlapping_uploads_revive_rejected_witness:
  "\<exists>t r'. andthen (record_outcome sample_up_env ''b1'' (Inr (RawFieldRejected ''x'')))
        (\<lambda>_. record_outcome sample_up_env ''b1'' (Inl AuthenticationRequired)) rejected_upload = (Inr (), t)
     \<and> row_of t ''b1'' = Some r' \<and> ur_status r' = Failed"
  by (rule overlapping_uploads_revive_rejected [where r = "hd (uq_batches rejected_upload)"])
    (simp_all add: rejected_upload_def empty_upload_def row_of_def)

end
