(* ===== verification/Upload_Interleaving.thy ===== *)
theory Upload_Interleaving
  imports Upload_Properties
begin

text \<open>
  Overlapping uploads. The tables of the queue change by the writes of the repository only, so a
  fact that every write keeps holds however the writes of concurrent tasks follow each other.
  \<open>by_writes\<close> relates two states when such a sequence of writes leads from the tables of the one to
  those of the other; every task is made of them.
\<close>

section \<open>Tasks are made of writes\<close>

definition tables :: "upload \<Rightarrow> upload_row list \<times> (string \<times> payload_event) list" where
  "tables s = (uq_batches s, uq_events s)"

definition by_writes :: "upload \<Rightarrow> upload \<Rightarrow> bool" where
  "by_writes s t \<longleftrightarrow> (\<exists>ws. tables t = tables (fold exec_write ws s))"

lemma tables_ids:
  "tables s = tables t \<Longrightarrow> batch_ids s = batch_ids t" "tables s = tables t \<Longrightarrow> event_ids s = event_ids t"
  by (simp_all add: tables_def batch_ids_def event_ids_def)

lemma add_events_tables:
  assumes "tables s = tables t"
  shows "fst (add_events b es s) = fst (add_events b es t)
    \<and> tables (snd (add_events b es s)) = tables (snd (add_events b es t))"
  using assms
proof (induction es arbitrary: s t)
  case (Cons e es)
  have "event_check s b e = event_check t b e"
    using tables_ids [OF Cons.prems] by (simp add: event_check_def)
  then show ?case
    using Cons.prems Cons.IH [of "s\<lparr>uq_events := uq_events s @ [(b, stored_event e)]\<rparr>"
        "t\<lparr>uq_events := uq_events t @ [(b, stored_event e)]\<rparr>"]
    by (simp add: add_event_to_batch_def op_defs tables_def)
qed (simp add: op_defs)

lemma insert_tables:
  assumes "tables s = tables t"
  shows "tables (snd (transaction (andthen (insert_batch b now) (\<lambda>_. add_events b es)) s))
    = tables (snd (transaction (andthen (insert_batch b now) (\<lambda>_. add_events b es)) t))"
proof -
  let ?row = "\<lambda>u. u\<lparr>uq_batches := uq_batches u @ [fresh_row b (timestamp now)]\<rparr>"
  have "tables (?row s) = tables (?row t)" using assms by (simp add: tables_def)
  note rows = add_events_tables [OF this, of b es]
  show ?thesis
    using assms rows tables_ids [OF assms]
    by (cases "add_events b es (?row s)"; cases "add_events b es (?row t)")
      (auto simp: transaction_def andthen_def insert_batch_def fresh_row_def split: sum.splits)
qed

lemmas write_defs = tables_def succeeding_def batch_ids_def event_ids_def mark_sent_def mark_failed_def
  mark_pending_retry_def update_batch_retry_state_def mark_rejected_def discard_batch_def sweep_def
  update_event_classification_def map_batch_def drop_batches_def io_def utc_now_def andthen_def Let_def

lemma write_insert:
  "exec_write (QInsert b es now) s = snd (transaction (andthen (insert_batch b now) (\<lambda>_. add_events b es))
     (s\<lparr>uq_io := [], uq_clock := [], uq_now := now\<rparr>))"
  by (simp add: insert_batch_with_events_def succeeding_def io_def utc_now_def andthen_def)

lemma write_tables:
  assumes "tables s = tables t"
  shows "tables (exec_write w s) = tables (exec_write w t)"
proof (cases w)
  case (QInsert b es now)
  have "tables (s\<lparr>uq_io := [], uq_clock := [], uq_now := now\<rparr>) = tables (t\<lparr>uq_io := [], uq_clock := [], uq_now := now\<rparr>)"
    using assms by (simp add: tables_def)
  then show ?thesis unfolding QInsert write_insert by (rule insert_tables)
qed (use assms in \<open>simp_all add: write_defs\<close>)

lemma writes_tables: "tables s = tables t \<Longrightarrow> tables (fold exec_write ws s) = tables (fold exec_write ws t)"
proof (induction ws arbitrary: s t)
  case (Cons w ws)
  from Cons.IH [OF write_tables [OF Cons.prems]] show ?case by simp
qed simp

interpretation by_writes: evolution by_writes
proof
  show "by_writes s s" for s unfolding by_writes_def by (rule exI [of _ "[]"]) simp
next
  fix s t u
  assume "by_writes s t" "by_writes t u"
  then obtain ws vs where "tables t = tables (fold exec_write ws s)" "tables u = tables (fold exec_write vs t)"
    unfolding by_writes_def by blast
  then have "tables u = tables (fold exec_write (ws @ vs) s)" using writes_tables [of t] by simp
  then show "by_writes s u" unfolding by_writes_def by blast
qed

lemma unwritten: "tables t = tables s \<Longrightarrow> by_writes s t"
  unfolding by_writes_def by (rule exI [of _ "[]"]) simp

lemma written: "tables t = tables (exec_write w s) \<Longrightarrow> by_writes s t"
  unfolding by_writes_def by (rule exI [of _ "[w]"]) simp

lemma quiet_unwritten: "obeys quiet m \<Longrightarrow> obeys by_writes m"
  by (auto simp: obeys_def quiet_def tables_def intro!: unwritten)

lemmas unwritten_reads = quiet_io [THEN quiet_unwritten] quiet_utc_now [THEN quiet_unwritten]
  quiet_back_off_host [THEN quiet_unwritten] quiet_held_back [THEN quiet_unwritten]
  quiet_reset_attempts [THEN quiet_unwritten] quiet_clear_host_backoff [THEN quiet_unwritten]
  quiet_resumable [THEN quiet_unwritten] quiet_unbatched [THEN quiet_unwritten]
  quiet_diagnostics [THEN quiet_unwritten]

lemma marks_written:
  "obeys by_writes (mark_sent b)" "obeys by_writes (mark_failed b t c)"
  "obeys by_writes (mark_pending_retry b t c)" "obeys by_writes (mark_rejected b c)"
proof -
  have "by_writes s (snd (map_batch b (\<lambda>r. r\<lparr>ur_status := Sent, ur_sent_at := Some (timestamp now),
      ur_last_error_code := None\<rparr>) s))" for s now
    by (rule written [of _ "QSent b now"]) (simp add: write_defs)
  then show "obeys by_writes (mark_sent b)"
    unfolding mark_sent_def by (intro by_writes.andthen unwritten_reads) (rule obeysI)
  have "by_writes s (snd (map_batch b (\<lambda>r. r\<lparr>ur_status := Rejected, ur_last_error_code := Some c\<rparr>) s))" for s
    by (rule written [of _ "QRejected b c"]) (simp add: write_defs)
  then show "obeys by_writes (mark_rejected b c)"
    unfolding mark_rejected_def by (intro by_writes.andthen unwritten_reads) (rule obeysI)
  let ?retry = "\<lambda>st t r. r\<lparr>ur_status := (if UPLOAD_BATCH_ATTEMPT_CEILING \<le> ur_attempt_count r + 1 then Abandoned else st),
       ur_attempt_count := ur_attempt_count r + 1, ur_next_attempt_at := t, ur_last_error_code := Some c\<rparr>"
  have "by_writes s (snd (map_batch b (?retry Failed (timestamp t)) s))" for s
    by (rule written [of _ "QFailed b t c"]) (simp add: write_defs)
  then show "obeys by_writes (mark_failed b t c)"
    unfolding mark_failed_def update_batch_retry_state_def
    by (intro by_writes.andthen unwritten_reads) (rule obeysI)
  have "by_writes s (snd (map_batch b (?retry Pending (timestamp t)) s))" for s
    by (rule written [of _ "QPendingRetry b t c"]) (simp add: write_defs)
  then show "obeys by_writes (mark_pending_retry b t c)"
    unfolding mark_pending_retry_def update_batch_retry_state_def
    by (intro by_writes.andthen unwritten_reads) (rule obeysI)
qed

lemma statements_written:
  "obeys by_writes (discard_batch b)" "obeys by_writes (sweep visit p n)"
  "obeys by_writes (update_event_classification i l k)" "obeys by_writes (insert_batch_with_events b es)"
proof -
  have "by_writes s (snd ((if b \<in> set (batch_ids s) then (Inr (), drop_batches (\<lambda>r. ur_batch_id r = b) s)
      else (Inl NotFound, s)) :: (upload_error + unit) \<times> upload))" for s
    by (rule written [of _ "QDiscard b"]) (simp add: write_defs)
  then show "obeys by_writes (discard_batch b)"
    unfolding discard_batch_def by (intro by_writes.andthen unwritten_reads) (rule obeysI)
  have "by_writes s (drop_batches (\<lambda>r. r \<in> set (take n (filter p (visit (uq_batches s))))) s)" for s
    by (rule written [of _ "QSweep visit p n"]) (simp add: write_defs)
  then show "obeys by_writes (sweep visit p n)"
    unfolding sweep_def Let_def by (intro by_writes.andthen unwritten_reads) (rule obeysI, simp)
  show "obeys by_writes (update_event_classification i l k)"
    unfolding update_event_classification_def
    by (rule by_writes.andthen [OF unwritten_reads(1)], rule obeysI, rule written [of _ "QReclassify i l k"])
      (simp add: write_defs)
  have same: "tables s = tables (s\<lparr>uq_io := [], uq_clock := [], uq_now := now\<rparr>)" for s now by (simp add: tables_def)
  have "by_writes s (snd (transaction (andthen (insert_batch b now) (\<lambda>_. add_events b es)) s))" for s now
    by (rule written [of _ "QInsert b es now"]) (unfold write_insert, rule insert_tables, rule same)
  then show "obeys by_writes (insert_batch_with_events b es)"
    unfolding insert_batch_with_events_def
    by (intro by_writes.andthen unwritten_reads) (rule obeysI)
qed

lemma by_writes_pure: "(\<And>s. tables (f s) = tables s) \<Longrightarrow> obeys by_writes (modify f)"
  by (auto simp: obeys_def op_defs intro: unwritten)

lemma upload_written: "obeys by_writes (upload_batch_with_backoff E p respect)"
proof -
  have "obeys by_writes (http_post p)"
    by (rule obeysI, rule unwritten) (simp add: http_post_def Let_def tables_def split: list.split)
  then have "obeys by_writes (post p)" unfolding post_def by (intro by_writes.rules)
  moreover have "obeys by_writes (record_outcome E b r)" for b r
    unfolding record_outcome_def schedule_network_retry_def
    by (cases r) (auto split: batch_upload_error.split upload_outcome.split
        intro!: by_writes.andthen marks_written unwritten_reads
          quiet_reset_attempts quiet_clear_host_backoff by_writes_pure simp: tables_def)
  ultimately show ?thesis
    unfolding upload_batch_with_backoff_def
    by (intro by_writes.rules unwritten_reads marks_written)
qed

lemma drained_by_writes: "obeys by_writes (drain E respect v c bs)"
  by (induction bs)
    (auto simp: discard_disowned_def intro!: by_writes.rules statements_written upload_written)

lemma persist_written: "obeys by_writes (or_requeue p (persist_batch p))"
  unfolding or_requeue_def persist_batch_def
  by (intro by_writes.rules by_writes.attempt statements_written unwritten) (simp add: tables_def)

lemma assemble_written: "obeys by_writes (assemble f)"
  by (rule obeysI, rule unwritten) (simp add: assemble_def tables_def split: prod.split)

lemma drains_written: "obeys by_writes (flush_all_pending E v c)" "obeys by_writes (resume_pending E v c)"
  unfolding flush_all_pending_def resume_pending_def pending_batches_def
  by (intro by_writes.rules unwritten_reads drained_by_writes)+

lemma submit_written: "obeys by_writes (submit E p)" "obeys by_writes (submit_with_inner_released E p)"
  unfolding submit_def submit_with_inner_released_def upload_batch_def
  by (intro by_writes.andthen persist_written upload_written)+

lemma reingest_written: "obeys by_writes (reingest E now es)"
  by (induction es) (auto intro!: by_writes.rules assemble_written submit_written)

lemma task_written: "by_writes s (exec_task E t s)"
proof -
  have "by_writes s (exec_upload E c s)" for c
  proof -
    have "obeys by_writes (raw_retention visit ttl n)" for visit ttl n
      unfolding raw_retention_def delete_expired_raw_def
      by (intro by_writes.andthen unwritten_reads)
        (rule obeysI, rule unwritten, simp add: tables_def Let_def)
    then show ?thesis
      by (cases c)
        (auto simp: ingest_def flush_due_def flush_sleep_def flush_shutdown_def flush_with_def flush_now_def
          intro!: obeysD [where R = by_writes] by_writes.rules assemble_written submit_written persist_written
            drains_written statements_written unwritten_reads)
  qed
  moreover have "obeys by_writes (recover_unbatched E limit now)" for limit now
    unfolding recover_unbatched_def
    by (intro by_writes.rules unwritten_reads reingest_written)
  moreover have "obeys by_writes (upload_retention visit a c n)" for visit a c n
    unfolding upload_retention_def delete_sent_batch_def delete_rejected_batch_def delete_stale_queued_batch_def
    by (intro by_writes.rules unwritten_reads statements_written)
  ultimately show ?thesis by (cases t) (simp_all add: obeysD)
qed

section \<open>What every write keeps\<close>

definition row_sound :: "upload_row \<Rightarrow> bool" where
  "row_sound r \<longleftrightarrow> (ur_status r \<in> {Pending, Failed} \<longrightarrow> ur_attempt_count r < 288)
     \<and> (ur_status r = Sent \<longrightarrow> ur_sent_at r \<noteq> None)"

definition queue_sound :: "upload \<Rightarrow> bool" where
  "queue_sound s \<longleftrightarrow> distinct (batch_ids s) \<and> distinct (event_ids s)
     \<and> fst ` set (uq_events s) \<subseteq> set (batch_ids s) \<and> list_all row_sound (uq_batches s)"

text \<open>The statement functions on the tables, without the scripts.\<close>

lemma sound_tables: "tables s = tables t \<Longrightarrow> queue_sound s = queue_sound t"
  using tables_ids [of s t] by (simp add: queue_sound_def tables_def)

lemma sound_by:
  assumes "queue_sound s" and "batch_ids t = batch_ids s" and "event_ids t = event_ids s"
    and "fst ` set (uq_events t) = fst ` set (uq_events s)" and "list_all row_sound (uq_batches t)"
  shows "queue_sound t"
  using assms by (simp add: queue_sound_def)

lemma sound_map_batch:
  assumes "queue_sound s" and "\<And>r. ur_batch_id (f r) = ur_batch_id r" and "\<And>r. row_sound r \<Longrightarrow> row_sound (f r)"
  shows "queue_sound (snd (map_batch b f s))"
proof -
  let ?rows = "map (\<lambda>r. if ur_batch_id r = b then f r else r) (uq_batches s)"
  have "queue_sound (s\<lparr>uq_batches := ?rows\<rparr>)"
  proof (rule sound_by [OF assms(1)])
    show "batch_ids (s\<lparr>uq_batches := ?rows\<rparr>) = batch_ids s" using assms(2) by (simp add: batch_ids_def)
    show "list_all row_sound (uq_batches (s\<lparr>uq_batches := ?rows\<rparr>))"
      using assms(1,3) by (auto simp: queue_sound_def list_all_iff)
  qed (simp_all add: event_ids_def)
  with assms(1) show ?thesis by (simp add: map_batch_def)
qed

lemma sound_drop:
  assumes "queue_sound s" shows "queue_sound (drop_batches gone s)"
  using assms drop_orphans [of s gone]
  by (auto simp: queue_sound_def drop_batches_def batch_ids_def event_ids_def Let_def list_all_iff
      distinct_map_filter)

lemma sound_insert:
  assumes "queue_sound s"
  shows "queue_sound (snd (transaction (andthen (insert_batch b now) (\<lambda>_. add_events b es)) s))"
proof (cases "andthen (insert_batch b now) (\<lambda>_. add_events b es) s")
  case (Pair x t)
  show ?thesis
  proof (cases x)
    case (Inl e)
    then show ?thesis using assms Pair by (simp add: transaction_def)
  next
    case (Inr y)
    with Pair obtain u where u: "insert_batch b now s = (Inr (), u)" and es: "add_events b es u = (Inr (), t)"
      by (auto elim!: andthen_InrE)
    have u': "u = s\<lparr>uq_batches := uq_batches s @ [fresh_row b (timestamp now)]\<rparr>" "b \<notin> set (batch_ids s)"
      using u by (auto simp: insert_batch_def fresh_row_def split: if_splits)
    have "queue_sound t"
      using assms add_events_cases [OF es] u'
      by (auto simp: queue_sound_def batch_ids_def event_ids_def fresh_row_def row_sound_def o_def case_prod_beta)
    then show ?thesis using Pair Inr by (simp add: transaction_def)
  qed
qed

lemma sound_reclassify:
  assumes "queue_sound s"
  shows "queue_sound (s\<lparr>uq_events := map (\<lambda>(b, e). (b, if pe_event_id e = i
       then e\<lparr>pe_label := l, pe_category := c, pe_classification_tier := ''exact_match''\<rparr> else e)) (uq_events s)\<rparr>)"
proof -
  let ?g = "\<lambda>(b :: string, e). (b, if pe_event_id e = i
       then e\<lparr>pe_label := l, pe_category := c, pe_classification_tier := ''exact_match''\<rparr> else e)"
  have "fst ` set (map ?g es) = fst ` set es"
    "map (\<lambda>(b, e). pe_event_id e) (map ?g es) = map (\<lambda>(b, e). pe_event_id e) es" for es
    by (induction es) auto
  then show ?thesis using assms
    by (intro sound_by [OF assms]) (simp_all add: batch_ids_def event_ids_def queue_sound_def del: map_map set_map)
qed

lemma sound_succeeding: "queue_sound s \<Longrightarrow> queue_sound (succeeding now s)"
  using sound_tables [of "succeeding now s" s] by (simp add: tables_def succeeding_def)

lemma sound_read: "queue_sound s \<Longrightarrow> queue_sound (s\<lparr>uq_io := [], uq_clock := [], uq_now := now\<rparr>)"
  using sound_tables [of "s\<lparr>uq_io := [], uq_clock := [], uq_now := now\<rparr>" s] by (simp add: tables_def)

lemma write_sound:
  assumes "queue_sound s" shows "queue_sound (exec_write w s)"
proof (cases w)
  case (QInsert b es now)
  show ?thesis unfolding QInsert write_insert by (rule sound_insert [OF sound_read [OF assms]])
next
  case (QReclassify i l c)
  then show ?thesis using sound_reclassify [OF sound_succeeding [OF assms, of 0], where i = i and l = l and c = c] sound_succeeding [OF assms, of 0]
    by (simp add: update_event_classification_def io_def andthen_def succeeding_def)
qed (use sound_succeeding [OF assms] sound_read [OF assms] in \<open>auto simp: mark_sent_def mark_failed_def mark_pending_retry_def
    update_batch_retry_state_def mark_rejected_def discard_batch_def sweep_def io_def utc_now_def andthen_def
    succeeding_def Let_def UPLOAD_BATCH_ATTEMPT_CEILING_def row_sound_def intro!: sound_map_batch sound_drop\<close>)

text \<open>
  C17: The queue stays consistent under every interleaving. However the writes of overlapping
  uploads, flushes, corrections, recoveries and sweeps follow each other from the empty queue,
  batch and event identifiers are unique, every queued event belongs to a stored batch, a batch
  waiting for a retry has used fewer than 288 attempts, and a sent batch has a send time. And
  these are all the writes there are: whatever any run of tasks does to the two tables is done by
  a sequence of them.
\<close>

theorem queue_stays_consistent:
  "queue_sound (fold exec_write ws empty_upload)
   \<and> (\<exists>ws. (uq_batches (fold (exec_task E) ts s), uq_events (fold (exec_task E) ts s))
        = (uq_batches (fold exec_write ws s), uq_events (fold exec_write ws s)))"
proof
  have "queue_sound (fold exec_write ws s)" if "queue_sound s" for s
    using that by (induction ws arbitrary: s) (simp_all add: write_sound del: exec_write.simps)
  moreover have "queue_sound empty_upload"
    by (simp add: queue_sound_def empty_upload_def batch_ids_def event_ids_def)
  ultimately show "queue_sound (fold exec_write ws empty_upload)" by blast
  have "by_writes s (fold (exec_task E) ts s)" by (rule by_writes.run) (rule task_written)
  then show "\<exists>ws. (uq_batches (fold (exec_task E) ts s), uq_events (fold (exec_task E) ts s))
        = (uq_batches (fold exec_write ws s), uq_events (fold exec_write ws s))"
    by (simp add: by_writes_def tables_def)
qed

end
