(* ===== verification/Focus.thy ===== *)
theory Focus
  imports Prelude "HOL-Library.List_Lexorder" "HOL-Library.Char_ord"
begin

text \<open>
  Focus/DND evidence and quiet hours (\<^verbatim>\<open>focus/mod.rs\<close> and the \<^verbatim>\<open>FocusRepo\<close> statements of
  \<^verbatim>\<open>persistence/sqlite.rs\<close>): coarse transitions are stored, a fixed rule over late nights may
  trigger one quiet-hours offer, and an accepted offer sets the window that delays
  notifications.

  The evidence table is a list in \<^verbatim>\<open>rowid\<close> order and the three singletons are options.
  Stored instants are whole seconds. The calendar is a library's: \<open>fd\<close> prints the local day
  with a given number (days since the epoch, in local time) as \<^verbatim>\<open>YYYY-MM-DD\<close>, and the
  schema refuses a print that is not ten characters long. Failures of the database itself
  are not modelled.
\<close>

datatype focus_error = FocusSqlite

datatype quiet_hours_offer_response = OfferAccepted | OfferDeclined

record focus_transition =
  ft_active :: bool
  ft_changed_at_bucket :: int
  ft_local_hour :: int
  ft_local_date :: string
  ft_recorded_at :: int

record offer_state =
  os_rule_version :: nat
  os_triggered_at :: "instant option"
  os_offered_at :: "instant option"
  os_response :: "quiet_hours_offer_response option"
  os_responded_at :: "instant option"

record velvt_quiet_hours =
  qh_start_local_minutes :: int
  qh_end_local_minutes :: int
  qh_rule_version :: nat
  qh_configured_at :: instant

record focus =
  fo_evidence :: "focus_transition list"
  fo_utc_offset :: "int option"
  fo_offer :: "offer_state option"
  fo_quiet_hours :: "velvt_quiet_hours option"

record quiet_hours_offer =
  qo_rule_version :: nat
  qo_late_night_days :: nat
  qo_start_local_minutes :: int
  qo_end_local_minutes :: int
  qo_body :: ustr

type_synonym 'a focus_op = "(focus, focus_error, 'a) op"

section \<open>Policy constants\<close>

definition DND_PATTERN_RULE_VERSION :: nat where
  "DND_PATTERN_RULE_VERSION = 1"

definition FOCUS_EVIDENCE_BUCKET_SECONDS :: int where
  "FOCUS_EVIDENCE_BUCKET_SECONDS = 300"

definition FOCUS_EVIDENCE_RETENTION_DAYS :: int where
  "FOCUS_EVIDENCE_RETENTION_DAYS = 14"

definition LATE_NIGHT_HOURS :: "int list" where
  "LATE_NIGHT_HOURS = [22, 23, 0, 1]"

definition LATE_NIGHT_MIN_DISTINCT_DAYS :: nat where
  "LATE_NIGHT_MIN_DISTINCT_DAYS = 3"

definition LATE_NIGHT_LOOKBACK_DAYS :: nat where
  "LATE_NIGHT_LOOKBACK_DAYS = 7"

definition OFFER_MORNING_START_HOUR :: int where
  "OFFER_MORNING_START_HOUR = 6"

definition OFFER_MORNING_END_HOUR :: int where
  "OFFER_MORNING_END_HOUR = 12"

definition QUIET_HOURS_DECLINE_REASK_DAYS :: int where
  "QUIET_HOURS_DECLINE_REASK_DAYS = 30"

definition QUIET_START_LOCAL_MINUTES :: int where
  "QUIET_START_LOCAL_MINUTES = 22 * 60"

definition QUIET_END_LOCAL_MINUTES :: int where
  "QUIET_END_LOCAL_MINUTES = 7 * 60"

definition MINUTES_PER_DAY :: int where
  "MINUTES_PER_DAY = 24 * 60"

lemmas focus_policy_defs = DND_PATTERN_RULE_VERSION_def FOCUS_EVIDENCE_BUCKET_SECONDS_def
  FOCUS_EVIDENCE_RETENTION_DAYS_def LATE_NIGHT_HOURS_def LATE_NIGHT_MIN_DISTINCT_DAYS_def
  LATE_NIGHT_LOOKBACK_DAYS_def OFFER_MORNING_START_HOUR_def OFFER_MORNING_END_HOUR_def
  QUIET_HOURS_DECLINE_REASK_DAYS_def QUIET_START_LOCAL_MINUTES_def QUIET_END_LOCAL_MINUTES_def
  MINUTES_PER_DAY_def

definition days :: "int \<Rightarrow> int" where
  "days n = seconds (n * 86400)"

section \<open>Local time\<close>

definition clamp_offset :: "int \<Rightarrow> int" where
  "clamp_offset off = max (- 64800) (min 64800 off)"

text \<open>The local clock as whole seconds; an offset of a day or more is taken as none.\<close>

definition to_local :: "instant \<Rightarrow> int \<Rightarrow> int" where
  "to_local t off = timestamp t + (if - 86400 < off \<and> off < 86400 then off else 0)"

definition local_hour :: "int \<Rightarrow> int" where
  "local_hour l = l mod 86400 div 3600"

definition local_minutes :: "int \<Rightarrow> int" where
  "local_minutes l = l mod 86400 div 3600 * 60 + l mod 3600 div 60"

definition format_local_date :: "(int \<Rightarrow> string) \<Rightarrow> int \<Rightarrow> string" where
  "format_local_date fd l = fd (l div 86400)"

definition floor_to_bucket :: "instant \<Rightarrow> instant" where
  "floor_to_bucket t = from_timestamp
     (timestamp t div FOCUS_EVIDENCE_BUCKET_SECONDS * FOCUS_EVIDENCE_BUCKET_SECONDS)"

definition recent_local_dates :: "(int \<Rightarrow> string) \<Rightarrow> instant \<Rightarrow> int \<Rightarrow> nat \<Rightarrow> string list" where
  "recent_local_dates fd now off n =
     map (\<lambda>back. format_local_date fd (to_local (now - days (int back)) off)) [0..<n]"

definition quiet_hours_offer_body :: "nat \<Rightarrow> ustr" where
  "quiet_hours_offer_body n = of_str (''Do Not Disturb was on during ''
     @ (if n = 1 then ''1 recent late night'' else nat_str n @ '' recent late nights'')
     @ ''. Velvt can hold its own notifications from 22:00 to 07:00 '') @ [8212]
     @ of_str '' one tap turns that on, and declining changes nothing.''"

section \<open>The tables\<close>

definition latest_row :: "focus_transition list \<Rightarrow> focus_transition option" where
  "latest_row rows = (case sort_key ft_changed_at_bucket rows of [] \<Rightarrow> None
     | r # rs \<Rightarrow> Some (last (r # rs)))"

definition record_focus_transition :: "focus_transition \<Rightarrow> bool focus_op" where
  "record_focus_transition r = (\<lambda>s.
     if map_option ft_active (latest_row (fo_evidence s)) = Some (ft_active r) then (Inr False, s)
     else if length (ft_local_date r) = 10 \<and> 0 \<le> ft_local_hour r \<and> ft_local_hour r \<le> 23
     then (Inr True, s\<lparr>fo_evidence := fo_evidence s @ [r]\<rparr>)
     else (Inl FocusSqlite, s))"

definition latest_focus_transition :: "focus_transition option focus_op" where
  "latest_focus_transition = gets (\<lambda>s. latest_row (fo_evidence s))"

definition focus_state_at_bucket :: "instant \<Rightarrow> bool option focus_op" where
  "focus_state_at_bucket b = gets (\<lambda>s. map_option ft_active
     (latest_row (filter (\<lambda>r. ft_changed_at_bucket r \<le> timestamp b) (fo_evidence s))))"

definition focus_active_dates_in_hours :: "int list \<Rightarrow> string list focus_op" where
  "focus_active_dates_in_hours hours = gets (\<lambda>s. if hours = [] then [] else
     rev (sort (remdups (map ft_local_date
       (filter (\<lambda>r. ft_active r \<and> ft_local_hour r \<in> set hours) (fo_evidence s))))))"

definition prune_focus_evidence :: "instant \<Rightarrow> unit focus_op" where
  "prune_focus_evidence cutoff = modify (\<lambda>s. s\<lparr>fo_evidence :=
     filter (\<lambda>r. timestamp cutoff \<le> ft_changed_at_bucket r) (fo_evidence s)\<rparr>)"

definition set_utc_offset :: "int \<Rightarrow> unit focus_op" where
  "set_utc_offset off = (\<lambda>s. if - 64800 \<le> off \<and> off \<le> 64800
     then (Inr (), s\<lparr>fo_utc_offset := Some off\<rparr>) else (Inl FocusSqlite, s))"

definition record_quiet_hours_trigger :: "nat \<Rightarrow> instant \<Rightarrow> unit focus_op" where
  "record_quiet_hours_trigger v now = modify (\<lambda>s. s\<lparr>fo_offer := Some
     \<lparr>os_rule_version = v, os_triggered_at = Some (stored now), os_offered_at = None,
      os_response = None, os_responded_at = None\<rparr>\<rparr>)"

definition record_quiet_hours_offered :: "instant \<Rightarrow> unit focus_op" where
  "record_quiet_hours_offered now = modify (\<lambda>s. s\<lparr>fo_offer := map_option (\<lambda>st.
     st\<lparr>os_offered_at := (case os_offered_at st of None \<Rightarrow> Some (stored now) | Some t \<Rightarrow> Some t)\<rparr>)
       (fo_offer s)\<rparr>)"

definition record_quiet_hours_response :: "quiet_hours_offer_response \<Rightarrow> instant \<Rightarrow> unit focus_op" where
  "record_quiet_hours_response r now = modify (\<lambda>s. s\<lparr>fo_offer := map_option (\<lambda>st.
     if os_response st = None then st\<lparr>os_response := Some r, os_responded_at := Some (stored now)\<rparr>
     else st) (fo_offer s)\<rparr>)"

definition set_quiet_hours :: "velvt_quiet_hours \<Rightarrow> unit focus_op" where
  "set_quiet_hours q = (\<lambda>s. if 0 \<le> qh_start_local_minutes q \<and> qh_start_local_minutes q \<le> 1439
       \<and> 0 \<le> qh_end_local_minutes q \<and> qh_end_local_minutes q \<le> 1439 \<and> 1 \<le> qh_rule_version q
     then (Inr (), s\<lparr>fo_quiet_hours := Some (q\<lparr>qh_configured_at := stored (qh_configured_at q)\<rparr>)\<rparr>)
     else (Inl FocusSqlite, s))"

definition clear_focus_evidence :: "unit focus_op" where
  "clear_focus_evidence = modify (\<lambda>s. s\<lparr>fo_evidence := [], fo_utc_offset := None, fo_offer := None\<rparr>)"

section \<open>The manager\<close>

definition late_nights :: "(int \<Rightarrow> string) \<Rightarrow> instant \<Rightarrow> int \<Rightarrow> nat focus_op" where
  "late_nights fd now off =
     andthen (focus_active_dates_in_hours LATE_NIGHT_HOURS) (\<lambda>dates.
     ret (length (filter (\<lambda>d. d \<in> set (recent_local_dates fd now off LATE_NIGHT_LOOKBACK_DAYS)) dates)))"

text \<open>Whether the offer already made, or its answer, rules out a new trigger.\<close>

definition offer_blocks :: "offer_state option \<Rightarrow> instant \<Rightarrow> bool" where
  "offer_blocks x now =
     (case x of None \<Rightarrow> False
      | Some st \<Rightarrow> (case os_response st of
          Some OfferAccepted \<Rightarrow> True
        | Some OfferDeclined \<Rightarrow> (case os_responded_at st of None \<Rightarrow> False
            | Some t \<Rightarrow> now < t + days QUIET_HOURS_DECLINE_REASK_DAYS)
        | None \<Rightarrow> os_triggered_at st \<noteq> None))"

definition evaluate_pattern_rule :: "(int \<Rightarrow> string) \<Rightarrow> instant \<Rightarrow> unit focus_op" where
  "evaluate_pattern_rule fd now =
     andthen (gets fo_quiet_hours) (\<lambda>q. if q \<noteq> None then ret ()
     else andthen (gets fo_offer) (\<lambda>st. if offer_blocks st now then ret ()
     else andthen (gets fo_utc_offset) (\<lambda>x. case x of None \<Rightarrow> ret ()
       | Some off \<Rightarrow> andthen (late_nights fd now off) (\<lambda>n.
           if LATE_NIGHT_MIN_DISTINCT_DAYS \<le> n
           then record_quiet_hours_trigger DND_PATTERN_RULE_VERSION now else ret ()))))"

definition record_transition ::
  "(int \<Rightarrow> string) \<Rightarrow> bool \<Rightarrow> instant \<Rightarrow> int \<Rightarrow> instant \<Rightarrow> unit focus_op" where
  "record_transition fd active occurred utc_offset now =
     (let off = clamp_offset utc_offset; lt = to_local occurred off in
      andthen (set_utc_offset off) (\<lambda>_.
      andthen (prune_focus_evidence (now - days FOCUS_EVIDENCE_RETENTION_DAYS)) (\<lambda>_.
      andthen (record_focus_transition
         \<lparr>ft_active = active, ft_changed_at_bucket = timestamp (floor_to_bucket occurred),
          ft_local_hour = local_hour lt, ft_local_date = format_local_date fd lt,
          ft_recorded_at = timestamp now\<rparr>) (\<lambda>_.
      evaluate_pattern_rule fd now))))"

definition pending_morning_offer ::
  "(int \<Rightarrow> string) \<Rightarrow> instant \<Rightarrow> quiet_hours_offer option focus_op" where
  "pending_morning_offer fd now =
     andthen (gets fo_offer) (\<lambda>x. case x of None \<Rightarrow> ret None
     | Some st \<Rightarrow> if os_response st \<noteq> None then ret None
       else (case os_triggered_at st of None \<Rightarrow> ret None
       | Some triggered \<Rightarrow> andthen (gets fo_utc_offset) (\<lambda>x. case x of None \<Rightarrow> ret None
         | Some off \<Rightarrow>
             if \<not> (OFFER_MORNING_START_HOUR \<le> local_hour (to_local now off)
                    \<and> local_hour (to_local now off) < OFFER_MORNING_END_HOUR) then ret None
             else if now \<le> triggered then ret None
             else andthen (late_nights fd now off) (\<lambda>n.
               andthen (record_quiet_hours_offered now) (\<lambda>_.
               ret (Some \<lparr>qo_rule_version = os_rule_version st, qo_late_night_days = max n 1,
                 qo_start_local_minutes = QUIET_START_LOCAL_MINUTES,
                 qo_end_local_minutes = QUIET_END_LOCAL_MINUTES,
                 qo_body = quiet_hours_offer_body (max n 1)\<rparr>))))))"

definition respond_to_offer :: "bool \<Rightarrow> instant \<Rightarrow> unit focus_op" where
  "respond_to_offer accepted now =
     andthen (record_quiet_hours_response (if accepted then OfferAccepted else OfferDeclined) now) (\<lambda>_.
     if accepted then set_quiet_hours \<lparr>qh_start_local_minutes = QUIET_START_LOCAL_MINUTES,
          qh_end_local_minutes = QUIET_END_LOCAL_MINUTES,
          qh_rule_version = DND_PATTERN_RULE_VERSION, qh_configured_at = now\<rparr>
     else ret ())"

definition quiet_hours_remaining_minutes_at :: "focus \<Rightarrow> instant \<Rightarrow> int \<Rightarrow> int option" where
  "quiet_hours_remaining_minutes_at s now utc_offset =
     (case fo_quiet_hours s of None \<Rightarrow> None
      | Some q \<Rightarrow>
          let minutes = local_minutes (to_local now (clamp_offset utc_offset));
              begins = qh_start_local_minutes q; ends = qh_end_local_minutes q;
              inside = (if begins \<le> ends then begins \<le> minutes \<and> minutes < ends
                        else begins \<le> minutes \<or> minutes < ends)
          in if \<not> inside then None
             else Some (if minutes < ends then ends - minutes else MINUTES_PER_DAY - minutes + ends))"

definition quiet_hours_remaining_minutes :: "focus \<Rightarrow> instant \<Rightarrow> int option" where
  "quiet_hours_remaining_minutes s now =
     (case fo_utc_offset s of None \<Rightarrow> None
      | Some off \<Rightarrow> quiet_hours_remaining_minutes_at s now off)"

definition in_velvt_quiet_hours :: "focus \<Rightarrow> instant \<Rightarrow> bool" where
  "in_velvt_quiet_hours s now \<longleftrightarrow> quiet_hours_remaining_minutes s now \<noteq> None"

definition in_velvt_quiet_hours_at :: "focus \<Rightarrow> instant \<Rightarrow> int \<Rightarrow> bool" where
  "in_velvt_quiet_hours_at s now off \<longleftrightarrow> quiet_hours_remaining_minutes_at s now off \<noteq> None"

definition quiet_hours_end :: "focus \<Rightarrow> instant \<Rightarrow> instant option" where
  "quiet_hours_end s now =
     map_option (\<lambda>n. now + seconds (n * 60)) (quiet_hours_remaining_minutes s now)"

definition is_focus_active :: "focus \<Rightarrow> instant \<Rightarrow> bool" where
  "is_focus_active s t = (case fst (focus_state_at_bucket (floor_to_bucket t) s) of
     Inr (Some b) \<Rightarrow> b | _ \<Rightarrow> False)"

section \<open>Runs\<close>

datatype focus_command = FTransition bool instant int instant | FMorning instant
  | FRespond bool instant | FClear

fun exec_focus :: "(int \<Rightarrow> string) \<Rightarrow> focus_command \<Rightarrow> focus \<Rightarrow> focus" where
  "exec_focus fd (FTransition a t off now) s = snd (record_transition fd a t off now s)"
| "exec_focus fd (FMorning now) s = snd (pending_morning_offer fd now s)"
| "exec_focus fd (FRespond a now) s = snd (respond_to_offer a now s)"
| "exec_focus fd FClear s = snd (clear_focus_evidence s)"

definition empty_focus :: focus where
  "empty_focus = \<lparr>fo_evidence = [], fo_utc_offset = None, fo_offer = None, fo_quiet_hours = None\<rparr>"

end
