(* ===== verification/Focus_Properties.thy ===== *)
theory Focus_Properties
  imports Focus
begin

text \<open>
  What the Focus manager promises: the exact condition of the quiet-hours trigger, that a
  declined offer is not asked again within its interval, and that the reported end of quiet
  hours is where the window closes, to the minute.
\<close>

section \<open>The trigger\<close>

definition late_dates :: "focus \<Rightarrow> string set" where
  "late_dates s = ft_local_date ` {r \<in> set (fo_evidence s). ft_active r \<and> ft_local_hour r \<in> {22, 23, 0, 1}}"

definition week_of :: "(int \<Rightarrow> string) \<Rightarrow> instant \<Rightarrow> int \<Rightarrow> string set" where
  "week_of fd now off = (\<lambda>k. fd (to_local (now - days (int k)) off div 86400)) ` {..<7 :: nat}"

lemma late_nights_card:
  "late_nights fd now off s = (Inr (card (late_dates s \<inter> week_of fd now off)), s)"
proof -
  have "length (filter (\<lambda>d. d \<in> A) (rev (sort (remdups xs)))) = card (set xs \<inter> A)"
    for A and xs :: "string list"
    by (subst distinct_card [symmetric]) (auto simp: intro: arg_cong [where f = card])
  moreover have "set (recent_local_dates fd now off 7) = week_of fd now off"
    by (auto simp: recent_local_dates_def week_of_def format_local_date_def)
  ultimately show ?thesis
    by (auto simp: late_nights_def focus_active_dates_in_hours_def focus_policy_defs op_simps
        late_dates_def intro!: arg_cong [where f = card])
qed

text \<open>
  The quiet-hours rule fires exactly on its evidence. Evaluating the rule records a new
  trigger if and only if quiet hours are not configured, no earlier offer or answer blocks it,
  the device's offset is known, and Focus was switched on late at night (local hours 22, 23, 0
  or 1) on at least three different local dates among the last seven; otherwise it changes
  nothing. It never fails.
\<close>

theorem quiet_hours_trigger_rule:
  "evaluate_pattern_rule fd now s = (Inr (),
     if fo_quiet_hours s = None \<and> \<not> offer_blocks (fo_offer s) now
        \<and> (case fo_utc_offset s of None \<Rightarrow> False
           | Some off \<Rightarrow> 3 \<le> card (late_dates s \<inter> week_of fd now off))
     then s\<lparr>fo_offer := Some \<lparr>os_rule_version = 1, os_triggered_at = Some (stored now),
            os_offered_at = None, os_response = None, os_responded_at = None\<rparr>\<rparr>
     else s)"
  by (simp add: evaluate_pattern_rule_def op_simps andthen_def [of "late_nights _ _ _"]
      late_nights_card record_quiet_hours_trigger_def focus_policy_defs split: option.split)

section \<open>Declining\<close>

definition before_reask :: "instant \<Rightarrow> focus_command \<Rightarrow> bool" where
  "before_reask t c \<longleftrightarrow> (case c of FTransition _ _ _ now \<Rightarrow> now < t + seconds (30 * 86400)
     | FClear \<Rightarrow> False | _ \<Rightarrow> True)"

lemma offer_kept_by_rule:
  "offer_blocks (fo_offer s) now \<Longrightarrow> evaluate_pattern_rule fd now s = (Inr (), s)"
  by (simp add: evaluate_pattern_rule_def op_simps)

lemma transition_keeps_offer:
  assumes "offer_blocks (fo_offer s) now"
  shows "fo_offer (snd (record_transition fd a t off now s)) = fo_offer s"
  using assms
  by (auto simp: record_transition_def Let_def set_utc_offset_def prune_focus_evidence_def
      record_focus_transition_def andthen_def modify_def offer_kept_by_rule split: if_splits)

lemma declined_exec:
  assumes "os_response st = Some OfferDeclined" and "os_responded_at st = Some t" and "before_reask t c"
  shows "keeping (\<lambda>s. fo_offer s = Some st) s (exec_focus fd c s)"
  using assms
  by (cases c)
    (auto simp: keeping_def before_reask_def transition_keeps_offer offer_blocks_def days_def
      focus_policy_defs pending_morning_offer_def respond_to_offer_def record_quiet_hours_response_def
      set_quiet_hours_def op_simps andthen_def)

text \<open>
  C19: A declined offer is not repeated. After the user declines at time t, no sequence of
  Focus transitions observed before t plus thirty days, of morning checks and of further
  replies changes the recorded answer, and no morning check returns an offer (unless the
  evidence is cleared).
\<close>

theorem declined_offer_is_not_repeated:
  assumes "fo_offer s = Some st" and "os_response st = Some OfferDeclined"
    and "os_responded_at st = Some t" and "list_all (before_reask t) cs"
  shows "fo_offer (fold (exec_focus fd) cs s) = Some st
    \<and> pending_morning_offer fd now (fold (exec_focus fd) cs s) = (Inr None, fold (exec_focus fd) cs s)"
proof -
  have "keeping (\<lambda>s. fo_offer s = Some st) s (fold (exec_focus fd) cs s)"
    by (rule keeping.run) (use assms declined_exec in \<open>auto simp: list_all_iff\<close>)
  then have "fo_offer (fold (exec_focus fd) cs s) = Some st"
    using assms(1) by (simp add: keeping_def)
  then show ?thesis
    using assms(2) by (simp add: pending_morning_offer_def op_simps)
qed

definition sample_declined :: focus where
  "sample_declined = empty_focus\<lparr>fo_offer := Some \<lparr>os_rule_version = 1, os_triggered_at = Some 0,
     os_offered_at = None, os_response = Some OfferDeclined, os_responded_at = Some (seconds 100)\<rparr>\<rparr>"

theorem declined_offer_is_not_repeated_witness:
  "fo_offer (fold (exec_focus (\<lambda>_. ''2027-01-15''))
       [FTransition True (seconds 200) 0 (seconds 200), FMorning (seconds 300), FRespond True (seconds 400)]
       sample_declined) = fo_offer sample_declined"
  using declined_offer_is_not_repeated [of sample_declined _ "seconds 100"
      "[FTransition True (seconds 200) 0 (seconds 200), FMorning (seconds 300), FRespond True (seconds 400)]"]
  by (simp add: sample_declined_def before_reask_def seconds_def NANOS_def)

section \<open>The window\<close>

lemma local_minutes_div: "local_minutes l = l div 60 mod 1440"
proof -
  have "l mod 86400 = 3600 * (l div 3600 mod 24) + l mod 3600"
    using zmod_zmult2_eq [of 24 l 3600] by simp
  moreover have "0 \<le> l mod 3600" "l mod 3600 < 3600" by simp_all
  ultimately have "l mod 86400 div 3600 = l div 3600 mod 24" by linarith
  moreover have "l mod 3600 = 60 * (l div 60 mod 60) + l mod 60"
    using zmod_zmult2_eq [of 60 l 60] by simp
  then have "l mod 3600 div 60 = l div 60 mod 60"
    using pos_mod_bound [of 60 l] pos_mod_sign [of 60 l] by linarith
  moreover have "l div 60 mod 1440 = 60 * (l div 3600 mod 24) + l div 60 mod 60"
    using zmod_zmult2_eq [of 24 "l div 60" 60] zdiv_zmult2_eq [of 60 l 60] by simp
  ultimately show ?thesis by (simp add: local_minutes_def)
qed

lemma mod_day:
  assumes "0 \<le> x" and "x < 2880"
  shows "x mod 1440 = (if x < 1440 then x else x - (1440 :: int))"
proof (cases "x < 1440")
  case True
  then show ?thesis using assms by (simp add: mod_pos_pos_trivial)
next
  case False
  have "x mod 1440 = (x - 1440) mod 1440" by simp
  also have "\<dots> = x - 1440" using assms False by (intro mod_pos_pos_trivial) simp_all
  finally show ?thesis using False by simp
qed

definition inside :: "velvt_quiet_hours \<Rightarrow> int \<Rightarrow> bool" where
  "inside q m \<longleftrightarrow> (if qh_start_local_minutes q \<le> qh_end_local_minutes q
     then qh_start_local_minutes q \<le> m \<and> m < qh_end_local_minutes q
     else qh_start_local_minutes q \<le> m \<or> m < qh_end_local_minutes q)"

definition remaining :: "velvt_quiet_hours \<Rightarrow> int \<Rightarrow> int" where
  "remaining q m = (if m < qh_end_local_minutes q then qh_end_local_minutes q - m
     else 1440 - m + qh_end_local_minutes q)"

text \<open>The local clock of the device, as the manager reads it from the stored offset.\<close>

definition clock :: "int \<Rightarrow> instant \<Rightarrow> int" where
  "clock off t = timestamp t + clamp_offset off"

lemma to_local_clamped: "to_local t (clamp_offset off) = clock off t"
  by (auto simp: to_local_def clock_def clamp_offset_def max_def min_def)

lemma remaining_eq:
  assumes "fo_quiet_hours s = Some q" and "fo_utc_offset s = Some off"
  shows "quiet_hours_remaining_minutes s t = (let m = clock off t div 60 mod 1440 in
     if inside q m then Some (remaining q m) else None)"
  using assms
  by (simp add: quiet_hours_remaining_minutes_def quiet_hours_remaining_minutes_at_def Let_def
      to_local_clamped local_minutes_div inside_def remaining_def MINUTES_PER_DAY_def)

lemma inside_until_end:
  assumes "inside q (M mod 1440)" and "0 \<le> k" and "k < remaining q (M mod 1440)"
    and "0 \<le> qh_start_local_minutes q" "qh_start_local_minutes q \<le> 1439"
    and "0 \<le> qh_end_local_minutes q" "qh_end_local_minutes q \<le> 1439"
  shows "inside q ((M + k) mod 1440)"
proof -
  have m: "0 \<le> M mod 1440" "M mod 1440 < 1440" by simp_all
  have "(M + k) mod 1440 = (M mod 1440 + k) mod 1440" by (simp add: mod_add_left_eq)
  also have "\<dots> = (if M mod 1440 + k < 1440 then M mod 1440 + k else M mod 1440 + k - 1440)"
  proof -
    have "M mod 1440 + k < 2 * 1440"
      using assms m by (auto simp: remaining_def inside_def split: if_splits)
    then show ?thesis using m assms(2) by (intro mod_day) simp_all
  qed
  finally show ?thesis
    using assms m by (auto simp: inside_def remaining_def split: if_splits)
qed

lemma outside_at_end:
  assumes "0 \<le> qh_end_local_minutes q" "qh_end_local_minutes q \<le> 1439"
  shows "\<not> inside q ((M + remaining q (M mod 1440)) mod 1440)"
proof -
  have "(M + remaining q (M mod 1440)) mod 1440 = (M mod 1440 + remaining q (M mod 1440)) mod 1440"
    by (simp add: mod_add_left_eq)
  also have "\<dots> = qh_end_local_minutes q"
    using assms by (auto simp: remaining_def)
  finally show ?thesis by (simp add: inside_def)
qed

lemma timestamp_less: "timestamp t < k \<longleftrightarrow> t < from_timestamp k"
proof -
  have "from_timestamp k \<le> t" if "k \<le> timestamp t"
  proof -
    have "from_timestamp k \<le> stored t" using that by (simp add: stored_def)
    then show ?thesis using stored_le order_trans by blast
  qed
  moreover have "k \<le> timestamp t" if "from_timestamp k \<le> t"
    using timestamp_mono [OF that] by simp
  ultimately show ?thesis by (meson not_less)
qed

lemma clock_range:
  assumes "from_timestamp (c - clamp_offset off) \<le> t" and "t < from_timestamp (d - clamp_offset off)"
  shows "c \<le> clock off t \<and> clock off t < d"
  using timestamp_mono [OF assms(1)] assms(2) [folded timestamp_less] by (simp add: clock_def)

lemma div_60_bounds: "60 * (x div 60) \<le> x" "x < 60 * (x div 60 + 1)" for x :: int
proof -
  obtain q r where q: "x div 60 = q" and r: "x mod 60 = r" by blast
  have "x = 60 * q + r" "0 \<le> r" "r < 60" using mult_div_mod_eq [of 60 x] q r by auto
  then show "60 * (x div 60) \<le> x" "x < 60 * (x div 60 + 1)" unfolding q by simp_all
qed

lemma div_60_eq: "60 * a \<le> x \<Longrightarrow> x < 60 * (a + 1) \<Longrightarrow> x div 60 = a" for x :: int
proof -
  assume "60 * a \<le> x" "x < 60 * (a + 1)"
  moreover obtain q where q: "x div 60 = q" by blast
  ultimately have "60 * q < 60 * (a + 1)" "60 * a < 60 * (q + 1)"
    using div_60_bounds [of x] unfolding q by linarith+
  then show ?thesis unfolding q by simp
qed

text \<open>
  The reported end of quiet hours is where the window closes, to the minute. Inside quiet
  hours there is a closing instant such that every instant from now to it is inside the
  configured window and every instant from it to the reported end is outside; the reported
  end comes after the closing instant, by less than one minute.
\<close>

theorem quiet_hours_end_is_the_close:
  assumes "quiet_hours_end s now = Some e" and "fo_quiet_hours s = Some q"
    and "0 \<le> qh_start_local_minutes q" "qh_start_local_minutes q \<le> 1439"
    and "0 \<le> qh_end_local_minutes q" "qh_end_local_minutes q \<le> 1439"
  shows "\<exists>close. now < close \<and> close \<le> e \<and> e < close + seconds 60
     \<and> (\<forall>t. now \<le> t \<longrightarrow> t < close \<longrightarrow> in_velvt_quiet_hours s t)
     \<and> (\<forall>t. close \<le> t \<longrightarrow> t \<le> e \<longrightarrow> \<not> in_velvt_quiet_hours s t)"
proof -
  obtain off where off: "fo_utc_offset s = Some off"
    using assms(1) by (cases "fo_utc_offset s") (auto simp: quiet_hours_end_def quiet_hours_remaining_minutes_def)
  note rem_eq = remaining_eq [OF assms(2) off]
  define M where "M = clock off now div 60"
  have ins: "inside q (M mod 1440)" and e: "e = now + seconds (remaining q (M mod 1440) * 60)"
    using assms(1) by (auto simp: quiet_hours_end_def rem_eq Let_def M_def split: if_splits)
  define r where "r = remaining q (M mod 1440)"
  have M: "0 \<le> M mod 1440" "M mod 1440 < 1440" by simp_all
  have r: "0 < r" using ins assms(5) M by (auto simp: r_def remaining_def)
  define close where "close = from_timestamp (60 * (M + r) - clamp_offset off)"
  define b where "b = from_timestamp (60 * M - clamp_offset off)"
  have step: "from_timestamp (x + y) = from_timestamp x + from_timestamp y" for x y
    by (simp add: from_timestamp_def distrib_right)
  have "60 * M \<le> clock off now" "clock off now < 60 * (M + 1)"
    unfolding M_def by (rule div_60_bounds)+
  then have "\<not> now < b" "now < b + from_timestamp 60"
    by (simp_all add: b_def clock_def algebra_simps flip: timestamp_less step)
  moreover have "close = b + from_timestamp (60 * r)"
    by (simp add: close_def b_def algebra_simps flip: step)
  moreover have "e = now + from_timestamp (60 * r)"
    by (simp add: e r_def seconds_def from_timestamp_def mult.commute)
  moreover have "from_timestamp 60 \<le> from_timestamp (60 * r)" using r by simp
  moreover have minute: "seconds 60 = from_timestamp 60" by (simp add: seconds_def from_timestamp_def)
  ultimately have ce: "close \<le> e" "e < close + seconds 60" "now < close" and now_lo: "b \<le> now"
    by linarith+
  have "in_velvt_quiet_hours s t" if "now \<le> t" "t < close" for t
  proof -
    have c: "60 * M \<le> clock off t \<and> clock off t < 60 * (M + r)"
      using clock_range [of "60 * M" off t "60 * (M + r)"] now_lo that by (simp add: close_def b_def)
    define k where "k = clock off t div 60 - M"
    obtain x where x: "clock off t div 60 = x" by blast
    have "60 * x < 60 * (M + r)" "60 * M < 60 * (x + 1)"
      using c div_60_bounds [of "clock off t"] unfolding x by linarith+
    then have "0 \<le> k" "k < r" by (simp_all add: k_def x)
    then have "inside q ((M + k) mod 1440)"
      using inside_until_end [OF ins _ _ assms(3-6)] by (simp add: r_def)
    then show ?thesis by (simp add: in_velvt_quiet_hours_def rem_eq Let_def k_def)
  qed
  moreover have "\<not> in_velvt_quiet_hours s t" if "close \<le> t" "t \<le> e" for t
  proof -
    have "t < from_timestamp (60 * (M + r + 1) - clamp_offset off)"
      using that(2) ce(2) minute
      by (simp add: close_def algebra_simps flip: step)
    then have "60 * (M + r) \<le> clock off t \<and> clock off t < 60 * (M + r + 1)"
      using that(1) by (intro clock_range) (simp_all add: close_def)
    then have "clock off t div 60 = M + r" by (intro div_60_eq) simp_all
    then show ?thesis
      using outside_at_end [OF assms(5,6), of M]
      by (simp add: in_velvt_quiet_hours_def rem_eq Let_def r_def)
  qed
  ultimately show ?thesis using ce by blast
qed

definition sample_quiet :: focus where
  "sample_quiet = empty_focus\<lparr>fo_utc_offset := Some 3600, fo_quiet_hours := Some
     \<lparr>qh_start_local_minutes = 1320, qh_end_local_minutes = 420, qh_rule_version = 1, qh_configured_at = 0\<rparr>\<rparr>"

theorem quiet_hours_end_is_the_close_witness:
  "\<exists>close. seconds (22 * 3600 + 30) < close \<and> close \<le> seconds (30 * 3600 + 30)
     \<and> \<not> in_velvt_quiet_hours sample_quiet close"
proof -
  have "quiet_hours_end sample_quiet (seconds (22 * 3600 + 30)) = Some (seconds (30 * 3600 + 30))"
    by (simp add: quiet_hours_end_def quiet_hours_remaining_minutes_def
        quiet_hours_remaining_minutes_at_def sample_quiet_def to_local_def clamp_offset_def timestamp_def
        local_minutes_def seconds_def NANOS_def MINUTES_PER_DAY_def)
  from quiet_hours_end_is_the_close [OF this] show ?thesis
    by (fastforce simp: sample_quiet_def)
qed

end
