(* ===== verification/Ipc.thy ===== *)
theory Ipc
  imports Auth
begin

text \<open>
  The local socket: newline framing (\<^verbatim>\<open>ipc/codec.rs\<close>), the connection loop
  (\<^verbatim>\<open>ipc/connection.rs\<close>), the push queue and its adapter (\<^verbatim>\<open>delivery/push.rs\<close>,
  \<^verbatim>\<open>delivery/shaper.rs\<close>) and the reconnect tracker (\<^verbatim>\<open>ipc/reconnect.rs\<close>).

  A connection is a state machine driven by events: a byte or the end of the stream arrives,
  the authentication watch changes, another task enqueues a message, the select loop takes
  one of its other branches. The frame under construction is part of the state, as the
  caller-owned buffer is in the code, so events may fall between any two bytes. Decoding is
  the JSON library's and routing the router's: both are fields of \<open>conn_env\<close>. Messages the
  connection and the adapter do not inspect are an opaque type. \<open>cn_write_ok\<close> says which
  writes succeed (all, once it is used up); \<open>ce_auth_states\<close> whether the caller passed the watch on the
  authentication state.
\<close>

section \<open>Messages\<close>

datatype service_state = Ready | Degraded | AuthRequired | UploadPaused

record insight_payload =
  in_text :: ustr
  in_observation :: ustr
  in_comparison :: ustr
  in_suggested_action :: ustr

record privacy_alert =
  pv_code :: ustr
  pv_message :: ustr

record notification_payload =
  nt_notification_id :: "128 word"
  nt_title :: ustr
  nt_body :: ustr
  nt_insight_date :: int
  nt_do_not_disturb_until :: "instant option"

datatype 'r server_message =
    ServerHello nat
  | Acknowledged
  | VersionMismatch nat nat
  | MalformedMessage
  | ServiceStatus service_state "string option"
  | InsightPayload insight_payload
  | HistoryPayload nat "'r list"
  | PrivacyViolationAlert privacy_alert
  | CacheEmpty ustr
  | ShuttingDown string
  | DeviceRevokedMessage string
  | NeedsReauthMessage string
  | NotificationPayload notification_payload
  | Other 'r

datatype ipc_error = IpcTransport | IpcMalformed | FrameTooLarge

definition PROTOCOL_VERSION :: nat where
  "PROTOCOL_VERSION = 33"

section \<open>The push queue\<close>

type_synonym 'r queued = "'r server_message \<times> bool"

fun remove_first_evictable :: "'r queued list \<Rightarrow> 'r queued list option" where
  "remove_first_evictable [] = None"
| "remove_first_evictable ((m, urgent) # q) =
     (if \<not> urgent then Some q else map_option ((#) (m, urgent)) (remove_first_evictable q))"

definition enqueue :: "nat \<Rightarrow> 'r server_message \<Rightarrow> 'r queued list \<Rightarrow> 'r queued list" where
  "enqueue capacity m q =
     (if capacity \<le> length q
      then (case remove_first_evictable q of Some q' \<Rightarrow> q' @ [(m, False)] | None \<Rightarrow> q)
      else q @ [(m, False)])"

definition enqueue_urgent :: "'r server_message \<Rightarrow> 'r queued list \<Rightarrow> 'r queued list" where
  "enqueue_urgent m q = (m, True) # q"

definition try_pop :: "'r queued list \<Rightarrow> 'r server_message option \<times> 'r queued list" where
  "try_pop q = (case q of [] \<Rightarrow> (None, []) | (m, _) # r \<Rightarrow> (Some m, r))"

section \<open>Validation and the adapter\<close>

datatype validation_error = EmptyField string | OutOfRange string

definition validate_insight :: "insight_payload \<Rightarrow> validation_error option" where
  "validate_insight p =
     (if in_text p = [] then Some (EmptyField ''text'')
      else if in_observation p = [] then Some (EmptyField ''evidence.observation'')
      else if in_comparison p = [] then Some (EmptyField ''evidence.comparison'')
      else if in_suggested_action p = [] then Some (EmptyField ''evidence.suggested_action'')
      else None)"

definition validate_history :: "nat \<Rightarrow> 'r list \<Rightarrow> validation_error option" where
  "validate_history n rows =
     (if n = 0 then Some (OutOfRange ''days'')
      else if n \<noteq> length rows then Some (OutOfRange ''days'') else None)"

definition validate_privacy_alert :: "privacy_alert \<Rightarrow> validation_error option" where
  "validate_privacy_alert a =
     (if pv_code a = [] then Some (EmptyField ''code'')
      else if pv_message a = [] then Some (EmptyField ''message'') else None)"

definition validate_cache_empty :: "ustr \<Rightarrow> validation_error option" where
  "validate_cache_empty t = (if t = [] then Some (EmptyField ''payload_type'') else None)"

definition push_insight :: "nat \<Rightarrow> insight_payload \<Rightarrow> 'r queued list \<Rightarrow> 'r queued list" where
  "push_insight cap p q =
     (case validate_insight p of None \<Rightarrow> enqueue cap (InsightPayload p) q | Some _ \<Rightarrow> q)"

definition push_history :: "nat \<Rightarrow> nat \<Rightarrow> 'r list \<Rightarrow> 'r queued list \<Rightarrow> 'r queued list" where
  "push_history cap n rows q =
     (case validate_history n rows of None \<Rightarrow> enqueue cap (HistoryPayload n rows) q | Some _ \<Rightarrow> q)"

definition push_privacy_alert :: "privacy_alert \<Rightarrow> 'r queued list \<Rightarrow> 'r queued list" where
  "push_privacy_alert a q =
     (case validate_privacy_alert a of None \<Rightarrow> enqueue_urgent (PrivacyViolationAlert a) q | Some _ \<Rightarrow> q)"

definition push_cache_empty :: "nat \<Rightarrow> ustr \<Rightarrow> 'r queued list \<Rightarrow> 'r queued list" where
  "push_cache_empty cap t q =
     (case validate_cache_empty t of None \<Rightarrow> enqueue cap (CacheEmpty t) q | Some _ \<Rightarrow> q)"

definition push_shutting_down :: "string \<Rightarrow> 'r queued list \<Rightarrow> 'r queued list" where
  "push_shutting_down reason q = enqueue_urgent (ShuttingDown reason) q"

definition push_device_revoked :: "string \<Rightarrow> 'r queued list \<Rightarrow> 'r queued list" where
  "push_device_revoked message q = enqueue_urgent (DeviceRevokedMessage message) q"

definition push_needs_reauth :: "string \<Rightarrow> 'r queued list \<Rightarrow> 'r queued list" where
  "push_needs_reauth reason q = enqueue_urgent (NeedsReauthMessage reason) q"

definition push_service_status ::
  "nat \<Rightarrow> service_state \<Rightarrow> string option \<Rightarrow> 'r queued list \<Rightarrow> 'r queued list" where
  "push_service_status cap st reason q = enqueue cap (ServiceStatus st reason) q"

definition push_notification :: "nat \<Rightarrow> notification_payload \<Rightarrow> 'r queued list \<Rightarrow> 'r queued list" where
  "push_notification cap n q = enqueue cap (NotificationPayload n) q"

text \<open>Payloads the adapter passes on unread.\<close>

definition push_auth_session_updated :: "'r \<Rightarrow> 'r queued list \<Rightarrow> 'r queued list" where
  "push_auth_session_updated session q = enqueue_urgent (Other session) q"

definition push_quiet_hours_offer :: "nat \<Rightarrow> 'r \<Rightarrow> 'r queued list \<Rightarrow> 'r queued list" where
  "push_quiet_hours_offer cap offer q = enqueue cap (Other offer) q"

definition push_work_block_state :: "nat \<Rightarrow> 'r \<Rightarrow> 'r queued list \<Rightarrow> 'r queued list" where
  "push_work_block_state cap snapshot q = enqueue cap (Other snapshot) q"

text \<open>The alert sink of the upload coordinator.\<close>

definition alert_sink :: "ustr \<Rightarrow> 'r queued list \<Rightarrow> 'r queued list" where
  "alert_sink message q = push_privacy_alert \<lparr>pv_code = of_str ''raw_field_rejected'', pv_message = message\<rparr> q"

section \<open>Framing\<close>

definition MAX_FRAME_BYTES :: nat where
  "MAX_FRAME_BYTES = 64 * 1024"

datatype frame_result = Frame "nat list" | EndOfStream | FrameError ipc_error | NeedMore

text \<open>
  \<open>read_frame eof pending bytes\<close> reads from the bytes that are there; \<open>NeedMore\<close> is a read that
  is still waiting, or was cancelled while waiting. The second component is the caller's
  buffer afterwards, the third what is left on the socket.
\<close>

fun read_frame :: "bool \<Rightarrow> nat list \<Rightarrow> nat list \<Rightarrow> frame_result \<times> nat list \<times> nat list" where
  "read_frame eof pending [] =
     (if \<not> eof then (NeedMore, pending, [])
      else if pending = [] then (EndOfStream, [], []) else (FrameError IpcMalformed, [], []))"
| "read_frame eof pending (b # bs) =
     (if b = 10 then (Frame pending, [], bs)
      else if MAX_FRAME_BYTES \<le> length pending then (FrameError FrameTooLarge, [], bs)
      else read_frame eof (pending @ [b]) bs)"

definition write_server_message :: "('m \<Rightarrow> nat list) \<Rightarrow> 'm \<Rightarrow> nat list" where
  "write_server_message enc m = enc m @ [10]"

section \<open>The connection\<close>

datatype phase = Handshake | Serving | Closed | Failed ipc_error

record ('r, 'c) conn_env =
  ce_decode_hello :: "nat list \<Rightarrow> nat option"
  ce_decode_message :: "nat list \<Rightarrow> 'c option"
  ce_route :: "'c \<Rightarrow> unit + 'r server_message option"
  ce_max_errors :: nat
  ce_auth_states :: bool

record ('r, 'c) conn =
  cn_phase :: phase
  cn_errors :: nat
  cn_pending :: "nat list"
  cn_written :: "'r server_message list"
  cn_routed :: "'c list"
  cn_queue :: "'r queued list"
  cn_auth :: auth_state
  cn_auth_changed :: bool
  cn_write_ok :: "bool list"

definition running :: "phase \<Rightarrow> bool" where
  "running p \<longleftrightarrow> p = Handshake \<or> p = Serving"

definition write_message :: "'r server_message \<Rightarrow> ('r, 'c) conn \<Rightarrow> ('r, 'c) conn" where
  "write_message m c = (case cn_write_ok c of
     [] \<Rightarrow> c\<lparr>cn_written := cn_written c @ [m]\<rparr>
   | ok # oks \<Rightarrow> if ok then c\<lparr>cn_written := cn_written c @ [m], cn_write_ok := oks\<rparr>
                 else c\<lparr>cn_phase := Failed IpcTransport, cn_write_ok := oks\<rparr>)"

definition auth_status_message :: "auth_state \<Rightarrow> 'r server_message" where
  "auth_status_message st = (case st of
     Authenticated _ \<Rightarrow> ServiceStatus Ready None
   | RefreshInFlight \<Rightarrow> ServiceStatus Degraded (Some ''auth_refresh_in_flight'')
   | Unauthenticated \<Rightarrow> ServiceStatus AuthRequired (Some ''needs_reauth'')
   | NeedsReauth \<Rightarrow> ServiceStatus AuthRequired (Some ''needs_reauth'')
   | DeviceRevoked \<Rightarrow> ServiceStatus UploadPaused (Some ''device_revoked''))"

text \<open>
  Draining at the top of the loop: pop, then write, until the queue is empty or a write fails.
  A failed write of the last drain, at shutdown, is ignored.
\<close>

fun drain_queue :: "'r queued list \<Rightarrow> ('r, 'c) conn \<Rightarrow> ('r, 'c) conn" where
  "drain_queue [] c = c\<lparr>cn_queue := []\<rparr>"
| "drain_queue ((m, u) # q) c =
     (let d = write_message m (c\<lparr>cn_queue := q\<rparr>) in if cn_phase d = cn_phase c then drain_queue q d else d)"

definition loop_top :: "('r, 'c) conn \<Rightarrow> ('r, 'c) conn" where
  "loop_top c = (if cn_phase c = Serving then drain_queue (cn_queue c) c else c)"

fun write_ignoring :: "'r queued list \<Rightarrow> ('r, 'c) conn \<Rightarrow> ('r, 'c) conn" where
  "write_ignoring [] c = c\<lparr>cn_queue := []\<rparr>"
| "write_ignoring ((m, u) # q) c = write_ignoring q ((write_message m c)\<lparr>cn_phase := cn_phase c\<rparr>)"

definition write_malformed :: "('r, 'c) conn_env \<Rightarrow> ('r, 'c) conn \<Rightarrow> ('r, 'c) conn" where
  "write_malformed E c =
     (let d = write_message MalformedMessage (c\<lparr>cn_errors := cn_errors c + 1\<rparr>)
      in if running (cn_phase d) \<and> ce_max_errors E \<le> cn_errors d then d\<lparr>cn_phase := Closed\<rparr> else d)"

definition handle_hello :: "('r, 'c) conn_env \<Rightarrow> nat list \<Rightarrow> ('r, 'c) conn \<Rightarrow> ('r, 'c) conn" where
  "handle_hello E frame c =
     (case ce_decode_hello E frame of
        None \<Rightarrow> write_malformed E c
      | Some v \<Rightarrow>
          if v \<noteq> PROTOCOL_VERSION
          then (let d = write_message (VersionMismatch PROTOCOL_VERSION v) c
                in if running (cn_phase d) then d\<lparr>cn_phase := Closed\<rparr> else d)
          else let d = write_message Acknowledged c
               in if \<not> running (cn_phase d) then d
                  else let e = if ce_auth_states E then write_message (auth_status_message (cn_auth d)) d else d
                       in if \<not> running (cn_phase e) then e
                          else loop_top (e\<lparr>cn_phase := Serving\<rparr>))"

definition handle_message :: "('r, 'c) conn_env \<Rightarrow> nat list \<Rightarrow> ('r, 'c) conn \<Rightarrow> ('r, 'c) conn" where
  "handle_message E frame c =
     loop_top (case ce_decode_message E frame of
        None \<Rightarrow> write_malformed E c
      | Some m \<Rightarrow>
          let d = c\<lparr>cn_routed := cn_routed c @ [m]\<rparr> in
          (case ce_route E m of
             Inr (Some response) \<Rightarrow> write_message response d
           | Inr None \<Rightarrow> d
           | Inl _ \<Rightarrow> write_malformed E d))"

datatype 'r event =
    EvByte nat | EvEndOfStream | EvAuthChange auth_state | EvAuthReady
  | EvEnqueue nat "'r server_message" | EvEnqueueUrgent "'r server_message"
  | EvNotified | EvPrivacyAlert privacy_alert | EvShutdown

definition conn_step :: "('r, 'c) conn_env \<Rightarrow> 'r event \<Rightarrow> ('r, 'c) conn \<Rightarrow> ('r, 'c) conn" where
  "conn_step E ev c =
     (case ev of
        EvAuthChange st \<Rightarrow> c\<lparr>cn_auth := st, cn_auth_changed := True\<rparr>
      | EvEnqueue cap m \<Rightarrow> c\<lparr>cn_queue := enqueue cap m (cn_queue c)\<rparr>
      | EvEnqueueUrgent m \<Rightarrow> c\<lparr>cn_queue := enqueue_urgent m (cn_queue c)\<rparr>
      | EvByte b \<Rightarrow>
          if \<not> running (cn_phase c) then c
          else (case read_frame False (cn_pending c) [b] of
              (Frame f, p, _) \<Rightarrow>
                if cn_phase c = Handshake then handle_hello E f (c\<lparr>cn_pending := p\<rparr>)
                else handle_message E f (c\<lparr>cn_pending := p\<rparr>)
            | (FrameError e, p, _) \<Rightarrow> c\<lparr>cn_pending := p, cn_phase := Failed e\<rparr>
            | (_, p, _) \<Rightarrow> c\<lparr>cn_pending := p\<rparr>)
      | EvEndOfStream \<Rightarrow>
          if \<not> running (cn_phase c) then c
          else (case read_frame True (cn_pending c) [] of
              (FrameError e, p, _) \<Rightarrow> c\<lparr>cn_pending := p, cn_phase := Failed e\<rparr>
            | (_, p, _) \<Rightarrow> c\<lparr>cn_pending := p, cn_phase := Closed\<rparr>)
      | EvAuthReady \<Rightarrow>
          if cn_phase c = Serving \<and> ce_auth_states E \<and> cn_auth_changed c
          then loop_top (write_message (auth_status_message (cn_auth c)) (c\<lparr>cn_auth_changed := False\<rparr>)) else c
      | EvPrivacyAlert a \<Rightarrow>
          if cn_phase c = Serving then loop_top (write_message (PrivacyViolationAlert a) c) else c
      | EvNotified \<Rightarrow> loop_top c
      | EvShutdown \<Rightarrow>
          if cn_phase c = Serving then (write_ignoring (cn_queue c) c)\<lparr>cn_phase := Closed\<rparr> else c)"

text \<open>A connection starts by announcing the protocol; the queue may hold earlier messages.\<close>

definition open_connection ::
  "'r queued list \<Rightarrow> auth_state \<Rightarrow> bool list \<Rightarrow> ('r, 'c) conn" where
  "open_connection q st oks = write_message (ServerHello PROTOCOL_VERSION)
     \<lparr>cn_phase = Handshake, cn_errors = 0, cn_pending = [], cn_written = [], cn_routed = [],
      cn_queue = q, cn_auth = st, cn_auth_changed = False, cn_write_ok = oks\<rparr>"

section \<open>The reconnect tracker\<close>

record 'q tracker =
  tr_queue :: "'q option"
  tr_version :: "64 word"

definition acquire :: "'q \<Rightarrow> 'q tracker \<Rightarrow> 'q \<times> 'q tracker" where
  "acquire fresh s =
     (let s' = s\<lparr>tr_version := tr_version s + 1\<rparr> in
      case tr_queue s of Some q \<Rightarrow> (q, s') | None \<Rightarrow> (fresh, s'\<lparr>tr_queue := Some fresh\<rparr>))"

end
