(* ===== verification/Ipc_Properties.thy ===== *)
theory Ipc_Properties
  imports Ipc "HOL-Library.Multiset"
begin

text \<open>
  What the local socket promises: frames survive any interleaving of the connection's other
  work, nothing is routed or pushed before the handshake and errors are bounded, and urgent
  messages are never evicted from the push queue.
\<close>

section \<open>Writing and draining\<close>

lemma write_ok: "cn_write_ok c = [] \<Longrightarrow> write_message m c = c\<lparr>cn_written := cn_written c @ [m]\<rparr>"
  by (simp add: write_message_def)

lemma write_keeps [simp]:
  "cn_routed (write_message m c) = cn_routed c" "cn_errors (write_message m c) = cn_errors c"
  "cn_pending (write_message m c) = cn_pending c" "cn_queue (write_message m c) = cn_queue c"
  by (auto simp: write_message_def split: list.split)

lemma write_written:
  "cn_written (write_message m c) = cn_written c @ [m] \<and> cn_phase (write_message m c) = cn_phase c
   \<or> cn_written (write_message m c) = cn_written c \<and> cn_phase (write_message m c) = Failed IpcTransport"
  by (auto simp: write_message_def split: list.split)

lemma drain_keeps [simp]:
  "cn_routed (drain_queue q c) = cn_routed c" "cn_errors (drain_queue q c) = cn_errors c"
  "cn_pending (drain_queue q c) = cn_pending c"
  by (induction q c rule: drain_queue.induct) (auto simp: Let_def)

lemma drain_written:
  "\<exists>ms. cn_written (drain_queue q c) = cn_written c @ ms
     \<and> cn_phase (drain_queue q c) \<in> {cn_phase c, Failed IpcTransport}"
proof (induction q c rule: drain_queue.induct)
  case (2 m u q c)
  let ?d = "write_message m (c\<lparr>cn_queue := q\<rparr>)"
  show ?case
    using 2 [OF refl] write_written [of m "c\<lparr>cn_queue := q\<rparr>"]
    by (cases "cn_phase ?d = cn_phase c") (auto simp: Let_def)
qed simp

lemma drain_ok:
  "cn_write_ok c = [] \<Longrightarrow> cn_phase (drain_queue q c) = cn_phase c \<and> cn_write_ok (drain_queue q c) = []"
  by (induction q c rule: drain_queue.induct) (auto simp: Let_def write_ok)

lemma loop_top_keeps [simp]:
  "cn_routed (loop_top c) = cn_routed c" "cn_errors (loop_top c) = cn_errors c"
  "cn_pending (loop_top c) = cn_pending c"
  by (simp_all add: loop_top_def)

lemma loop_top_written:
  "\<exists>ms. cn_written (loop_top c) = cn_written c @ ms
     \<and> cn_phase (loop_top c) \<in> {cn_phase c, Failed IpcTransport}"
  using drain_written [of "cn_queue c" c] by (auto simp: loop_top_def)

lemma loop_top_ok:
  "cn_write_ok c = [] \<Longrightarrow> cn_phase (loop_top c) = cn_phase c \<and> cn_write_ok (loop_top c) = []"
  by (simp add: loop_top_def drain_ok)

section \<open>Frames\<close>

fun frames_of :: "nat list \<Rightarrow> nat list \<Rightarrow> nat list list \<times> nat list" where
  "frames_of p [] = ([], p)"
| "frames_of p (b # bs) =
     (if b = 10 then (case frames_of [] bs of (fs, r) \<Rightarrow> (p # fs, r)) else frames_of (p @ [b]) bs)"

lemma frames_of_append: "10 \<notin> set f \<Longrightarrow> frames_of p (f @ 10 # bs) = (case frames_of [] bs of (fs, r) \<Rightarrow> ((p @ f) # fs, r))"
  by (induction f arbitrary: p) auto

lemma frames_round_trip:
  "list_all (\<lambda>f. 10 \<notin> set f) fs \<Longrightarrow> frames_of [] (concat (map (\<lambda>f. f @ [10]) fs)) = (fs, [])"
  by (induction fs) (auto simp: frames_of_append)

lemma frames_of_longer:
  "frames_of p bs = (fs, r) \<Longrightarrow> case fs of [] \<Rightarrow> length p \<le> length r | f # _ \<Rightarrow> length p \<le> length f"
proof (induction p bs arbitrary: fs r rule: frames_of.induct)
  case (2 p b bs)
  then show ?case by (fastforce split: if_splits prod.splits list.splits)
qed simp

definition bytes_of :: "'r event list \<Rightarrow> nat list" where
  "bytes_of evs = concat (map (\<lambda>ev. case ev of EvByte b \<Rightarrow> [b] | _ \<Rightarrow> []) evs)"

definition keeps_open :: "'r event \<Rightarrow> bool" where
  "keeps_open ev \<longleftrightarrow> ev \<noteq> EvEndOfStream \<and> ev \<noteq> EvShutdown"

definition served :: "('r, 'c) conn_env \<Rightarrow> nat list \<Rightarrow> bool" where
  "served E f \<longleftrightarrow> (\<exists>m r. ce_decode_message E f = Some m \<and> ce_route E m = Inr r)"

lemma other_event_keeps:
  assumes "cn_phase c = Serving" and "cn_write_ok c = []" and "keeps_open ev"
    and "\<And>b. ev \<noteq> EvByte b"
  shows "cn_phase (conn_step E ev c) = Serving \<and> cn_write_ok (conn_step E ev c) = []
    \<and> cn_pending (conn_step E ev c) = cn_pending c \<and> cn_routed (conn_step E ev c) = cn_routed c"
  using assms loop_top_ok [of "write_message (auth_status_message (cn_auth c)) (c\<lparr>cn_auth_changed := False\<rparr>)"]
    loop_top_ok [of c]
  by (cases ev) (auto simp: conn_step_def keeps_open_def write_ok loop_top_ok)

lemma message_served:
  assumes "cn_phase c = Serving" and "cn_write_ok c = []" and "served E f"
  shows "cn_phase (handle_message E f c) = Serving \<and> cn_write_ok (handle_message E f c) = []
    \<and> cn_pending (handle_message E f c) = cn_pending c
    \<and> map Some (cn_routed (handle_message E f c)) = map Some (cn_routed c) @ [ce_decode_message E f]"
  using assms
  by (auto simp: handle_message_def served_def Let_def write_ok loop_top_ok split: option.split)

lemma run_frames:
  assumes "cn_phase c = Serving" and "cn_write_ok c = []" and "list_all keeps_open evs"
    and "frames_of (cn_pending c) (bytes_of evs) = (fs, r)" and "list_all (served E) fs"
    and "list_all (\<lambda>f. length f \<le> 65536) fs" and "length r \<le> 65536"
  shows "cn_phase (fold (conn_step E) evs c) = Serving \<and> cn_pending (fold (conn_step E) evs c) = r
    \<and> map Some (cn_routed (fold (conn_step E) evs c)) = map Some (cn_routed c) @ map (ce_decode_message E) fs"
  using assms
proof (induction evs arbitrary: c fs)
  case Nil
  then show ?case by (simp add: bytes_of_def)
next
  case (Cons ev evs)
  show ?case
  proof (cases "\<exists>b. ev = EvByte b")
    case False
    then have "bytes_of (ev # evs) = bytes_of evs" by (cases ev) (auto simp: bytes_of_def)
    with Cons.prems other_event_keeps [of c ev E] False Cons.IH [of "conn_step E ev c" fs] show ?thesis
      by auto
  next
    case True
    then obtain b where ev: "ev = EvByte b" by blast
    have bytes: "frames_of (cn_pending c) (b # bytes_of evs) = (fs, r)"
      using Cons.prems(4) by (simp add: ev bytes_of_def)
    show ?thesis
    proof (cases "b = 10")
      case True
      then obtain gs where gs: "fs = cn_pending c # gs" "frames_of [] (bytes_of evs) = (gs, r)"
        using bytes by (auto split: prod.splits)
      let ?d = "handle_message E (cn_pending c) (c\<lparr>cn_pending := []\<rparr>)"
      have step: "conn_step E ev c = ?d"
        using Cons.prems(1) by (simp add: conn_step_def ev True running_def)
      have "served E (cn_pending c)" using Cons.prems(5) gs by simp
      then have d: "cn_phase ?d = Serving" "cn_write_ok ?d = []" "cn_pending ?d = []"
        "map Some (cn_routed ?d) = map Some (cn_routed c) @ [ce_decode_message E (cn_pending c)]"
        using message_served [of "c\<lparr>cn_pending := []\<rparr>" E "cn_pending c"] Cons.prems(1,2) by simp_all
      show ?thesis
        using Cons.IH [of ?d gs] d Cons.prems gs by (simp add: step)
    next
      case False
      let ?d = "c\<lparr>cn_pending := cn_pending c @ [b]\<rparr>"
      have rest: "frames_of (cn_pending c @ [b]) (bytes_of evs) = (fs, r)"
        using bytes False by simp
      have "length (cn_pending c @ [b]) \<le> 65536"
        using frames_of_longer [OF rest] Cons.prems(6,7) by (cases fs) auto
      then have "conn_step E ev c = ?d"
        using Cons.prems(1) False by (simp add: conn_step_def ev running_def MAX_FRAME_BYTES_def)
      then show ?thesis using Cons.IH [of ?d fs] Cons.prems rest by simp
    qed
  qed
qed

text \<open>
  C20: Frames survive interruption. Feed a serving connection the newline-terminated encoding of
  a list of frames, byte by byte, with any other events (authentication changes, enqueued
  messages, notifications, alerts) between any two bytes: as long as each frame fits the limit,
  decodes and is routed without error and the client accepts the writes, exactly these frames
  are routed, once each and in order, and no partial frame is left behind.
\<close>

theorem frames_survive_interruption:
  assumes "cn_phase c = Serving" and "cn_pending c = []" and "cn_write_ok c = []"
    and "list_all keeps_open evs" and "bytes_of evs = concat (map (\<lambda>f. f @ [10]) fs)"
    and "list_all (\<lambda>f. 10 \<notin> set f \<and> length f \<le> 65536 \<and> served E f) fs"
  shows "cn_phase (fold (conn_step E) evs c) = Serving \<and> cn_pending (fold (conn_step E) evs c) = []
    \<and> map Some (cn_routed (fold (conn_step E) evs c)) = map Some (cn_routed c) @ map (ce_decode_message E) fs"
proof (rule run_frames)
  show "frames_of (cn_pending c) (bytes_of evs) = (fs, [])"
    using assms by (auto simp: list_all_iff intro!: frames_round_trip)
qed (use assms in \<open>auto simp: list_all_iff\<close>)

definition sample_conn_env :: "(nat, nat list) conn_env" where
  "sample_conn_env = \<lparr>ce_decode_hello = \<lambda>_. Some 33, ce_decode_message = Some,
     ce_route = \<lambda>_. Inr None, ce_max_errors = 3, ce_auth_states = True\<rparr>"

definition sample_conn :: "(nat, nat list) conn" where
  "sample_conn = \<lparr>cn_phase = Serving, cn_errors = 0, cn_pending = [], cn_written = [], cn_routed = [],
     cn_queue = [], cn_auth = NeedsReauth, cn_auth_changed = False, cn_write_ok = []\<rparr>"

theorem frames_survive_interruption_witness:
  "map Some (cn_routed (fold (conn_step sample_conn_env)
      [EvByte 123, EvEnqueue 5 (Other 1), EvNotified, EvByte 125, EvByte 10] sample_conn))
   = [Some [123, 125]]"
  using frames_survive_interruption [of sample_conn
      "[EvByte 123, EvEnqueue 5 (Other 1), EvNotified, EvByte 125, EvByte 10]" "[[123, 125]]" sample_conn_env]
  by (simp add: sample_conn_def sample_conn_env_def keeps_open_def bytes_of_def served_def)

section \<open>The handshake and the error budget\<close>

fun handshake_message :: "'r server_message \<Rightarrow> bool" where
  "handshake_message (ServerHello v) = (v = 33)"
| "handshake_message MalformedMessage = True"
| "handshake_message (VersionMismatch s c) = (s = 33 \<and> c \<noteq> 33)"
| "handshake_message _ = False"

definition greeted :: "('r, 'c) conn \<Rightarrow> bool" where
  "greeted c \<longleftrightarrow> Acknowledged \<in> set (cn_written c)"

definition polite :: "('r, 'c) conn \<Rightarrow> bool" where
  "polite c \<longleftrightarrow> (greeted c \<or> cn_routed c = [] \<and> list_all handshake_message (cn_written c))
     \<and> (cn_phase c = Serving \<longrightarrow> greeted c)"

definition within_budget :: "('r, 'c) conn_env \<Rightarrow> ('r, 'c) conn \<Rightarrow> bool" where
  "within_budget E c \<longleftrightarrow> cn_errors c \<le> max 1 (ce_max_errors E)
     \<and> (running (cn_phase c) \<longrightarrow> cn_errors c = 0 \<or> cn_errors c < ce_max_errors E)"

lemma polite_write:
  assumes "polite c" and "greeted c \<or> handshake_message m"
  shows "polite (write_message m c)"
  using assms write_written [of m c] by (auto simp: polite_def greeted_def)

lemma polite_grow:
  assumes "polite c" and "cn_phase c = Serving" and "cn_written d = cn_written c @ ms"
  shows "polite d"
  using assms by (auto simp: polite_def greeted_def)

lemma polite_loop_top: "polite c \<Longrightarrow> polite (loop_top c)"
  using loop_top_written [of c] polite_grow [of c] by (cases "cn_phase c = Serving") (auto simp: loop_top_def)

lemma polite_irrelevant:
  "polite (c\<lparr>cn_errors := n\<rparr>) = polite c" "polite (c\<lparr>cn_pending := p\<rparr>) = polite c"
  "polite (c\<lparr>cn_queue := q\<rparr>) = polite c" "polite (c\<lparr>cn_auth := a\<rparr>) = polite c"
  "polite (c\<lparr>cn_auth_changed := b\<rparr>) = polite c"
  by (simp_all add: polite_def greeted_def)

lemma polite_close: "polite c \<Longrightarrow> ph \<noteq> Serving \<Longrightarrow> polite (c\<lparr>cn_phase := ph\<rparr>)"
  by (auto simp: polite_def greeted_def)

lemma polite_malformed: "polite c \<Longrightarrow> polite (write_malformed E c)"
  by (auto simp: write_malformed_def Let_def polite_irrelevant intro!: polite_close polite_write)

lemma polite_greeted_status:
  fixes E :: "('r, 'c) conn_env" and c :: "('r, 'c) conn"
  assumes "polite c" and "greeted c"
  defines "e \<equiv> if ce_auth_states E then write_message (auth_status_message (cn_auth c)) c else c"
  shows "polite e \<and> polite (loop_top (e\<lparr>cn_phase := Serving\<rparr>))"
proof -
  have "polite e" using assms by (auto intro!: polite_write)
  moreover have "greeted e"
    using assms(2) write_written [of "auth_status_message (cn_auth c)" c] by (auto simp: greeted_def e_def)
  moreover from calculation have "polite (e\<lparr>cn_phase := Serving\<rparr>)" by (simp add: polite_def greeted_def)
  ultimately show ?thesis by (simp add: polite_loop_top)
qed

lemma polite_hello:
  assumes "polite c" shows "polite (handle_hello E f c)"
proof (cases "ce_decode_hello E f")
  case None
  with assms show ?thesis by (simp add: handle_hello_def polite_malformed)
next
  case (Some v)
  let ?d = "write_message Acknowledged c"
  have ack: "polite ?d"
    using write_written [of Acknowledged c] assms by (auto simp: polite_def greeted_def)
  have greet: "greeted ?d" if "running (cn_phase ?d)"
    using that write_written [of Acknowledged c] by (auto simp: greeted_def running_def)
  have "polite (handle_hello E f c)" if "v = PROTOCOL_VERSION"
    using polite_greeted_status [OF ack greet, of E] ack that Some
    by (cases "running (cn_phase ?d)") (simp_all add: handle_hello_def Let_def)
  then show ?thesis
    using Some assms polite_write [of c "VersionMismatch PROTOCOL_VERSION v"]
    by (auto simp: handle_hello_def Let_def PROTOCOL_VERSION_def polite_close)
qed

lemma polite_message:
  assumes "polite c" and "cn_phase c = Serving" shows "polite (handle_message E f c)"
proof -
  have g: "greeted c" using assms by (simp add: polite_def)
  have "polite (c\<lparr>cn_routed := r\<rparr>)" for r using g assms by (simp add: polite_def greeted_def)
  then show ?thesis
    unfolding handle_message_def Let_def
    by (intro polite_loop_top)
      (auto split: option.split sum.split simp: assms g [unfolded greeted_def] greeted_def
        intro!: polite_malformed polite_write)
qed

lemma polite_ignoring: "polite c \<Longrightarrow> greeted c \<Longrightarrow> polite (write_ignoring q c) \<and> greeted (write_ignoring q c)"
proof (induction q c rule: write_ignoring.induct)
  case (2 m u q c)
  let ?d = "(write_message m c)\<lparr>cn_phase := cn_phase c\<rparr>"
  have "polite ?d" "greeted ?d"
    using 2(2,3) write_written [of m c] by (auto simp: polite_def greeted_def)
  then show ?case using 2(1) by simp
qed (simp add: polite_irrelevant greeted_def)

lemma polite_step: "polite c \<Longrightarrow> polite (conn_step E ev c)"
proof (cases ev)
  case (EvByte b)
  then show "polite c \<Longrightarrow> ?thesis"
    by (auto simp: conn_step_def polite_irrelevant running_def
        intro!: polite_hello polite_message polite_close)
next
  case EvShutdown
  then show "polite c \<Longrightarrow> ?thesis"
    using polite_ignoring [of c "cn_queue c"]
    by (auto simp: conn_step_def polite_def [of c] intro!: polite_close)
qed (auto simp: conn_step_def polite_irrelevant greeted_def polite_def [of c]
    intro!: polite_loop_top polite_write polite_close)

lemma budget_same:
  assumes "within_budget E c" and "cn_errors d = cn_errors c"
    and "running (cn_phase d) \<Longrightarrow> running (cn_phase c)"
  shows "within_budget E d"
  using assms by (auto simp: within_budget_def)

lemma running_write: "running (cn_phase (write_message m c)) \<Longrightarrow> running (cn_phase c)"
  using write_written [of m c] by (auto simp: running_def)

lemma running_loop_top: "running (cn_phase (loop_top c)) \<Longrightarrow> running (cn_phase c)"
  using loop_top_written [of c] by (auto simp: running_def)

lemma budget_malformed:
  assumes "within_budget E c" and "running (cn_phase c)"
  shows "within_budget E (write_malformed E c)"
  using assms by (auto simp: write_malformed_def within_budget_def Let_def running_def)

lemma budget_write: "within_budget E c \<Longrightarrow> within_budget E (write_message m c)"
  by (erule budget_same) (auto dest: running_write)

lemma budget_loop_top: "within_budget E c \<Longrightarrow> within_budget E (loop_top c)"
  by (erule budget_same) (auto dest: running_loop_top)

lemma budget_hello:
  assumes "within_budget E c" and "running (cn_phase c)"
  shows "within_budget E (handle_hello E f c)"
proof -
  have phase: "within_budget E (d\<lparr>cn_phase := ph\<rparr>)"
    if "within_budget E d" "running ph \<Longrightarrow> running (cn_phase d)" for d :: "('a, 'b) conn" and ph
    using that by (auto simp: within_budget_def)
  show ?thesis
    using assms
    by (auto simp: handle_hello_def Let_def running_def [of Closed] split: option.split
        intro!: budget_malformed phase budget_write budget_loop_top)
qed

lemma budget_message:
  assumes "within_budget E c" and "running (cn_phase c)"
  shows "within_budget E (handle_message E f c)"
proof -
  have "within_budget E (c\<lparr>cn_routed := r\<rparr>)" for r using assms by (simp add: within_budget_def)
  then show ?thesis
    unfolding handle_message_def Let_def
    by (intro budget_loop_top)
      (auto simp: assms split: option.split sum.split intro!: budget_malformed budget_write)
qed

lemma ignoring_errors: "cn_errors (write_ignoring q c) = cn_errors c"
  by (induction q c rule: write_ignoring.induct) auto

lemma budget_step:
  assumes "within_budget E c" shows "within_budget E (conn_step E ev c)"
proof -
  have fields: "within_budget E (c\<lparr>cn_pending := p\<rparr>)" "within_budget E (c\<lparr>cn_auth_changed := b\<rparr>)"
    "within_budget E (c\<lparr>cn_queue := q\<rparr>)" "within_budget E (c\<lparr>cn_auth := a, cn_auth_changed := True\<rparr>)"
    "within_budget E (c\<lparr>cn_pending := p, cn_phase := Failed e\<rparr>)"
    "within_budget E (c\<lparr>cn_pending := p, cn_phase := Closed\<rparr>)" for p b q a e
    using assms by (auto simp: within_budget_def running_def)
  have shut: "within_budget E ((write_ignoring q c)\<lparr>cn_phase := Closed\<rparr>)" for q
    using assms by (auto simp: within_budget_def running_def ignoring_errors)
  show ?thesis
    by (cases ev)
      (auto simp: conn_step_def assms fields shut
        intro!: budget_hello budget_message budget_loop_top budget_write)
qed

text \<open>
  C21: Nothing happens before the handshake, and errors are bounded. In every state a connection
  can reach, by any events and any write failures: either the client's version was acknowledged,
  or no message was routed and only the greeting, malformed-message replies and a version
  mismatch were written, in particular no pushed message; and the connection never counts more
  errors than its limit (one, if the limit is zero) and is over once it reaches it.
\<close>

theorem handshake_comes_first:
  fixes evs :: "'r event list" and E :: "('r, 'c) conn_env" and q :: "'r queued list"
    and st :: auth_state and oks :: "bool list"
  defines "c \<equiv> fold (conn_step E) evs (open_connection q st oks)"
  shows "(Acknowledged \<in> set (cn_written c)
       \<or> cn_routed c = [] \<and> list_all handshake_message (cn_written c))
     \<and> cn_errors c \<le> max 1 (ce_max_errors E)
     \<and> (cn_errors c = 0 \<or> cn_errors c < ce_max_errors E \<or> cn_phase c \<in> {Closed} \<union> range Failed)"
proof -
  let ?o = "open_connection q st oks :: ('r, 'c) conn"
  have start: "polite ?o" "within_budget E ?o"
    by (auto simp: open_connection_def polite_def greeted_def within_budget_def PROTOCOL_VERSION_def
        write_message_def split: list.split)
  have "keeping polite ?o c" "keeping (within_budget E) ?o c"
    unfolding c_def by (rule keeping.run, simp add: keeping_def polite_step budget_step)+
  with start have "polite c" "within_budget E c" by (simp_all add: keeping_def)
  then show ?thesis
    by (cases "cn_phase c") (auto simp: polite_def within_budget_def greeted_def running_def)
qed

section \<open>The push queue\<close>

datatype 'r queue_op = QEnqueue "'r server_message" | QUrgent "'r server_message" | QPop

fun exec_queue :: "nat \<Rightarrow> 'r queue_op \<Rightarrow> 'r queued list \<times> 'r queued list \<Rightarrow> 'r queued list \<times> 'r queued list" where
  "exec_queue cap (QEnqueue m) (q, out) = (enqueue cap m q, out)"
| "exec_queue cap (QUrgent m) (q, out) = (enqueue_urgent m q, out)"
| "exec_queue cap QPop (q, out) = (snd (try_pop q), out @ take 1 q)"

fun urgent_in :: "'r queue_op \<Rightarrow> 'r queued multiset" where
  "urgent_in (QUrgent m) = {#(m, True)#}"
| "urgent_in _ = {#}"

lemma evict_facts:
  "remove_first_evictable q = Some q' \<Longrightarrow>
     filter snd q' = filter snd q \<and> Suc (length (filter (\<lambda>x. \<not> snd x) q')) = length (filter (\<lambda>x. \<not> snd x) q)"
  by (induction q arbitrary: q') (auto split: if_splits)

lemma enqueue_urgent_kept: "filter snd (enqueue cap m q) = filter snd q"
  using evict_facts [of q] by (auto simp: enqueue_def split: option.split)

lemma enqueue_bound:
  assumes "length (filter (\<lambda>x. \<not> snd x) q) \<le> cap"
  shows "length (filter (\<lambda>x. \<not> snd x) (enqueue cap m q)) \<le> cap"
proof (cases "cap \<le> length q")
  case True
  with assms evict_facts [of q] show ?thesis by (auto simp: enqueue_def split: option.split)
next
  case False
  then have "length (filter (\<lambda>x. \<not> snd x) q) < cap"
    using le_less_trans [OF length_filter_le, of q cap "\<lambda>x. \<not> snd x"] by simp
  with False show ?thesis by (simp add: enqueue_def)
qed

lemma enqueue_urgent_mset: "filter_mset snd (mset (enqueue cap m q)) = filter_mset snd (mset q)"
  by (metis enqueue_urgent_kept mset_filter)

text \<open>
  C22: Urgent messages are never dropped by the queue. Through any sequence of enqueues, urgent
  enqueues and pops from the empty queue, the urgent messages popped together with those still
  queued are exactly those enqueued, and the queue never holds more routine messages than its
  capacity.
\<close>

theorem urgent_messages_are_never_evicted:
  fixes ops :: "'r queue_op list" and cap :: nat
  defines "res \<equiv> fold (exec_queue cap) ops ([], [])"
  shows "mset (filter snd (fst res)) + mset (filter snd (snd res)) = (\<Sum>x \<leftarrow> ops. urgent_in x)
     \<and> length (filter (\<lambda>x. \<not> snd x) (fst res)) \<le> cap"
proof -
  have "mset (filter snd (fst (fold (exec_queue cap) ops (q, out))))
      + mset (filter snd (snd (fold (exec_queue cap) ops (q, out))))
      = mset (filter snd q) + mset (filter snd out) + (\<Sum>x \<leftarrow> ops. urgent_in x)
     \<and> length (filter (\<lambda>x. \<not> snd x) (fst (fold (exec_queue cap) ops (q, out)))) \<le> cap"
    if "length (filter (\<lambda>x. \<not> snd x) q) \<le> cap" for q out
    using that
  proof (induction ops arbitrary: q out)
    case (Cons x ops)
    obtain q' out' where step: "exec_queue cap x (q, out) = (q', out')" by fastforce
    have "mset (filter snd q') + mset (filter snd out')
        = mset (filter snd q) + mset (filter snd out) + urgent_in x
      \<and> length (filter (\<lambda>x. \<not> snd x) q') \<le> cap"
      using step Cons.prems
      by (cases x)
        (auto simp: enqueue_urgent_mset enqueue_bound enqueue_urgent_def try_pop_def
          split: list.split if_splits)
    then show ?case using Cons.IH [of q' out'] step by (simp add: ac_simps)
  qed simp
  from this [of "[]" "[]"] show ?thesis unfolding res_def by simp
qed

section \<open>A slow client\<close>

text \<open>
  What a connection owes its client: the messages queued when it opened and those pushed since.
  \<open>missing\<close> is what of it is neither written nor queued; a state is \<open>accounted\<close> for when that is at
  most one message, and none unless the connection ended in a failed write.
\<close>

definition missing :: "'r server_message multiset \<Rightarrow> 'r queued list \<Rightarrow> ('r, 'c) conn \<Rightarrow> 'r server_message multiset" where
  "missing owed q c = owed - mset (cn_written c) - mset (map fst q)"

definition accounted :: "('r queued \<Rightarrow> bool) \<Rightarrow> 'r server_message multiset \<Rightarrow> ('r, 'c) conn \<Rightarrow> bool" where
  "accounted K owed c \<longleftrightarrow> (let lost = missing owed (filter K (cn_queue c)) c in
     size lost \<le> 1 \<and> (lost = {#} \<or> cn_phase c = Failed IpcTransport))"

fun pushed :: "'r event \<Rightarrow> 'r server_message multiset" where
  "pushed (EvEnqueue _ m) = {#m#}"
| "pushed (EvEnqueueUrgent m) = {#m#}"
| "pushed _ = {#}"

fun pushed_urgent :: "'r event \<Rightarrow> 'r server_message multiset" where
  "pushed_urgent (EvEnqueueUrgent m) = {#m#}"
| "pushed_urgent _ = {#}"

lemma accounted_running:
  "running (cn_phase c) \<Longrightarrow> accounted K T c \<longleftrightarrow> T \<subseteq># mset (cn_written c) + mset (map fst (filter K (cn_queue c)))"
  by (auto simp: accounted_def missing_def running_def Let_def subset_eq_diff_conv diff_diff_add
      simp flip: Diff_eq_empty_iff_mset)

lemma accounted_phase: "running (cn_phase c) \<Longrightarrow> accounted K T c \<Longrightarrow> accounted K T (c\<lparr>cn_phase := p\<rparr>)"
  by (auto simp: accounted_def missing_def running_def Let_def)

lemma accounted_irrelevant [simp]:
  "accounted K T (c\<lparr>cn_errors := n\<rparr>) = accounted K T c" "accounted K T (c\<lparr>cn_pending := p\<rparr>) = accounted K T c"
  "accounted K T (c\<lparr>cn_routed := r\<rparr>) = accounted K T c" "accounted K T (c\<lparr>cn_auth := a\<rparr>) = accounted K T c"
  "accounted K T (c\<lparr>cn_auth_changed := b\<rparr>) = accounted K T c"
  by (simp_all add: accounted_def missing_def)

lemma accounted_write: "accounted K T c \<Longrightarrow> accounted K T (write_message m c)"
proof -
  assume a: "accounted K T c"
  have "T - (add_mset m A) - B \<subseteq># T - A - B" for A B
    by (rule mset_subset_eqI) auto
  note sub = this [of "mset (cn_written c)" "mset (map fst (filter K (cn_queue c)))"]
  from a size_mset_mono [OF sub] sub write_written [of m c] show ?thesis
    by (auto simp: accounted_def missing_def Let_def)
qed

lemma accounted_pop:
  assumes "running (cn_phase c)" and "accounted K T (c\<lparr>cn_queue := (m, u) # q\<rparr>)"
  shows "accounted K T (write_message m (c\<lparr>cn_queue := q\<rparr>))"
proof -
  let ?X = "mset (cn_written c) + mset (map fst (filter K q))"
  have T: "T \<subseteq># add_mset m ?X"
    using assms by (auto simp: accounted_running split: if_splits intro: subset_mset.trans)
  then have "T - ?X \<subseteq># {#m#}" by (simp add: subset_eq_diff_conv)
  then have "size (T - ?X) \<le> 1" using size_mset_mono by fastforce
  with T show ?thesis
    using write_written [of m "c\<lparr>cn_queue := q\<rparr>"] assms(1)
    by (auto simp: accounted_def missing_def Let_def diff_diff_add simp flip: Diff_eq_empty_iff_mset)
qed

lemma accounted_drain:
  "running (cn_phase c) \<Longrightarrow> accounted K T (c\<lparr>cn_queue := q\<rparr>) \<Longrightarrow> accounted K T (drain_queue q c)"
proof (induction q c rule: drain_queue.induct)
  case (2 m u q c)
  let ?d = "write_message m (c\<lparr>cn_queue := q\<rparr>)"
  have d: "accounted K T ?d" using accounted_pop 2(2,3) by blast
  have "?d\<lparr>cn_queue := q\<rparr> = ?d" by (auto simp: write_message_def split: list.split)
  with d have "accounted K T (?d\<lparr>cn_queue := q\<rparr>)" by (simp only:)
  with d show ?case using 2(1) [OF refl] 2(2) by (cases "cn_phase ?d = cn_phase c") (simp_all add: Let_def)
qed simp

lemma accounted_loop_top: "accounted K T c \<Longrightarrow> accounted K T (loop_top c)"
  using accounted_drain [of c K T "cn_queue c"] by (simp add: loop_top_def running_def)

lemma accounted_malformed: "accounted K T c \<Longrightarrow> accounted K T (write_malformed E c)"
  by (auto simp: write_malformed_def Let_def intro!: accounted_phase accounted_write)

lemma accounted_hello: "accounted K T c \<Longrightarrow> accounted K T (handle_hello E f c)"
  by (auto simp: handle_hello_def Let_def split: option.split
      intro!: accounted_malformed accounted_phase accounted_loop_top accounted_write)

lemma accounted_message: "accounted K T c \<Longrightarrow> accounted K T (handle_message E f c)"
  by (auto simp: handle_message_def Let_def split: option.split sum.split
      intro!: accounted_malformed accounted_loop_top accounted_write)

lemma accounted_push:
  assumes "accounted K T c" and "mset (map fst (filter K (cn_queue c))) + P \<subseteq># mset (map fst (filter K q))"
  shows "accounted K (T + P) (c\<lparr>cn_queue := q\<rparr>)"
proof -
  have "T + P - A - B' \<subseteq># T - A - B" if "B + P \<subseteq># B'" for A B B' :: "'a server_message multiset"
  proof (rule mset_subset_eqI)
    fix x
    show "count (T + P - A - B') x \<le> count (T - A - B) x"
      using mset_subset_eq_count [OF that, of x] by simp
  qed
  from this [OF assms(2)] have sub: "missing (T + P) (filter K q) (c\<lparr>cn_queue := q\<rparr>)
      \<subseteq># missing T (filter K (cn_queue c)) c"
    by (simp add: missing_def)
  show ?thesis
    using assms(1) sub size_mset_mono [OF sub] by (auto simp: accounted_def Let_def)
qed

lemma accounted_other:
  assumes "accounted K T c" and "ev \<noteq> EvShutdown" and "pushed ev = {#}"
  shows "accounted K T (conn_step E ev c)"
  using assms
  by (cases ev)
    (auto simp: conn_step_def split: prod.split frame_result.split
      intro!: accounted_hello accounted_message accounted_loop_top accounted_write accounted_phase)

lemma accounted_step:
  assumes "accounted snd T c" and "ev \<noteq> EvShutdown"
  shows "accounted snd (T + pushed_urgent ev) (conn_step E ev c)"
proof (cases "pushed ev = {#}")
  case True
  moreover from this have "pushed_urgent ev = {#}" by (cases ev) auto
  ultimately show ?thesis using accounted_other [OF assms(1,2), of E] by simp
next
  case False
  then show ?thesis
    using assms(1) accounted_push [of snd T c "{#m#}" for m] accounted_push [of snd T c "{#}"]
    by (cases ev) (simp_all add: conn_step_def enqueue_urgent_mset enqueue_urgent_def)
qed

lemma accounted_step_all:
  assumes "accounted (\<lambda>_. True) T c" and "ev \<noteq> EvShutdown"
    and "\<And>cap m. ev = EvEnqueue cap m \<Longrightarrow> length (cn_queue c) < cap"
  shows "accounted (\<lambda>_. True) (T + pushed ev) (conn_step E ev c)"
proof (cases "pushed ev = {#}")
  case True
  then show ?thesis using accounted_other [OF assms(1,2), of E] by simp
next
  case False
  then show ?thesis
    using assms(1,3) accounted_push [of "\<lambda>_. True" T c "{#m#}" for m]
    by (cases ev) (simp_all add: conn_step_def enqueue_def enqueue_urgent_def)
qed

lemma drain_shortens: "length (cn_queue (drain_queue q c)) \<le> length q"
proof (induction q c rule: drain_queue.induct)
  case (2 m u q c)
  then show ?case by (auto simp: Let_def intro: le_SucI)
qed simp

lemma loop_top_shortens: "length (cn_queue (loop_top c)) \<le> length (cn_queue c)"
  by (simp add: loop_top_def drain_shortens)

lemma malformed_queue: "cn_queue (write_malformed E c) = cn_queue c"
  by (simp add: write_malformed_def Let_def)

lemma loop_top_grows_by_one: "cn_queue d = q \<Longrightarrow> length (cn_queue (loop_top d)) \<le> Suc (length q)"
  using loop_top_shortens [of d] by simp

lemma hello_queue: "length (cn_queue (handle_hello E f c)) \<le> Suc (length (cn_queue c))"
  by (auto simp: handle_hello_def Let_def malformed_queue split: option.split intro!: loop_top_grows_by_one)

lemma message_queue: "length (cn_queue (handle_message E f c)) \<le> Suc (length (cn_queue c))"
  by (auto simp: handle_message_def Let_def malformed_queue intro!: loop_top_grows_by_one
      split: option.split sum.split)

lemma enqueue_grows: "length (enqueue cap m q) \<le> Suc (length q)"
proof -
  have "remove_first_evictable q = Some q' \<Longrightarrow> length q' \<le> length q" for q'
    by (induction q arbitrary: q') (auto split: if_splits)
  then show ?thesis by (auto simp: enqueue_def split: option.split)
qed

lemma step_queue:
  assumes "ev \<noteq> EvShutdown" shows "length (cn_queue (conn_step E ev c)) \<le> Suc (length (cn_queue c))"
  using assms hello_queue [of E _ "c\<lparr>cn_pending := p\<rparr>" for p] message_queue [of E _ "c\<lparr>cn_pending := p\<rparr>" for p]
  by (cases ev)
    (auto simp: conn_step_def enqueue_grows enqueue_urgent_def split: prod.split frame_result.split
      intro!: loop_top_grows_by_one)

lemma accounted_run:
  "EvShutdown \<notin> set evs \<Longrightarrow> accounted snd T c \<Longrightarrow>
     accounted snd (T + (\<Sum>ev \<leftarrow> evs. pushed_urgent ev)) (fold (conn_step E) evs c)"
proof (induction evs arbitrary: T c)
  case (Cons ev evs)
  then show ?case using accounted_step [of T c ev E] by (auto simp: add.assoc [symmetric])
qed simp

lemma accounted_run_all:
  "EvShutdown \<notin> set evs \<Longrightarrow> accounted (\<lambda>_. True) T c \<Longrightarrow>
   \<forall>cap m. EvEnqueue cap m \<in> set evs \<longrightarrow> length (cn_queue c) + length evs \<le> cap \<Longrightarrow>
     accounted (\<lambda>_. True) (T + (\<Sum>ev \<leftarrow> evs. pushed ev)) (fold (conn_step E) evs c)"
proof (induction evs arbitrary: T c)
  case (Cons ev evs)
  have "accounted (\<lambda>_. True) (T + pushed ev) (conn_step E ev c)"
    using Cons.prems accounted_step_all [of T c ev E] by fastforce
  moreover have "length (cn_queue (conn_step E ev c)) + length evs \<le> length (cn_queue c) + length (ev # evs)"
    using step_queue [of ev E c] Cons.prems(1) by auto
  ultimately show ?case
    using Cons.IH [of "T + pushed ev" "conn_step E ev c"] Cons.prems by (fastforce simp: add.assoc)
qed simp

text \<open>
  C23: A disconnect loses at most the message being written. Open a connection over any queue and
  run it over any events short of shutdown, with any writes failing or timing out. Of the urgent
  messages queued at the start or pushed since, at most one is neither written nor still queued for
  the next connection, and that only if the connection ended in a failed write. The same holds of
  all messages when no push meets a full queue.
\<close>

theorem disconnect_loses_at_most_one_message:
  fixes E :: "('r, 'c) conn_env" and q :: "'r queued list" and evs :: "'r event list"
    and st :: auth_state and oks :: "bool list"
  defines "c \<equiv> fold (conn_step E) evs (open_connection q st oks)"
  defines "urgent_lost \<equiv> missing (mset (map fst (filter snd q)) + (\<Sum>ev \<leftarrow> evs. pushed_urgent ev))
             (filter snd (cn_queue c)) c"
    and "lost \<equiv> missing (mset (map fst q) + (\<Sum>ev \<leftarrow> evs. pushed ev)) (cn_queue c) c"
  assumes "EvShutdown \<notin> set evs"
  shows "size urgent_lost \<le> 1 \<and> (urgent_lost = {#} \<or> cn_phase c = Failed IpcTransport)
    \<and> ((\<forall>cap m. EvEnqueue cap m \<in> set evs \<longrightarrow> length q + length evs \<le> cap)
        \<longrightarrow> size lost \<le> 1 \<and> (lost = {#} \<or> cn_phase c = Failed IpcTransport))"
proof -
  have start: "accounted K (mset (map fst (filter K q))) (open_connection q st oks :: ('r, 'c) conn)" for K
    unfolding open_connection_def by (rule accounted_write) (simp add: accounted_def missing_def)
  have "cn_queue (open_connection q st oks :: ('r, 'c) conn) = q" by (simp add: open_connection_def)
  then show ?thesis
    using accounted_run [OF assms(4) start [of snd], of E] accounted_run_all [OF assms(4) start [of "\<lambda>_. True"], of E]
    by (simp add: accounted_def c_def urgent_lost_def lost_def Let_def)
qed

theorem disconnect_loses_at_most_one_message_witness:
  "let evs = [EvEnqueueUrgent (NeedsReauthMessage ''b''), EvEnqueue 50 (CacheEmpty (of_str ''c'')),
              EvByte 123, EvByte 10];
       q = [(DeviceRevokedMessage ''a'', True)];
       c = fold (conn_step sample_conn_env) evs (open_connection q NeedsReauth [True, True, True, True, False])
   in cn_phase c = Failed IpcTransport
     \<and> cn_queue c = [(CacheEmpty (of_str ''c''), False)]
     \<and> NeedsReauthMessage ''b'' \<in> set (cn_written c) \<and> DeviceRevokedMessage ''a'' \<notin> set (cn_written c)
     \<and> size (missing (mset (map fst (filter snd q)) + (\<Sum>ev \<leftarrow> evs. pushed_urgent ev))
          (filter snd (cn_queue c)) c) \<le> 1"
  using disconnect_loses_at_most_one_message [of "[EvEnqueueUrgent (NeedsReauthMessage ''b''),
      EvEnqueue 50 (CacheEmpty (of_str ''c'')), EvByte 123, EvByte 10]" "[(DeviceRevokedMessage ''a'', True)]"
      sample_conn_env NeedsReauth "[True, True, True, True, False]"]
  by (simp add: sample_conn_env_def open_connection_def write_message_def conn_step_def
      enqueue_urgent_def enqueue_def handle_hello_def running_def PROTOCOL_VERSION_def MAX_FRAME_BYTES_def
      loop_top_def auth_status_message_def Let_def missing_def)

end
