(* ===== verification/Initiation.thy ===== *)
theory Initiation
  imports Focus Block_Evidence Block_Store
begin

text \<open>
  Good-hours windows and the capped invitation (\<^verbatim>\<open>initiation/mod.rs\<close> and the
  \<^verbatim>\<open>InitiationRepo\<close> statements of \<^verbatim>\<open>persistence/sqlite.rs\<close>): the dwell of completed blocks
  is bucketed by local weekday and hour, and an hour with enough of it may extend one
  invitation, which backs off as it is dismissed.

  The state holds the invitation table in \<^verbatim>\<open>rowid\<close> order, the settings singleton, and the
  two stores the production gates read: the work-block tables and the focus tables. Stored
  instants are whole seconds. Parameters: \<open>ie_format_date\<close> prints a local day number, and
  \<open>ie_uuid_string\<close> and \<open>ie_parse_uuid\<close> are the UUID library's. The id \<^verbatim>\<open>Uuid::new_v4\<close>
  draws is an argument. Adding a duration past the last representable instant panics.
  Failures of the database itself are not modelled.
\<close>

datatype initiation_error = InitiationSqlite | InitiationPanicked

datatype invitation_outcome = InvOffered | InvAccepted | InvDismissed | InvNoResponse | InvExpired

record invitation_record =
  ii_invitation_id :: string
  ii_offered_at :: instant
  ii_local_date :: string
  ii_action_id :: string
  ii_policy_version :: nat
  ii_backoff_policy_version :: nat
  ii_outcome :: invitation_outcome
  ii_outcome_at :: "instant option"

record dwell_span =
  ds_block_id :: string
  ds_started_at :: instant
  ds_ended_at :: instant

type_synonym uuid = "128 word"

record initiation_invitation =
  iv_id :: uuid
  iv_action :: string
  iv_body :: ustr
  iv_duration_seconds :: nat
  iv_policy_version :: nat

record init_env =
  ie_format_date :: "int \<Rightarrow> string"
  ie_uuid_string :: "uuid \<Rightarrow> string"
  ie_parse_uuid :: "string \<Rightarrow> uuid option"

record initiation =
  in_invitations :: "invitation_record list"
  in_settings :: "(bool \<times> int) option"
  in_blocks :: wb_state
  in_focus :: focus

type_synonym 'a init_op = "(initiation, initiation_error, 'a) op"

datatype good_hours_assessment = InsufficientEvidence | OutsideGoodHours | GoodHour

section \<open>Policy constants\<close>

definition GOOD_HOURS_POLICY_VERSION :: nat where
  "GOOD_HOURS_POLICY_VERSION = 1"

definition GOOD_HOURS_LOOKBACK_DAYS :: int where
  "GOOD_HOURS_LOOKBACK_DAYS = 28"

definition GOOD_HOURS_MIN_TOTAL_COMPLETED_BLOCKS :: nat where
  "GOOD_HOURS_MIN_TOTAL_COMPLETED_BLOCKS = 6"

definition GOOD_HOURS_MIN_BUCKET_BLOCKS :: nat where
  "GOOD_HOURS_MIN_BUCKET_BLOCKS = 3"

definition GOOD_HOURS_MIN_BUCKET_DWELL_SECONDS :: nat where
  "GOOD_HOURS_MIN_BUCKET_DWELL_SECONDS = 45 * 60"

definition INVITATION_BACKOFF_POLICY_VERSION :: nat where
  "INVITATION_BACKOFF_POLICY_VERSION = 1"

definition INVITATION_DAILY_CAP :: nat where
  "INVITATION_DAILY_CAP = 1"

definition INVITATION_ACTION_ID :: string where
  "INVITATION_ACTION_ID = ''soft_start_25''"

definition INVITATION_DURATION_SECONDS :: nat where
  "INVITATION_DURATION_SECONDS = 25 * 60"

definition INVITATION_RESPONSE_TTL_SECONDS :: int where
  "INVITATION_RESPONSE_TTL_SECONDS = 30 * 60"

definition INVITATION_BASE_COOLDOWN_SECONDS :: int where
  "INVITATION_BASE_COOLDOWN_SECONDS = 24 * 60 * 60"

definition INVITATION_BACKOFF_COOLDOWN_MULTIPLIER :: nat where
  "INVITATION_BACKOFF_COOLDOWN_MULTIPLIER = 2"

definition INVITATION_SILENCE_DISMISSAL_THRESHOLD :: nat where
  "INVITATION_SILENCE_DISMISSAL_THRESHOLD = 3"

definition INVITATION_SILENCE_DAYS :: int where
  "INVITATION_SILENCE_DAYS = 30"

definition BACKOFF_SCAN_LIMIT :: nat where
  "BACKOFF_SCAN_LIMIT = 32"

lemmas initiation_policy_defs = GOOD_HOURS_POLICY_VERSION_def GOOD_HOURS_LOOKBACK_DAYS_def
  GOOD_HOURS_MIN_TOTAL_COMPLETED_BLOCKS_def GOOD_HOURS_MIN_BUCKET_BLOCKS_def
  GOOD_HOURS_MIN_BUCKET_DWELL_SECONDS_def INVITATION_BACKOFF_POLICY_VERSION_def
  INVITATION_DAILY_CAP_def INVITATION_ACTION_ID_def INVITATION_DURATION_SECONDS_def
  INVITATION_RESPONSE_TTL_SECONDS_def INVITATION_BASE_COOLDOWN_SECONDS_def
  INVITATION_BACKOFF_COOLDOWN_MULTIPLIER_def INVITATION_SILENCE_DISMISSAL_THRESHOLD_def
  INVITATION_SILENCE_DAYS_def BACKOFF_SCAN_LIMIT_def

section \<open>The tables\<close>

definition invitation_check :: "initiation \<Rightarrow> invitation_record \<Rightarrow> bool" where
  "invitation_check s r \<longleftrightarrow>
     ii_invitation_id r \<noteq> [] \<and> ii_invitation_id r \<notin> ii_invitation_id ` set (in_invitations s)
     \<and> length (ii_local_date r) = 10 \<and> ii_action_id r = ''soft_start_25''
     \<and> 1 \<le> ii_policy_version r \<and> 1 \<le> ii_backoff_policy_version r"

definition record_invitation :: "invitation_record \<Rightarrow> unit init_op" where
  "record_invitation r = (\<lambda>s. if invitation_check s r
     then (Inr (), s\<lparr>in_invitations := in_invitations s @ [r\<lparr>ii_offered_at := stored (ii_offered_at r),
        ii_outcome_at := map_option stored (ii_outcome_at r)\<rparr>]\<rparr>)
     else (Inl InitiationSqlite, s))"

definition invitation :: "string \<Rightarrow> invitation_record option init_op" where
  "invitation i = gets (\<lambda>s. find (\<lambda>r. ii_invitation_id r = i) (in_invitations s))"

definition open_invitation :: "invitation_record option init_op" where
  "open_invitation = gets (\<lambda>s.
     case sort_key (\<lambda>r. - ii_offered_at r) (filter (\<lambda>r. ii_outcome r = InvOffered) (in_invitations s))
     of [] \<Rightarrow> None | r # _ \<Rightarrow> Some r)"

definition recent_invitations :: "nat \<Rightarrow> invitation_record list init_op" where
  "recent_invitations n = gets (\<lambda>s.
     take n (rev (sort_key (\<lambda>r. (ii_offered_at r, ii_invitation_id r)) (in_invitations s))))"

definition resolve_row :: "string \<Rightarrow> invitation_outcome \<Rightarrow> instant \<Rightarrow> invitation_record \<Rightarrow> invitation_record"
where
  "resolve_row i oc tm r = (if ii_invitation_id r = i \<and> ii_outcome r = InvOffered
     then r\<lparr>ii_outcome := oc, ii_outcome_at := Some (stored tm)\<rparr> else r)"

definition resolve_invitation :: "string \<Rightarrow> invitation_outcome \<Rightarrow> instant \<Rightarrow> bool init_op" where
  "resolve_invitation i oc tm = (\<lambda>s.
     (Inr (list_ex (\<lambda>r. ii_invitation_id r = i \<and> ii_outcome r = InvOffered) (in_invitations s)),
      s\<lparr>in_invitations := map (resolve_row i oc tm) (in_invitations s)\<rparr>))"

definition invitations_on_local_date :: "string \<Rightarrow> nat init_op" where
  "invitations_on_local_date d = gets (\<lambda>s.
     length (filter (\<lambda>r. ii_local_date r = d) (in_invitations s)))"

definition invitations_enabled :: "bool init_op" where
  "invitations_enabled = gets (\<lambda>s. case in_settings s of None \<Rightarrow> True | Some (b, _) \<Rightarrow> b)"

definition set_invitations_enabled :: "bool \<Rightarrow> instant \<Rightarrow> unit init_op" where
  "set_invitations_enabled b tm = modify (\<lambda>s. s\<lparr>in_settings := Some (b, timestamp tm)\<rparr>)"

definition counted_block :: "instant \<Rightarrow> work_block_record \<Rightarrow> bool" where
  "counted_block since b \<longleftrightarrow> wb_phase b = Completed \<and> timestamp since \<le> timestamp (wb_started_at b)"

definition completed_block_count :: "instant \<Rightarrow> nat init_op" where
  "completed_block_count since = gets (\<lambda>s.
     length (filter (counted_block since) (t_work_block (in_blocks s))))"

definition confident_dwell :: "observation \<Rightarrow> bool" where
  "confident_dwell ob \<longleftrightarrow>
     (case ob_ended_at ob of None \<Rightarrow> False | Some e \<Rightarrow> timestamp (ob_occurred_at ob) < timestamp e)
     \<and> ob_status ob = Classified \<and> ob_confidence ob \<in> {High, Medium}
     \<and> to_ascii_lowercase (ob_category ob) \<notin> {''system'', ''unclassified'', ''unlogged''}"

definition dwell_span_of :: "string \<times> observation \<Rightarrow> dwell_span" where
  "dwell_span_of x = \<lparr>ds_block_id = fst x, ds_started_at = stored (ob_occurred_at (snd x)),
     ds_ended_at = stored (the (ob_ended_at (snd x)))\<rparr>"

definition completed_block_dwell_spans :: "instant \<Rightarrow> dwell_span list init_op" where
  "completed_block_dwell_spans since = gets (\<lambda>s.
     map dwell_span_of (sort_key (\<lambda>x. timestamp (ob_occurred_at (snd x)))
       (filter (\<lambda>(b, ob). confident_dwell ob
           \<and> list_ex (\<lambda>r. wb_block_id r = b \<and> counted_block since r) (t_work_block (in_blocks s)))
         (t_observation (in_blocks s)))))"

definition clear_invitations :: "nat init_op" where
  "clear_invitations = (\<lambda>s. (Inr (length (in_invitations s)), s\<lparr>in_invitations := []\<rparr>))"

section \<open>The gates\<close>

definition live_block_exists :: "bool init_op" where
  "live_block_exists = gets (\<lambda>s. case fst (latest (in_blocks s)) of
     Inr (Some r) \<Rightarrow> live (wb_phase r) | _ \<Rightarrow> False)"

definition in_quiet_hours :: "instant \<Rightarrow> bool init_op" where
  "in_quiet_hours now = gets (\<lambda>s. in_velvt_quiet_hours (in_focus s) now)"

definition in_quiet_hours_at :: "instant \<Rightarrow> int \<Rightarrow> bool init_op" where
  "in_quiet_hours_at now off = gets (\<lambda>s. in_velvt_quiet_hours_at (in_focus s) now off)"

definition focus_active :: "instant \<Rightarrow> bool init_op" where
  "focus_active now = gets (\<lambda>s. is_focus_active (in_focus s) now)"

text \<open>The three gates in the order the manager asks them; a closed one skips the rest.\<close>

definition suppressed :: "instant \<Rightarrow> bool init_op" where
  "suppressed now =
     andthen live_block_exists (\<lambda>b. if b then ret True
     else andthen (in_quiet_hours now) (\<lambda>q. if q then ret True else focus_active now))"

section \<open>Good hours\<close>

type_synonym bucket = "int \<times> int"

record tally =
  ta_seconds :: "(bucket \<times> nat) list"
  ta_blocks :: "(bucket \<times> string list) list"

text \<open>Days from Monday; the epoch was a Thursday.\<close>

definition num_days_from_monday :: "int \<Rightarrow> int" where
  "num_days_from_monday l = (l div 86400 + 3) mod 7"

definition bucket_of :: "int \<Rightarrow> bucket" where
  "bucket_of l = (num_days_from_monday l, local_hour l)"

fun add_block :: "(bucket \<times> string list) list \<Rightarrow> bucket \<Rightarrow> string \<Rightarrow> (bucket \<times> string list) list" where
  "add_block [] k b = [(k, [b])]"
| "add_block ((k', bs) # t) k b =
     (if k' = k then (k', List.insert b bs) # t else (k', bs) # add_block t k b)"

lemma next_hour_later: "0 < seconds (3600 - l mod 3600)"
proof -
  have "0 < 3600 - l mod 3600" using pos_mod_bound [of 3600 l] by simp
  then show ?thesis by (simp add: seconds_def)
qed

function split_span :: "int \<Rightarrow> string \<Rightarrow> instant \<Rightarrow> instant \<Rightarrow> tally \<Rightarrow> tally" where
  "split_span off b ended cursor ta =
     (if cursor < ended then
        let lt = to_local cursor off;
            next_hour = cursor + seconds (3600 - lt mod 3600);
            piece_end = min ended next_hour;
            secs = nat (max (num_seconds (piece_end - cursor)) 0)
        in split_span off b ended piece_end
             \<lparr>ta_seconds = add_seconds (ta_seconds ta) (bucket_of lt) secs,
              ta_blocks = add_block (ta_blocks ta) (bucket_of lt) b\<rparr>
      else ta)"
  by pat_completeness auto

termination
proof (relation "measure (\<lambda>(off, b, ended, cursor, ta). nat (ended - cursor))")
  fix ended cursor :: instant and off lt next_hour piece_end secs and b :: string and ta :: tally
  assume "cursor < ended" and "lt = to_local cursor off"
    and "next_hour = cursor + seconds (3600 - lt mod 3600)" and "piece_end = min ended next_hour"
  then have "cursor < piece_end" "piece_end \<le> ended" by (simp_all add: next_hour_later)
  then show "((off, b, ended, piece_end, \<lparr>ta_seconds = add_seconds (ta_seconds ta) (bucket_of lt) secs,
      ta_blocks = add_block (ta_blocks ta) (bucket_of lt) b\<rparr>), off, b, ended, cursor, ta)
    \<in> measure (\<lambda>(off, b, ended, cursor, ta). nat (ended - cursor))"
    by simp
qed simp

declare split_span.simps [simp del]

definition tally_spans :: "int \<Rightarrow> dwell_span list \<Rightarrow> tally" where
  "tally_spans off spans = fold (\<lambda>sp. split_span off (ds_block_id sp) (ds_ended_at sp) (ds_started_at sp))
     spans \<lparr>ta_seconds = [], ta_blocks = []\<rparr>"

definition qualifies :: "tally \<Rightarrow> bucket \<Rightarrow> bool" where
  "qualifies ta k \<longleftrightarrow>
     GOOD_HOURS_MIN_BUCKET_DWELL_SECONDS \<le> (case map_of (ta_seconds ta) k of None \<Rightarrow> 0 | Some n \<Rightarrow> n)
     \<and> GOOD_HOURS_MIN_BUCKET_BLOCKS
         \<le> (case map_of (ta_blocks ta) k of None \<Rightarrow> 0 | Some bs \<Rightarrow> length bs)"

definition assess_good_hours :: "instant \<Rightarrow> int \<Rightarrow> good_hours_assessment init_op" where
  "assess_good_hours now utc_offset =
     (let off = clamp_offset utc_offset; since = now - days GOOD_HOURS_LOOKBACK_DAYS in
      andthen (completed_block_count since) (\<lambda>n.
      if n < GOOD_HOURS_MIN_TOTAL_COMPLETED_BLOCKS then ret InsufficientEvidence
      else andthen (completed_block_dwell_spans since) (\<lambda>spans.
        let ta = tally_spans off spans in
        if \<not> list_ex (qualifies ta) (map fst (ta_seconds ta)) then ret InsufficientEvidence
        else if qualifies ta (bucket_of (to_local now off)) then ret GoodHour
        else ret OutsideGoodHours)))"

section \<open>The manager\<close>

text \<open>Copied word for word; 8212 is the em dash.\<close>

definition invitation_body :: ustr where
  "invitation_body = of_str ''You usually focus well around now '' @ [8212]
     @ of_str '' want a 25-minute soft start?''"

definition offer_payload :: "init_env \<Rightarrow> invitation_record \<Rightarrow> initiation_invitation" where
  "offer_payload E r = \<lparr>iv_id = (case ie_parse_uuid E (ii_invitation_id r) of None \<Rightarrow> 0 | Some u \<Rightarrow> u),
     iv_action = ii_action_id r, iv_body = invitation_body,
     iv_duration_seconds = INVITATION_DURATION_SECONDS, iv_policy_version = ii_policy_version r\<rparr>"

fun dismissal_loop ::
  "invitation_record list \<Rightarrow> nat \<Rightarrow> instant option \<Rightarrow> nat \<times> instant option" where
  "dismissal_loop [] n seen = (n, seen)"
| "dismissal_loop (r # rs) n seen =
     (case ii_outcome r of
        InvDismissed \<Rightarrow> dismissal_loop rs (sat_add n 1)
          (case seen of None \<Rightarrow> Some (case ii_outcome_at r of None \<Rightarrow> ii_offered_at r | Some t \<Rightarrow> t)
           | Some t \<Rightarrow> Some t)
      | InvAccepted \<Rightarrow> (n, seen)
      | _ \<Rightarrow> dismissal_loop rs n seen)"

definition trailing_dismissals :: "invitation_record list \<Rightarrow> nat \<times> instant option" where
  "trailing_dismissals recent = dismissal_loop recent 0 None"

text \<open>Adding a duration panics past the last representable instant.\<close>

definition plus_duration :: "instant \<Rightarrow> int \<Rightarrow> instant init_op" where
  "plus_duration t d = (if MAX_UTC < t + d then err InitiationPanicked else ret (t + d))"

definition invitation_cooldown :: "nat \<Rightarrow> int" where
  "invitation_cooldown n = min (INVITATION_BASE_COOLDOWN_SECONDS
     * int (min (INVITATION_BACKOFF_COOLDOWN_MULTIPLIER ^ min n BACKOFF_SCAN_LIMIT) u32_max))
     9223372036854775807"

definition settle_open :: "init_env \<Rightarrow> bool \<Rightarrow> invitation_record \<Rightarrow> instant
  \<Rightarrow> initiation_invitation option init_op" where
  "settle_open E enabled r now =
     (if \<not> enabled \<or> ii_policy_version r \<noteq> GOOD_HOURS_POLICY_VERSION
         \<or> ii_backoff_policy_version r \<noteq> INVITATION_BACKOFF_POLICY_VERSION
      then andthen (resolve_invitation (ii_invitation_id r) InvExpired now) (\<lambda>_. ret None)
      else andthen (plus_duration (ii_offered_at r) (seconds INVITATION_RESPONSE_TTL_SECONDS)) (\<lambda>until.
        if until \<le> now
        then andthen (resolve_invitation (ii_invitation_id r) InvNoResponse now) (\<lambda>_. ret None)
        else andthen (suppressed now) (\<lambda>b. if b
          then andthen (resolve_invitation (ii_invitation_id r) InvExpired now) (\<lambda>_. ret None)
          else ret (Some (offer_payload E r)))))"

text \<open>Whether three trailing dismissals silence the policy seen \<open>now\<close>.\<close>

definition silenced :: "nat \<Rightarrow> instant option \<Rightarrow> instant \<Rightarrow> bool init_op" where
  "silenced n seen now =
     (if INVITATION_SILENCE_DISMISSAL_THRESHOLD \<le> n
      then (case seen of None \<Rightarrow> ret False
        | Some t \<Rightarrow> andthen (plus_duration t (days INVITATION_SILENCE_DAYS)) (\<lambda>until. ret (now < until)))
      else ret False)"

definition cooling_down :: "invitation_record list \<Rightarrow> nat \<Rightarrow> instant \<Rightarrow> bool init_op" where
  "cooling_down recent n now =
     (case recent of [] \<Rightarrow> ret False
      | r # _ \<Rightarrow> andthen (plus_duration (ii_offered_at r) (seconds (invitation_cooldown n)))
          (\<lambda>until. ret (now < until)))"

definition extend_invitation :: "init_env \<Rightarrow> uuid \<Rightarrow> instant \<Rightarrow> int
  \<Rightarrow> initiation_invitation option init_op" where
  "extend_invitation E fresh now off =
     andthen (suppressed now) (\<lambda>b. if b then ret None
     else let local_date = format_local_date (ie_format_date E) (to_local now off) in
       andthen (invitations_on_local_date local_date) (\<lambda>today.
       if INVITATION_DAILY_CAP \<le> today then ret None
       else andthen (recent_invitations BACKOFF_SCAN_LIMIT) (\<lambda>recent.
         let (n, seen) = trailing_dismissals recent in
         andthen (silenced n seen now) (\<lambda>quiet. if quiet then ret None
         else andthen (cooling_down recent n now) (\<lambda>cool. if cool then ret None
         else andthen (assess_good_hours now off) (\<lambda>a. if a \<noteq> GoodHour then ret None
         else let r = \<lparr>ii_invitation_id = ie_uuid_string E fresh, ii_offered_at = now,
                ii_local_date = local_date, ii_action_id = INVITATION_ACTION_ID,
                ii_policy_version = GOOD_HOURS_POLICY_VERSION,
                ii_backoff_policy_version = INVITATION_BACKOFF_POLICY_VERSION,
                ii_outcome = InvOffered, ii_outcome_at = None\<rparr>
              in andthen (record_invitation r) (\<lambda>_. ret (Some (offer_payload E r)))))))))"

definition pending_invitation :: "init_env \<Rightarrow> uuid \<Rightarrow> instant \<Rightarrow> int
  \<Rightarrow> initiation_invitation option init_op" where
  "pending_invitation E fresh now utc_offset =
     (let off = clamp_offset utc_offset in
      andthen invitations_enabled (\<lambda>enabled.
      andthen open_invitation (\<lambda>x.
      andthen (case x of None \<Rightarrow> ret None | Some r \<Rightarrow> settle_open E enabled r now) (\<lambda>shown.
      case shown of Some p \<Rightarrow> ret (Some p)
      | None \<Rightarrow> if \<not> enabled then ret None else extend_invitation E fresh now off))))"

definition dismiss :: "init_env \<Rightarrow> uuid \<Rightarrow> instant \<Rightarrow> unit init_op" where
  "dismiss E u now = andthen (resolve_invitation (ie_uuid_string E u) InvDismissed now) (\<lambda>_. ret ())"

definition claimable :: "init_env \<Rightarrow> uuid \<Rightarrow> instant \<Rightarrow> bool init_op" where
  "claimable E u now = andthen open_invitation (\<lambda>x. case x of None \<Rightarrow> ret False
     | Some r \<Rightarrow> if ii_invitation_id r = ie_uuid_string E u
           \<and> ii_policy_version r = GOOD_HOURS_POLICY_VERSION
         then andthen (plus_duration (ii_offered_at r) (seconds INVITATION_RESPONSE_TTL_SECONDS))
           (\<lambda>until. ret (now < until))
         else ret False)"

definition expire_open :: "instant \<Rightarrow> unit init_op" where
  "expire_open now = andthen open_invitation (\<lambda>x. case x of None \<Rightarrow> ret ()
     | Some r \<Rightarrow> andthen (resolve_invitation (ii_invitation_id r) InvExpired now) (\<lambda>_. ret ()))"

definition record_block_started :: "init_env \<Rightarrow> uuid option \<Rightarrow> instant \<Rightarrow> unit init_op" where
  "record_block_started E claimed now = (case claimed of
     Some u \<Rightarrow> andthen (resolve_invitation (ie_uuid_string E u) InvAccepted now) (\<lambda>_. ret ())
   | None \<Rightarrow> expire_open now)"

definition set_enabled :: "bool \<Rightarrow> instant \<Rightarrow> bool init_op" where
  "set_enabled b now = andthen (set_invitations_enabled b now) (\<lambda>_.
     andthen (if b then ret () else expire_open now) (\<lambda>_. invitations_enabled))"

definition clear_invitation_data :: "unit init_op" where
  "clear_invitation_data = andthen clear_invitations (\<lambda>_. ret ())"

section \<open>Runs\<close>

text \<open>Between two calls the gates' stores may become anything.\<close>

datatype init_command = IPending uuid instant int | IDismiss uuid instant
  | IStarted "uuid option" instant | IExpire instant | ISetEnabled bool instant | IClear
  | IWorld wb_state focus

fun exec_init :: "init_env \<Rightarrow> init_command \<Rightarrow> initiation \<Rightarrow> initiation" where
  "exec_init E (IPending u now off) s = snd (pending_invitation E u now off s)"
| "exec_init E (IDismiss u now) s = snd (dismiss E u now s)"
| "exec_init E (IStarted c now) s = snd (record_block_started E c now s)"
| "exec_init E (IExpire now) s = snd (expire_open now s)"
| "exec_init E (ISetEnabled b now) s = snd (set_enabled b now s)"
| "exec_init E IClear s = snd (clear_invitation_data s)"
| "exec_init E (IWorld b f) s = s\<lparr>in_blocks := b, in_focus := f\<rparr>"

end
