(* ===== verification/Initiation_Properties.thy ===== *)
theory Initiation_Properties
  imports Initiation Block_Drift
begin

text \<open>
  Properties of the invitation policy: the bucketed dwell is the number of seconds the
  evidence has in each local hour of the week, invitations stay a day apart, at most one
  per local date and at most one open, and the rule that extends one.
\<close>

section \<open>Seconds of a bucket\<close>

text \<open>
  The reference: how many whole seconds of a span fall in a bucket, and which blocks have
  one there.
\<close>

definition dwell_in :: "int \<Rightarrow> bucket \<Rightarrow> dwell_span \<Rightarrow> nat" where
  "dwell_in off k sp =
     card {n \<in> {timestamp (ds_started_at sp) ..< timestamp (ds_ended_at sp)}. bucket_of (n + off) = k}"

definition good_bucket :: "int \<Rightarrow> dwell_span list \<Rightarrow> bucket \<Rightarrow> bool" where
  "good_bucket off spans k \<longleftrightarrow>
     45 * 60 \<le> (\<Sum>sp \<leftarrow> spans. dwell_in off k sp)
     \<and> 3 \<le> card (ds_block_id ` {sp \<in> set spans. 0 < dwell_in off k sp})"

definition secs :: "tally \<Rightarrow> bucket \<Rightarrow> nat" where
  "secs t k = (case map_of (ta_seconds t) k of None \<Rightarrow> 0 | Some n \<Rightarrow> n)"

definition blks :: "tally \<Rightarrow> bucket \<Rightarrow> string list" where
  "blks t k = (case map_of (ta_blocks t) k of None \<Rightarrow> [] | Some bs \<Rightarrow> bs)"

lemma bucket_of_hour: "l div 3600 = l' div 3600 \<Longrightarrow> bucket_of l = bucket_of l'"
proof -
  have "local_hour x = x div 3600 mod 24" for x
    using zmod_zmult2_eq [of 24 x 3600] by (simp add: local_hour_def)
  moreover have "x div 86400 = x div 3600 div 24" for x :: int
    using zdiv_zmult2_eq [of 24 x 3600] by simp
  ultimately show "l div 3600 = l' div 3600 \<Longrightarrow> bucket_of l = bucket_of l'"
    by (simp add: bucket_of_def num_days_from_monday_def)
qed

lemma same_hour:
  fixes l m :: int
  assumes "l \<le> m" and "m < l + (3600 - l mod 3600)"
  shows "m div 3600 = l div 3600"
proof (rule int_div_pos_eq)
  have l: "l = 3600 * (l div 3600) + l mod 3600" by simp
  show "m = 3600 * (l div 3600) + (m - 3600 * (l div 3600))" by simp
  show "0 \<le> m - 3600 * (l div 3600)" using l assms(1) pos_mod_sign [of 3600 l] by linarith
  show "m - 3600 * (l div 3600) < 3600" using l assms(2) by linarith
qed

lemma count_step:
  fixes c p e :: int
  assumes "c < p" "p \<le> e" and const: "\<And>n. c \<le> n \<Longrightarrow> n < p \<Longrightarrow> P n \<longleftrightarrow> P c"
  shows "card {n \<in> {c..<e}. P n} = (if P c then nat (p - c) else 0) + card {n \<in> {p..<e}. P n}"
proof -
  have "{n \<in> {c..<e}. P n} = {n \<in> {c..<p}. P n} \<union> {n \<in> {p..<e}. P n}" using assms(1,2) by auto
  moreover have "{n \<in> {c..<p}. P n} = (if P c then {c..<p} else {})"
  proof (cases "P c")
    case True
    then have "P n" if "c \<le> n" "n < p" for n using const [OF that] by blast
    then show ?thesis using True by auto
  next
    case False
    then have "\<not> P n" if "c \<le> n" "n < p" for n using const [OF that] by blast
    then show ?thesis using False by auto
  qed
  moreover have "{n \<in> {c..<p}. P n} \<inter> {n \<in> {p..<e}. P n} = {}" by auto
  moreover have "finite {n \<in> {p..<e}. P n}" by (rule finite_subset [of _ "{p..<e}"]) auto
  ultimately show ?thesis
    using card_Un_disjoint [of "{n \<in> {c..<p}. P n}" "{n \<in> {p..<e}. P n}"]
    by (simp split: if_splits)
qed

lemma secs_add:
  "secs \<lparr>ta_seconds = add_seconds (ta_seconds t) k' n, ta_blocks = bs\<rparr> k
     = (if k' = k then sat_add (secs t k) n else secs t k)"
  by (auto simp: secs_def add_seconds_lookup split: option.split)

lemma add_block_lookup:
  "map_of (add_block t k' b) k = (if k = k'
     then Some (List.insert b (case map_of t k of None \<Rightarrow> [] | Some bs \<Rightarrow> bs)) else map_of t k)"
  by (induction t k' b rule: add_block.induct) auto

lemma blks_add:
  "blks \<lparr>ta_seconds = ts, ta_blocks = add_block (ta_blocks t) k' b\<rparr> k
     = (if k' = k then List.insert b (blks t k) else blks t k)"
  by (auto simp: blks_def add_block_lookup split: option.split)

text \<open>One span adds, to every bucket, exactly its seconds there.\<close>

definition adds :: "(bucket \<Rightarrow> nat) \<Rightarrow> string \<Rightarrow> tally \<Rightarrow> tally \<Rightarrow> bool" where
  "adds f b t u \<longleftrightarrow> (\<forall>k. secs u k = sat_add (secs t k) (f k)
     \<and> blks u k = (if 0 < f k then List.insert b (blks t k) else blks t k))"

lemma addsD:
  assumes "adds f b t u"
  shows "secs u k = sat_add (secs t k) (f k)"
    and "blks u k = (if 0 < f k then List.insert b (blks t k) else blks t k)"
  using assms unfolding adds_def by blast+

lemma sat_add_twice: "sat_add (sat_add a b) c = sat_add a (b + c)"
  by (simp add: sat_add_def min_def)

lemma adds_two:
  assumes "adds f b t u" and "adds g b u v"
  shows "adds (\<lambda>k. f k + g k) b t v"
  unfolding adds_def by (simp add: addsD [OF assms(1)] addsD [OF assms(2)] sat_add_twice)

lemma to_local_whole: "to_local (from_timestamp c) (clamp_offset x) = c + clamp_offset x"
  by (auto simp: to_local_def clamp_offset_def min_def max_def)

lemma from_timestamp_less [simp]: "from_timestamp c < from_timestamp e \<longleftrightarrow> c < e"
  by (simp add: less_le_not_le)

lemma split_span_adds:
  assumes bounded: "\<And>k. secs t k \<le> u32_max"
  shows "adds (\<lambda>k. card {n \<in> {c..<e}. bucket_of (n + clamp_offset x) = k}) b t
     (split_span (clamp_offset x) b (from_timestamp e) (from_timestamp c) t)"
  using bounded
proof (induction "nat (e - c)" arbitrary: c t rule: less_induct)
  case less
  let ?off = "clamp_offset x"
  show ?case
  proof (cases "c < e")
    case False
    then show ?thesis
      using less.prems by (simp add: adds_def split_span.simps [of _ _ _ "from_timestamp c"])
  next
    case True
    let ?l = "c + ?off" and ?h = "3600 - (c + ?off) mod 3600"
    let ?p = "min e (c + ?h)"
    let ?k = "bucket_of ?l"
    let ?t = "\<lparr>ta_seconds = add_seconds (ta_seconds t) ?k (nat (?p - c)),
        ta_blocks = add_block (ta_blocks t) ?k b\<rparr>"
    have h: "0 < ?h" using pos_mod_bound [of 3600 ?l] by simp
    then have p: "c < ?p" "?p \<le> e" using True by auto
    have whole: "from_timestamp c + seconds ?h = from_timestamp (c + ?h)"
      by (simp add: from_timestamp_def seconds_def algebra_simps)
    have mins: "min (from_timestamp e) (from_timestamp (c + ?h)) = from_timestamp ?p"
      by (simp add: min_def)
    have len: "nat (max (num_seconds (from_timestamp ?p - from_timestamp c)) 0) = nat (?p - c)"
      by (simp add: from_timestamp_def left_diff_distrib [symmetric])
    have step: "split_span ?off b (from_timestamp e) (from_timestamp c) t
        = split_span ?off b (from_timestamp e) (from_timestamp ?p) ?t"
      using True by (subst split_span.simps)
        (simp add: to_local_whole Let_def whole mins len less_le_not_le)
    have same: "bucket_of (n + ?off) = ?k" if "c \<le> n" "n < ?p" for n
      by (rule bucket_of_hour, rule same_hour) (use that in auto)
    have "adds (\<lambda>k. if ?k = k then nat (?p - c) else 0) b t ?t"
      unfolding adds_def using p less.prems by (simp add: secs_add blks_add)
    moreover have "adds (\<lambda>k. card {n \<in> {?p..<e}. bucket_of (n + ?off) = k}) b ?t
        (split_span ?off b (from_timestamp e) (from_timestamp ?p) ?t)"
      by (rule less.hyps) (use p in \<open>auto simp: secs_add less.prems\<close>)
    moreover have "card {n \<in> {c..<e}. bucket_of (n + ?off) = k}
        = (if ?k = k then nat (?p - c) else 0) + card {n \<in> {?p..<e}. bucket_of (n + ?off) = k}" for k
    proof -
      have "bucket_of (n + ?off) = k \<longleftrightarrow> ?k = k" if "c \<le> n" "n < ?p" for n
        using same [OF that] by simp
      then show ?thesis by (rule count_step [OF p])
    qed
    ultimately show ?thesis unfolding step using adds_two by presburger
  qed
qed

text \<open>All spans together.\<close>

lemma tally_spans_counts:
  assumes whole: "list_all (\<lambda>sp. stored (ds_started_at sp) = ds_started_at sp
      \<and> stored (ds_ended_at sp) = ds_ended_at sp) spans"
    and off: "off = clamp_offset x"
  shows "secs (tally_spans off spans) k = min (\<Sum>sp \<leftarrow> spans. dwell_in off k sp) u32_max"
    and "set (blks (tally_spans off spans) k) = ds_block_id ` {sp \<in> set spans. 0 < dwell_in off k sp}"
    and "distinct (blks (tally_spans off spans) k)"
proof -
  let ?run = "fold (\<lambda>sp. split_span off (ds_block_id sp) (ds_ended_at sp) (ds_started_at sp))"
  have "secs (?run spans t) k = min (secs t k + (\<Sum>sp \<leftarrow> spans. dwell_in off k sp)) u32_max
     \<and> set (blks (?run spans t) k) = set (blks t k) \<union> ds_block_id ` {sp \<in> set spans. 0 < dwell_in off k sp}
     \<and> distinct (blks (?run spans t) k)"
    if "\<And>k. secs t k \<le> u32_max" "distinct (blks t k)" for t
    using whole that
  proof (induction spans arbitrary: t)
    case Nil
    then show ?case by (simp add: min_absorb1)
  next
    case (Cons sp spans)
    let ?u = "split_span off (ds_block_id sp) (ds_ended_at sp) (ds_started_at sp) t"
    have "ds_started_at sp = from_timestamp (timestamp (ds_started_at sp))"
      "ds_ended_at sp = from_timestamp (timestamp (ds_ended_at sp))"
      using Cons.prems(1) by (simp_all add: stored_def)
    then have u: "adds (\<lambda>k. dwell_in off k sp) (ds_block_id sp) t ?u"
      using split_span_adds [OF Cons.prems(2), of "timestamp (ds_started_at sp)" "timestamp (ds_ended_at sp)"
          x "ds_block_id sp"] off by (simp add: dwell_in_def)
    then have "\<And>k. secs ?u k \<le> u32_max" "distinct (blks ?u k)"
      using Cons.prems(3) by (simp_all add: addsD [OF u])
    from Cons.IH [OF _ this] show ?case
      using Cons.prems(1) by (auto simp: addsD [OF u] sat_add_def)
  qed
  from this [of "\<lparr>ta_seconds = [], ta_blocks = []\<rparr>"]
  show "secs (tally_spans off spans) k = min (\<Sum>sp \<leftarrow> spans. dwell_in off k sp) u32_max"
    and "set (blks (tally_spans off spans) k) = ds_block_id ` {sp \<in> set spans. 0 < dwell_in off k sp}"
    and "distinct (blks (tally_spans off spans) k)"
    by (simp_all add: tally_spans_def secs_def blks_def)
qed

lemma qualifies_secs:
  "qualifies t k \<longleftrightarrow> 45 * 60 \<le> secs t k \<and> 3 \<le> length (blks t k)"
  by (simp add: qualifies_def secs_def blks_def initiation_policy_defs split: option.split)

lemma some_key_qualifies: "list_ex (qualifies t) (map fst (ta_seconds t)) \<longleftrightarrow> (\<exists>k. qualifies t k)"
proof
  assume "\<exists>k. qualifies t k"
  then obtain k where k: "qualifies t k" by blast
  then have "map_of (ta_seconds t) k \<noteq> None" by (auto simp: qualifies_secs secs_def split: option.splits)
  then have "k \<in> fst ` set (ta_seconds t)" by (simp add: map_of_eq_None_iff)
  with k show "list_ex (qualifies t) (map fst (ta_seconds t))" by (auto simp: list_ex_iff)
next
  assume "list_ex (qualifies t) (map fst (ta_seconds t))"
  then obtain k where "qualifies t k" by (auto simp only: list_ex_iff)
  then show "\<exists>k. qualifies t k" by (rule exI)
qed

lemma qualifies_good_bucket:
  assumes "list_all (\<lambda>sp. stored (ds_started_at sp) = ds_started_at sp
      \<and> stored (ds_ended_at sp) = ds_ended_at sp) spans"
  shows "qualifies (tally_spans (clamp_offset x) spans) k \<longleftrightarrow> good_bucket (clamp_offset x) spans k"
proof -
  note counts = tally_spans_counts [OF assms refl, of x k]
  have "length (blks (tally_spans (clamp_offset x) spans) k)
      = card (ds_block_id ` {sp \<in> set spans. 0 < dwell_in (clamp_offset x) k sp})"
    using distinct_card [OF counts(3)] by (simp only: counts(2))
  then show ?thesis
    by (simp add: qualifies_secs good_bucket_def counts(1) u32_max_def)
qed

text \<open>
  C26: The good-hours assessment counts seconds. With fewer than six completed blocks in the
  last 28 days, or with no hour of the week that has 45 minutes of confident dwell from three
  different blocks, the evidence is insufficient; otherwise the current hour is good exactly
  when it is such an hour. The hourly splitting of the spans is exact: what it adds up for an
  hour of the week is the number of seconds the spans have in it.
\<close>

theorem good_hours_count_seconds:
  fixes now :: instant and utc_offset :: int and s :: initiation
  defines "off \<equiv> clamp_offset utc_offset" and "since \<equiv> now - days 28"
  defines "spans \<equiv> projr (fst (completed_block_dwell_spans since s))"
  shows "assess_good_hours now utc_offset s = (Inr (
     if 6 \<le> length (filter (counted_block since) (t_work_block (in_blocks s)))
        \<and> (\<exists>k. good_bucket off spans k)
     then if good_bucket off spans (bucket_of (timestamp now + off)) then GoodHour else OutsideGoodHours
     else InsufficientEvidence), s)"
proof -
  have "list_all (\<lambda>sp. stored (ds_started_at sp) = ds_started_at sp
      \<and> stored (ds_ended_at sp) = ds_ended_at sp) spans"
    by (simp add: spans_def completed_block_dwell_spans_def gets_apply list_all_iff dwell_span_of_def)
  note q = qualifies_good_bucket [OF this, of utc_offset, folded off_def]
  have l: "to_local now off = timestamp now + off"
    by (auto simp: to_local_def off_def clamp_offset_def min_def max_def)
  show ?thesis
    unfolding assess_good_hours_def completed_block_count_def Let_def off_def [symmetric]
      initiation_policy_defs since_def [symmetric]
    using q by (simp add: op_simps some_key_qualifies l spans_def completed_block_dwell_spans_def)
qed


section \<open>The invitation table\<close>

text \<open>
  The invariant: ids and local dates are unique, at most one invitation awaits an answer,
  and each was extended at least a day after the one before it.
\<close>

definition is_open :: "invitation_record \<Rightarrow> bool" where
  "is_open r \<longleftrightarrow> ii_outcome r = InvOffered"

definition a_day_apart :: "invitation_record \<Rightarrow> invitation_record \<Rightarrow> bool" where
  "a_day_apart q r \<longleftrightarrow> ii_offered_at q + days 1 \<le> ii_offered_at r"

definition rows_ok :: "invitation_record list \<Rightarrow> bool" where
  "rows_ok rows \<longleftrightarrow> distinct (map ii_invitation_id rows) \<and> distinct (map ii_local_date rows)
     \<and> length (filter is_open rows) \<le> 1 \<and> sorted_wrt a_day_apart rows
     \<and> list_all (\<lambda>r. stored (ii_offered_at r) = ii_offered_at r) rows"

abbreviation invitations_ok :: "initiation \<Rightarrow> bool" where
  "invitations_ok s \<equiv> rows_ok (in_invitations s)"

lemma resolve_row_keeps [simp]:
  "ii_invitation_id (resolve_row i oc tm r) = ii_invitation_id r"
  "ii_local_date (resolve_row i oc tm r) = ii_local_date r"
  "ii_offered_at (resolve_row i oc tm r) = ii_offered_at r"
  by (simp_all add: resolve_row_def)

lemma resolved_still_open:
  "oc \<noteq> InvOffered \<Longrightarrow> is_open (resolve_row i oc tm r) \<longleftrightarrow> is_open r \<and> ii_invitation_id r \<noteq> i"
  by (auto simp: is_open_def resolve_row_def)

lemma rows_ok_resolve:
  assumes "rows_ok rows" and "oc \<noteq> InvOffered"
  shows "rows_ok (map (resolve_row i oc tm) rows)"
proof -
  have "length (filter is_open (map (resolve_row i oc tm) rows)) \<le> length (filter is_open rows)"
    by (induction rows) (auto simp: resolved_still_open [OF assms(2)])
  with assms(1) show ?thesis
    by (auto simp: rows_ok_def comp_def sorted_wrt_map a_day_apart_def [abs_def] list_all_iff)
qed

lemma ok_resolve: "oc \<noteq> InvOffered \<Longrightarrow> obeys (keeping invitations_ok) (resolve_invitation i oc tm)"
  by (simp add: obeys_def keeping_def resolve_invitation_def rows_ok_resolve)

lemma open_invitation_eq:
  assumes "invitations_ok s"
  shows "open_invitation s = (Inr (find is_open (in_invitations s)), s)"
proof -
  have "filter is_open (in_invitations s) = []
      \<or> (\<exists>r. filter is_open (in_invitations s) = [r])"
    using assms by (cases "filter is_open (in_invitations s)") (auto simp: rows_ok_def)
  moreover have "find is_open xs = (case filter is_open xs of [] \<Rightarrow> None | r # _ \<Rightarrow> Some r)" for xs
    by (induction xs) auto
  ultimately show ?thesis
    by (auto simp: open_invitation_def op_simps is_open_def [abs_def])
qed

text \<open>Resolving the open invitation leaves none open.\<close>

lemma none_open_after:
  assumes "rows_ok rows" and "find is_open rows = Some r" and "oc \<noteq> InvOffered"
  shows "find is_open (map (resolve_row (ii_invitation_id r) oc tm) rows) = None"
proof -
  have r: "r \<in> set (filter is_open rows)" using assms(2) by (auto simp: find_Some_iff)
  then have "filter is_open rows = [r]"
    using assms(1) by (cases "filter is_open rows") (auto simp: rows_ok_def)
  then have only: "q = r" if "q \<in> set rows" "is_open q" for q
  proof -
    have "q \<in> set (filter is_open rows)" using that by simp
    then show ?thesis using \<open>filter is_open rows = [r]\<close> by simp
  qed
  show ?thesis
    unfolding find_None_iff using only by (auto simp: resolved_still_open [OF assms(3)])
qed

section \<open>Extending an invitation\<close>

definition is_suppressed :: "initiation \<Rightarrow> instant \<Rightarrow> bool" where
  "is_suppressed s now \<longleftrightarrow>
     (case fst (latest (in_blocks s)) of Inr (Some r) \<Rightarrow> live (wb_phase r) | _ \<Rightarrow> False)
     \<or> in_velvt_quiet_hours (in_focus s) now \<or> is_focus_active (in_focus s) now"

lemma suppressed_eq: "suppressed now s = (Inr (is_suppressed s now), s)"
  by (simp add: suppressed_def live_block_exists_def in_quiet_hours_def focus_active_def op_simps
      is_suppressed_def)

lemma assess_total: "\<exists>a. assess_good_hours now off s = (Inr a, s)"
  by (simp add: assess_good_hours_def completed_block_count_def completed_block_dwell_spans_def
      op_simps Let_def)

text \<open>Rows extended a day apart are already in the order the scan wants, oldest first.\<close>

lemma scan_order:
  assumes "rows_ok rows"
  shows "sort_key (\<lambda>r. (ii_offered_at r, ii_invitation_id r)) rows = rows"
proof (rule sort_key_id_if_sorted)
  have "sorted_wrt (\<lambda>q r. (ii_offered_at q, ii_invitation_id q) \<le> (ii_offered_at r, ii_invitation_id r)) rows"
  proof (rule sorted_wrt_mono_rel [of _ a_day_apart])
    show "sorted_wrt a_day_apart rows" using assms by (simp add: rows_ok_def)
  qed (auto simp: a_day_apart_def days_def seconds_def NANOS_def)
  then show "sorted (map (\<lambda>r. (ii_offered_at r, ii_invitation_id r)) rows)"
    by (simp add: sorted_map)
qed

lemma recent_eq:
  "invitations_ok s \<Longrightarrow> recent_invitations n s = (Inr (take n (rev (in_invitations s))), s)"
  by (simp add: recent_invitations_def op_simps scan_order)


lemma cooldown_at_least_a_day: "86400 \<le> invitation_cooldown n"
  by (simp add: invitation_cooldown_def initiation_policy_defs u32_max_def min_def)

lemma plus_duration_cases:
  "plus_duration t d s = (Inl InitiationPanicked, s) \<or> plus_duration t d s = (Inr (t + d), s)"
  by (simp add: plus_duration_def op_simps)

lemma silenced_cases:
  "silenced n seen now s = (Inl InitiationPanicked, s) \<or> (\<exists>b. silenced n seen now s = (Inr b, s))"
proof (cases seen)
  case (Some t)
  then show ?thesis
    using plus_duration_cases [of t "days INVITATION_SILENCE_DAYS" s]
    by (auto simp: silenced_def op_simps andthen_def)
qed (auto simp: silenced_def op_simps)

lemma cooling_cases:
  "cooling_down recent n now s = (Inl InitiationPanicked, s)
   \<or> cooling_down recent n now s = (Inr True, s)
   \<or> cooling_down recent n now s = (Inr False, s)
      \<and> (recent = [] \<or> ii_offered_at (hd recent) + seconds (invitation_cooldown n) \<le> now)"
proof (cases recent)
  case (Cons r rs)
  then show ?thesis
    using plus_duration_cases [of "ii_offered_at r" "seconds (invitation_cooldown n)" s]
    by (auto simp: cooling_down_def op_simps andthen_def)
qed (simp add: cooling_down_def op_simps)

lemma last_is_latest:
  assumes "sorted_wrt a_day_apart rows" and "q \<in> set rows"
  shows "ii_offered_at q \<le> ii_offered_at (last rows)"
  using assms
proof (induction rows rule: rev_induct)
  case (snoc r rows)
  then show ?case by (auto simp: sorted_wrt_append a_day_apart_def days_def seconds_def NANOS_def)
qed simp

lemma stored_whole_le: "stored t = t \<Longrightarrow> t + days 1 \<le> now \<Longrightarrow> t + days 1 \<le> stored now"
proof -
  assume t: "stored t = t" and le: "t + days 1 \<le> now"
  have "stored (t + days 1) = t + days 1"
    using t by (simp add: stored_def from_timestamp_def timestamp_def days_def seconds_def distrib_right)
  with stored_mono [OF le] show "t + days 1 \<le> stored now" by simp
qed

lemma rows_ok_extend:
  assumes ok: "rows_ok rows" and "find is_open rows = None"
    and "ii_invitation_id r \<notin> ii_invitation_id ` set rows"
    and date: "filter (\<lambda>q. ii_local_date q = ii_local_date r) rows = []"
    and spaced: "rows = [] \<or> ii_offered_at (last rows) + days 1 \<le> now"
    and r: "ii_offered_at r = stored now"
  shows "rows_ok (rows @ [r])"
proof -
  have "a_day_apart q r" if q: "q \<in> set rows" for q
  proof -
    have "ii_offered_at q \<le> ii_offered_at (last rows)" "stored (ii_offered_at q) = ii_offered_at q"
      using last_is_latest [OF _ q] ok q by (auto simp: rows_ok_def list_all_iff)
    then show ?thesis using spaced q stored_whole_le r by (force simp: a_day_apart_def)
  qed
  moreover have "filter is_open rows = []" using assms(2) by (auto simp: find_None_iff filter_empty_conv)
  ultimately show ?thesis
    using ok assms(3) date r by (auto simp: rows_ok_def sorted_wrt_append filter_empty_conv)
qed

lemma extend_cases:
  assumes ok: "invitations_ok s" and none: "find is_open (in_invitations s) = None"
  obtains "snd (extend_invitation E u now off s) = s"
  | r where "snd (extend_invitation E u now off s) = s\<lparr>in_invitations := in_invitations s @ [r]\<rparr>"
      "rows_ok (in_invitations s @ [r])"
proof -
  let ?date = "format_local_date (ie_format_date E) (to_local now off)"
  let ?recent = "take BACKOFF_SCAN_LIMIT (rev (in_invitations s))"
  obtain n seen where tr: "trailing_dismissals ?recent = (n, seen)" by fastforce
  obtain a where a: "assess_good_hours now off s = (Inr a, s)" using assess_total by blast
  let ?r = "\<lparr>ii_invitation_id = ie_uuid_string E u, ii_offered_at = stored now,
      ii_local_date = ?date, ii_action_id = INVITATION_ACTION_ID,
      ii_policy_version = GOOD_HOURS_POLICY_VERSION,
      ii_backoff_policy_version = INVITATION_BACKOFF_POLICY_VERSION,
      ii_outcome = InvOffered, ii_outcome_at = None\<rparr>"
  have hd: "?recent = [] \<longleftrightarrow> in_invitations s = []"
    "in_invitations s \<noteq> [] \<Longrightarrow> hd ?recent = last (in_invitations s)"
    by (simp_all add: BACKOFF_SCAN_LIMIT_def hd_rev)
  have day: "days 1 \<le> seconds (invitation_cooldown n)"
    using cooldown_at_least_a_day [of n] by (simp add: days_def seconds_def)
  have "snd (extend_invitation E u now off s) = s
     \<or> snd (extend_invitation E u now off s) = s\<lparr>in_invitations := in_invitations s @ [?r]\<rparr>
       \<and> rows_ok (in_invitations s @ [?r])"
  proof (cases "filter (\<lambda>q. ii_local_date q = ?date) (in_invitations s) = []
      \<and> silenced n seen now s = (Inr False, s) \<and> cooling_down ?recent n now s = (Inr False, s)
      \<and> ie_uuid_string E u \<notin> ii_invitation_id ` set (in_invitations s)")
    case True
    then have "in_invitations s = [] \<or> ii_offered_at (last (in_invitations s)) + days 1 \<le> now"
      using cooling_cases [of ?recent n now s] hd day by auto
    with True have "rows_ok (in_invitations s @ [?r])"
      by (intro rows_ok_extend [OF ok none]) auto
    with True show ?thesis
      by (simp add: extend_invitation_def op_simps andthen_def suppressed_eq recent_eq [OF ok] tr a Let_def
          invitations_on_local_date_def record_invitation_def)
  next
    case False
    then show ?thesis
      using silenced_cases [of n seen now s] cooling_cases [of ?recent n now s]
      by (auto simp: extend_invitation_def op_simps andthen_def suppressed_eq recent_eq [OF ok] tr a Let_def
          invitations_on_local_date_def record_invitation_def INVITATION_DAILY_CAP_def invitation_check_def
          Suc_le_eq split: if_splits)
  qed
  then show ?thesis using that by blast
qed


lemma settle_open_cases:
  assumes ok: "invitations_ok s" and r: "find is_open (in_invitations s) = Some r"
  obtains e where "settle_open E en r now s = (Inl e, s)"
  | p where "settle_open E en r now s = (Inr (Some p), s)"
  | t where "settle_open E en r now s = (Inr None, t)" "invitations_ok t"
      "find is_open (in_invitations t) = None"
proof -
  have closed: "\<exists>t. andthen (resolve_invitation (ii_invitation_id r) oc now) (\<lambda>_. ret None) s = (Inr None, t)
      \<and> invitations_ok t \<and> find is_open (in_invitations t) = None" if "oc \<noteq> InvOffered" for oc
    using none_open_after [OF ok r that, of now] rows_ok_resolve [OF ok that, of "ii_invitation_id r" now]
    by (simp add: resolve_invitation_def andthen_def op_simps)
  let ?close = "\<lambda>oc. andthen (resolve_invitation (ii_invitation_id r) oc now) (\<lambda>_. ret None) s"
  have "settle_open E en r now s \<in> {(Inl InitiationPanicked, s), (Inr (Some (offer_payload E r)), s),
      ?close InvExpired, ?close InvNoResponse}"
    using plus_duration_cases [of "ii_offered_at r" "seconds INVITATION_RESPONSE_TTL_SECONDS" s]
    by (cases "is_suppressed s now") (auto simp: settle_open_def suppressed_eq op_simps
        andthen_def [of "plus_duration _ _"] andthen_def [of "suppressed _"])
  then show thesis
    using that closed [of InvExpired] closed [of InvNoResponse] by auto
qed

lemma ok_extend:
  assumes "invitations_ok s" and "find is_open (in_invitations s) = None"
  shows "invitations_ok (snd (extend_invitation E u now off s))"
  by (rule extend_cases [OF assms, of E u now off]) (use assms(1) in simp_all)

lemma ok_pending: "obeys (keeping invitations_ok) (pending_invitation E u now off)"
proof (rule obeysI)
  fix s
  have "invitations_ok (snd (pending_invitation E u now off s))" if ok: "invitations_ok s"
  proof (cases "find is_open (in_invitations s)")
    case None
    then show ?thesis
      using ok ok_extend [OF ok None]
      by (simp add: pending_invitation_def invitations_enabled_def andthen_def op_simps
          open_invitation_eq Let_def)
  next
    case (Some r)
    show ?thesis
      by (rule settle_open_cases [OF ok Some, of E "case in_settings s of None \<Rightarrow> True | Some (b, _) \<Rightarrow> b" now])
        (use ok Some ok_extend in \<open>simp_all add: pending_invitation_def invitations_enabled_def andthen_def
          op_simps open_invitation_eq Let_def\<close>)
  qed
  then show "keeping invitations_ok s (snd (pending_invitation E u now off s))"
    by (simp add: keeping_def)
qed

lemma ok_expire: "obeys (keeping invitations_ok) (expire_open now)"
  unfolding expire_open_def open_invitation_def
  by (intro keeping.rules ok_resolve) simp_all

lemma ok_exec: "keeping invitations_ok s (exec_init E c s)"
proof (cases c)
  case (IPending u now off)
  then show ?thesis using obeysD [OF ok_pending] by simp
next
  case (IDismiss u now)
  have "obeys (keeping invitations_ok) (dismiss E u now)"
    unfolding dismiss_def by (intro keeping.rules ok_resolve) simp
  then show ?thesis using IDismiss obeysD by fastforce
next
  case (IStarted x now)
  have "obeys (keeping invitations_ok) (record_block_started E x now)"
    unfolding record_block_started_def by (intro keeping.rules ok_resolve ok_expire) simp
  then show ?thesis using IStarted obeysD by fastforce
next
  case (IExpire now)
  then show ?thesis using obeysD [OF ok_expire] by simp
next
  case (ISetEnabled b now)
  have "obeys (keeping invitations_ok) (set_enabled b now)"
    unfolding set_enabled_def set_invitations_enabled_def invitations_enabled_def
    by (intro keeping.rules ok_expire) (simp add: keeping_def)
  then show ?thesis using ISetEnabled obeysD by fastforce
qed (simp_all add: keeping_def clear_invitation_data_def clear_invitations_def andthen_def op_simps rows_ok_def)

text \<open>
  C24: Invitations are capped and spaced. After any run of the manager, from a store with no
  invitations and whatever the work-block and focus stores become in between, the recorded
  invitations are at least 24 hours apart, no two share a local date, at most one of them
  awaits an answer, and their ids differ.
\<close>

theorem invitations_are_capped_and_spaced:
  "rows_ok (in_invitations (fold (exec_init E) cs
     \<lparr>in_invitations = [], in_settings = settings, in_blocks = b, in_focus = f\<rparr>))"
proof -
  let ?s = "\<lparr>in_invitations = [], in_settings = settings, in_blocks = b, in_focus = f\<rparr>"
  have "keeping invitations_ok ?s (fold (exec_init E) cs ?s)"
    by (rule keeping.run) (rule ok_exec)
  then show ?thesis by (simp add: keeping_def rows_ok_def)
qed


section \<open>The rule\<close>

definition reply_at :: "invitation_record \<Rightarrow> instant" where
  "reply_at r = (case ii_outcome_at r of None \<Rightarrow> ii_offered_at r | Some t \<Rightarrow> t)"

text \<open>The dismissals since the last acceptance, newest first, among the newest 32 rows.\<close>

definition dismissed_lately :: "invitation_record list \<Rightarrow> invitation_record list" where
  "dismissed_lately rows = filter (\<lambda>r. ii_outcome r = InvDismissed)
     (takeWhile (\<lambda>r. ii_outcome r \<noteq> InvAccepted) (take 32 (rev rows)))"

definition may_invite :: "init_env \<Rightarrow> initiation \<Rightarrow> instant \<Rightarrow> int \<Rightarrow> bool" where
  "may_invite E s now off \<longleftrightarrow>
     (let rows = in_invitations s; ds = dismissed_lately rows in
        \<not> is_suppressed s now
        \<and> format_local_date (ie_format_date E) (to_local now off) \<notin> ii_local_date ` set rows
        \<and> (length ds < 3 \<or> reply_at (hd ds) + days 30 \<le> now)
        \<and> (rows = [] \<or> ii_offered_at (last rows) + days (2 ^ length ds) \<le> now)
        \<and> fst (assess_good_hours now off s) = Inr GoodHour)"

lemma dismissal_loop_eq:
  assumes "n \<le> u32_max"
  shows "dismissal_loop rs n seen =
    (let ds = filter (\<lambda>r. ii_outcome r = InvDismissed) (takeWhile (\<lambda>r. ii_outcome r \<noteq> InvAccepted) rs) in
     (sat_add n (length ds), case seen of Some t \<Rightarrow> Some t
        | None \<Rightarrow> if ds = [] then None else Some (reply_at (hd ds))))"
  using assms
proof (induction rs arbitrary: n seen)
  case (Cons r rs)
  show ?case
    by (cases "ii_outcome r")
      (use Cons.prems in \<open>simp_all add: Cons.IH Let_def sat_add_twice reply_at_def split: option.split\<close>)
qed (simp split: option.split)

lemma trailing_dismissals_eq:
  assumes "dismissed_lately rows = ds"
  shows "trailing_dismissals (take 32 (rev rows))
    = (length ds, if ds = [] then None else Some (reply_at (hd ds)))"
proof -
  have "length ds \<le> 32"
    unfolding assms [symmetric] dismissed_lately_def
    by (rule le_trans [OF length_filter_le], rule le_trans [OF length_takeWhile_le]) simp
  then show ?thesis
    using assms
    by (simp add: trailing_dismissals_def dismissal_loop_eq dismissed_lately_def BACKOFF_SCAN_LIMIT_def
        Let_def sat_add_def u32_max_def)
qed

lemma cooldown_doubles:
  assumes "n \<le> 24" shows "invitation_cooldown n = 86400 * 2 ^ n"
proof -
  have "(2::nat) ^ n \<le> 2 ^ 24" using assms by (rule power_increasing) simp
  moreover have "(2::int) ^ n \<le> 2 ^ 24" using assms by (rule power_increasing) simp
  ultimately show ?thesis
    using assms by (simp add: invitation_cooldown_def initiation_policy_defs u32_max_def min_def)
qed

text \<open>Stored instants up to the year 192,000: no duration added to one leaves the calendar.\<close>

definition calendar_ok :: "invitation_record \<Rightarrow> bool" where
  "calendar_ok r \<longleftrightarrow> ii_offered_at r \<le> from_timestamp 6000000000000
     \<and> reply_at r \<le> from_timestamp 6000000000000"

lemma silenced_eq:
  assumes "list_all calendar_ok ds"
  shows "silenced (length ds) (if ds = [] then None else Some (reply_at (hd ds))) now s
    = (Inr (\<not> (length ds < 3 \<or> reply_at (hd ds) + days 30 \<le> now)), s)"
  using assms
  by (cases ds) (auto simp: silenced_def initiation_policy_defs plus_duration_def op_simps calendar_ok_def
      MAX_UTC_def from_timestamp_def days_def seconds_def NANOS_def)

lemma cooling_eq:
  assumes "list_all calendar_ok rows" and "n \<le> 24"
  shows "cooling_down (take 32 (rev rows)) n now s
    = (Inr (\<not> (rows = [] \<or> ii_offered_at (last rows) + days (2 ^ n) \<le> now)), s)"
proof (cases rows rule: rev_cases)
  case (snoc qs r)
  have "(2::int) ^ n \<le> 2 ^ 24" using assms(2) by (rule power_increasing) simp
  then have "\<not> MAX_UTC < ii_offered_at r + seconds (86400 * 2 ^ n)"
    using assms(1) snoc
    by (simp add: calendar_ok_def MAX_UTC_def from_timestamp_def seconds_def NANOS_def)
  then show ?thesis
    using snoc by (auto simp: cooling_down_def BACKOFF_SCAN_LIMIT_def plus_duration_def op_simps
        cooldown_doubles [OF assms(2)] days_def mult.commute)
qed (simp add: cooling_down_def op_simps)


definition extended :: "init_env \<Rightarrow> uuid \<Rightarrow> instant \<Rightarrow> int \<Rightarrow> invitation_record" where
  "extended E u now off = \<lparr>ii_invitation_id = ie_uuid_string E u, ii_offered_at = stored now,
     ii_local_date = format_local_date (ie_format_date E) (to_local now off),
     ii_action_id = ''soft_start_25'', ii_policy_version = 1, ii_backoff_policy_version = 1,
     ii_outcome = InvOffered, ii_outcome_at = None\<rparr>"

lemma extend_eq:
  assumes ok: "invitations_ok s"
    and cal: "list_all calendar_ok (in_invitations s)"
    and few: "length (dismissed_lately (in_invitations s)) \<le> 24"
    and fresh: "ie_uuid_string E u \<noteq> []" "ie_uuid_string E u \<notin> ii_invitation_id ` set (in_invitations s)"
    and parse: "ie_parse_uuid E (ie_uuid_string E u) = Some u"
    and date: "length (format_local_date (ie_format_date E) (to_local now off)) = 10"
  shows "extend_invitation E u now off s =
     (if may_invite E s now off
      then (Inr (Some \<lparr>iv_id = u, iv_action = ''soft_start_25'', iv_body = invitation_body,
              iv_duration_seconds = 1500, iv_policy_version = 1\<rparr>),
            s\<lparr>in_invitations := in_invitations s @ [extended E u now off]\<rparr>)
      else (Inr None, s))"
proof -
  let ?ds = "dismissed_lately (in_invitations s)"
  have "list_all calendar_ok ?ds"
    using cal by (auto simp: dismissed_lately_def list_all_iff dest!: set_takeWhileD in_set_takeD)
  note silent = silenced_eq [OF this, of now s]
  note cool = cooling_eq [OF cal few, of now s]
  obtain a where a: "assess_good_hours now off s = (Inr a, s)" using assess_total by blast
  have today: "Suc 0 \<le> length (filter (\<lambda>r. ii_local_date r = d) rows) \<longleftrightarrow> d \<in> ii_local_date ` set rows"
    for d and rows :: "invitation_record list"
    by (induction rows) auto
  show ?thesis
    by (simp add: extend_invitation_def suppressed_eq invitations_on_local_date_def recent_eq [OF ok]
        trailing_dismissals_eq [OF refl] silent cool a andthen_def op_simps Let_def may_invite_def
        INVITATION_DAILY_CAP_def today record_invitation_def invitation_check_def fresh date
        offer_payload_def parse extended_def initiation_policy_defs)
qed

text \<open>
  C25: The invitation rule. With invitations on and none awaiting an answer, a request extends
  one exactly when no block is live, quiet hours and Focus are off, none was extended on this
  local date, three or more dismissals since the last acceptance are at least 30 days old, the
  last invitation is at least \<open>2 ^ d\<close> days old after \<open>d\<close> such dismissals, and the current
  hour is a good hour. What it then returns is the fixed soft start, under the id it recorded;
  otherwise it returns nothing and records nothing.
\<close>

theorem invitation_rule:
  assumes "invitations_ok s" and "list_all calendar_ok (in_invitations s)"
    and "length (dismissed_lately (in_invitations s)) \<le> 24"
    and "find is_open (in_invitations s) = None" and "map_option fst (in_settings s) \<noteq> Some False"
    and "ie_uuid_string E u \<noteq> []" "ie_uuid_string E u \<notin> ii_invitation_id ` set (in_invitations s)"
    and "ie_parse_uuid E (ie_uuid_string E u) = Some u"
    and "length (ie_format_date E (to_local now (clamp_offset off) div 86400)) = 10"
  shows "pending_invitation E u now off s =
     (if may_invite E s now (clamp_offset off)
      then (Inr (Some \<lparr>iv_id = u, iv_action = ''soft_start_25'', iv_body = invitation_body,
              iv_duration_seconds = 1500, iv_policy_version = 1\<rparr>),
            s\<lparr>in_invitations := in_invitations s @ [extended E u now (clamp_offset off)]\<rparr>)
      else (Inr None, s))"
proof -
  have "(case in_settings s of None \<Rightarrow> True | Some (b, _) \<Rightarrow> b)"
    using assms(5) by (auto split: option.splits)
  then have "pending_invitation E u now off s = extend_invitation E u now (clamp_offset off) s"
    using assms(4) by (simp add: pending_invitation_def invitations_enabled_def andthen_def op_simps
        open_invitation_eq [OF assms(1)] Let_def)
  also note extend_eq [OF assms(1-3,6-8), of now "clamp_offset off"]
  finally show ?thesis using assms(9) by (simp add: format_local_date_def)
qed

definition sample_init_env :: init_env where
  "sample_init_env = \<lparr>ie_format_date = \<lambda>_. ''2027-01-15'', ie_uuid_string = \<lambda>_. ''id'',
     ie_parse_uuid = \<lambda>_. Some 7\<rparr>"

definition completed_sample :: "string \<Rightarrow> int \<Rightarrow> work_block_record" where
  "completed_sample b t = \<lparr>wb_block_id = b, wb_phase = Completed, wb_intention = None, wb_purpose = None,
     wb_intensity = LightIntensity, wb_planned = 3000, wb_started_at = from_timestamp t, wb_paused_at = None,
     wb_total_paused = 0, wb_ended_at = Some (from_timestamp (t + 3000)), wb_recovered = False,
     wb_recovery_of = None, wb_origin = Manual, wb_intention_expires_at = from_timestamp t,
     wb_updated_at = from_timestamp t\<rparr>"


definition dwell_sample :: "string \<times> int \<Rightarrow> string \<times> observation" where
  "dwell_sample x = (fst x, \<lparr>ob_occurred_at = from_timestamp (snd x),
     ob_ended_at = Some (from_timestamp (snd x + 3000)), ob_category = ''DEEP_WORK'',
     ob_status = Classified, ob_confidence = High\<rparr>)"

text \<open>Three Fridays and three Mondays with fifty confident minutes each.\<close>

definition dense_history :: "(string \<times> int) list" where
  "dense_history = [(''a'', 1799395200), (''b'', 1798790400), (''c'', 1798185600),
     (''d'', 1799676000), (''e'', 1799071200), (''f'', 1798466400)]"

definition sample_initiation :: initiation where
  "sample_initiation = \<lparr>in_invitations = [], in_settings = None,
     in_blocks = empty_store\<lparr>t_work_block := map (\<lambda>(b, t). completed_sample b t) dense_history,
       t_observation := map dwell_sample dense_history\<rparr>,
     in_focus = empty_focus\<rparr>"

definition span_sample :: "string \<times> int \<Rightarrow> dwell_span" where
  "span_sample x = \<lparr>ds_block_id = fst x, ds_started_at = from_timestamp (snd x),
     ds_ended_at = from_timestamp (snd x + 3000)\<rparr>"

lemma sample_counted:
  "counted_block (from_timestamp 1800000000 - days 28) (completed_sample b t) \<longleftrightarrow> 1797580800 \<le> t"
  by (simp add: counted_block_def completed_sample_def timestamp_def from_timestamp_def days_def
      seconds_def NANOS_def)

lemma sample_fields:
  "wb_block_id (completed_sample b t) = b" "fst (dwell_sample x) = fst x"
  "timestamp (ob_occurred_at (snd (dwell_sample x))) = snd x"
  "dwell_span_of (dwell_sample x) = span_sample x"
  by (simp_all add: completed_sample_def dwell_sample_def dwell_span_of_def span_sample_def)

lemma sample_dwell_confident: "confident_dwell (snd (dwell_sample x))"
  by (simp add: confident_dwell_def dwell_sample_def) code_simp

lemma sample_spans:
  "completed_block_dwell_spans (from_timestamp 1800000000 - days 28) sample_initiation
   = (Inr (map span_sample [(''c'', 1798185600), (''f'', 1798466400), (''b'', 1798790400),
        (''e'', 1799071200), (''a'', 1799395200), (''d'', 1799676000)]), sample_initiation)"
proof -
  let ?blocks = "map (\<lambda>(b, t). completed_sample b t) dense_history"
  have "list_ex (\<lambda>r. wb_block_id r = fst x \<and> counted_block (from_timestamp 1800000000 - days 28) r) ?blocks"
    if "x \<in> set dense_history" for x
    using that by (auto simp: dense_history_def sample_counted sample_fields)
  then have "filter (\<lambda>(b, ob). confident_dwell ob
        \<and> list_ex (\<lambda>r. wb_block_id r = b \<and> counted_block (from_timestamp 1800000000 - days 28) r) ?blocks)
      (map dwell_sample dense_history) = map dwell_sample dense_history"
    by (intro filter_True) (auto simp: sample_dwell_confident sample_fields case_prod_beta)
  moreover have "map dwell_span_of (sort_key (\<lambda>x. timestamp (ob_occurred_at (snd x))) (map dwell_sample dense_history))
    = map span_sample [(''c'', 1798185600), (''f'', 1798466400), (''b'', 1798790400),
        (''e'', 1799071200), (''a'', 1799395200), (''d'', 1799676000)]"
    by (simp add: dense_history_def sample_fields)
  ultimately show ?thesis
    by (simp add: completed_block_dwell_spans_def op_simps sample_initiation_def)
qed

lemma sample_span_tally:
  assumes "t mod 3600 = 0"
  shows "split_span 0 (ds_block_id (span_sample (b, t))) (ds_ended_at (span_sample (b, t)))
     (ds_started_at (span_sample (b, t))) a
   = \<lparr>ta_seconds = add_seconds (ta_seconds a) (bucket_of t) 3000,
      ta_blocks = add_block (ta_blocks a) (bucket_of t) b\<rparr>"
proof -
  have stop: "split_span 0 b e e u = u" for e u by (subst split_span.simps) simp
  have "min (from_timestamp (t + 3000)) (from_timestamp t + seconds 3600) = from_timestamp (t + 3000)"
    by (simp add: from_timestamp_def seconds_def NANOS_def)
  moreover have "from_timestamp (t + 3000) - from_timestamp t = 3000 * NANOS"
    by (simp add: from_timestamp_def left_diff_distrib [symmetric])
  ultimately show ?thesis
    by (subst split_span.simps) (simp add: to_local_def span_sample_def Let_def assms stop)
qed

lemma sample_good_hour:
  "fst (assess_good_hours (from_timestamp 1800000000) (clamp_offset 0) sample_initiation) = Inr GoodHour"
proof -
  have "6 \<le> length (filter (counted_block (from_timestamp 1800000000 - days 28))
      (t_work_block (in_blocks sample_initiation)))"
    by (simp add: sample_initiation_def dense_history_def sample_counted)
  then show ?thesis
    by (simp add: assess_good_hours_def sample_spans completed_block_count_def andthen_def op_simps
        initiation_policy_defs Let_def clamp_offset_def tally_spans_def sample_span_tally
        bucket_of_def num_days_from_monday_def local_hour_def to_local_def qualifies_def sat_add_def u32_max_def)
qed

theorem invitation_rule_witness:
  "pending_invitation sample_init_env 7 (from_timestamp 1800000000) 0 sample_initiation
     = (Inr (Some \<lparr>iv_id = 7, iv_action = ''soft_start_25'', iv_body = invitation_body,
              iv_duration_seconds = 1500, iv_policy_version = 1\<rparr>),
        sample_initiation\<lparr>in_invitations :=
          [extended sample_init_env 7 (from_timestamp 1800000000) (clamp_offset 0)]\<rparr>)"
proof -
  have "may_invite sample_init_env sample_initiation (from_timestamp 1800000000) (clamp_offset 0)"
    using sample_good_hour
    by (simp add: may_invite_def Let_def dismissed_lately_def is_suppressed_def latest_def op_simps)
      (simp add: sample_initiation_def dense_history_def completed_sample_def live_def empty_focus_def
        in_velvt_quiet_hours_def quiet_hours_remaining_minutes_def is_focus_active_def
        focus_state_at_bucket_def op_simps latest_row_def)
  then show ?thesis
    using invitation_rule [of sample_initiation sample_init_env 7 "from_timestamp 1800000000" 0]
    by (simp add: sample_initiation_def rows_ok_def dismissed_lately_def sample_init_env_def)
qed

end
