(* ===== verification/Delivery.thy ===== *)
theory Delivery
  imports Ipc Focus
begin

text \<open>
  Delivery of cloud insights: rehydration of templates (\<^verbatim>\<open>delivery/rehydrate.rs\<close>), strict
  parsing (\<^verbatim>\<open>delivery/parser.rs\<close>), the long poll with its back-off and duplicate guard
  (\<^verbatim>\<open>delivery/poll.rs\<close>) and the paced refresh (\<^verbatim>\<open>delivery/scheduler.rs\<close>).

  JSON values are an opaque type \<open>'j\<close>; what serde makes of them is the environment's:
  \<open>dv_decode_\<dots>\<close> read a value as one of the raw structs, in which every field is optional.
  A \<^verbatim>\<open>NaiveDate\<close> is a day number. Local names come from \<open>dv_display_name\<close>, the abstraction
  map's answer for a label. Durations are nanoseconds.

  The poll scheduler is a step relation. Its two watch channels carry a current value, whether
  this receiver has seen it, and whether the sender is gone: \<^verbatim>\<open>borrow\<close> reads the value,
  \<^verbatim>\<open>changed\<close> completes when there is an unseen one (and marks it seen) or the sender is gone.
  Which branch of a \<^verbatim>\<open>select!\<close> wins is the relation's choice.
\<close>

section \<open>Rehydration\<close>

record label_reference =
  lr_token :: ustr
  lr_label :: ustr

text \<open>\<^verbatim>\<open>str::replace\<close> with a non-empty pattern: leftmost matches, left to right.\<close>

fun replace_all :: "ustr \<Rightarrow> ustr \<Rightarrow> ustr \<Rightarrow> ustr" where
  "replace_all pat rep [] = []"
| "replace_all pat rep (c # cs) =
     (if prefix pat (c # cs) then rep @ replace_all pat rep (drop (length pat - 1) cs)
      else c # replace_all pat rep cs)"

definition generic_label :: "ustr \<Rightarrow> ustr" where
  "generic_label label = of_str
     (let head = takeWhile (\<lambda>c. c \<noteq> 58) label in
      if head = of_str ''communication'' then ''a communication app''
      else if head = of_str ''meeting'' then ''a meeting app''
      else if head = of_str ''document'' then ''document work''
      else if head = of_str ''video'' then ''video activity''
      else if head = of_str ''audio'' then ''audio activity''
      else if head = of_str ''social'' then ''a social feed''
      else if head = of_str ''task'' then ''task management''
      else if head = of_str ''reference'' then ''reference work''
      else if head = of_str ''design'' then ''design work''
      else if head = of_str ''creative'' then ''creative work''
      else if head = of_str ''system'' then ''system activity''
      else ''an activity'')"

definition rehydrate :: "(ustr \<Rightarrow> ustr option) \<Rightarrow> ustr \<Rightarrow> label_reference list \<Rightarrow> ustr" where
  "rehydrate names template refs = foldl (\<lambda>rendered r.
     replace_all ([123] @ lr_token r @ [125])
       (case names (lr_label r) of Some n \<Rightarrow> n | None \<Rightarrow> generic_label (lr_label r)) rendered)
     template refs"

section \<open>Payloads\<close>

datatype emotional_stage = Early | Stable | PositiveDeviation | SustainedPositiveTrend
  | NegativeDeviation | RepeatedNegativeTrend | SustainedHighConfidenceDecline | Recovery

datatype confidence = ConfNone | ConfLow | ConfMedium | ConfHigh

text \<open>The evidence fields delivery reads; the others travel in \<open>ie_rest\<close>.\<close>

record 'j insight_evidence =
  ie_observation :: ustr
  ie_comparison :: ustr
  ie_suggested_action :: ustr
  ie_tone_stage :: emotional_stage
  ie_observation_type :: ustr
  ie_rest :: 'j

record 'j insight =
  is_date :: int
  is_text :: ustr
  is_evidence :: "'j insight_evidence"
  is_confidence_level :: confidence
  is_low_confidence :: bool
  is_generated_at :: instant

record 'j raw_insight =
  ri_date :: "int option"
  ri_text :: "ustr option"
  ri_template :: "ustr option"
  ri_label_references :: "label_reference list option"
  ri_confidence_level :: "confidence option"
  ri_low_confidence :: "bool option"
  ri_generated_at :: "instant option"
  ri_quality_metadata :: "'j option"

record 'j raw_polled_meta =
  rm_confidence_level :: "confidence option"
  rm_low_confidence :: "bool option"
  rm_quality_metadata :: "'j option"

record 'j raw_polled_insight =
  rp_id :: "string option"
  rp_date :: "int option"
  rp_text :: "ustr option"
  rp_template :: "ustr option"
  rp_label_references :: "label_reference list option"
  rp_generated_at :: "instant option"
  rp_meta :: "'j raw_polled_meta option"

datatype parse_error = MissingField string | InvalidJson

record 'j delivery_env =
  dv_decode_insight :: "'j \<Rightarrow> 'j raw_insight option"
  dv_decode_polled :: "'j \<Rightarrow> 'j raw_polled_insight option"
  dv_get_evidence :: "'j \<Rightarrow> 'j option"
  dv_decode_evidence :: "'j \<Rightarrow> 'j insight_evidence option"
  dv_default_rest :: 'j
  dv_display_name :: "(ustr \<Rightarrow> ustr option) option"

definition default_evidence :: "'j delivery_env \<Rightarrow> 'j insight_evidence" where
  "default_evidence E = \<lparr>ie_observation = of_str ''Evidence unavailable'',
     ie_comparison = of_str ''Baseline comparison unavailable'',
     ie_suggested_action = of_str ''Protect one realistic work block'',
     ie_tone_stage = Early, ie_observation_type = of_str ''unavailable'', ie_rest = dv_default_rest E\<rparr>"

section \<open>Parsing\<close>

definition required_field :: "string \<Rightarrow> 'a option \<Rightarrow> ('a \<Rightarrow> parse_error + 'b) \<Rightarrow> parse_error + 'b" where
  "required_field field x f = (case x of None \<Rightarrow> Inl (MissingField field) | Some a \<Rightarrow> f a)"

definition parse_evidence :: "'j delivery_env \<Rightarrow> 'j option \<Rightarrow> parse_error + 'j insight_evidence" where
  "parse_evidence E quality = (case Option.bind quality (dv_get_evidence E) of
     None \<Rightarrow> Inr (default_evidence E)
   | Some v \<Rightarrow> (case dv_decode_evidence E v of None \<Rightarrow> Inl InvalidJson | Some ev \<Rightarrow> Inr ev))"

definition display_text :: "'j delivery_env \<Rightarrow> ustr option \<Rightarrow> label_reference list option \<Rightarrow> ustr \<Rightarrow> ustr" where
  "display_text E template refs fallback = (case (template, refs, dv_display_name E) of
     (Some t, Some rs, Some names) \<Rightarrow> rehydrate names t rs | _ \<Rightarrow> fallback)"

definition parse_insight_with_rehydrator :: "'j delivery_env \<Rightarrow> 'j \<Rightarrow> parse_error + 'j insight" where
  "parse_insight_with_rehydrator E v = (case dv_decode_insight E v of None \<Rightarrow> Inl InvalidJson
   | Some raw \<Rightarrow> required_field ''text'' (ri_text raw) (\<lambda>fallback.
       let text = display_text E (ri_template raw) (ri_label_references raw) fallback in
       case parse_evidence E (ri_quality_metadata raw) of Inl e \<Rightarrow> Inl e
       | Inr ev \<Rightarrow> required_field ''date'' (ri_date raw) (\<lambda>date.
           required_field ''confidence_level'' (ri_confidence_level raw) (\<lambda>conf.
           required_field ''low_confidence'' (ri_low_confidence raw) (\<lambda>low.
           required_field ''generated_at'' (ri_generated_at raw) (\<lambda>gen.
           Inr \<lparr>is_date = date, is_text = text, is_evidence = ev, is_confidence_level = conf,
             is_low_confidence = low, is_generated_at = gen\<rparr>))))))"

text \<open>The poll's body carries its metadata in an object of its own, and may omit the instant.\<close>

definition parse_polled_insight :: "'j delivery_env \<Rightarrow> instant \<Rightarrow> 'j \<Rightarrow> parse_error + string \<times> 'j insight" where
  "parse_polled_insight E now v = (case dv_decode_polled E v of None \<Rightarrow> Inl InvalidJson
   | Some raw \<Rightarrow> required_field ''id'' (rp_id raw) (\<lambda>i. required_field ''meta'' (rp_meta raw) (\<lambda>meta.
       required_field ''text'' (rp_text raw) (\<lambda>fallback.
       let text = display_text E (rp_template raw) (rp_label_references raw) fallback in
       required_field ''date'' (rp_date raw) (\<lambda>date.
       case parse_evidence E (rm_quality_metadata meta) of Inl e \<Rightarrow> Inl e
       | Inr ev \<Rightarrow> required_field ''meta.confidence_level'' (rm_confidence_level meta) (\<lambda>conf.
           required_field ''meta.low_confidence'' (rm_low_confidence meta) (\<lambda>low.
           Inr (i, \<lparr>is_date = date, is_text = text, is_evidence = ev, is_confidence_level = conf,
             is_low_confidence = low,
             is_generated_at = (case rp_generated_at raw of None \<Rightarrow> now | Some t \<Rightarrow> t)\<rparr>))))))))"

section \<open>The poll\<close>

record poll_config =
  pc_poll_timeout :: int
  pc_idle_interval :: int
  pc_initial_backoff :: int
  pc_max_backoff :: int

text \<open>What the HTTP client brings back: nothing in time, an error, or a response.\<close>

datatype 'j reply = TimedOut | Refused auth_error | Replied nat "ustr option" "'j option"

datatype 'j poll_outcome = Insight string "'j insight" | NoContent

datatype poll_error = PollHttp auth_error | ApiStatus nat | PollRateLimited "int option"
  | InvalidResponse parse_error | Timeout

definition parse_poll_retry_after :: "ustr option \<Rightarrow> int option" where
  "parse_poll_retry_after v = (case Option.bind v (\<lambda>x. parse_u64 (trim x)) of None \<Rightarrow> None
     | Some n \<Rightarrow> if 0 < n then Some (seconds (int n)) else None)"

definition rate_limit_delay :: "int option \<Rightarrow> int \<Rightarrow> int \<Rightarrow> int" where
  "rate_limit_delay retry_after fallback cap =
     (case retry_after of Some d \<Rightarrow> min d cap | None \<Rightarrow> fallback)"

definition poll_once :: "'j delivery_env \<Rightarrow> instant \<Rightarrow> 'j reply \<Rightarrow> poll_error + 'j poll_outcome" where
  "poll_once E now r = (case r of TimedOut \<Rightarrow> Inl Timeout | Refused e \<Rightarrow> Inl (PollHttp e)
   | Replied status retry_after body \<Rightarrow>
       if status = 200 then (case body of None \<Rightarrow> Inl (InvalidResponse (MissingField ''body''))
         | Some v \<Rightarrow> (case parse_polled_insight E now v of Inl e \<Rightarrow> Inl (InvalidResponse e)
             | Inr (i, p) \<Rightarrow> Inr (Insight i p)))
       else if status = 204 then Inr NoContent
       else if status = 429 then Inl (PollRateLimited (parse_poll_retry_after retry_after))
       else Inl (ApiStatus status))"

definition next_poll_delay :: "int \<Rightarrow> int \<Rightarrow> int \<times> int" where
  "next_poll_delay cap next = (next, min (2 * next) cap)"

definition should_deliver :: "string \<Rightarrow> string option \<Rightarrow> bool \<times> string option" where
  "should_deliver i seen = (if seen = Some i then (False, seen) else (True, Some i))"

section \<open>Handing an insight to the adapter\<close>

datatype 'j push_call = CallInsight "'j insight" | CallNotification notification_payload

definition wire_insight :: "'j insight \<Rightarrow> insight_payload" where
  "wire_insight p = \<lparr>in_text = is_text p, in_observation = ie_observation (is_evidence p),
     in_comparison = ie_comparison (is_evidence p),
     in_suggested_action = ie_suggested_action (is_evidence p)\<rparr>"

fun run_call :: "nat \<Rightarrow> 'j push_call \<Rightarrow> 'r queued list \<Rightarrow> 'r queued list" where
  "run_call cap (CallInsight p) q = push_insight cap (wire_insight p) q"
| "run_call cap (CallNotification n) q = push_notification cap n q"

definition should_notify :: "'j insight \<Rightarrow> bool" where
  "should_notify p \<longleftrightarrow> ie_tone_stage (is_evidence p) \<noteq> Early
     \<and> ie_observation_type (is_evidence p) \<noteq> of_str ''recorded_activity''"

definition deliver_polled_insight ::
  "128 word \<Rightarrow> string option \<Rightarrow> string \<Rightarrow> 'j insight \<Rightarrow> instant option \<Rightarrow> 'j push_call list \<times> string option"
where
  "deliver_polled_insight fresh seen i p until =
     (let (new, seen') = should_deliver i seen in
      if \<not> new then ([], seen')
      else (CallInsight p # (if should_notify p
          then [CallNotification \<lparr>nt_notification_id = fresh, nt_title = of_str ''Your Velvt insight is ready'',
                  nt_body = is_text p, nt_insight_date = is_date p, nt_do_not_disturb_until = until\<rparr>]
          else []), seen'))"

section \<open>The poll scheduler\<close>

record 'v watch =
  wt_value :: 'v
  wt_unseen :: bool
  wt_closed :: bool

datatype poll_phase = Top | Waiting | Polling | Sleeping int | Stopped

record ('j, 'r) poll =
  po_phase :: poll_phase
  po_seen :: "string option"
  po_next :: int
  po_calls :: "(string \<times> 'j push_call) list"
  po_queue :: "'r queued list"
  po_auth :: "auth_state watch"
  po_shutdown :: "bool watch"
  po_quiet :: "focus option"

text \<open>What one finished poll does; \<open>now\<close> and \<open>fresh\<close> are what the clock and the id source give.\<close>

definition after_poll :: "'j delivery_env \<Rightarrow> poll_config \<Rightarrow> nat \<Rightarrow> instant \<Rightarrow> 128 word \<Rightarrow> 'j reply
  \<Rightarrow> ('j, 'r) poll \<Rightarrow> ('j, 'r) poll" where
  "after_poll E C cap now fresh r s =
     (case poll_once E now r of
        Inr (Insight i p) \<Rightarrow>
          let until = Option.bind (po_quiet s) (\<lambda>f. quiet_hours_end f now);
              (calls, seen) = deliver_polled_insight fresh (po_seen s) i p until
          in s\<lparr>po_phase := Top, po_next := min (pc_initial_backoff C) (pc_max_backoff C), po_seen := seen,
               po_calls := po_calls s @ map (Pair i) calls,
               po_queue := fold (run_call cap) calls (po_queue s)\<rparr>
      | Inr NoContent \<Rightarrow> s\<lparr>po_phase := Sleeping (pc_idle_interval C),
               po_next := min (pc_initial_backoff C) (pc_max_backoff C)\<rparr>
      | Inl (PollRateLimited retry_after) \<Rightarrow> s\<lparr>po_phase := Sleeping (rate_limit_delay retry_after
               (pc_poll_timeout C + pc_idle_interval C) (pc_max_backoff C))\<rparr>
      | Inl _ \<Rightarrow> (let (d, n) = next_poll_delay (pc_max_backoff C) (po_next s)
               in s\<lparr>po_phase := Sleeping d, po_next := n\<rparr>))"

definition saw_auth :: "('j, 'r) poll \<Rightarrow> ('j, 'r) poll" where
  "saw_auth s = s\<lparr>po_auth := (po_auth s)\<lparr>wt_unseen := False\<rparr>\<rparr>"

definition saw_shutdown :: "('j, 'r) poll \<Rightarrow> ('j, 'r) poll" where
  "saw_shutdown s = s\<lparr>po_shutdown := (po_shutdown s)\<lparr>wt_unseen := False\<rparr>\<rparr>"

abbreviation gone :: "'v watch \<Rightarrow> bool" where
  "gone w \<equiv> wt_closed w \<and> \<not> wt_unseen w"

inductive poll_own :: "'j delivery_env \<Rightarrow> poll_config \<Rightarrow> nat \<Rightarrow> ('j, 'r) poll \<Rightarrow> ('j, 'r) poll \<Rightarrow> bool"
  for E C cap where
  top_stop: "po_phase s = Top \<Longrightarrow> wt_value (po_shutdown s) \<Longrightarrow> poll_own E C cap s (s\<lparr>po_phase := Stopped\<rparr>)"
| top_wait: "po_phase s = Top \<Longrightarrow> \<not> wt_value (po_shutdown s) \<Longrightarrow> \<not> is_authenticated (wt_value (po_auth s)) \<Longrightarrow>
     poll_own E C cap s (s\<lparr>po_phase := Waiting\<rparr>)"
| top_poll: "po_phase s = Top \<Longrightarrow> \<not> wt_value (po_shutdown s) \<Longrightarrow> is_authenticated (wt_value (po_auth s)) \<Longrightarrow>
     poll_own E C cap s (s\<lparr>po_phase := Polling\<rparr>)"
| polled: "po_phase s = Polling \<Longrightarrow> poll_own E C cap s (after_poll E C cap now fresh r s)"
| wait_shutdown: "po_phase s = Waiting \<Longrightarrow> wt_unseen (po_shutdown s) \<Longrightarrow>
     poll_own E C cap s ((saw_shutdown s)\<lparr>po_phase := (if wt_value (po_shutdown s) then Stopped else Top)\<rparr>)"
| wait_shutdown_gone: "po_phase s = Waiting \<Longrightarrow> gone (po_shutdown s) \<Longrightarrow>
     poll_own E C cap s (s\<lparr>po_phase := Stopped\<rparr>)"
| wait_auth: "po_phase s = Waiting \<Longrightarrow> wt_unseen (po_auth s) \<Longrightarrow>
     poll_own E C cap s ((saw_auth s)\<lparr>po_phase := (if is_authenticated (wt_value (po_auth s)) then Top else Waiting)\<rparr>)"
| wait_auth_gone: "po_phase s = Waiting \<Longrightarrow> gone (po_auth s) \<Longrightarrow>
     poll_own E C cap s (s\<lparr>po_phase := Stopped\<rparr>)"
| sleep_done: "po_phase s = Sleeping d \<Longrightarrow> poll_own E C cap s (s\<lparr>po_phase := Top\<rparr>)"
| sleep_shutdown: "po_phase s = Sleeping d \<Longrightarrow> wt_unseen (po_shutdown s) \<Longrightarrow>
     poll_own E C cap s ((saw_shutdown s)\<lparr>po_phase := (if wt_value (po_shutdown s) then Stopped else Top)\<rparr>)"
| sleep_shutdown_gone: "po_phase s = Sleeping d \<Longrightarrow> gone (po_shutdown s) \<Longrightarrow>
     poll_own E C cap s (s\<lparr>po_phase := Stopped\<rparr>)"
| sleep_auth: "po_phase s = Sleeping d \<Longrightarrow> wt_unseen (po_auth s) \<Longrightarrow>
     poll_own E C cap s ((saw_auth s)\<lparr>po_phase := Top\<rparr>)"
| sleep_auth_gone: "po_phase s = Sleeping d \<Longrightarrow> gone (po_auth s) \<Longrightarrow>
     poll_own E C cap s (s\<lparr>po_phase := Stopped\<rparr>)"

text \<open>What the rest of the service does meanwhile.\<close>

inductive poll_world :: "('j, 'r) poll \<Rightarrow> ('j, 'r) poll \<Rightarrow> bool" where
  auth_sent: "\<not> wt_closed (po_auth s) \<Longrightarrow>
     poll_world s (s\<lparr>po_auth := \<lparr>wt_value = a, wt_unseen = True, wt_closed = False\<rparr>\<rparr>)"
| auth_dropped: "poll_world s (s\<lparr>po_auth := (po_auth s)\<lparr>wt_closed := True\<rparr>\<rparr>)"
| shutdown_sent: "\<not> wt_closed (po_shutdown s) \<Longrightarrow>
     poll_world s (s\<lparr>po_shutdown := \<lparr>wt_value = b, wt_unseen = True, wt_closed = False\<rparr>\<rparr>)"
| shutdown_dropped: "poll_world s (s\<lparr>po_shutdown := (po_shutdown s)\<lparr>wt_closed := True\<rparr>\<rparr>)"
| queue_changed: "poll_world s (s\<lparr>po_queue := q\<rparr>)"
| focus_changed: "poll_world s (s\<lparr>po_quiet := f\<rparr>)"

definition poll_start :: "poll_config \<Rightarrow> auth_state \<Rightarrow> 'r queued list \<Rightarrow> focus option \<Rightarrow> ('j, 'r) poll" where
  "poll_start C a q f = \<lparr>po_phase = Top, po_seen = None,
     po_next = min (pc_initial_backoff C) (pc_max_backoff C), po_calls = [], po_queue = q,
     po_auth = \<lparr>wt_value = a, wt_unseen = False, wt_closed = False\<rparr>,
     po_shutdown = \<lparr>wt_value = False, wt_unseen = False, wt_closed = False\<rparr>, po_quiet = f\<rparr>"

inductive poll_reachable :: "'j delivery_env \<Rightarrow> poll_config \<Rightarrow> nat \<Rightarrow> ('j, 'r) poll \<Rightarrow> bool"
  for E C cap where
  start: "poll_reachable E C cap (poll_start C a q f)"
| own: "poll_reachable E C cap s \<Longrightarrow> poll_own E C cap s t \<Longrightarrow> poll_reachable E C cap t"
| world: "poll_reachable E C cap s \<Longrightarrow> poll_world s t \<Longrightarrow> poll_reachable E C cap t"

inductive_cases poll_own_cases: "poll_own E C cap s t"
inductive_cases poll_world_cases: "poll_world s t"

section \<open>The paced refresh\<close>

record refresh =
  rf_last_fetch :: int
  rf_auth :: auth_state
  rf_shutdown :: bool
  rf_stopped :: bool
  rf_fetches :: "int list"

text \<open>One wake-up of the loop at the monotonic time \<open>now\<close>.\<close>

definition refresh_tick :: "int \<Rightarrow> int \<Rightarrow> refresh \<Rightarrow> refresh" where
  "refresh_tick min_interval now s =
     (if rf_stopped s then s
      else if rf_shutdown s then s\<lparr>rf_stopped := True\<rparr>
      else if \<not> is_authenticated (rf_auth s) then s
      else if now - rf_last_fetch s < min_interval then s
      else s\<lparr>rf_last_fetch := now, rf_fetches := rf_fetches s @ [now]\<rparr>)"

datatype refresh_event = RTick int | RAuth auth_state | RShutdown bool

fun exec_refresh :: "int \<Rightarrow> refresh_event \<Rightarrow> refresh \<Rightarrow> refresh" where
  "exec_refresh d (RTick now) s = refresh_tick d now s"
| "exec_refresh d (RAuth a) s = s\<lparr>rf_auth := a\<rparr>"
| "exec_refresh d (RShutdown b) s = s\<lparr>rf_shutdown := b, rf_stopped := rf_stopped s \<or> b\<rparr>"

end
