(* ===== verification/Delivery_Properties.thy ===== *)
theory Delivery_Properties
  imports Delivery
begin

text \<open>
  Properties of delivery: an insight is handed on once and announced with the deferral the
  quiet hours ask for, a shutdown ends the poll, the back-off is a capped doubling, and the
  refresh keeps its interval.
\<close>

section \<open>What the poll hands on\<close>

text \<open>
  The log of adapter calls is a sequence of deliveries: the insight, then its notification
  exactly when the insight is one to announce, with its text and date; two deliveries in a row
  are of different insights.
\<close>

fun calls_ok :: "string option \<Rightarrow> (string \<times> 'j push_call) list \<Rightarrow> bool" where
  "calls_ok prev [] = True"
| "calls_ok prev ((i, CallNotification n) # cs) = False"
| "calls_ok prev ((i, CallInsight p) # cs) =
     (prev \<noteq> Some i
      \<and> (if should_notify p
         then (case cs of (j, CallNotification n) # ds \<Rightarrow> j = i \<and> nt_body n = is_text p
                 \<and> nt_insight_date n = is_date p \<and> calls_ok (Some i) ds | _ \<Rightarrow> False)
         else calls_ok (Some i) cs))"

definition last_id :: "string option \<Rightarrow> (string \<times> 'j push_call) list \<Rightarrow> string option" where
  "last_id prev cs = (if cs = [] then prev else Some (fst (last cs)))"

lemma calls_ok_append:
  "calls_ok prev cs \<Longrightarrow> calls_ok (last_id prev cs) ds \<Longrightarrow> calls_ok prev (cs @ ds)"
proof (induction prev cs rule: calls_ok.induct)
  case (3 prev i p cs)
  show ?case
  proof (cases "should_notify p")
    case True
    then obtain n es where cs: "cs = (i, CallNotification n) # es" "nt_body n = is_text p"
      "nt_insight_date n = is_date p" "calls_ok (Some i) es"
      using 3(3) by (auto split: list.splits push_call.splits)
    then show ?thesis using 3 True by (auto simp: last_id_def split: if_splits)
  next
    case False
    then show ?thesis using 3 by (auto simp: last_id_def split: if_splits)
  qed
qed (auto simp: last_id_def)

definition poll_ok :: "('j, 'r) poll \<Rightarrow> bool" where
  "poll_ok s \<longleftrightarrow> calls_ok None (po_calls s) \<and> po_seen s = last_id None (po_calls s)
     \<and> (wt_value (po_shutdown s) \<longrightarrow> wt_unseen (po_shutdown s) \<or> po_phase s = Stopped)"

lemma saw_simps [simp]:
  "po_phase (saw_auth s) = po_phase s" "po_calls (saw_auth s) = po_calls s" "po_seen (saw_auth s) = po_seen s"
  "po_shutdown (saw_auth s) = po_shutdown s" "po_next (saw_auth s) = po_next s"
  "wt_unseen (po_auth (saw_auth s)) = False" "wt_value (po_auth (saw_auth s)) = wt_value (po_auth s)"
  "po_phase (saw_shutdown s) = po_phase s" "po_calls (saw_shutdown s) = po_calls s"
  "po_seen (saw_shutdown s) = po_seen s" "po_auth (saw_shutdown s) = po_auth s"
  "po_next (saw_shutdown s) = po_next s"
  "wt_value (po_shutdown (saw_shutdown s)) = wt_value (po_shutdown s)"
  by (simp_all add: saw_auth_def saw_shutdown_def)

lemma after_poll_frame [simp]:
  "po_shutdown (after_poll E C cap now fresh r s) = po_shutdown s"
  "po_auth (after_poll E C cap now fresh r s) = po_auth s"
  by (auto simp: after_poll_def Let_def split: sum.split poll_outcome.split poll_error.split prod.split)

lemma after_poll_phase:
  "po_phase (after_poll E C cap now fresh r s) = Top
   \<or> (\<exists>d. po_phase (after_poll E C cap now fresh r s) = Sleeping d)"
  by (auto simp: after_poll_def Let_def split: sum.split poll_outcome.split poll_error.split prod.split)

lemma after_poll_calls:
  assumes "calls_ok None (po_calls s)" and "po_seen s = last_id None (po_calls s)"
  shows "calls_ok None (po_calls (after_poll E C cap now fresh r s))
     \<and> po_seen (after_poll E C cap now fresh r s) = last_id None (po_calls (after_poll E C cap now fresh r s))"
proof (cases "\<exists>i p. poll_once E now r = Inr (Insight i p)")
  case True
  then obtain i p where p: "poll_once E now r = Inr (Insight i p)" by blast
  show ?thesis
  proof (cases "po_seen s = Some i")
    case True
    then show ?thesis
      using p assms by (simp add: after_poll_def deliver_polled_insight_def should_deliver_def Let_def)
  next
    case False
    then show ?thesis
      using p assms
      by (auto simp: after_poll_def deliver_polled_insight_def should_deliver_def Let_def last_id_def
          intro!: calls_ok_append)
  qed
next
  case False
  then show ?thesis
    using assms by (auto simp: after_poll_def Let_def next_poll_delay_def
        split: sum.split poll_outcome.split poll_error.split)
qed

lemma poll_ok_own: "poll_own E C cap s t \<Longrightarrow> poll_ok s \<Longrightarrow> poll_ok t"
proof (induction rule: poll_own.induct)
  case (polled s now fresh r)
  then show ?case using after_poll_calls [of s E C cap now fresh r] by (auto simp: poll_ok_def)
qed (auto simp: poll_ok_def)

lemma poll_ok_world: "poll_world s t \<Longrightarrow> poll_ok s \<Longrightarrow> poll_ok t"
  by (induction rule: poll_world.induct) (auto simp: poll_ok_def)

lemma poll_ok_reachable: "poll_reachable E C cap s \<Longrightarrow> poll_ok s"
  by (induction rule: poll_reachable.induct)
    (auto simp: poll_ok_own poll_ok_world, simp add: poll_ok_def poll_start_def last_id_def)

text \<open>
  C37: An insight is handed on once and announced as it should be. In every reachable state of
  the poll scheduler, what it has handed to the push adapter is a sequence of deliveries: each
  is an insight, followed by a notification with its text and date exactly when the insight is
  neither early-stage nor mere recorded activity, and no insight is delivered twice in a row.
\<close>

theorem polled_insights_are_delivered_once:
  assumes "poll_reachable E C cap s"
  shows "calls_ok None (po_calls s)"
  using poll_ok_reachable [OF assms] by (simp add: poll_ok_def)

definition sample_delivery_env :: "nat delivery_env" where
  "sample_delivery_env = \<lparr>dv_decode_insight = \<lambda>_. None,
     dv_decode_polled = \<lambda>_. Some \<lparr>rp_id = Some ''i1'', rp_date = Some 20000, rp_text = Some [72],
       rp_template = None, rp_label_references = None, rp_generated_at = None,
       rp_meta = Some \<lparr>rm_confidence_level = Some ConfHigh, rm_low_confidence = Some False,
         rm_quality_metadata = Some 1\<rparr>\<rparr>,
     dv_get_evidence = Some, dv_decode_evidence = \<lambda>_. Some \<lparr>ie_observation = [79], ie_comparison = [67],
       ie_suggested_action = [83], ie_tone_stage = Stable, ie_observation_type = [], ie_rest = 0\<rparr>,
     dv_default_rest = 0, dv_display_name = None\<rparr>"

definition sample_poll_config :: poll_config where
  "sample_poll_config = \<lparr>pc_poll_timeout = seconds 25, pc_idle_interval = seconds 1,
     pc_initial_backoff = seconds 1, pc_max_backoff = seconds 60\<rparr>"

definition sample_polling :: "(nat, nat) poll" where
  "sample_polling = (poll_start sample_poll_config (Authenticated ''dev'') [] None)\<lparr>po_phase := Polling\<rparr>"

lemma sample_polling_reachable: "poll_reachable sample_delivery_env sample_poll_config 50 sample_polling"
  unfolding sample_polling_def
  by (rule poll_reachable.own [OF poll_reachable.start], rule poll_own.top_poll)
    (simp_all add: poll_start_def)

theorem polled_insights_are_delivered_once_witness:
  "\<exists>s. length (po_calls s) = 2 \<and> calls_ok None (po_calls (s :: (nat, nat) poll))"
proof -
  let ?s = "after_poll sample_delivery_env sample_poll_config 50 0 7 (Replied 200 None (Some 1)) sample_polling"
  have "poll_reachable sample_delivery_env sample_poll_config 50 ?s"
    by (rule poll_reachable.own [OF sample_polling_reachable], rule poll_own.polled)
      (simp add: sample_polling_def)
  from polled_insights_are_delivered_once [OF this] show ?thesis
    by (intro exI [of _ ?s]) (simp add: after_poll_def poll_once_def parse_polled_insight_def required_field_def
        parse_evidence_def deliver_polled_insight_def should_deliver_def should_notify_def
        sample_delivery_env_def sample_polling_def poll_start_def of_str_def Let_def)
qed

section \<open>Shutdown\<close>

text \<open>How many more steps of its own the scheduler can take once a shutdown is signalled.\<close>

definition work :: "('j, 'r) poll \<Rightarrow> nat" where
  "work s = (case po_phase s of Stopped \<Rightarrow> 0 | Top \<Rightarrow> 1 | Sleeping _ \<Rightarrow> 2 | Polling \<Rightarrow> 3
     | Waiting \<Rightarrow> if wt_unseen (po_auth s) then 3 else 2)"

lemma work_le: "work s \<le> 3"
  by (simp add: work_def split: poll_phase.split)

lemma own_works:
  assumes "poll_own E C cap s t" and "wt_value (po_shutdown s)"
  shows "work t < work s \<and> wt_value (po_shutdown t)"
  using assms
proof (induction rule: poll_own.induct)
  case (polled s now fresh r)
  then show ?case using after_poll_phase [of E C cap now fresh r s] by (auto simp: work_def)
qed (auto simp: work_def)

lemma own_not_stuck:
  assumes "poll_ok s" and "wt_value (po_shutdown s)" and "po_phase s \<noteq> Stopped"
  shows "\<exists>t. poll_own E C cap s t"
proof (cases "po_phase s")
  case Waiting
  then have "wt_unseen (po_shutdown s)" using assms by (simp add: poll_ok_def)
  then show ?thesis using poll_own.wait_shutdown [OF Waiting] by blast
qed (use assms poll_own.top_stop poll_own.polled poll_own.sleep_done in blast)+

text \<open>
  C38: A shutdown ends the poll. Once the shutdown signal is set, the scheduler takes at most
  three more steps of its own, whichever branches its selects take, and until it has returned
  it always has a step to take: a poll that comes back, a timer that runs out or the signal
  itself.
\<close>

theorem shutdown_ends_the_poll:
  assumes "poll_reachable E C cap s" and "wt_value (po_shutdown s)"
    and "(poll_own E C cap ^^ n) s t"
  shows "n \<le> 3 \<and> (po_phase t = Stopped \<or> (\<exists>u. poll_own E C cap t u))"
proof -
  have "n + work t \<le> work s \<and> poll_ok t \<and> wt_value (po_shutdown t)"
    using assms(3)
  proof (induction n arbitrary: t)
    case 0
    then show ?case using poll_ok_reachable [OF assms(1)] assms(2) by simp
  next
    case (Suc n)
    then obtain u where u: "(poll_own E C cap ^^ n) s u" "poll_own E C cap u t" by auto
    from Suc.IH [OF u(1)] own_works [OF u(2)] poll_ok_own [OF u(2)] show ?case by auto
  qed
  then show ?thesis using work_le [of s] own_not_stuck [of t E C cap] by auto
qed

theorem shutdown_ends_the_poll_witness:
  "let s = sample_polling\<lparr>po_shutdown := \<lparr>wt_value = True, wt_unseen = True, wt_closed = False\<rparr>\<rparr>
   in \<exists>t. (poll_own sample_delivery_env sample_poll_config 50 ^^ 1) s t \<and> (1::nat) \<le> 3
     \<and> (po_phase t = Stopped \<or> (\<exists>u. poll_own sample_delivery_env sample_poll_config 50 t u))"
proof -
  let ?s = "sample_polling\<lparr>po_shutdown := \<lparr>wt_value = True, wt_unseen = True, wt_closed = False\<rparr>\<rparr>"
  let ?t = "after_poll sample_delivery_env sample_poll_config 50 0 7 TimedOut ?s"
  have "poll_world sample_polling ?s"
    by (rule poll_world.shutdown_sent) (simp add: sample_polling_def poll_start_def)
  then have "poll_reachable sample_delivery_env sample_poll_config 50 ?s"
    by (rule poll_reachable.world [OF sample_polling_reachable])
  moreover have t: "(poll_own sample_delivery_env sample_poll_config 50 ^^ 1) ?s ?t"
    unfolding relpowp_1 by (rule poll_own.polled) (simp add: sample_polling_def)
  ultimately show ?thesis
    using shutdown_ends_the_poll [of sample_delivery_env sample_poll_config 50 ?s 1 ?t] by auto
qed

section \<open>Back-off\<close>

definition failing :: "'j delivery_env \<Rightarrow> instant \<Rightarrow> 'j reply \<Rightarrow> bool" where
  "failing E now r \<longleftrightarrow> (case poll_once E now r of Inr _ \<Rightarrow> False | Inl (PollRateLimited _) \<Rightarrow> False
     | Inl _ \<Rightarrow> True)"

lemma after_failing:
  assumes "failing E now r"
  shows "after_poll E C cap now fresh r s
    = s\<lparr>po_phase := Sleeping (po_next s), po_next := min (2 * po_next s) (pc_max_backoff C)\<rparr>"
  using assms
  by (auto simp: failing_def after_poll_def next_poll_delay_def split: sum.splits poll_error.splits)

text \<open>
  Failed polls back off by doubling up to the cap. After \<open>k + 1\<close> polls in a row that failed
  (the request failed or timed out, the status was unexpected or the body did not parse), the
  scheduler sleeps the initial delay times \<open>2 ^ k\<close>, but never longer than the configured
  maximum.
\<close>

theorem poll_backoff_doubles:
  assumes "po_next s = pc_initial_backoff C" and "0 \<le> pc_initial_backoff C"
    and "pc_initial_backoff C \<le> pc_max_backoff C"
    and "list_all (\<lambda>(now, _, r). failing E now r) (xs @ [x])"
  shows "po_phase (fold (\<lambda>(now, fresh, r). after_poll E C cap now fresh r) (xs @ [x]) s)
     = Sleeping (min (pc_initial_backoff C * 2 ^ length xs) (pc_max_backoff C))"
proof -
  let ?run = "fold (\<lambda>(now, fresh, r). after_poll E C cap now fresh r)"
  have "po_next (?run xs s) = min (pc_initial_backoff C * 2 ^ length xs) (pc_max_backoff C)"
    if "list_all (\<lambda>(now, _, r). failing E now r) xs"
    using that
  proof (induction xs rule: rev_induct)
    case Nil
    then show ?case using assms(1,3) by simp
  next
    case (snoc y ys)
    then show ?case
      using assms(2,3) by (cases y) (auto simp: after_failing min_def)
  qed
  then show ?thesis using assms(4) by (cases x) (simp add: after_failing)
qed

theorem poll_backoff_doubles_witness:
  "po_phase (fold (\<lambda>(now, fresh, r). after_poll sample_delivery_env sample_poll_config 50 now fresh r)
      ([(0, 1, TimedOut), (0, 2, Replied 503 None None), (0, 3, Refused ErrTransport)] @ [(0, 4, TimedOut)])
      sample_polling) = Sleeping (min (seconds 1 * 2 ^ 3) (seconds 60))"
proof -
  let ?xs = "[(0, 1, TimedOut), (0, 2, Replied 503 None None), (0, 3, Refused ErrTransport)]
      :: (instant \<times> 128 word \<times> nat reply) list"
  show ?thesis
    using poll_backoff_doubles [of sample_polling sample_poll_config sample_delivery_env ?xs "(0, 4, TimedOut)" 50]
    by (simp add: sample_polling_def sample_poll_config_def poll_start_def failing_def poll_once_def
        seconds_def NANOS_def)
qed

section \<open>The paced refresh\<close>

definition paced :: "int \<Rightarrow> refresh \<Rightarrow> bool" where
  "paced d s \<longleftrightarrow> sorted_wrt (\<lambda>a b. a + d \<le> b) (rf_fetches s)
     \<and> list_all (\<lambda>a. a \<le> rf_last_fetch s) (rf_fetches s)"

lemma paced_step: "0 \<le> d \<Longrightarrow> paced d s \<Longrightarrow> paced d (exec_refresh d e s)"
  by (cases e) (auto simp: paced_def refresh_tick_def sorted_wrt_append list_all_iff)

text \<open>Proactive refreshes are at least the configured interval apart.\<close>

lemma refresh_is_paced:
  assumes "0 \<le> d" and "rf_fetches s = []"
  shows "sorted_wrt (\<lambda>a b. a + d \<le> b) (rf_fetches (fold (exec_refresh d) es s))"
proof -
  have "paced d s" using assms(2) by (simp add: paced_def)
  then have "paced d (fold (exec_refresh d) es s)"
    by (induction es arbitrary: s) (simp_all add: paced_step [OF assms(1)])
  then show ?thesis by (simp add: paced_def)
qed

end
