(* ===== verification/Fetch.thy ===== *)
theory Fetch
  imports Delivery Complex_Main
begin

text \<open>
  The cache-first fetch service (\<^verbatim>\<open>delivery/fetch.rs\<close>, \<^verbatim>\<open>delivery/cache.rs\<close>, the history half
  of \<^verbatim>\<open>delivery/parser.rs\<close>) and its two cache tables (\<^verbatim>\<open>persistence/sqlite.rs\<close>).

  The state holds the tables, the push queue, and what the outside will do: \<open>fs_clock\<close> gives
  the clock's next readings (it stands still once used up), \<open>fs_reads\<close> whether a cache read
  finishes in time (each does once used up), \<open>fs_net\<close> the replies the server will give. \<open>fs_requests\<close>
  logs the paths asked for. Printing and reading JSON is the library's. The per-window lock only
  orders concurrent callers: the model runs one call at a time, with the second look at the
  cache the code takes after acquiring it. Failures of the database on writes are not modelled.
\<close>

datatype history_status = HistReady | HistNoData

record activity_proportion =
  ap_category :: ustr
  ap_seconds :: nat
  ap_proportion :: rat

record 'j daily_summary =
  dy_date :: int
  dy_status :: history_status
  dy_event_count :: nat
  dy_active_seconds :: nat
  dy_focused_seconds :: nat
  dy_meaningful_switch_count :: nat
  dy_longest_uninterrupted_seconds :: nat
  dy_confidence_level :: confidence
  dy_baseline_status :: ustr
  dy_baseline_comparison :: 'j
  dy_type_proportions :: "activity_proportion list"
  dy_focus_score :: "rat option"
  dy_fragmentation_score :: "rat option"

record raw_activity_proportion =
  ra_category :: "ustr option"
  ra_seconds :: "nat option"
  ra_proportion :: "rat option"

record 'j raw_daily_summary =
  rd_date :: "int option"
  rd_status :: "history_status option"
  rd_event_count :: "nat option"
  rd_active_seconds :: "nat option"
  rd_focused_seconds :: "nat option"
  rd_meaningful_switch_count :: "nat option"
  rd_focus_seconds :: "nat option"
  rd_confidence_level :: "confidence option"
  rd_baseline_status :: "ustr option"
  rd_baseline_comparison :: "'j option"
  rd_type_proportions :: "raw_activity_proportion list option"
  rd_focus_score :: "rat option"
  rd_fragmentation_score :: "rat option"

record 'j history_payload =
  hp_days :: nat
  hp_summaries :: "'j daily_summary list"

record 'j fetch_env = "'j delivery_env" +
  fe_decode_history :: "'j \<Rightarrow> 'j raw_daily_summary list option option"
  fe_unknown_baseline :: 'j
  fe_format_date :: "int \<Rightarrow> string"
  fe_print_summary :: "'j daily_summary \<Rightarrow> string"
  fe_read_summary :: "string \<Rightarrow> 'j daily_summary option"
  fe_print_insight :: "'j insight \<Rightarrow> string"
  fe_read_insight :: "string \<Rightarrow> 'j insight option"
  fe_history_ttl :: int
  fe_insight_ttl :: int
  fe_insight_negative_ttl :: int
  fe_push_capacity :: "nat option"

datatype fetch_error = FetchHttp auth_error | FetchInvalid parse_error | FetchStatus nat

record cache_row =
  cr_payload :: string
  cr_ttl :: int
  cr_not_found :: bool

record 'j fetch =
  fs_history :: "(string \<times> cache_row) list"
  fs_insight :: "(string \<times> cache_row) list"
  fs_queue :: "'j daily_summary queued list"
  fs_now :: instant
  fs_clock :: "instant list"
  fs_reads :: "bool list"
  fs_net :: "'j reply list"
  fs_requests :: "string list"

type_synonym ('j, 'a) fetch_op = "('j fetch, fetch_error, 'a) op"

definition fetch_now :: "('j, instant) fetch_op" where
  "fetch_now = (\<lambda>s. case fs_clock s of [] \<Rightarrow> (Inr (fs_now s), s)
     | t # ts \<Rightarrow> (Inr t, s\<lparr>fs_now := t, fs_clock := ts\<rparr>))"

section \<open>Parsing a history\<close>

definition parse_proportion :: "raw_activity_proportion \<Rightarrow> activity_proportion" where
  "parse_proportion r = \<lparr>ap_category = (case ra_category r of None \<Rightarrow> of_str ''unclassified'' | Some c \<Rightarrow> c),
     ap_seconds = (case ra_seconds r of None \<Rightarrow> 0 | Some n \<Rightarrow> n),
     ap_proportion = (case ra_proportion r of None \<Rightarrow> 0 | Some x \<Rightarrow> x)\<rparr>"

definition parse_summary :: "'j fetch_env \<Rightarrow> 'j raw_daily_summary \<Rightarrow> parse_error + 'j daily_summary" where
  "parse_summary E r =
     required_field ''summaries[].date'' (rd_date r) (\<lambda>date.
     required_field ''summaries[].status'' (rd_status r) (\<lambda>status.
     required_field ''summaries[].event_count'' (rd_event_count r) (\<lambda>events.
     required_field ''summaries[].active_seconds'' (rd_active_seconds r) (\<lambda>active.
     required_field ''summaries[].confidence_level'' (rd_confidence_level r) (\<lambda>conf.
     Inr \<lparr>dy_date = date, dy_status = status, dy_event_count = events, dy_active_seconds = active,
       dy_focused_seconds = (case rd_focused_seconds r of None \<Rightarrow> 0 | Some n \<Rightarrow> n),
       dy_meaningful_switch_count = (case rd_meaningful_switch_count r of None \<Rightarrow> 0 | Some n \<Rightarrow> n),
       dy_longest_uninterrupted_seconds = (case rd_focus_seconds r of None \<Rightarrow> 0 | Some n \<Rightarrow> n),
       dy_confidence_level = conf,
       dy_baseline_status = (case rd_baseline_status r of None \<Rightarrow> of_str ''unknown'' | Some b \<Rightarrow> b),
       dy_baseline_comparison = (case rd_baseline_comparison r of None \<Rightarrow> fe_unknown_baseline E | Some v \<Rightarrow> v),
       dy_type_proportions = map parse_proportion
         (case rd_type_proportions r of None \<Rightarrow> [] | Some ps \<Rightarrow> ps),
       dy_focus_score = rd_focus_score r, dy_fragmentation_score = rd_fragmentation_score r\<rparr>)))))"

fun parse_summaries :: "'j fetch_env \<Rightarrow> 'j raw_daily_summary list \<Rightarrow> parse_error + 'j daily_summary list" where
  "parse_summaries E [] = Inr []"
| "parse_summaries E (r # rs) = (case parse_summary E r of Inl e \<Rightarrow> Inl e
     | Inr d \<Rightarrow> (case parse_summaries E rs of Inl e \<Rightarrow> Inl e | Inr ds \<Rightarrow> Inr (d # ds)))"

definition parse_history :: "'j fetch_env \<Rightarrow> 'j \<Rightarrow> parse_error + 'j daily_summary list" where
  "parse_history E v = (case fe_decode_history E v of None \<Rightarrow> Inl InvalidJson
     | Some raw \<Rightarrow> required_field ''summaries'' raw (parse_summaries E))"

section \<open>The cache tables\<close>

definition upsert_row :: "string \<Rightarrow> cache_row \<Rightarrow> (string \<times> cache_row) list \<Rightarrow> (string \<times> cache_row) list" where
  "upsert_row d r t = (if d \<in> fst ` set t then map (\<lambda>(k, x). if k = d then (k, r) else (k, x)) t
     else t @ [(d, r)])"

definition upsert_history :: "string \<Rightarrow> string \<Rightarrow> instant \<Rightarrow> ('j, unit) fetch_op" where
  "upsert_history d payload expires = modify (\<lambda>s. s\<lparr>fs_history := upsert_row d
     \<lparr>cr_payload = payload, cr_ttl = timestamp expires, cr_not_found = False\<rparr> (fs_history s)\<rparr>)"

definition upsert_insight :: "string \<Rightarrow> string \<Rightarrow> instant \<Rightarrow> ('j, unit) fetch_op" where
  "upsert_insight d payload expires = modify (\<lambda>s. s\<lparr>fs_insight := upsert_row d
     \<lparr>cr_payload = payload, cr_ttl = timestamp expires, cr_not_found = False\<rparr> (fs_insight s)\<rparr>)"

definition upsert_negative :: "string \<Rightarrow> instant \<Rightarrow> ('j, unit) fetch_op" where
  "upsert_negative d expires = modify (\<lambda>s. s\<lparr>fs_insight := upsert_row d
     \<lparr>cr_payload = ''null'', cr_ttl = timestamp expires, cr_not_found = True\<rparr> (fs_insight s)\<rparr>)"

definition fresh_row :: "instant \<Rightarrow> string \<Rightarrow> (string \<times> cache_row) list \<Rightarrow> cache_row option" where
  "fresh_row now d t = (case map_of t d of None \<Rightarrow> None
     | Some r \<Rightarrow> if timestamp now < cr_ttl r then Some r else None)"

definition get_history_cache :: "string \<Rightarrow> ('j, cache_row option) fetch_op" where
  "get_history_cache d = andthen fetch_now (\<lambda>now. gets (\<lambda>s. fresh_row now d (fs_history s)))"

definition get_insight_cache :: "string \<Rightarrow> ('j, cache_row option) fetch_op" where
  "get_insight_cache d = andthen fetch_now (\<lambda>now. gets (\<lambda>s. fresh_row now d (fs_insight s)))"

definition invalidate_history_date :: "'j fetch_env \<Rightarrow> int \<Rightarrow> ('j, unit) fetch_op" where
  "invalidate_history_date E d = modify (\<lambda>s. s\<lparr>fs_history :=
     filter (\<lambda>(k, _). k \<noteq> fe_format_date E d) (fs_history s)\<rparr>)"

definition invalidate_history_all :: "('j, unit) fetch_op" where
  "invalidate_history_all = modify (\<lambda>s. s\<lparr>fs_history := []\<rparr>)"

definition invalidate_insight_date :: "'j fetch_env \<Rightarrow> int \<Rightarrow> ('j, unit) fetch_op" where
  "invalidate_insight_date E d = modify (\<lambda>s. s\<lparr>fs_insight :=
     filter (\<lambda>(k, _). k \<noteq> fe_format_date E d) (fs_insight s)\<rparr>)"

definition invalidate_insight_all :: "('j, unit) fetch_op" where
  "invalidate_insight_all = modify (\<lambda>s. s\<lparr>fs_insight := []\<rparr>)"

definition invalidate_history :: "'j fetch_env \<Rightarrow> int option \<Rightarrow> ('j, unit) fetch_op" where
  "invalidate_history E d = (case d of Some x \<Rightarrow> invalidate_history_date E x | None \<Rightarrow> invalidate_history_all)"

definition invalidate_insights :: "'j fetch_env \<Rightarrow> int option \<Rightarrow> ('j, unit) fetch_op" where
  "invalidate_insights E d = (case d of Some x \<Rightarrow> invalidate_insight_date E x | None \<Rightarrow> invalidate_insight_all)"

definition invalidate_all :: "('j, unit) fetch_op" where
  "invalidate_all = andthen invalidate_history_all (\<lambda>_. invalidate_insight_all)"

section \<open>Reading with a timeout\<close>

definition in_time :: "('j, bool) fetch_op" where
  "in_time = (\<lambda>s. case fs_reads s of [] \<Rightarrow> (Inr True, s) | b # bs \<Rightarrow> (Inr b, s\<lparr>fs_reads := bs\<rparr>))"

definition read_history_cached :: "string \<Rightarrow> ('j, cache_row option) fetch_op" where
  "read_history_cached d = andthen in_time (\<lambda>b. if b then get_history_cache d else ret None)"

definition read_insight_cached :: "string \<Rightarrow> ('j, cache_row option) fetch_op" where
  "read_insight_cached d = andthen in_time (\<lambda>b. if b then get_insight_cache d else ret None)"

section \<open>Asking the server\<close>

definition fetch_send :: "string \<Rightarrow> ('j, nat \<times> 'j option) fetch_op" where
  "fetch_send path = (\<lambda>s. let s' = s\<lparr>fs_requests := fs_requests s @ [path]\<rparr> in
     case fs_net s of [] \<Rightarrow> (Inl (FetchHttp ErrTransport), s')
     | r # rs \<Rightarrow> (case r of Replied status _ body \<Rightarrow> (Inr (status, body), s'\<lparr>fs_net := rs\<rparr>)
         | Refused e \<Rightarrow> (Inl (FetchHttp e), s'\<lparr>fs_net := rs\<rparr>)
         | TimedOut \<Rightarrow> (Inl (FetchHttp ErrTransport), s'\<lparr>fs_net := rs\<rparr>)))"

definition lift_parse :: "parse_error + 'a \<Rightarrow> ('j, 'a) fetch_op" where
  "lift_parse x = (case x of Inl e \<Rightarrow> err (FetchInvalid e) | Inr a \<Rightarrow> ret a)"

definition history_path :: "nat \<Rightarrow> string" where
  "history_path n = ''/v1/history/daily?days='' @ nat_str n"

definition insight_path :: "'j fetch_env \<Rightarrow> int \<Rightarrow> string" where
  "insight_path E d = ''/v1/insights/daily?date='' @ fe_format_date E d"

definition fetch_history_from_api :: "'j fetch_env \<Rightarrow> nat \<Rightarrow> ('j, 'j daily_summary list) fetch_op" where
  "fetch_history_from_api E n = andthen (fetch_send (history_path n)) (\<lambda>(status, body).
     if status \<noteq> 200 then err (FetchStatus status)
     else case body of None \<Rightarrow> err (FetchInvalid (MissingField ''body''))
       | Some v \<Rightarrow> lift_parse (parse_history E v))"

definition fetch_insight_from_api :: "'j fetch_env \<Rightarrow> int \<Rightarrow> ('j, 'j insight option) fetch_op" where
  "fetch_insight_from_api E d = andthen (fetch_send (insight_path E d)) (\<lambda>(status, body).
     if status = 200 then (case body of None \<Rightarrow> err (FetchInvalid (MissingField ''body''))
       | Some v \<Rightarrow> andthen (lift_parse (parse_insight_with_rehydrator (delivery_env.truncate E) v))
           (\<lambda>p. ret (Some p)))
     else if status = 404 then ret None else err (FetchStatus status))"

section \<open>The service\<close>

definition to_chrono :: "int \<Rightarrow> int" where
  "to_chrono d = seconds (d div NANOS)"

definition CLOUD_HISTORY_MAX_DAYS :: nat where
  "CLOUD_HISTORY_MAX_DAYS = 7"

definition date_naive :: "instant \<Rightarrow> int" where
  "date_naive t = timestamp t div 86400"

definition cloud_history_dates :: "nat \<Rightarrow> ('j, int list) fetch_op" where
  "cloud_history_dates n = andthen fetch_now (\<lambda>now.
     ret (map (\<lambda>i. date_naive now - int i) [0..<min n CLOUD_HISTORY_MAX_DAYS]))"

definition has_a_ready_day :: "'j history_payload \<Rightarrow> bool" where
  "has_a_ready_day h \<longleftrightarrow> list_ex (\<lambda>d. dy_status d = HistReady) (hp_summaries h)"

definition cloud_history :: "'j daily_summary list \<Rightarrow> 'j history_payload" where
  "cloud_history ds = \<lparr>hp_days = min (length ds) u32_max, hp_summaries = sort_key dy_date ds\<rparr>"

fun all_history_cached :: "'j fetch_env \<Rightarrow> int list \<Rightarrow> ('j, 'j daily_summary list option) fetch_op" where
  "all_history_cached E [] = ret (Some [])"
| "all_history_cached E (d # ds) = andthen (read_history_cached (fe_format_date E d)) (\<lambda>x.
     case x of None \<Rightarrow> ret None
     | Some row \<Rightarrow> (case fe_read_summary E (cr_payload row) of None \<Rightarrow> ret None
         | Some y \<Rightarrow> andthen (all_history_cached E ds) (\<lambda>rest. ret (map_option ((#) y) rest))))"

fun store_summaries :: "'j fetch_env \<Rightarrow> instant \<Rightarrow> 'j daily_summary list \<Rightarrow> ('j, unit) fetch_op" where
  "store_summaries E expires [] = ret ()"
| "store_summaries E expires (y # ys) =
     andthen (upsert_history (fe_format_date E (dy_date y)) (fe_print_summary E y) expires)
       (\<lambda>_. store_summaries E expires ys)"

definition push_fetched_history :: "'j fetch_env \<Rightarrow> 'j history_payload \<Rightarrow> ('j, unit) fetch_op" where
  "push_fetched_history E h = (case fe_push_capacity E of None \<Rightarrow> ret ()
     | Some cap \<Rightarrow> if has_a_ready_day h
         then modify (\<lambda>s. s\<lparr>fs_queue := push_history cap (hp_days h) (hp_summaries h) (fs_queue s)\<rparr>)
         else ret ())"

definition daily_history :: "'j fetch_env \<Rightarrow> nat \<Rightarrow> ('j, 'j history_payload) fetch_op" where
  "daily_history E n = (let n' = min n CLOUD_HISTORY_MAX_DAYS in
     andthen (cloud_history_dates n') (\<lambda>dates.
     andthen (all_history_cached E dates) (\<lambda>x. case x of Some ys \<Rightarrow> ret (cloud_history ys)
     | None \<Rightarrow> andthen (all_history_cached E dates) (\<lambda>x. case x of Some ys \<Rightarrow> ret (cloud_history ys)
       | None \<Rightarrow> andthen (fetch_history_from_api E n') (\<lambda>ys.
           andthen fetch_now (\<lambda>now.
           andthen (store_summaries E (now + to_chrono (fe_history_ttl E)) ys) (\<lambda>_.
           andthen (push_fetched_history E (cloud_history ys)) (\<lambda>_. ret (cloud_history ys)))))))))"

definition cached_daily_history :: "'j fetch_env \<Rightarrow> nat \<Rightarrow> ('j, 'j history_payload option) fetch_op" where
  "cached_daily_history E n = andthen (cloud_history_dates n) (\<lambda>dates.
     andthen (all_history_cached E dates) (\<lambda>x. ret (map_option cloud_history x)))"

text \<open>One look at the insight cache: a final answer, or none.\<close>

definition cached_insight :: "'j fetch_env \<Rightarrow> int \<Rightarrow> ('j, 'j insight option option) fetch_op" where
  "cached_insight E d = andthen (read_insight_cached (fe_format_date E d)) (\<lambda>x. ret (case x of None \<Rightarrow> None
     | Some row \<Rightarrow> if cr_not_found row then Some None
         else map_option Some (fe_read_insight E (cr_payload row))))"

definition daily_insight :: "'j fetch_env \<Rightarrow> int \<Rightarrow> ('j, 'j insight option) fetch_op" where
  "daily_insight E d =
     andthen (cached_insight E d) (\<lambda>x. case x of Some y \<Rightarrow> ret y
     | None \<Rightarrow> andthen (cached_insight E d) (\<lambda>x. case x of Some y \<Rightarrow> ret y
       | None \<Rightarrow> andthen fetch_now (\<lambda>now.
           andthen (fetch_insight_from_api E d) (\<lambda>x. case x of
             Some p \<Rightarrow> andthen (upsert_insight (fe_format_date E d) (fe_print_insight E p) (now + to_chrono (fe_insight_ttl E)))
               (\<lambda>_. andthen (case fe_push_capacity E of None \<Rightarrow> ret ()
                   | Some cap \<Rightarrow> modify (\<lambda>s. s\<lparr>fs_queue := push_insight cap (wire_insight p) (fs_queue s)\<rparr>))
                 (\<lambda>_. ret (Some p)))
           | None \<Rightarrow> andthen (upsert_negative (fe_format_date E d) (now + to_chrono (fe_insight_negative_ttl E)))
               (\<lambda>_. ret None)))))"

definition ignoring :: "('j, 'a) fetch_op \<Rightarrow> ('j, unit) fetch_op" where
  "ignoring m = (\<lambda>s. (Inr (), snd (m s)))"

definition refresh_all :: "'j fetch_env \<Rightarrow> nat \<Rightarrow> ('j, unit) fetch_op" where
  "refresh_all E n = andthen (ignoring (daily_history E n)) (\<lambda>_. andthen fetch_now (\<lambda>now.
     ignoring (daily_insight E (date_naive now))))"

section \<open>Runs\<close>

datatype fetch_command = FHistory nat | FCachedHistory nat | FInsight int | FRefresh nat
  | FForgetHistory "int option" | FForgetInsights "int option" | FForgetAll

fun exec_fetch :: "'j fetch_env \<Rightarrow> fetch_command \<Rightarrow> 'j fetch \<Rightarrow> 'j fetch" where
  "exec_fetch E (FHistory n) s = snd (daily_history E n s)"
| "exec_fetch E (FCachedHistory n) s = snd (cached_daily_history E n s)"
| "exec_fetch E (FInsight d) s = snd (daily_insight E d s)"
| "exec_fetch E (FRefresh n) s = snd (refresh_all E n s)"
| "exec_fetch E (FForgetHistory d) s = snd (invalidate_history E d s)"
| "exec_fetch E (FForgetInsights d) s = snd (invalidate_insights E d s)"
| "exec_fetch E FForgetAll s = snd (invalidate_all s)"

end
