(* ===== verification/Fetch_Properties.thy ===== *)
theory Fetch_Properties
  imports Fetch "HOL-Library.Multiset"
begin

text \<open>
  Properties of the fetch service: a fetched history is served from the cache unchanged, and
  an insight the server does not have is not asked for again while that answer is fresh.
\<close>

section \<open>The history cache\<close>

lemma map_of_upsert: "map_of (upsert_row d r t) k = (if k = d then Some r else map_of t k)"
proof -
  have "map_of (map (\<lambda>(j, x). if j = d then (j, r) else (j, x)) t) k
      = (if k = d then map_option (\<lambda>_. r) (map_of t d) else map_of t k)"
    by (induction t) auto
  moreover have "d \<in> fst ` set t \<longleftrightarrow> map_of t d \<noteq> None"
    by (simp add: map_of_eq_None_iff)
  ultimately show ?thesis
    by (cases "map_of t d") (auto simp: upsert_row_def map_add_def split: option.split)
qed

lemma store_summaries_eq:
  "store_summaries E ex ys s = (Inr (), s\<lparr>fs_history := fold (\<lambda>y. upsert_row (fe_format_date E (dy_date y))
     \<lparr>cr_payload = fe_print_summary E y, cr_ttl = timestamp ex, cr_not_found = False\<rparr>) ys (fs_history s)\<rparr>)"
  by (induction ys arbitrary: s) (simp_all add: op_simps upsert_history_def)

lemma map_of_stored:
  assumes "inj (fe_format_date E)" and "distinct (map dy_date ys)" and "y \<in> set ys"
  shows "map_of (fold (\<lambda>y. upsert_row (fe_format_date E (dy_date y)) (row y)) ys t) (fe_format_date E (dy_date y))
    = Some (row y)"
proof -
  have keep: "map_of (fold (\<lambda>y. upsert_row (fe_format_date E (dy_date y)) (row y)) zs t) (fe_format_date E d)
      = map_of t (fe_format_date E d)" if "d \<notin> dy_date ` set zs" for zs t d
    using that assms(1) by (induction zs arbitrary: t) (auto simp: map_of_upsert inj_eq)
  show ?thesis
    using assms(2,3)
  proof (induction ys arbitrary: t)
    case (Cons z zs)
    show ?case
    proof (cases "y = z")
      case True
      then show ?thesis using Cons.prems by (simp add: keep map_of_upsert)
    next
      case False
      then show ?thesis using Cons by simp
    qed
  qed simp
qed

text \<open>One instant, and every read in time: what the operations then compute.\<close>

definition still :: "'j fetch \<Rightarrow> bool" where
  "still s \<longleftrightarrow> fs_clock s = [] \<and> fs_reads s = []"

definition day_of :: "'j fetch_env \<Rightarrow> 'j fetch \<Rightarrow> int \<Rightarrow> 'j daily_summary option" where
  "day_of E s d = Option.bind (fresh_row (fs_now s) (fe_format_date E d) (fs_history s))
     (\<lambda>row. fe_read_summary E (cr_payload row))"

lemma still_now: "still s \<Longrightarrow> fetch_now s = (Inr (fs_now s), s)"
  by (simp add: still_def fetch_now_def)

lemma still_read: "still s \<Longrightarrow>
  read_history_cached d s = (Inr (fresh_row (fs_now s) d (fs_history s)), s)"
  using still_now [of s]
  by (simp add: read_history_cached_def in_time_def get_history_cache_def andthen_def op_simps still_def)

lemma still_all: "still s \<Longrightarrow> all_history_cached E ds s = (Inr (those (map (day_of E s) ds)), s)"
proof (induction ds)
  case (Cons d ds)
  then show ?case
    by (simp add: andthen_def op_simps still_read day_of_def split: option.split)
qed (simp add: op_simps)

lemma still_dates: "still s \<Longrightarrow> cloud_history_dates n s
    = (Inr (map (\<lambda>i. date_naive (fs_now s) - int i) [0..<min n 7]), s)"
  by (simp add: cloud_history_dates_def still_now andthen_def op_simps CLOUD_HISTORY_MAX_DAYS_def)

lemma still_cached: "still s \<Longrightarrow> cached_daily_history E n s
    = (Inr (map_option cloud_history (those (map (day_of E s)
        (map (\<lambda>i. date_naive (fs_now s) - int i) [0..<min n 7])))), s)"
  by (simp add: cached_daily_history_def still_dates still_all andthen_def op_simps)

lemma sort_days:
  assumes "mset zs = mset ys" and "distinct (map dy_date ys)"
  shows "sort_key dy_date zs = sort_key dy_date ys"
proof (rule sort_key_inj_key_eq)
  show "mset zs = mset (sort_key dy_date ys)" using assms(1) by simp
  have "set zs = set ys" using assms(1) by (rule mset_eq_setD)
  then show "inj_on dy_date (set zs)" using assms(2) by (simp add: distinct_map)
qed simp

lemma those_Some: "those (map f xs) = Some (map g xs) \<longleftrightarrow> list_all (\<lambda>x. f x = Some (g x)) xs"
  by (induction xs) (auto split: option.split)

text \<open>If every asked-for day is stored, the cache answers with the same history.\<close>

lemma stored_days_are_served:
  assumes "still t" and dates: "map (\<lambda>i. date_naive (fs_now t) - int i) [0..<min n 7] = ds"
    and days: "mset (map dy_date ys) = mset ds"
    and stored: "\<And>y. y \<in> set ys \<Longrightarrow> day_of E t (dy_date y) = Some y"
  shows "cached_daily_history E n t = (Inr (Some (cloud_history ys)), t)"
proof -
  have "distinct ds" unfolding dates [symmetric] by (simp add: distinct_map inj_on_def)
  then have dist: "distinct (map dy_date ys)" using days mset_eq_imp_distinct_iff by blast
  define g where "g d = the (day_of E t d)" for d
  have undo: "g (dy_date y) = y" if "y \<in> set ys" for y using stored [OF that] by (simp add: g_def)
  have "set ds = dy_date ` set ys" using mset_eq_setD [OF days] by simp
  then have "those (map (day_of E t) ds) = Some (map g ds)"
    unfolding those_Some using stored by (auto simp: list_all_iff g_def)
  moreover have same: "mset (map g ds) = mset ys"
  proof -
    have "mset (map g ds) = image_mset g (image_mset dy_date (mset ys))"
      using days by simp
    also have "\<dots> = image_mset (\<lambda>y. y) (mset ys)"
      unfolding multiset.map_comp by (rule image_mset_cong) (simp add: undo)
    finally show ?thesis by simp
  qed
  moreover have "cloud_history (map g ds) = cloud_history ys"
    unfolding cloud_history_def sort_days [OF same dist] mset_eq_length [OF same] ..
  ultimately show ?thesis
    unfolding still_cached [OF assms(1)] dates by (simp only: option.map)
qed

section \<open>A fetched history comes back from the cache\<close>

lemma fetch_keeps_cache:
  "fs_history (snd (fetch_history_from_api E n s)) = fs_history s"
  "fs_now (snd (fetch_history_from_api E n s)) = fs_now s"
  "still s \<Longrightarrow> still (snd (fetch_history_from_api E n s))"
  by (auto simp: fetch_history_from_api_def fetch_send_def lift_parse_def andthen_def op_simps Let_def still_def
      split: list.split reply.split option.split sum.split)

lemma daily_history_miss:
  assumes "still s" and "those (map (day_of E s) (map (\<lambda>i. date_naive (fs_now s) - int i) [0..<min n 7])) = None"
  shows "daily_history E n s = andthen (fetch_history_from_api E (min n 7)) (\<lambda>ys. andthen fetch_now (\<lambda>now.
      andthen (store_summaries E (now + to_chrono (fe_history_ttl E)) ys) (\<lambda>_.
      andthen (push_fetched_history E (cloud_history ys)) (\<lambda>_. ret (cloud_history ys))))) s"
  using assms(2) by (simp add: daily_history_def still_dates [OF assms(1)] still_all [OF assms(1)]
      andthen_def op_simps Let_def CLOUD_HISTORY_MAX_DAYS_def)

text \<open>What a call that had to ask the server leaves behind.\<close>

lemma daily_history_asked:
  assumes "daily_history E n s = (Inr h, t)" and "still s" and "fs_requests t \<noteq> fs_requests s"
  obtains ys where "h = cloud_history ys" and "still t" and "fs_now t = fs_now s"
    and "fs_history t = fold (\<lambda>y. upsert_row (fe_format_date E (dy_date y))
       \<lparr>cr_payload = fe_print_summary E y, cr_ttl = timestamp (fs_now s + to_chrono (fe_history_ttl E)),
        cr_not_found = False\<rparr>) ys (fs_history s)"
proof -
  let ?ds = "map (\<lambda>i. date_naive (fs_now s) - int i) [0..<min n 7]"
  have miss: "those (map (day_of E s) ?ds) = None"
  proof (rule ccontr)
    assume "those (map (day_of E s) ?ds) \<noteq> None"
    then have "t = s"
      using assms(1) by (auto simp: daily_history_def still_dates [OF assms(2)] still_all [OF assms(2)]
          andthen_def op_simps Let_def CLOUD_HISTORY_MAX_DAYS_def)
    with assms(3) show False by simp
  qed
  let ?api = "fetch_history_from_api E (min n 7) s"
  note run = daily_history_miss [OF assms(2) miss]
  with assms(1) obtain ys u where u: "?api = (Inr ys, u)"
    by (auto elim: andthen_InrE)
  then have su: "still u" "fs_history u = fs_history s" "fs_now u = fs_now s"
    using fetch_keeps_cache [where E = E and n = "min n 7" and s = s] assms(2) by auto
  show thesis
  proof (rule that)
    show "h = cloud_history ys" "still t" "fs_now t = fs_now s"
      "fs_history t = fold (\<lambda>y. upsert_row (fe_format_date E (dy_date y))
       \<lparr>cr_payload = fe_print_summary E y, cr_ttl = timestamp (fs_now s + to_chrono (fe_history_ttl E)),
        cr_not_found = False\<rparr>) ys (fs_history s)"
      using assms(1) u su unfolding run
      by (auto simp: andthen_def still_now store_summaries_eq push_fetched_history_def op_simps still_def
          split: option.splits if_splits)
  qed
qed

text \<open>
  C39: A fetched history is served from the cache. If a request for the last days had to ask the
  server and got one summary for each of the days it covers, then at every later instant of the
  same UTC day before the time-to-live runs out, the cache alone answers the same request with
  the same history, and asking again sends nothing. JSON is assumed to read back what it
  printed, and the calendar to print different days differently.
\<close>

theorem fetched_history_is_served_from_cache:
  assumes serde: "list_all (\<lambda>y. fe_read_summary E (fe_print_summary E y) = Some y) (hp_summaries h)"
    and calendar: "inj (fe_format_date E)"
    and call: "daily_history E n s = (Inr h, t)" "still s" "fs_requests t \<noteq> fs_requests s"
    and days: "mset (map dy_date (hp_summaries h)) = mset (map (\<lambda>i. date_naive (fs_now s) - int i) [0..<min n 7])"
    and later: "date_naive now = date_naive (fs_now s)"
      "timestamp now < timestamp (fs_now s + to_chrono (fe_history_ttl E))"
  shows "cached_daily_history E n (t\<lparr>fs_now := now\<rparr>) = (Inr (Some h), t\<lparr>fs_now := now\<rparr>)
    \<and> daily_history E n (t\<lparr>fs_now := now\<rparr>) = (Inr h, t\<lparr>fs_now := now\<rparr>)"
proof -
  obtain ys where h: "h = cloud_history ys" and t: "still t" "fs_now t = fs_now s"
    and rows: "fs_history t = fold (\<lambda>y. upsert_row (fe_format_date E (dy_date y))
       \<lparr>cr_payload = fe_print_summary E y, cr_ttl = timestamp (fs_now s + to_chrono (fe_history_ttl E)),
        cr_not_found = False\<rparr>) ys (fs_history s)"
    using daily_history_asked [OF call] .
  let ?t = "t\<lparr>fs_now := now\<rparr>" and ?ds = "map (\<lambda>i. date_naive now - int i) [0..<min n 7]"
  have still: "still ?t" using t(1) by (simp add: still_def)
  have dates: "mset (map dy_date ys) = mset ?ds"
    using days unfolding h cloud_history_def later(1) by (simp add: mset_map del: mset_map [symmetric])
  have "distinct ?ds" by (simp add: distinct_map inj_on_def)
  then have dist: "distinct (map dy_date ys)" using dates mset_eq_imp_distinct_iff by blast
  have "day_of E ?t (dy_date y) = Some y" if "y \<in> set ys" for y
    using map_of_stored [OF calendar dist that, of "\<lambda>y. \<lparr>cr_payload = fe_print_summary E y,
        cr_ttl = timestamp (fs_now s + to_chrono (fe_history_ttl E)), cr_not_found = False\<rparr>" "fs_history s"]
      later(2) that serde by (simp add: day_of_def fresh_row_def rows list_all_iff h cloud_history_def)
  from stored_days_are_served [OF still _ dates this]
  have cached: "cached_daily_history E n ?t = (Inr (Some h), ?t)" by (simp add: h)
  then have "map_option cloud_history (those (map (day_of E ?t) ?ds)) = Some h"
    unfolding still_cached [OF still] by simp
  then have "daily_history E n ?t = (Inr h, ?t)"
    by (auto simp: daily_history_def still_dates [OF still] still_all [OF still] andthen_def op_simps Let_def
        CLOUD_HISTORY_MAX_DAYS_def)
  with cached show ?thesis by simp
qed

text \<open>A server with one summary per day and no insights; a day prints as that many strokes.\<close>

definition stroke_date :: "int \<Rightarrow> string" where
  "stroke_date d = (if 0 \<le> d then ''+'' else ''-'') @ replicate (nat \<bar>d\<bar>) (CHR ''x'')"

lemma stroke_date_inj: "inj stroke_date"
  by (rule injI) (auto simp: stroke_date_def split: if_splits)

definition sample_raw :: "nat raw_daily_summary" where
  "sample_raw = \<lparr>rd_date = Some 0, rd_status = Some HistReady, rd_event_count = Some 3,
     rd_active_seconds = Some 60, rd_focused_seconds = None, rd_meaningful_switch_count = None,
     rd_focus_seconds = None, rd_confidence_level = Some ConfHigh, rd_baseline_status = None,
     rd_baseline_comparison = None, rd_type_proportions = None, rd_focus_score = None,
     rd_fragmentation_score = None\<rparr>"

definition sample_summary :: "nat daily_summary" where
  "sample_summary = \<lparr>dy_date = 0, dy_status = HistReady, dy_event_count = 3, dy_active_seconds = 60,
     dy_focused_seconds = 0, dy_meaningful_switch_count = 0, dy_longest_uninterrupted_seconds = 0,
     dy_confidence_level = ConfHigh, dy_baseline_status = of_str ''unknown'', dy_baseline_comparison = 0,
     dy_type_proportions = [], dy_focus_score = None, dy_fragmentation_score = None\<rparr>"

definition sample_fetch_env :: "nat fetch_env" where
  "sample_fetch_env = \<lparr>dv_decode_insight = \<lambda>_. None, dv_decode_polled = \<lambda>_. None,
     dv_get_evidence = \<lambda>_. None, dv_decode_evidence = \<lambda>_. None, dv_default_rest = 0, dv_display_name = None,
     fe_decode_history = \<lambda>_. Some (Some [sample_raw]), fe_unknown_baseline = 0,
     fe_format_date = stroke_date, fe_print_summary = \<lambda>_. ''s'', fe_read_summary = \<lambda>_. Some sample_summary,
     fe_print_insight = \<lambda>_. ''i'', fe_read_insight = \<lambda>_. None, fe_history_ttl = seconds 600,
     fe_insight_ttl = seconds 600, fe_insight_negative_ttl = seconds 300, fe_push_capacity = None\<rparr>"

definition sample_fetch :: "nat reply list \<Rightarrow> nat fetch" where
  "sample_fetch net = \<lparr>fs_history = [], fs_insight = [], fs_queue = [], fs_now = seconds 1000,
     fs_clock = [], fs_reads = [], fs_net = net, fs_requests = []\<rparr>"

lemma sample_daily_history:
  "\<exists>t. daily_history sample_fetch_env 1 (sample_fetch [Replied 200 None (Some 1)])
     = (Inr \<lparr>hp_days = 1, hp_summaries = [sample_summary]\<rparr>, t) \<and> fs_requests t \<noteq> []"
proof -
  let ?s = "sample_fetch [Replied 200 None (Some 1)]"
  have st: "still ?s" by (simp add: still_def sample_fetch_def)
  have "those (map (day_of sample_fetch_env ?s) (map (\<lambda>i. date_naive (fs_now ?s) - int i) [0..<min 1 7])) = None"
    by (simp add: day_of_def fresh_row_def sample_fetch_def)
  note run = daily_history_miss [OF st this]
  have "parse_history sample_fetch_env 1 = Inr [sample_summary]"
    by (simp add: parse_history_def sample_fetch_env_def required_field_def parse_summary_def sample_raw_def
        sample_summary_def)
  then have "fetch_history_from_api sample_fetch_env 1 ?s
      = (Inr [sample_summary], (sample_fetch [])\<lparr>fs_requests := [history_path 1]\<rparr>)"
    by (simp add: fetch_history_from_api_def fetch_send_def andthen_def lift_parse_def op_simps sample_fetch_def)
  then show ?thesis
    unfolding run
    by (simp add: andthen_def fetch_now_def store_summaries_eq push_fetched_history_def op_simps sample_fetch_def
        cloud_history_def u32_max_def) (simp add: sample_fetch_env_def op_simps)
qed

theorem fetched_history_is_served_from_cache_witness:
  "\<exists>t. cached_daily_history sample_fetch_env 1 t
     = (Inr (Some \<lparr>hp_days = 1, hp_summaries = [sample_summary]\<rparr>), t) \<and> fs_now t = seconds 1500"
proof -
  obtain t where t: "daily_history sample_fetch_env 1 (sample_fetch [Replied 200 None (Some 1)])
     = (Inr \<lparr>hp_days = 1, hp_summaries = [sample_summary]\<rparr>, t)" "fs_requests t \<noteq> []"
    using sample_daily_history by blast
  from fetched_history_is_served_from_cache [OF _ _ t(1), of "seconds 1500"] t(2)
  show ?thesis
    by (intro exI [of _ "t\<lparr>fs_now := seconds 1500\<rparr>"])
      (simp add: sample_fetch_env_def stroke_date_inj still_def sample_fetch_def date_naive_def
        sample_summary_def timestamp_def seconds_def NANOS_def to_chrono_def)
qed

section \<open>An insight the server does not have\<close>

text \<open>
  While a fresh "not found" row for the day \<open>d\<close> is in the cache, the clock has not reached its
  expiry, and cache reads finish in time.
\<close>

definition known_missing :: "'j fetch_env \<Rightarrow> int \<Rightarrow> int \<Rightarrow> 'j fetch \<Rightarrow> bool" where
  "known_missing E d expiry s \<longleftrightarrow>
     (\<exists>row. map_of (fs_insight s) (fe_format_date E d) = Some row \<and> cr_not_found row \<and> cr_ttl row = expiry)
     \<and> list_all (\<lambda>t. timestamp t < expiry) (fs_now s # fs_clock s) \<and> list_all id (fs_reads s)"

definition asked_for :: "'j fetch_env \<Rightarrow> int \<Rightarrow> 'j fetch \<Rightarrow> string list" where
  "asked_for E d s = filter (\<lambda>p. p = insight_path E d) (fs_requests s)"

definition unasked :: "'j fetch_env \<Rightarrow> int \<Rightarrow> int \<Rightarrow> 'j fetch \<Rightarrow> 'j fetch \<Rightarrow> bool" where
  "unasked E d expiry s t \<longleftrightarrow>
     (known_missing E d expiry s \<longrightarrow> known_missing E d expiry t \<and> asked_for E d t = asked_for E d s)"

interpretation unasked: evolution "unasked E d expiry"
  by unfold_locales (auto simp: unasked_def)

lemma unasked_now: "obeys (unasked E d x) fetch_now"
  by (auto simp: obeys_def unasked_def fetch_now_def known_missing_def asked_for_def split: list.split)

lemma unasked_in_time: "obeys (unasked E d x) in_time"
  by (auto simp: obeys_def unasked_def in_time_def known_missing_def asked_for_def split: list.split)

lemma history_path_differs: "history_path n \<noteq> insight_path E d"
  by (simp add: history_path_def insight_path_def)

lemma insight_path_inj: "inj (fe_format_date E) \<Longrightarrow> insight_path E d = insight_path E d' \<longleftrightarrow> d = d'"
  by (auto simp: insight_path_def inj_eq)

lemma unasked_send: "path \<noteq> insight_path E d \<Longrightarrow> obeys (unasked E d x) (fetch_send path)"
  by (auto simp: obeys_def unasked_def fetch_send_def known_missing_def asked_for_def Let_def
      split: list.split reply.split)

lemma unasked_parse: "obeys (unasked E d x) (lift_parse r)"
  unfolding lift_parse_def by (intro unasked.rules)

lemma unasked_same_rows:
  "(\<And>s. fs_insight (f s) = fs_insight s \<and> fs_now (f s) = fs_now s \<and> fs_clock (f s) = fs_clock s
      \<and> fs_reads (f s) = fs_reads s \<and> fs_requests (f s) = fs_requests s) \<Longrightarrow> obeys (unasked E d x) (modify f)"
  by (rule unasked.modify) (simp add: unasked_def known_missing_def asked_for_def)

lemma unasked_upsert:
  "inj (fe_format_date E) \<Longrightarrow> d' \<noteq> d \<Longrightarrow> obeys (unasked E d x)
     (modify (\<lambda>s. s\<lparr>fs_insight := upsert_row (fe_format_date E d') (row s) (fs_insight s)\<rparr>))"
  by (rule unasked.modify) (auto simp: unasked_def known_missing_def asked_for_def map_of_upsert inj_eq)

lemmas unasked_steps = unasked_now unasked_in_time unasked_parse unasked.gets unasked.ret unasked.err

lemma unasked_all_cached: "obeys (unasked E d x) (all_history_cached E ds)"
proof (induction ds)
  case (Cons a ds)
  show ?case
    unfolding all_history_cached.simps read_history_cached_def get_history_cache_def
    by (intro unasked.andthen unasked.if_op unasked.option_op unasked_steps Cons.IH)
qed (simp add: unasked.ret)

lemma unasked_store: "obeys (unasked E d x) (store_summaries E ex ys)"
  by (rule obeysI) (simp add: store_summaries_eq unasked_def known_missing_def asked_for_def)

lemma case_prod_op: "(\<And>a b. obeys R (f a b)) \<Longrightarrow> obeys R (case p of (a, b) \<Rightarrow> f a b)"
  by (cases p) simp

lemma unasked_history: "obeys (unasked E d x) (daily_history E n)"
  unfolding daily_history_def cloud_history_dates_def fetch_history_from_api_def push_fetched_history_def Let_def
  by (intro unasked.andthen unasked.if_op unasked.option_op case_prod_op unasked_steps unasked_all_cached
      unasked_store unasked_send unasked_same_rows history_path_differs) simp_all

lemma unasked_cached_history: "obeys (unasked E d x) (cached_daily_history E n)"
  unfolding cached_daily_history_def cloud_history_dates_def
  by (intro unasked.andthen unasked_steps unasked_all_cached)

lemma unasked_cached_insight: "obeys (unasked E d x) (cached_insight E d')"
  unfolding cached_insight_def read_insight_cached_def get_insight_cache_def
  by (intro unasked.andthen unasked.if_op unasked_steps)

lemma unasked_other_insight:
  assumes "inj (fe_format_date E)" and "d' \<noteq> d"
  shows "obeys (unasked E d x) (daily_insight E d')"
proof -
  have path: "insight_path E d' \<noteq> insight_path E d" using assms by (simp add: insight_path_inj)
  show ?thesis
    unfolding daily_insight_def fetch_insight_from_api_def upsert_insight_def upsert_negative_def
    by (intro unasked.andthen unasked.if_op unasked.option_op case_prod_op unasked_steps unasked_cached_insight
        unasked_send [OF path] unasked_upsert [OF assms] unasked_same_rows) simp_all
qed

text \<open>The cache answers for the missing day, so nothing is sent.\<close>

lemma missing_is_cached:
  assumes "known_missing E d x s"
  obtains t where "cached_insight E d s = (Inr (Some None), t)" "unasked E d x s t"
proof -
  obtain row where row: "map_of (fs_insight s) (fe_format_date E d) = Some row" "cr_not_found row" "cr_ttl row = x"
    using assms by (auto simp: known_missing_def)
  have "\<exists>t. cached_insight E d s = (Inr (Some None), t)"
    using assms row
    by (cases "fs_reads s"; cases "fs_clock s")
      (auto simp: cached_insight_def read_insight_cached_def get_insight_cache_def in_time_def fetch_now_def
        andthen_def op_simps fresh_row_def known_missing_def)
  then obtain t where t: "cached_insight E d s = (Inr (Some None), t)" by blast
  with obeysD [OF unasked_cached_insight [of E d x d], of s] show thesis using that by simp
qed

lemma unasked_insight:
  assumes "inj (fe_format_date E)" shows "obeys (unasked E d x) (daily_insight E d')"
proof (cases "d' = d")
  case True
  show ?thesis
  proof (rule obeysI)
    fix s
    show "unasked E d x s (snd (daily_insight E d' s))"
    proof (cases "known_missing E d x s")
      case km: True
      show ?thesis
        by (rule missing_is_cached [OF km]) (simp add: True daily_insight_def andthen_def op_simps)
    qed (simp add: unasked_def)
  qed
qed (rule unasked_other_insight [OF assms])

definition keeps_insight :: "int \<Rightarrow> fetch_command \<Rightarrow> bool" where
  "keeps_insight d c \<longleftrightarrow> (case c of FForgetInsights x \<Rightarrow> x \<notin> {None, Some d} | FForgetAll \<Rightarrow> False | _ \<Rightarrow> True)"

lemma map_of_filter_other: "k \<noteq> j \<Longrightarrow> map_of (filter (\<lambda>(i, _). i \<noteq> j) t) k = map_of t k"
  by (induction t) auto

lemma unasked_exec:
  assumes "inj (fe_format_date E)" and "keeps_insight d c"
  shows "unasked E d x s (exec_fetch E c s)"
proof (cases c)
  case (FRefresh n)
  have "obeys (unasked E d x) (refresh_all E n)"
    unfolding refresh_all_def
    by (rule unasked.andthen, simp add: obeys_def ignoring_def obeysD [OF unasked_history],
        rule unasked.andthen, rule unasked_now,
        simp add: obeys_def ignoring_def obeysD [OF unasked_insight [OF assms(1)]])
  then show ?thesis using FRefresh obeysD by fastforce
next
  case (FForgetInsights y)
  then show ?thesis
    using assms by (auto simp: keeps_insight_def invalidate_insights_def invalidate_insight_date_def op_simps
        unasked_def known_missing_def asked_for_def map_of_filter_other inj_eq split: option.split)
next
  case (FForgetHistory y)
  then show ?thesis
    by (auto simp: invalidate_history_def invalidate_history_date_def invalidate_history_all_def op_simps
        unasked_def known_missing_def asked_for_def split: option.split)
qed (use assms in \<open>auto simp: keeps_insight_def intro: obeysD unasked_history unasked_cached_history unasked_insight\<close>)

text \<open>
  C40: An insight the server does not have is not asked for again while that answer is fresh.
  From a state whose cache holds the "not found" answer for a day, any run of history requests,
  insight requests (for that day too), refreshes and invalidations that spare the day's insight
  sends no request for it, as long as the clock stays before the answer's expiry and cache reads
  finish in time.
\<close>

theorem missing_insight_is_not_asked_again:
  assumes "inj (fe_format_date E)" and "known_missing E d expiry s" and "list_all (keeps_insight d) cs"
  shows "asked_for E d (fold (exec_fetch E) cs s) = asked_for E d s"
proof -
  have "unasked E d expiry s (fold (exec_fetch E) cs s)"
    by (rule unasked.run) (use assms in \<open>auto simp: list_all_iff intro: unasked_exec\<close>)
  then show ?thesis using assms(2) by (simp add: unasked_def)
qed

definition missing_fetch :: "nat fetch" where
  "missing_fetch = (sample_fetch [])\<lparr>fs_insight := [(stroke_date 4, \<lparr>cr_payload = ''null'', cr_ttl = 1300,
     cr_not_found = True\<rparr>)], fs_clock := [seconds 1100, seconds 1200]\<rparr>"

theorem missing_insight_is_not_asked_again_witness:
  "asked_for sample_fetch_env 4 (fold (exec_fetch sample_fetch_env) [FInsight 4, FRefresh 7, FForgetInsights (Some 5), FInsight 4]
     missing_fetch) = []"
proof -
  have "known_missing sample_fetch_env 4 1300 missing_fetch"
    by (simp add: known_missing_def missing_fetch_def sample_fetch_def sample_fetch_env_def timestamp_def
        seconds_def NANOS_def)
  moreover have "asked_for sample_fetch_env 4 missing_fetch = []"
    by (simp add: asked_for_def missing_fetch_def sample_fetch_def)
  ultimately show ?thesis
    using missing_insight_is_not_asked_again [of sample_fetch_env 4 1300 missing_fetch
        "[FInsight 4, FRefresh 7, FForgetInsights (Some 5), FInsight 4]"]
    by (simp add: sample_fetch_env_def stroke_date_inj keeps_insight_def del: exec_fetch.simps)
qed

end
