(* ===== verification/Rules.thy ===== *)
theory Rules
  imports Prelude "HOL-Library.Char_ord" "HOL-Library.List_Lexorder"
    "HOL-Library.Product_Lexorder"
begin

unbundle bit_operations_syntax

text \<open>
  The personal rules: \<^verbatim>\<open>SqliteAbstractionMapRepo\<close> and the \<^verbatim>\<open>raw_event_buffer\<close> half of
  \<^verbatim>\<open>SqliteRawEventRepo\<close> (\<^verbatim>\<open>persistence/sqlite.rs\<close>), with the tables of migrations 0001 to
  0040 they read and write.

  A person teaches Velvt a category at three scopes: one window (\<open>rs_window\<close>), one site
  (\<open>rs_site\<close>) and one application (\<open>rs_app\<close>), the last under the hash of its name and, where
  known, of its bundle identifier. Every key is a digest; free text is a list of code points.
  Stored times are whole seconds, and \<open>t\<close> is what \<^verbatim>\<open>unixepoch()\<close> returns while the
  operation runs. A table is the list of its rows, oldest row first. Where a query orders by
  time and takes one row, rows of the same second come newest first; SQLite leaves that open.

  A \<^verbatim>\<open>CHECK\<close>, \<^verbatim>\<open>UNIQUE\<close> or \<^verbatim>\<open>PRIMARY KEY\<close> constraint that a statement breaks is the error
  \<open>RulesSqlite\<close>, and an operation that runs in a transaction then leaves the store as it was.
  Other failures of the database are not modelled.
\<close>

datatype rules_error = RulesSqlite | MappingNotFound | AppScopeIneligible
  | InvalidSemanticEmbedding | InvalidSalt | StoreUnavailable

type_synonym f32 = "32 word"
type_synonym byte = "8 word"

record event_row =
  er_event_id :: string
  er_stable_id :: string
  er_label :: string
  er_local_display_label :: "ustr option"
  er_local_name_suggestion :: "ustr option"
  er_category :: string
  er_taxonomy_version :: string
  er_tier :: string
  er_status :: string
  er_confidence :: string
  er_source :: string
  er_occurred_at :: int
  er_duration_seconds :: nat
  er_upload_eligible :: bool
  er_app :: "string option"
  er_app_scope_eligible :: bool
  er_bundle :: "string option"
  er_declared_app_category :: "string option"
  er_document_type_ids :: "string option"
  er_site :: "string option"

record mapping =
  am_key_hash :: string
  am_stable_id :: string
  am_label :: string
  am_category :: string
  am_taxonomy_version :: string
  am_tier :: string
  am_status :: string
  am_confidence :: string
  am_source :: string
  am_display_name :: "ustr option"
  am_updated_at :: int

record window_rule =
  po_key_hash :: string
  po_category :: string
  po_activity_name :: "ustr option"
  po_app_key_hash :: "string option"
  po_updated_at :: int

record app_rule =
  pa_app_key_hash :: string
  pa_bundle_key_hash :: "string option"
  pa_category :: string
  pa_activity_name :: "ustr option"
  pa_app_only :: bool
  pa_correction_count :: nat
  pa_updated_at :: int

record site_rule =
  ps_site_key_hash :: string
  ps_category :: string
  ps_activity_name :: "ustr option"
  ps_correction_count :: nat
  ps_updated_at :: int

record site_name =
  sn_site_key_hash :: string
  sn_host :: string
  sn_last_seen_at :: int

record embedding_row =
  em_key_hash :: string
  em_embedding :: "byte list"
  em_dimensions :: nat
  em_updated_at :: int

record prototype =
  pt_key_hash :: string
  pt_category :: string
  pt_embedding :: "byte list"
  pt_dimensions :: nat
  pt_correction_count :: nat
  pt_updated_at :: int

record prompt_entry =
  ce_key :: string
  ce_first_listed_at :: int
  ce_last_listed_at :: int
  ce_acknowledged_at :: "int option"
  ce_notified_at :: "int option"

record card_entry =
  cc_prompt_id :: string
  cc_key :: string
  cc_counted :: bool

record reminder =
  rm_local_date :: string
  rm_posted_at :: int
  rm_entry_count :: nat
  rm_policy_version :: nat
  rm_opened_at :: "int option"

record rule_answer =
  ov_category :: string
  ov_activity_name :: "ustr option"

record rules =
  rs_events :: "event_row list"
  rs_map :: "mapping list"
  rs_window :: "window_rule list"
  rs_app :: "app_rule list"
  rs_site :: "site_rule list"
  rs_site_names :: "site_name list"
  rs_cache :: "embedding_row list"
  rs_prototypes :: "prototype list"
  rs_telemetry :: "((string \<times> string) \<times> nat) list"
  rs_artifacts :: "(string \<times> nat) list"
  rs_embedding_salt :: "byte list option"
  rs_key_salt :: "byte list option"
  rs_prompt_entries :: "prompt_entry list"
  rs_card_entries :: "card_entry list"
  rs_reminders :: "reminder list"

text \<open>The store the migrations leave, with the two salts they mint.\<close>

definition fresh_rules :: "byte list \<Rightarrow> byte list \<Rightarrow> rules" where
  "fresh_rules embedding_salt key_salt = \<lparr>rs_events = [], rs_map = [], rs_window = [], rs_app = [],
     rs_site = [], rs_site_names = [], rs_cache = [], rs_prototypes = [], rs_telemetry = [],
     rs_artifacts = [], rs_embedding_salt = Some embedding_salt, rs_key_salt = Some key_salt,
     rs_prompt_entries = [], rs_card_entries = [], rs_reminders = []\<rparr>"

type_synonym 'a ru = "(rules, rules_error, 'a) op"

section \<open>Statements\<close>

text \<open>A transaction that fails writes nothing.\<close>

definition atomically :: "'a ru \<Rightarrow> 'a ru" where
  "atomically m s = (case m s of (Inl e, _) \<Rightarrow> (Inl e, s) | (Inr a, t) \<Rightarrow> (Inr a, t))"

definition guard :: "rules_error \<Rightarrow> (rules \<Rightarrow> bool) \<Rightarrow> unit ru" where
  "guard e p s = (if p s then (Inr (), s) else (Inl e, s))"

definition opt_ok :: "('a \<Rightarrow> bool) \<Rightarrow> 'a option \<Rightarrow> bool" where
  "opt_ok p v = (case v of None \<Rightarrow> True | Some x \<Rightarrow> p x)"

text \<open>SQLite's \<^verbatim>\<open>COALESCE\<close>.\<close>

definition coalesce :: "'a option \<Rightarrow> 'a option \<Rightarrow> 'a option" where
  "coalesce a b = (case a of None \<Rightarrow> b | Some x \<Rightarrow> Some x)"

text \<open>SQLite's \<^verbatim>\<open>trim\<close> removes spaces only.\<close>

definition sql_trim :: "ustr \<Rightarrow> ustr" where
  "sql_trim u = rev (dropWhile (\<lambda>c. c = 32) (rev (dropWhile (\<lambda>c. c = 32) u)))"

definition name_check :: "ustr option \<Rightarrow> bool" where
  "name_check n = opt_ok (\<lambda>u. 1 \<le> length (sql_trim u) \<and> length (sql_trim u) \<le> 48
     \<and> 10 \<notin> set u \<and> 13 \<notin> set u) n"

definition key_check :: "string \<Rightarrow> bool" where
  "key_check k \<longleftrightarrow> length k = 64"

text \<open>An index that may not hold two rows with one key; \<^verbatim>\<open>NULL\<close> is no key.\<close>

definition unique_by :: "('r \<Rightarrow> 'k option) \<Rightarrow> 'r list \<Rightarrow> bool" where
  "unique_by key rows = distinct (List.map_filter key rows)"

definition event_row_check :: "event_row \<Rightarrow> bool" where
  "event_row_check r \<longleftrightarrow> er_event_id r \<noteq> [] \<and> er_stable_id r \<noteq> [] \<and> er_label r \<noteq> []
     \<and> er_category r \<noteq> [] \<and> er_taxonomy_version r \<noteq> []
     \<and> name_check (er_local_name_suggestion r)
     \<and> opt_ok key_check (er_app r) \<and> opt_ok key_check (er_bundle r) \<and> opt_ok key_check (er_site r)"

definition mapping_check :: "mapping \<Rightarrow> bool" where
  "mapping_check r \<longleftrightarrow> key_check (am_key_hash r) \<and> am_stable_id r \<noteq> [] \<and> am_label r \<noteq> []
     \<and> am_category r \<noteq> [] \<and> am_taxonomy_version r \<noteq> []"

definition window_check :: "window_rule \<Rightarrow> bool" where
  "window_check r \<longleftrightarrow> name_check (po_activity_name r) \<and> opt_ok key_check (po_app_key_hash r)"

definition app_check :: "app_rule \<Rightarrow> bool" where
  "app_check r \<longleftrightarrow> key_check (pa_app_key_hash r) \<and> opt_ok key_check (pa_bundle_key_hash r)
     \<and> name_check (pa_activity_name r) \<and> 0 < pa_correction_count r"

definition site_check :: "site_rule \<Rightarrow> bool" where
  "site_check r \<longleftrightarrow> key_check (ps_site_key_hash r) \<and> name_check (ps_activity_name r)
     \<and> 0 < ps_correction_count r"

definition host_char :: "char \<Rightarrow> bool" where
  "host_char c \<longleftrightarrow> c \<in> set ''abcdefghijklmnopqrstuvwxyz0123456789.-''"

definition site_name_check :: "site_name \<Rightarrow> bool" where
  "site_name_check r \<longleftrightarrow> key_check (sn_site_key_hash r) \<and> 1 \<le> length (sn_host r)
     \<and> length (sn_host r) \<le> 253 \<and> list_all host_char (sn_host r)"

definition dimensions_check :: "nat \<Rightarrow> bool" where
  "dimensions_check n \<longleftrightarrow> 0 < n \<and> n \<le> 1024"

definition cache_check :: "embedding_row \<Rightarrow> bool" where
  "cache_check r \<longleftrightarrow> key_check (em_key_hash r) \<and> dimensions_check (em_dimensions r)"

definition prototype_check :: "prototype \<Rightarrow> bool" where
  "prototype_check r \<longleftrightarrow> key_check (pt_key_hash r) \<and> dimensions_check (pt_dimensions r)
     \<and> 0 < pt_correction_count r"

definition events_ok :: "event_row list \<Rightarrow> bool" where
  "events_ok rows \<longleftrightarrow> list_all event_row_check rows \<and> unique_by (\<lambda>r. Some (er_event_id r)) rows"

definition mappings_ok :: "mapping list \<Rightarrow> bool" where
  "mappings_ok rows \<longleftrightarrow> list_all mapping_check rows
     \<and> unique_by (\<lambda>r. Some (am_key_hash r)) rows \<and> unique_by (\<lambda>r. Some (am_stable_id r)) rows"

definition windows_ok :: "window_rule list \<Rightarrow> bool" where
  "windows_ok rows \<longleftrightarrow> list_all window_check rows \<and> unique_by (\<lambda>r. Some (po_key_hash r)) rows"

definition apps_ok :: "app_rule list \<Rightarrow> bool" where
  "apps_ok rows \<longleftrightarrow> list_all app_check rows
     \<and> unique_by (\<lambda>r. Some (pa_app_key_hash r)) rows \<and> unique_by pa_bundle_key_hash rows"

definition sites_ok :: "site_rule list \<Rightarrow> bool" where
  "sites_ok rows \<longleftrightarrow> list_all site_check rows \<and> unique_by (\<lambda>r. Some (ps_site_key_hash r)) rows"

definition site_names_ok :: "site_name list \<Rightarrow> bool" where
  "site_names_ok rows \<longleftrightarrow> list_all site_name_check rows
     \<and> unique_by (\<lambda>r. Some (sn_site_key_hash r)) rows"

definition cache_ok :: "embedding_row list \<Rightarrow> bool" where
  "cache_ok rows \<longleftrightarrow> list_all cache_check rows \<and> unique_by (\<lambda>r. Some (em_key_hash r)) rows"

definition prototypes_ok :: "prototype list \<Rightarrow> bool" where
  "prototypes_ok rows \<longleftrightarrow> list_all prototype_check rows
     \<and> unique_by (\<lambda>r. Some (pt_key_hash r)) rows"

text \<open>
  An upsert: the row with the new row's key is merged with it, or the new row is appended.
  A statement that leaves the table outside its constraints fails.
\<close>

fun upsert_by :: "('r \<Rightarrow> 'k) \<Rightarrow> ('r \<Rightarrow> 'r \<Rightarrow> 'r) \<Rightarrow> 'r \<Rightarrow> 'r list \<Rightarrow> 'r list" where
  "upsert_by key merge new [] = [new]"
| "upsert_by key merge new (r # rs) =
     (if key r = key new then merge new r # rs else r # upsert_by key merge new rs)"

definition write_rows ::
  "('r list \<Rightarrow> bool) \<Rightarrow> (('r list \<Rightarrow> 'r list) \<Rightarrow> rules \<Rightarrow> rules) \<Rightarrow> 'r list \<Rightarrow> unit ru" where
  "write_rows ok table rows s =
     (if ok rows then (Inr (), table (\<lambda>_. rows) s) else (Inl RulesSqlite, s))"

definition latest_first :: "event_row list \<Rightarrow> event_row list" where
  "latest_first rows = rev (sort_key er_occurred_at rows)"

section \<open>The event buffer\<close>

definition insert_event :: "event_row \<Rightarrow> unit ru" where
  "insert_event r s = write_rows events_ok rs_events_update (rs_events s @ [r]) s"

definition events_before :: "instant \<Rightarrow> event_row list ru" where
  "events_before cutoff = gets (\<lambda>s.
     sort_key er_occurred_at (filter (\<lambda>r. er_occurred_at r < timestamp cutoff) (rs_events s)))"

definition events_between :: "instant \<Rightarrow> instant \<Rightarrow> nat \<Rightarrow> event_row list ru" where
  "events_between start stop limit =
     (if stop \<le> start \<or> limit = 0 then ret []
      else gets (\<lambda>s. take limit (sort_key er_occurred_at
        (filter (\<lambda>r. timestamp start \<le> er_occurred_at r \<and> er_occurred_at r \<le> timestamp stop)
          (rs_events s)))))"

definition local_event_metadata ::
  "string list \<Rightarrow> (string \<times> ustr option \<times> string \<times> string \<times> string) list ru" where
  "local_event_metadata ids = (if ids = [] then ret []
     else gets (\<lambda>s. map (\<lambda>r. (er_event_id r, er_local_display_label r, er_status r, er_confidence r,
         er_source r)) (filter (\<lambda>r. er_event_id r \<in> set ids) (rs_events s))))"

definition reclassify_row :: "string \<Rightarrow> string \<Rightarrow> string \<Rightarrow> ustr option \<Rightarrow> event_row \<Rightarrow> event_row" where
  "reclassify_row i label category name r = (if er_event_id r = i
     then r\<lparr>er_label := label, er_category := category, er_tier := ''exact_match'',
       er_status := ''classified'', er_confidence := ''high'', er_source := ''user_rule'',
       er_local_display_label := coalesce name (er_local_display_label r)\<rparr>
     else r)"

definition update_classification :: "string \<Rightarrow> string \<Rightarrow> string \<Rightarrow> ustr option \<Rightarrow> unit ru" where
  "update_classification i label category name s =
     write_rows events_ok rs_events_update (map (reclassify_row i label category name) (rs_events s)) s"

definition delete_before :: "instant \<Rightarrow> nat ru" where
  "delete_before cutoff s =
     (Inr (length (filter (\<lambda>r. er_occurred_at r < timestamp cutoff) (rs_events s))),
      s\<lparr>rs_events := filter (\<lambda>r. \<not> er_occurred_at r < timestamp cutoff) (rs_events s)\<rparr>)"

text \<open>Observed time by local label: the named ones first, the rest under \<^verbatim>\<open>Other\<close>.\<close>

definition other_label :: ustr where
  "other_label = of_str ''Other''"

definition label_groups :: "event_row list \<Rightarrow> (ustr \<times> nat) list" where
  "label_groups rows = sort_key (\<lambda>(l, n). (- int n, l))
     (map (\<lambda>k. ((case k of None \<Rightarrow> other_label | Some l \<Rightarrow> l),
          sum_list (map er_duration_seconds (filter (\<lambda>r. er_local_display_label r = k) rows))))
       (remdups (map er_local_display_label rows)))"

definition sat_add64 :: "nat \<Rightarrow> nat \<Rightarrow> nat" where
  "sat_add64 a b = min (a + b) u64_max"

fun select_labels ::
  "nat \<Rightarrow> (ustr \<times> nat) list \<Rightarrow> (ustr \<times> nat) list \<Rightarrow> nat \<Rightarrow> (ustr \<times> nat) list \<times> nat" where
  "select_labels limit [] sel other = (sel, other)"
| "select_labels limit ((l, n) # rows) sel other =
     (if l = other_label then select_labels limit rows sel (sat_add64 other n)
      else if length sel < limit then select_labels limit rows (sel @ [(l, n)]) other
      else select_labels limit rows sel (sat_add64 other n))"

definition local_display_aggregates :: "instant \<Rightarrow> instant \<Rightarrow> nat \<Rightarrow> (ustr \<times> nat) list ru" where
  "local_display_aggregates start stop limit =
     (let limit = min limit 5 in
      if limit = 0 \<or> stop \<le> start then ret []
      else gets (\<lambda>s.
        let (sel, other) = select_labels limit (label_groups
              (filter (\<lambda>r. timestamp start \<le> er_occurred_at r \<and> er_occurred_at r < timestamp stop)
                (rs_events s))) [] 0
        in if 0 < other then sel @ [(other_label, other)] else sel))"

section \<open>Looking rules up\<close>

definition personal_override :: "string \<Rightarrow> rule_answer option ru" where
  "personal_override k = gets (\<lambda>s. map_option
     (\<lambda>r. \<lparr>ov_category = po_category r, ov_activity_name = po_activity_name r\<rparr>)
     (find (\<lambda>r. po_key_hash r = k) (rs_window s)))"

definition personal_app_override :: "string \<Rightarrow> rule_answer option ru" where
  "personal_app_override k = gets (\<lambda>s. map_option
     (\<lambda>r. \<lparr>ov_category = pa_category r, ov_activity_name = pa_activity_name r\<rparr>)
     (find (\<lambda>r. pa_app_key_hash r = k \<or> pa_bundle_key_hash r = Some k) (rs_app s)))"

definition personal_site_override :: "string \<Rightarrow> rule_answer option ru" where
  "personal_site_override k = gets (\<lambda>s. map_option
     (\<lambda>r. \<lparr>ov_category = ps_category r, ov_activity_name = ps_activity_name r\<rparr>)
     (find (\<lambda>r. ps_site_key_hash r = k) (rs_site s)))"

definition app_scope_override :: "string \<Rightarrow> app_rule option ru" where
  "app_scope_override k = gets (\<lambda>s. find (\<lambda>r. pa_app_key_hash r = k) (rs_app s))"

definition bundle_app_override :: "string \<Rightarrow> app_rule option ru" where
  "bundle_app_override k = gets (\<lambda>s. find (\<lambda>r. pa_bundle_key_hash r = Some k) (rs_app s))"

definition site_scope_override :: "string \<Rightarrow> site_rule option ru" where
  "site_scope_override k = gets (\<lambda>s. find (\<lambda>r. ps_site_key_hash r = k) (rs_site s))"

section \<open>Mappings\<close>

definition merge_mapping :: "mapping \<Rightarrow> mapping \<Rightarrow> mapping" where
  "merge_mapping new r = r\<lparr>am_label := am_label new, am_category := am_category new,
     am_taxonomy_version := am_taxonomy_version new, am_tier := am_tier new,
     am_status := am_status new, am_confidence := am_confidence new, am_source := am_source new,
     am_display_name := coalesce (am_display_name new) (am_display_name r),
     am_updated_at := am_updated_at new\<rparr>"

definition upsert_mapping :: "mapping \<Rightarrow> unit ru" where
  "upsert_mapping m s =
     write_rows mappings_ok rs_map_update (upsert_by am_key_hash merge_mapping m (rs_map s)) s"

definition get_mapping :: "string \<Rightarrow> mapping ru" where
  "get_mapping i = andthen (gets (\<lambda>s. find (\<lambda>r. am_stable_id r = i) (rs_map s)))
     (\<lambda>found. case found of None \<Rightarrow> err MappingNotFound | Some r \<Rightarrow> ret r)"

definition mapping_exists :: "string \<Rightarrow> bool ru" where
  "mapping_exists k = gets (\<lambda>s. list_ex (\<lambda>r. am_key_hash r = k) (rs_map s))"

text \<open>The engine's view of the store: every failure is \<open>StoreUnavailable\<close>.\<close>

definition as_store_error :: "'a ru \<Rightarrow> 'a ru" where
  "as_store_error m s = (case m s of (Inl _, t) \<Rightarrow> (Inl StoreUnavailable, t) | (Inr a, t) \<Rightarrow> (Inr a, t))"

definition resolve_id :: "mapping \<Rightarrow> string ru" where
  "resolve_id m = as_store_error (andthen (upsert_mapping m) (\<lambda>_.
     andthen (gets (\<lambda>s. find (\<lambda>r. am_key_hash r = am_key_hash m) (rs_map s)))
       (\<lambda>found. case found of None \<Rightarrow> err RulesSqlite | Some r \<Rightarrow> ret (am_stable_id r))))"

fun count_up :: "'k \<Rightarrow> ('k \<times> nat) list \<Rightarrow> ('k \<times> nat) list" where
  "count_up k [] = [(k, 1)]"
| "count_up k ((k', n) # rows) = (if k' = k then (k', n + 1) # rows else (k', n) # count_up k rows)"

definition increment_classification_count :: "string \<Rightarrow> string \<Rightarrow> unit ru" where
  "increment_classification_count version tier =
     modify (\<lambda>s. s\<lparr>rs_telemetry := count_up (version, tier) (rs_telemetry s)\<rparr>)"

definition record_classifier_use :: "string \<Rightarrow> unit ru" where
  "record_classifier_use v = (if v = [] \<or> 128 < length v then err StoreUnavailable
     else modify (\<lambda>s. s\<lparr>rs_artifacts := count_up v (rs_artifacts s)\<rparr>))"

definition classifier_artifact_count :: "string \<Rightarrow> nat ru" where
  "classifier_artifact_count v =
     gets (\<lambda>s. case map_of (rs_artifacts s) v of None \<Rightarrow> 0 | Some n \<Rightarrow> n)"

definition display_name_for_label :: "string \<Rightarrow> ustr option ru" where
  "display_name_for_label l = gets (\<lambda>s.
     case sort_key (\<lambda>r. (- am_updated_at r, am_stable_id r))
            (filter (\<lambda>r. am_label r = l \<and> am_display_name r \<noteq> None) (rs_map s))
     of [] \<Rightarrow> None | r # _ \<Rightarrow> am_display_name r)"

section \<open>Writing application rules\<close>

text \<open>
  The bundle identifier is the identity: a rule that claims it under an older name is re-keyed
  to the current name, or dropped when the current name has a rule already.
\<close>

definition rekey_alias :: "string \<Rightarrow> string \<Rightarrow> int \<Rightarrow> app_rule list \<Rightarrow> app_rule list" where
  "rekey_alias b k t rows = (if list_ex (\<lambda>r. pa_app_key_hash r = k) rows then rows
     else map (\<lambda>r. if pa_bundle_key_hash r = Some b \<and> pa_app_key_hash r \<noteq> k
       then r\<lparr>pa_app_key_hash := k, pa_updated_at := t\<rparr> else r) rows)"

definition drop_alias :: "string \<Rightarrow> string \<Rightarrow> app_rule list \<Rightarrow> app_rule list" where
  "drop_alias b k rows =
     filter (\<lambda>r. \<not> (pa_bundle_key_hash r = Some b \<and> pa_app_key_hash r \<noteq> k)) rows"

definition merge_app :: "app_rule \<Rightarrow> app_rule \<Rightarrow> app_rule" where
  "merge_app new r = r\<lparr>pa_bundle_key_hash := coalesce (pa_bundle_key_hash new) (pa_bundle_key_hash r),
     pa_category := pa_category new,
     pa_activity_name := coalesce (pa_activity_name new) (pa_activity_name r),
     pa_app_only := (pa_app_only r \<or> pa_app_only new),
     pa_correction_count := pa_correction_count r + 1, pa_updated_at := pa_updated_at new\<rparr>"

definition fold_alias :: "string \<Rightarrow> string \<Rightarrow> int \<Rightarrow> unit ru" where
  "fold_alias b k t =
     andthen (\<lambda>s. write_rows apps_ok rs_app_update (rekey_alias b k t (rs_app s)) s) (\<lambda>_.
     modify (\<lambda>s. s\<lparr>rs_app := drop_alias b k (rs_app s)\<rparr>))"

definition new_app_rule ::
  "string \<Rightarrow> string option \<Rightarrow> string \<Rightarrow> ustr option \<Rightarrow> bool \<Rightarrow> int \<Rightarrow> app_rule" where
  "new_app_rule k bundle category name app_only t =
     \<lparr>pa_app_key_hash = k, pa_bundle_key_hash = bundle, pa_category = category,
      pa_activity_name = name, pa_app_only = app_only, pa_correction_count = 1, pa_updated_at = t\<rparr>"

definition upsert_app_scope_rule ::
  "string \<Rightarrow> string option \<Rightarrow> string \<Rightarrow> ustr option \<Rightarrow> bool \<Rightarrow> int \<Rightarrow> unit ru" where
  "upsert_app_scope_rule k bundle category name app_only t =
     andthen (case bundle of None \<Rightarrow> ret () | Some b \<Rightarrow> fold_alias b k t) (\<lambda>_ s.
       write_rows apps_ok rs_app_update
         (upsert_by pa_app_key_hash merge_app (new_app_rule k bundle category name app_only t)
           (rs_app s)) s)"

definition app_scope_identity_is_ineligible :: "string \<Rightarrow> string option \<Rightarrow> rules \<Rightarrow> bool" where
  "app_scope_identity_is_ineligible k bundle s =
     list_ex (\<lambda>r. \<not> er_app_scope_eligible r
       \<and> (er_app r = Some k \<or> bundle \<noteq> None \<and> er_bundle r = bundle)) (rs_events s)"

definition eligible_app_identity ::
  "(string \<times> string option) option \<Rightarrow> rules \<Rightarrow> (string \<times> string option) option" where
  "eligible_app_identity identity s = (case identity of None \<Rightarrow> None
     | Some (k, bundle) \<Rightarrow>
         if app_scope_identity_is_ineligible k bundle s then None else Some (k, bundle))"

text \<open>The identity of the first of some events that can be generalized on its own row.\<close>

definition row_identity :: "event_row list \<Rightarrow> (string \<times> string option) option" where
  "row_identity rows = (case filter (\<lambda>r. er_app r \<noteq> None \<and> er_app_scope_eligible r) rows of
       [] \<Rightarrow> None | r # _ \<Rightarrow> Some (the (er_app r), er_bundle r))"

definition app_identity_for_event :: "string \<Rightarrow> rules \<Rightarrow> (string \<times> string option) option" where
  "app_identity_for_event i s =
     eligible_app_identity (row_identity (filter (\<lambda>r. er_event_id r = i) (rs_events s))) s"

definition save_app_identity :: "(rules \<Rightarrow> (string \<times> string option) option)
  \<Rightarrow> string \<Rightarrow> ustr option \<Rightarrow> int \<Rightarrow> bool ru" where
  "save_app_identity identity category name t = atomically (andthen (gets identity) (\<lambda>found.
     case found of None \<Rightarrow> ret False
     | Some (k, bundle) \<Rightarrow>
         andthen (upsert_app_scope_rule k bundle category name False t) (\<lambda>_. ret True)))"

definition save_personal_app_override :: "string \<Rightarrow> string \<Rightarrow> ustr option \<Rightarrow> int \<Rightarrow> bool ru" where
  "save_personal_app_override i = save_app_identity (app_identity_for_event i)"

definition save_personal_app_override_by_stable_id ::
  "string \<Rightarrow> string \<Rightarrow> ustr option \<Rightarrow> int \<Rightarrow> bool ru" where
  "save_personal_app_override_by_stable_id i = save_app_identity (\<lambda>s.
     eligible_app_identity
       (row_identity (latest_first (filter (\<lambda>r. er_stable_id r = i) (rs_events s)))) s)"

definition save_app_scope_override ::
  "string \<Rightarrow> string option \<Rightarrow> string \<Rightarrow> ustr option \<Rightarrow> int \<Rightarrow> unit ru" where
  "save_app_scope_override k bundle category name t = atomically (
     andthen (guard AppScopeIneligible (\<lambda>s. \<not> app_scope_identity_is_ineligible k bundle s)) (\<lambda>_.
     upsert_app_scope_rule k bundle category name True t))"

text \<open>A name a rule mirrored into windows goes with the rule.\<close>

definition nameless :: "(mapping \<Rightarrow> bool) \<Rightarrow> mapping \<Rightarrow> mapping" where
  "nameless p r = (if p r then r\<lparr>am_display_name := None\<rparr> else r)"

definition clear_display_names :: "(mapping \<Rightarrow> bool) \<Rightarrow> rules \<Rightarrow> rules" where
  "clear_display_names p s = s\<lparr>rs_map := map (nameless p) (rs_map s)\<rparr>"

definition windows_where :: "(event_row \<Rightarrow> bool) \<Rightarrow> rules \<Rightarrow> string set" where
  "windows_where p s = er_stable_id ` set (filter p (rs_events s))"

definition remove_app_scope_override :: "string \<Rightarrow> bool ru" where
  "remove_app_scope_override k s =
     (Inr (list_ex (\<lambda>r. pa_app_key_hash r = k) (rs_app s)),
      clear_display_names (\<lambda>r. am_stable_id r \<in> windows_where (\<lambda>v. er_app v = Some k) s)
        (s\<lparr>rs_app := filter (\<lambda>r. pa_app_key_hash r \<noteq> k) (rs_app s)\<rparr>))"

section \<open>Writing site rules\<close>

definition merge_site :: "bool \<Rightarrow> site_rule \<Rightarrow> site_rule \<Rightarrow> site_rule" where
  "merge_site keep_name new r = r\<lparr>ps_category := ps_category new,
     ps_activity_name := (if keep_name then coalesce (ps_activity_name new) (ps_activity_name r)
                          else ps_activity_name new),
     ps_correction_count := ps_correction_count r + 1, ps_updated_at := ps_updated_at new\<rparr>"

definition upsert_site_rule :: "bool \<Rightarrow> string \<Rightarrow> string \<Rightarrow> ustr option \<Rightarrow> int \<Rightarrow> unit ru" where
  "upsert_site_rule keep_name k category name t s =
     write_rows sites_ok rs_site_update
       (upsert_by ps_site_key_hash (merge_site keep_name)
         \<lparr>ps_site_key_hash = k, ps_category = category, ps_activity_name = name,
          ps_correction_count = 1, ps_updated_at = t\<rparr> (rs_site s)) s"

definition save_site_scope_override :: "string \<Rightarrow> string \<Rightarrow> ustr option \<Rightarrow> int \<Rightarrow> unit ru" where
  "save_site_scope_override k category name t = atomically (
     andthen (upsert_site_rule True k category name t) (\<lambda>_.
     modify (\<lambda>s. s\<lparr>rs_site_names := filter (\<lambda>r. sn_site_key_hash r \<noteq> k) (rs_site_names s)\<rparr>)))"

definition edit_site_scope_override :: "string \<Rightarrow> string \<Rightarrow> ustr option \<Rightarrow> int \<Rightarrow> unit ru" where
  "edit_site_scope_override k category name t = atomically (
     andthen (upsert_site_rule False k category name t) (\<lambda>_.
     if name = None
     then modify (\<lambda>s. clear_display_names
            (\<lambda>r. am_stable_id r \<in> windows_where (\<lambda>v. er_site v = Some k) s) s)
     else ret ()))"

definition remove_site_scope_override :: "string \<Rightarrow> bool ru" where
  "remove_site_scope_override k s =
     (Inr (list_ex (\<lambda>r. ps_site_key_hash r = k) (rs_site s)),
      clear_display_names (\<lambda>r. am_stable_id r \<in> windows_where (\<lambda>v. er_site v = Some k) s)
        (s\<lparr>rs_site := filter (\<lambda>r. ps_site_key_hash r \<noteq> k) (rs_site s)\<rparr>))"

section \<open>Writing window rules\<close>

text \<open>The application rung a correction of this window also writes, if it may write one.\<close>

definition paired_rung :: "string \<Rightarrow> rules \<Rightarrow> string option" where
  "paired_rung i s = (case filter (\<lambda>r. er_app r \<noteq> None \<and> er_app_scope_eligible r
          \<and> \<not> app_scope_identity_is_ineligible (the (er_app r)) (er_bundle r) s)
        (latest_first (filter (\<lambda>r. er_stable_id r = i) (rs_events s)))
      of [] \<Rightarrow> None | r # _ \<Rightarrow> er_app r)"

definition merge_window :: "window_rule \<Rightarrow> window_rule \<Rightarrow> window_rule" where
  "merge_window new r = r\<lparr>po_category := po_category new,
     po_activity_name := coalesce (po_activity_name new) (po_activity_name r),
     po_app_key_hash := coalesce (po_app_key_hash new) (po_app_key_hash r),
     po_updated_at := po_updated_at new\<rparr>"

definition merge_prototype :: "prototype \<Rightarrow> prototype \<Rightarrow> prototype" where
  "merge_prototype new r = r\<lparr>pt_category := pt_category new, pt_embedding := pt_embedding new,
     pt_dimensions := pt_dimensions new, pt_correction_count := pt_correction_count r + 1,
     pt_updated_at := pt_updated_at new\<rparr>"

definition learn_prototype :: "string \<Rightarrow> string \<Rightarrow> int \<Rightarrow> unit ru" where
  "learn_prototype k category t s = (case find (\<lambda>r. em_key_hash r = k) (rs_cache s) of
       None \<Rightarrow> (Inr (), s)
     | Some e \<Rightarrow> write_rows prototypes_ok rs_prototypes_update
         (upsert_by pt_key_hash merge_prototype
           \<lparr>pt_key_hash = k, pt_category = category, pt_embedding = em_embedding e,
            pt_dimensions = em_dimensions e, pt_correction_count = 1, pt_updated_at = t\<rparr>
           (rs_prototypes s)) s)"

definition prototype_rank :: "prototype \<Rightarrow> int \<times> int \<times> string" where
  "prototype_rank r = (- int (pt_correction_count r), - pt_updated_at r, pt_key_hash r)"

text \<open>Deletes the rows after the first \<open>n\<close> of a ranking of those that satisfy \<open>p\<close>.\<close>

definition keep_ranked ::
  "('r \<Rightarrow> 'k::linorder) \<Rightarrow> ('r \<Rightarrow> string) \<Rightarrow> nat \<Rightarrow> ('r \<Rightarrow> bool) \<Rightarrow> 'r list \<Rightarrow> 'r list" where
  "keep_ranked rank key n p rows =
     filter (\<lambda>r. key r \<notin> key ` set (drop n (sort_key rank (filter p rows)))) rows"

definition PROTOTYPES_PER_CATEGORY :: nat where
  "PROTOTYPES_PER_CATEGORY = 12"

definition PROTOTYPES_TOTAL :: nat where
  "PROTOTYPES_TOTAL = 64"

definition trim_prototypes :: "string \<Rightarrow> rules \<Rightarrow> rules" where
  "trim_prototypes category s = s\<lparr>rs_prototypes :=
     keep_ranked prototype_rank pt_key_hash PROTOTYPES_TOTAL (\<lambda>_. True)
       (keep_ranked prototype_rank pt_key_hash PROTOTYPES_PER_CATEGORY
         (\<lambda>r. pt_category r = category) (rs_prototypes s))\<rparr>"

definition save_personal_override :: "string \<Rightarrow> string \<Rightarrow> ustr option \<Rightarrow> int \<Rightarrow> unit ru" where
  "save_personal_override i category name t = atomically (
     andthen (gets (\<lambda>s. find (\<lambda>r. am_stable_id r = i) (rs_map s))) (\<lambda>found.
     case found of None \<Rightarrow> err MappingNotFound
     | Some m \<Rightarrow>
         andthen (\<lambda>s. write_rows windows_ok rs_window_update
            (upsert_by po_key_hash merge_window
              \<lparr>po_key_hash = am_key_hash m, po_category = category, po_activity_name = name,
               po_app_key_hash = paired_rung i s, po_updated_at = t\<rparr> (rs_window s)) s) (\<lambda>_.
         andthen (learn_prototype (am_key_hash m) category t) (\<lambda>_.
         modify (trim_prototypes category)))))"

definition remove_personal_override :: "string \<Rightarrow> bool ru" where
  "remove_personal_override i s =
     (let key = map_option am_key_hash (find (\<lambda>r. am_stable_id r = i) (rs_map s));
          paired = (case find (\<lambda>r. Some (po_key_hash r) = key) (rs_window s) of
              None \<Rightarrow> None | Some r \<Rightarrow> po_app_key_hash r);
          s1 = s\<lparr>rs_window := filter (\<lambda>r. Some (po_key_hash r) \<noteq> key) (rs_window s),
                 rs_prototypes := filter (\<lambda>r. Some (pt_key_hash r) \<noteq> key) (rs_prototypes s),
                 rs_app := filter (\<lambda>r. \<not> (Some (pa_app_key_hash r) = paired \<and> \<not> pa_app_only r))
                   (rs_app s)\<rparr>
      in (Inr (list_ex (\<lambda>r. Some (po_key_hash r) = key) (rs_window s)),
          clear_display_names (\<lambda>r. am_stable_id r = i
            \<or> paired \<noteq> None \<and> am_stable_id r \<in> windows_where (\<lambda>v. er_app v = paired) s) s1))"

definition reset_personal_overrides :: "nat ru" where
  "reset_personal_overrides s =
     (Inr (length (rs_window s)),
      clear_display_names (\<lambda>_. True)
        (s\<lparr>rs_window := [], rs_prototypes := [], rs_app := [], rs_site := []\<rparr>))"

definition personal_override_count :: "nat ru" where
  "personal_override_count = gets (\<lambda>s. length (rs_window s))"

definition personal_semantic_prototype_count :: "nat ru" where
  "personal_semantic_prototype_count = gets (\<lambda>s. length (rs_prototypes s))"

section \<open>Semantic memory\<close>

text \<open>An \<^verbatim>\<open>f32\<close> is its 32 bits; it is finite unless every exponent bit is set.\<close>

definition is_finite :: "f32 \<Rightarrow> bool" where
  "is_finite w \<longleftrightarrow> take_bit 8 (drop_bit 23 w) \<noteq> 255"

definition to_le_bytes :: "f32 \<Rightarrow> byte list" where
  "to_le_bytes w = [ucast w, ucast (drop_bit 8 w), ucast (drop_bit 16 w), ucast (drop_bit 24 w)]"

fun from_le_bytes :: "byte list \<Rightarrow> f32" where
  "from_le_bytes [] = 0"
| "from_le_bytes (b # bs) = ucast b OR push_bit 8 (from_le_bytes bs)"

definition encode_embedding :: "f32 list \<Rightarrow> byte list option" where
  "encode_embedding e =
     (if e = [] \<or> 1024 < length e \<or> list_ex (\<lambda>v. \<not> is_finite v) e then None
      else Some (concat (map to_le_bytes e)))"

fun chunks_exact4 :: "byte list \<Rightarrow> byte list list" where
  "chunks_exact4 (a # b # c # d # bs) = [a, b, c, d] # chunks_exact4 bs"
| "chunks_exact4 _ = []"

fun collect_finite :: "f32 list \<Rightarrow> rules_error + f32 list" where
  "collect_finite [] = Inr []"
| "collect_finite (v # vs) = (if is_finite v
     then (case collect_finite vs of Inl e \<Rightarrow> Inl e | Inr us \<Rightarrow> Inr (v # us))
     else Inl InvalidSemanticEmbedding)"

definition decode_embedding :: "byte list \<Rightarrow> nat \<Rightarrow> rules_error + f32 list" where
  "decode_embedding bytes n =
     (if n = 0 \<or> 1024 < n \<or> length bytes \<noteq> n * 4 then Inl InvalidSemanticEmbedding
      else collect_finite (map from_le_bytes (chunks_exact4 bytes)))"

definition CACHE_ROWS :: nat where
  "CACHE_ROWS = 512"

definition merge_embedding :: "embedding_row \<Rightarrow> embedding_row \<Rightarrow> embedding_row" where
  "merge_embedding new r = r\<lparr>em_embedding := em_embedding new, em_dimensions := em_dimensions new,
     em_updated_at := em_updated_at new\<rparr>"

definition trim_cache :: "rules \<Rightarrow> rules" where
  "trim_cache s = s\<lparr>rs_cache := keep_ranked (\<lambda>r. (- em_updated_at r, em_key_hash r)) em_key_hash
     CACHE_ROWS (\<lambda>_. True) (rs_cache s)\<rparr>"

definition record_embedding :: "string \<Rightarrow> f32 list \<Rightarrow> int \<Rightarrow> unit ru" where
  "record_embedding k e t = (case encode_embedding e of None \<Rightarrow> err StoreUnavailable
     | Some bytes \<Rightarrow> as_store_error (atomically (
         andthen (\<lambda>s. write_rows cache_ok rs_cache_update
           (upsert_by em_key_hash merge_embedding \<lparr>em_key_hash = k, em_embedding = bytes,
              em_dimensions = length e, em_updated_at = t\<rparr> (rs_cache s)) s) (\<lambda>_.
         modify trim_cache))))"

definition embedding :: "string \<Rightarrow> f32 list option ru" where
  "embedding k = andthen (gets (\<lambda>s. find (\<lambda>r. em_key_hash r = k) (rs_cache s))) (\<lambda>found.
     case found of None \<Rightarrow> ret None
     | Some r \<Rightarrow> (case decode_embedding (em_embedding r) (em_dimensions r) of
         Inl _ \<Rightarrow> err StoreUnavailable | Inr e \<Rightarrow> ret (Some e)))"

section \<open>Salts\<close>

definition SALT_LENGTH :: nat where
  "SALT_LENGTH = 32"

text \<open>\<open>minted\<close> is what \<^verbatim>\<open>randomblob(32)\<close> returns.\<close>

definition embedding_salt :: "byte list \<Rightarrow> byte list ru" where
  "embedding_salt minted = atomically (\<lambda>s. case rs_embedding_salt s of
       Some salt \<Rightarrow> if length salt = SALT_LENGTH then (Inr salt, s) else (Inl InvalidSalt, s)
     | None \<Rightarrow> if length minted \<noteq> SALT_LENGTH then (Inl RulesSqlite, s)
         else (Inr minted, s\<lparr>rs_embedding_salt := Some minted, rs_cache := [], rs_prototypes := []\<rparr>))"

definition forget_keys :: "event_row \<Rightarrow> event_row" where
  "forget_keys r = r\<lparr>er_app := None, er_bundle := None, er_site := None\<rparr>"

definition stable_key_salt :: "byte list \<Rightarrow> byte list ru" where
  "stable_key_salt minted = atomically (\<lambda>s. case rs_key_salt s of
       Some salt \<Rightarrow> if length salt = SALT_LENGTH then (Inr salt, s) else (Inl InvalidSalt, s)
     | None \<Rightarrow> if length minted \<noteq> SALT_LENGTH then (Inl RulesSqlite, s)
         else (Inr minted, s\<lparr>rs_key_salt := Some minted, rs_window := [], rs_app := [], rs_site := [],
             rs_site_names := [], rs_prompt_entries := [], rs_card_entries := [],
             rs_prototypes := [], rs_cache := [], rs_map := [],
             rs_events := map forget_keys (rs_events s)\<rparr>))"

section \<open>The correction history\<close>

datatype correction_scope = WindowScope | AppScope | SiteScope

record rule_record =
  rr_scope :: correction_scope
  rr_stable_id :: string
  rr_label :: string
  rr_local_label :: "ustr option"
  rr_category :: string
  rr_updated_at :: int

definition latest_label :: "(event_row \<Rightarrow> bool) \<Rightarrow> string \<Rightarrow> rules \<Rightarrow> string" where
  "latest_label p fallback s =
     (case latest_first (filter p (rs_events s)) of [] \<Rightarrow> fallback | r # _ \<Rightarrow> er_label r)"

definition local_name_of :: "event_row \<Rightarrow> ustr option" where
  "local_name_of r = coalesce (er_local_display_label r) (er_local_name_suggestion r)"

definition latest_name :: "(event_row \<Rightarrow> bool) \<Rightarrow> rules \<Rightarrow> ustr option" where
  "latest_name p s = (case latest_first (filter (\<lambda>r. p r \<and> local_name_of r \<noteq> None) (rs_events s)) of
     [] \<Rightarrow> None | r # _ \<Rightarrow> local_name_of r)"

definition window_records :: "rules \<Rightarrow> rule_record list" where
  "window_records s = concat (map (\<lambda>r. map (\<lambda>m.
       \<lparr>rr_scope = WindowScope, rr_stable_id = am_stable_id m, rr_label = am_label m,
        rr_local_label = coalesce (po_activity_name r) (am_display_name m),
        rr_category = po_category r, rr_updated_at = po_updated_at r\<rparr>)
     (filter (\<lambda>m. am_key_hash m = po_key_hash r) (rs_map s))) (rs_window s))"

definition app_record :: "rules \<Rightarrow> app_rule \<Rightarrow> rule_record" where
  "app_record s r = \<lparr>rr_scope = AppScope, rr_stable_id = pa_app_key_hash r,
     rr_label = latest_label (\<lambda>v. er_app v = Some (pa_app_key_hash r)) ''application'' s,
     rr_local_label = coalesce (pa_activity_name r)
       (latest_name (\<lambda>v. er_app v = Some (pa_app_key_hash r)) s),
     rr_category = pa_category r, rr_updated_at = pa_updated_at r\<rparr>"

definition site_record :: "rules \<Rightarrow> site_rule \<Rightarrow> rule_record" where
  "site_record s r = \<lparr>rr_scope = SiteScope, rr_stable_id = ps_site_key_hash r,
     rr_label = latest_label (\<lambda>v. er_site v = Some (ps_site_key_hash r)) ''site'' s,
     rr_local_label = ps_activity_name r,
     rr_category = ps_category r, rr_updated_at = ps_updated_at r\<rparr>"

definition rule_source :: "rules \<Rightarrow> rule_record list" where
  "rule_source s = window_records s @ map (app_record s) (filter pa_app_only (rs_app s))
     @ map (site_record s) (rs_site s)"

text \<open>SQLite's \<^verbatim>\<open>lower\<close> folds ASCII; \<^verbatim>\<open>instr\<close> finds a substring.\<close>

definition sql_contains :: "ustr \<Rightarrow> ustr \<Rightarrow> bool" where
  "sql_contains text part = sublist (map ascii_lower part) (map ascii_lower text)"

definition rule_filter :: "ustr option \<Rightarrow> rule_record \<Rightarrow> bool" where
  "rule_filter q r = (case q of None \<Rightarrow> True
     | Some part \<Rightarrow> sql_contains (case rr_local_label r of None \<Rightarrow> [] | Some l \<Rightarrow> l) part
         \<or> sql_contains (of_str (rr_label r)) part \<or> sql_contains (of_str (rr_category r)) part)"

definition clean_query :: "ustr option \<Rightarrow> ustr option" where
  "clean_query q = (case q of None \<Rightarrow> None | Some u \<Rightarrow> if trim u = [] then None else Some (trim u))"

definition search_personal_overrides ::
  "ustr option \<Rightarrow> nat \<Rightarrow> nat \<Rightarrow> (rule_record list \<times> nat) ru" where
  "search_personal_overrides q skip limit =
     (let limit = min limit 20 in
      if limit = 0 then ret ([], 0)
      else gets (\<lambda>s. let hits = filter (rule_filter (clean_query q)) (rule_source s) in
        (take limit (drop skip (sort_key (\<lambda>r. (- rr_updated_at r, rr_stable_id r)) hits)),
         length hits)))"

definition personal_overrides :: "nat \<Rightarrow> rule_record list ru" where
  "personal_overrides limit =
     andthen (search_personal_overrides None 0 limit) (\<lambda>(rows, total). ret rows)"

section \<open>Sweeps\<close>

text \<open>Deletes up to \<open>limit\<close> expired rows, in the order \<open>visit\<close> gives them.\<close>

definition delete_up_to :: "('r list \<Rightarrow> 'r list) \<Rightarrow> ('r \<Rightarrow> string) \<Rightarrow> ('r \<Rightarrow> bool) \<Rightarrow> nat \<Rightarrow> 'r list \<Rightarrow> 'r list"
where
  "delete_up_to visit key expired limit rows =
     filter (\<lambda>r. key r \<notin> key ` set (take limit (visit (filter expired rows)))) rows"

definition delete_expired_semantic_embeddings ::
  "(embedding_row list \<Rightarrow> embedding_row list) \<Rightarrow> instant \<Rightarrow> nat \<Rightarrow> nat ru" where
  "delete_expired_semantic_embeddings visit cutoff limit s =
     (let kept = delete_up_to visit em_key_hash (\<lambda>r. em_updated_at r < timestamp cutoff) limit (rs_cache s)
      in (Inr (length (rs_cache s) - length kept), s\<lparr>rs_cache := kept\<rparr>))"

definition mapping_expired :: "rules \<Rightarrow> instant \<Rightarrow> mapping \<Rightarrow> bool" where
  "mapping_expired s cutoff m \<longleftrightarrow> am_updated_at m < timestamp cutoff
     \<and> \<not> list_ex (\<lambda>r. po_key_hash r = am_key_hash m) (rs_window s)
     \<and> \<not> list_ex (\<lambda>r. er_stable_id r = am_stable_id m) (rs_events s)"

definition delete_expired_mappings :: "instant \<Rightarrow> nat \<Rightarrow> nat ru" where
  "delete_expired_mappings cutoff limit s =
     (let kept = delete_up_to (sort_key am_updated_at) am_key_hash (mapping_expired s cutoff) limit (rs_map s)
      in (Inr (length (rs_map s) - length kept), s\<lparr>rs_map := kept\<rparr>))"

definition delete_expired_site_names :: "instant \<Rightarrow> nat \<Rightarrow> nat ru" where
  "delete_expired_site_names cutoff limit s =
     (let kept = delete_up_to (sort_key sn_last_seen_at) sn_site_key_hash
            (\<lambda>r. sn_last_seen_at r < timestamp cutoff) limit (rs_site_names s)
      in (Inr (length (rs_site_names s) - length kept), s\<lparr>rs_site_names := kept\<rparr>))"

end
