(* ===== verification/Triage.thy ===== *)
theory Triage
  imports Rules
begin

text \<open>
  The list of what still needs a category: the two queries of \<^verbatim>\<open>SqliteRawEventRepo\<close>
  (\<^verbatim>\<open>persistence/sqlite.rs\<close>) over buffered events, the hostnames kept so that a site can be
  named, and their merge (\<^verbatim>\<open>needs_a_category\<close> and \<^verbatim>\<open>everything_that_needs_a_category\<close> of
  \<^verbatim>\<open>category_prompt/mod.rs\<close>). \<open>now\<close> is what \<^verbatim>\<open>Utc::now()\<close> returns.
\<close>

definition TRIAGE_MAX_LOOKBACK_DAYS :: nat where
  "TRIAGE_MAX_LOOKBACK_DAYS = 14"

definition TRIAGE_MIN_SECONDS :: nat where
  "TRIAGE_MIN_SECONDS = 300"

definition TRIAGE_MAX_ENTRIES :: nat where
  "TRIAGE_MAX_ENTRIES = 8"

record app_entry =
  ae_app :: string
  ae_display_name :: "ustr option"
  ae_seconds :: nat
  ae_events :: nat
  ae_bundle :: "string option"

record site_entry =
  se_site :: string
  se_display_name :: string
  se_seconds :: nat
  se_events :: nat

definition triage_cutoff :: "nat \<Rightarrow> instant \<Rightarrow> int" where
  "triage_cutoff lookback now =
     timestamp (now - seconds (int (min (max lookback 1) TRIAGE_MAX_LOOKBACK_DAYS) * 86400))"

section \<open>Applications\<close>

definition unlogged :: "event_row \<Rightarrow> bool" where
  "unlogged r \<longleftrightarrow> er_category r = ''UNLOGGED''"

definition app_taught :: "rules \<Rightarrow> event_row \<Rightarrow> bool" where
  "app_taught s r = list_ex (\<lambda>rule. Some (pa_app_key_hash rule) = er_app r
     \<or> pa_bundle_key_hash rule \<noteq> None \<and> pa_bundle_key_hash rule = er_bundle r) (rs_app s)"

definition app_observed :: "rules \<Rightarrow> int \<Rightarrow> event_row \<Rightarrow> bool" where
  "app_observed s cutoff r \<longleftrightarrow> unlogged r \<and> er_app r \<noteq> None \<and> cutoff \<le> er_occurred_at r
     \<and> er_app_scope_eligible r
     \<and> \<not> list_ex (\<lambda>v. \<not> er_app_scope_eligible v \<and> er_app v \<noteq> None \<and> er_app v = er_app r) (rs_events s)
     \<and> (er_bundle r = None
        \<or> \<not> list_ex (\<lambda>v. \<not> er_app_scope_eligible v \<and> er_bundle v \<noteq> None \<and> er_bundle v = er_bundle r)
            (rs_events s))
     \<and> \<not> app_taught s r"

definition max_key :: "string list \<Rightarrow> string option" where
  "max_key ks = (case ks of [] \<Rightarrow> None | k # t \<Rightarrow> Some (fold max t k))"

definition app_entry_of :: "rules \<Rightarrow> event_row list \<Rightarrow> string \<Rightarrow> app_entry" where
  "app_entry_of s rows a =
     (let mine = filter (\<lambda>r. er_app r = Some a) rows in
      \<lparr>ae_app = a, ae_display_name = latest_name (\<lambda>v. unlogged v \<and> er_app v = Some a) s,
       ae_seconds = sum_list (map er_duration_seconds mine), ae_events = length mine,
       ae_bundle = max_key (List.map_filter er_bundle mine)\<rparr>)"

definition limited :: "nat option \<Rightarrow> 'a list \<Rightarrow> 'a list" where
  "limited limit xs = (case limit of None \<Rightarrow> xs | Some n \<Rightarrow> take n xs)"

definition ranked_apps :: "rules \<Rightarrow> int \<Rightarrow> nat \<Rightarrow> app_entry list" where
  "ranked_apps s cutoff least =
     (let rows = filter (app_observed s cutoff) (rs_events s) in
      sort_key (\<lambda>e. (- int (ae_seconds e), ae_app e))
        (filter (\<lambda>e. least \<le> ae_seconds e)
          (map (app_entry_of s rows) (remdups (List.map_filter er_app rows)))))"

definition unclassified_applications ::
  "nat \<Rightarrow> nat \<Rightarrow> nat option \<Rightarrow> instant \<Rightarrow> app_entry list ru" where
  "unclassified_applications lookback least limit now = gets (\<lambda>s.
     limited limit (ranked_apps s (triage_cutoff lookback now) (max least TRIAGE_MIN_SECONDS)))"

definition unclassified_triage :: "nat \<Rightarrow> nat \<Rightarrow> nat \<Rightarrow> instant \<Rightarrow> app_entry list ru" where
  "unclassified_triage lookback least limit now =
     (let limit = min limit TRIAGE_MAX_ENTRIES in
      if limit = 0 then ret [] else unclassified_applications lookback least (Some limit) now)"

definition every_unclassified_application :: "nat \<Rightarrow> instant \<Rightarrow> app_entry list ru" where
  "every_unclassified_application lookback now =
     unclassified_applications lookback TRIAGE_MIN_SECONDS None now"

definition unclassified_app_bundle_key :: "string \<Rightarrow> string option ru" where
  "unclassified_app_bundle_key a = gets (\<lambda>s. max_key (List.map_filter er_bundle
     (filter (\<lambda>r. unlogged r \<and> er_app r = Some a) (rs_events s))))"

section \<open>Sites\<close>

definition site_visit_needs_a_category :: "event_row \<Rightarrow> bool" where
  "site_visit_needs_a_category r \<longleftrightarrow> er_site r \<noteq> None
     \<and> \<not> (er_status r = ''classified'' \<and> er_confidence r \<in> {''high'', ''medium''}
          \<and> to_ascii_lowercase (er_category r) \<notin> {''unclassified'', ''unlogged''})
     \<and> \<not> (er_source r = ''user_rule'' \<and> er_tier r = ''exact_match'')"

definition site_taught :: "rules \<Rightarrow> string \<Rightarrow> bool" where
  "site_taught s k = list_ex (\<lambda>rule. ps_site_key_hash rule = k) (rs_site s)"

definition site_observed :: "rules \<Rightarrow> int \<Rightarrow> event_row \<Rightarrow> bool" where
  "site_observed s cutoff r \<longleftrightarrow> cutoff \<le> er_occurred_at r \<and> site_visit_needs_a_category r
     \<and> \<not> site_taught s (the (er_site r))"

definition site_entry_of :: "event_row list \<Rightarrow> site_name \<Rightarrow> site_entry" where
  "site_entry_of rows n =
     (let mine = filter (\<lambda>r. er_site r = Some (sn_site_key_hash n)) rows in
      \<lparr>se_site = sn_site_key_hash n, se_display_name = sn_host n,
       se_seconds = sum_list (map er_duration_seconds mine), se_events = length mine\<rparr>)"

definition ranked_sites :: "rules \<Rightarrow> int \<Rightarrow> nat \<Rightarrow> site_entry list" where
  "ranked_sites s cutoff least =
     (let rows = filter (site_observed s cutoff) (rs_events s) in
      sort_key (\<lambda>e. (- int (se_seconds e), se_site e))
        (filter (\<lambda>e. least \<le> se_seconds e)
          (map (site_entry_of rows)
            (filter (\<lambda>n. list_ex (\<lambda>r. er_site r = Some (sn_site_key_hash n)) rows)
              (rs_site_names s)))))"

definition unclassified_sites ::
  "nat \<Rightarrow> nat \<Rightarrow> nat option \<Rightarrow> instant \<Rightarrow> site_entry list ru" where
  "unclassified_sites lookback least limit now = gets (\<lambda>s.
     limited limit (ranked_sites s (triage_cutoff lookback now) (max least TRIAGE_MIN_SECONDS)))"

definition unclassified_site_triage :: "nat \<Rightarrow> nat \<Rightarrow> nat \<Rightarrow> instant \<Rightarrow> site_entry list ru" where
  "unclassified_site_triage lookback least limit now =
     (let limit = min limit TRIAGE_MAX_ENTRIES in
      if limit = 0 then ret [] else unclassified_sites lookback least (Some limit) now)"

definition every_unclassified_site :: "nat \<Rightarrow> instant \<Rightarrow> site_entry list ru" where
  "every_unclassified_site lookback now = unclassified_sites lookback TRIAGE_MIN_SECONDS None now"

definition record_local_site_name :: "string \<Rightarrow> string \<Rightarrow> instant \<Rightarrow> bool ru" where
  "record_local_site_name i host seen =
     andthen (gets (\<lambda>s. find (\<lambda>r. er_event_id r = i \<and> site_visit_needs_a_category r
         \<and> \<not> site_taught s (the (er_site r))) (rs_events s))) (\<lambda>found.
     case found of None \<Rightarrow> ret False
     | Some r \<Rightarrow> andthen (\<lambda>s. write_rows site_names_ok rs_site_names_update
           (upsert_by sn_site_key_hash (\<lambda>new old. new)
             \<lparr>sn_site_key_hash = the (er_site r), sn_host = host, sn_last_seen_at = timestamp seen\<rparr>
             (rs_site_names s)) s) (\<lambda>_. ret True))"

definition local_site_name :: "string \<Rightarrow> string option ru" where
  "local_site_name k =
     gets (\<lambda>s. map_option sn_host (find (\<lambda>r. sn_site_key_hash r = k) (rs_site_names s)))"

section \<open>The merged list\<close>

datatype triage_kind = Application | Site

record triage_entry =
  te_kind :: triage_kind
  te_stable_id :: string
  te_display_name :: "ustr option"
  te_seconds :: nat
  te_events :: nat

definition entry_of_app :: "app_entry \<Rightarrow> triage_entry" where
  "entry_of_app e = \<lparr>te_kind = Application, te_stable_id = ae_app e, te_display_name = ae_display_name e,
     te_seconds = ae_seconds e, te_events = ae_events e\<rparr>"

definition entry_of_site :: "site_entry \<Rightarrow> triage_entry" where
  "entry_of_site e = \<lparr>te_kind = Site, te_stable_id = se_site e,
     te_display_name = Some (of_str (se_display_name e)), te_seconds = se_seconds e,
     te_events = se_events e\<rparr>"

fun kind_rank :: "triage_kind \<Rightarrow> nat" where
  "kind_rank Application = 0"
| "kind_rank Site = 1"

definition triage_rank :: "triage_entry \<Rightarrow> int \<times> nat \<times> string" where
  "triage_rank e = (- int (te_seconds e), kind_rank (te_kind e), te_stable_id e)"

definition ranked :: "app_entry list \<Rightarrow> site_entry list \<Rightarrow> triage_entry list" where
  "ranked apps sites = sort_key triage_rank (map entry_of_app apps @ map entry_of_site sites)"

definition needs_a_category :: "nat \<Rightarrow> instant \<Rightarrow> triage_entry list ru" where
  "needs_a_category lookback now =
     andthen (unclassified_triage lookback TRIAGE_MIN_SECONDS TRIAGE_MAX_ENTRIES now) (\<lambda>apps.
     andthen (unclassified_site_triage lookback TRIAGE_MIN_SECONDS TRIAGE_MAX_ENTRIES now) (\<lambda>sites.
     ret (take TRIAGE_MAX_ENTRIES (ranked apps sites))))"

definition everything_that_needs_a_category :: "nat \<Rightarrow> instant \<Rightarrow> triage_entry list ru" where
  "everything_that_needs_a_category lookback now =
     andthen (every_unclassified_application lookback now) (\<lambda>apps.
     andthen (every_unclassified_site lookback now) (\<lambda>sites. ret (ranked apps sites)))"

end
