(* ===== verification/Rules_Properties.thy ===== *)
theory Rules_Properties
  imports Triage "HOL-Library.Multiset"
begin

text \<open>
  What the rule store promises: its invariant, that teaching an application never trips over
  the name it used to have, that an undo reaches both rungs of a correction, what the
  correction history lists, and the round trip of a stored embedding.
\<close>

text \<open>A transaction keeps what its body keeps.\<close>

lemma obeys_atomically: "obeys (keeping P) m \<Longrightarrow> obeys (keeping P) (atomically m)"
  by (auto simp: obeys_def keeping_def atomically_def split: prod.splits sum.splits)

section \<open>Tables\<close>

lemma map_filter_Some_comp [simp]: "List.map_filter (\<lambda>r. Some (f r)) xs = map f xs"
  by (simp add: List.map_filter_def comp_def)

lemma unique_by_Some [simp]: "unique_by (\<lambda>r. Some (f r)) xs \<longleftrightarrow> distinct (map f xs)"
  by (simp add: unique_by_def)

lemma set_map_filter: "set (List.map_filter f xs) = {y. \<exists>x\<in>set xs. f x = Some y}"
  by (force simp: List.map_filter_def)

lemma map_filter_Cons [simp]:
  "List.map_filter f (x # xs) = (case f x of None \<Rightarrow> List.map_filter f xs
     | Some y \<Rightarrow> y # List.map_filter f xs)"
  by (simp add: List.map_filter_def split: option.splits)

lemma map_filter_Nil [simp]: "List.map_filter f [] = []"
  by (simp add: List.map_filter_def)

lemma unique_by_filter: "unique_by f xs \<Longrightarrow> unique_by f (filter p xs)"
  by (induction xs) (auto simp: unique_by_def set_map_filter split: option.splits)

lemma unique_byD:
  assumes "unique_by f xs" "x \<in> set xs" "y \<in> set xs" "f x = Some k" "f y = Some k"
  shows "x = y"
  using assms
  by (induction xs) (auto simp: unique_by_def set_map_filter split: option.splits)

lemma upsert_by_keys:
  assumes "\<And>r. key r = key new \<Longrightarrow> key (merge new r) = key new"
  shows "map key (upsert_by key merge new rows) =
    (if key new \<in> key ` set rows then map key rows else map key rows @ [key new])"
  using assms by (induction rows) auto

lemma upsert_by_distinct:
  assumes "\<And>r. key r = key new \<Longrightarrow> key (merge new r) = key new" "distinct (map key rows)"
  shows "distinct (map key (upsert_by key merge new rows))"
  using assms by (auto simp: upsert_by_keys)

lemma upsert_by_all:
  assumes "list_all P rows" "P new" "\<And>r. P r \<Longrightarrow> key r = key new \<Longrightarrow> P (merge new r)"
  shows "list_all P (upsert_by key merge new rows)"
  using assms by (induction rows) auto

lemma set_upsert_by:
  "x \<in> set (upsert_by key merge new rows) \<Longrightarrow>
     x = new \<or> x \<in> set rows \<or> (\<exists>r\<in>set rows. key r = key new \<and> x = merge new r)"
  by (induction rows) (auto split: if_splits)

lemma upsert_by_find:
  assumes "\<And>r. key r = key new \<Longrightarrow> key (merge new r) = key new"
  shows "find (\<lambda>r. key r = k) (upsert_by key merge new rows) =
    (if k = key new then Some (case find (\<lambda>r. key r = k) rows of None \<Rightarrow> new | Some r \<Rightarrow> merge new r)
     else find (\<lambda>r. key r = k) rows)"
  using assms by (induction rows) auto

lemma set_upsert_by_cases:
  "x \<in> set (upsert_by key merge new rows) \<Longrightarrow> distinct (map key rows) \<Longrightarrow>
     x \<in> set rows \<and> key x \<noteq> key new \<or> x = new \<or> (\<exists>r\<in>set rows. key r = key new \<and> x = merge new r)"
proof (induction rows)
  case (Cons r rows)
  show ?case
  proof (cases "key r = key new")
    case True
    then have "key new \<notin> key ` set rows" using Cons.prems(2) by simp
    then have "key y \<noteq> key new" if "y \<in> set rows" for y using that by (metis image_eqI)
    then show ?thesis using Cons.prems(1) True by auto
  next
    case False
    then show ?thesis using Cons.IH Cons.prems by (simp, blast)
  qed
qed simp

lemma set_upsert_byE:
  assumes "x \<in> set (upsert_by key merge new rows)" "distinct (map key rows)"
  obtains (kept) "x \<in> set rows" "key x \<noteq> key new" | (added) "x = new"
    | (merged) r where "r \<in> set rows" "key r = key new" "x = merge new r"
  using set_upsert_by_cases [OF assms] by blast

lemma find_by_key:
  "distinct (map key rows) \<Longrightarrow> r \<in> set rows \<Longrightarrow> find (\<lambda>x. key x = key r) rows = Some r"
  by (induction rows) (auto simp: image_iff)

lemma unique_byI:
  assumes "distinct rows"
    and "\<And>x y. x \<in> set rows \<Longrightarrow> y \<in> set rows \<Longrightarrow> f x \<noteq> None \<Longrightarrow> f x = f y \<Longrightarrow> x = y"
  shows "unique_by f rows"
  using assms
proof (induction rows)
  case (Cons r rows)
  have "unique_by f rows" using Cons by (meson distinct.simps(2) list.set_intros(2))
  moreover have "f r \<noteq> Some k \<or> k \<notin> set (List.map_filter f rows)" for k
    using Cons.prems by (force simp: set_map_filter)
  ultimately show ?case by (auto simp: unique_by_def split: option.splits)
qed (simp add: unique_by_def)

section \<open>Transactions\<close>

lemma atomically_Inr [simp]: "atomically m s = (Inr a, t) \<longleftrightarrow> m s = (Inr a, t)"
  by (auto simp: atomically_def split: prod.splits sum.splits)

lemma atomically_Inl: "atomically m s = (Inl e, t) \<Longrightarrow> t = s"
  by (auto simp: atomically_def split: prod.splits sum.splits)

lemma write_rows_Inr [simp]:
  "write_rows ok table rows s = (Inr u, t) \<longleftrightarrow> ok rows \<and> t = table (\<lambda>_. rows) s"
  by (auto simp: write_rows_def)

section \<open>One rule for an application\<close>

lemma apps_ok_rekey:
  assumes "apps_ok rows" "key_check k"
  shows "apps_ok (rekey_alias b k t rows)"
proof (cases "list_ex (\<lambda>r. pa_app_key_hash r = k) rows")
  case False
  let ?f = "\<lambda>r. if pa_bundle_key_hash r = Some b \<and> pa_app_key_hash r \<noteq> k
       then r\<lparr>pa_app_key_hash := k, pa_updated_at := t\<rparr> else r"
  have bundles: "pa_bundle_key_hash (?f r) = pa_bundle_key_hash r" for r by simp
  have "unique_by pa_bundle_key_hash rows" "distinct (map pa_app_key_hash rows)"
    using assms(1) by (auto simp: apps_ok_def)
  moreover have "k \<notin> pa_app_key_hash ` set rows" using False by (auto simp: list_ex_iff)
  ultimately have "distinct (map pa_app_key_hash (map ?f rows))"
  proof (induction rows)
    case (Cons r rows)
    then have ind: "distinct (map pa_app_key_hash (map ?f rows))"
      by (auto simp: unique_by_def set_map_filter split: option.splits)
    have "pa_app_key_hash (?f r) \<noteq> pa_app_key_hash (?f x)" if "x \<in> set rows" for x
      using Cons.prems that by (auto simp: unique_by_def set_map_filter split: option.splits if_splits)
    then have "pa_app_key_hash (?f r) \<notin> set (map pa_app_key_hash (map ?f rows))"
      unfolding set_map image_image by blast
    then show ?case using ind by (simp only: list.map distinct.simps not_False_eq_True simp_thms)
  qed simp
  moreover have "unique_by pa_bundle_key_hash (map ?f rows)"
    using assms(1) by (simp add: apps_ok_def unique_by_def List.map_filter_def filter_map comp_def bundles
        cong: map_cong filter_cong)
  moreover have "list_all app_check (map ?f rows)"
    using assms by (auto simp: apps_ok_def app_check_def list_all_iff)
  ultimately show ?thesis using False by (simp add: rekey_alias_def apps_ok_def)
qed (use assms in \<open>simp add: rekey_alias_def\<close>)

lemma apps_ok_filter: "apps_ok rows \<Longrightarrow> apps_ok (filter p rows)"
  by (auto simp: apps_ok_def list_all_iff distinct_map_filter unique_by_filter)

lemma drop_alias_free:
  "r \<in> set (drop_alias b k rows) \<Longrightarrow> pa_bundle_key_hash r = Some b \<Longrightarrow> pa_app_key_hash r = k"
  by (auto simp: drop_alias_def)

text \<open>An upsert keeps the bundle index unique when no other row claims the new bundle.\<close>

lemma apps_ok_upsert:
  assumes ok: "apps_ok rows" and new: "app_check new"
    and free: "\<And>r. r \<in> set rows \<Longrightarrow> pa_bundle_key_hash new \<noteq> None \<Longrightarrow>
      pa_bundle_key_hash r = pa_bundle_key_hash new \<Longrightarrow> pa_app_key_hash r = pa_app_key_hash new"
  shows "apps_ok (upsert_by pa_app_key_hash merge_app new rows)"
proof -
  have "distinct (map pa_app_key_hash (upsert_by pa_app_key_hash merge_app new rows))"
    by (rule upsert_by_distinct) (use ok in \<open>auto simp: apps_ok_def merge_app_def\<close>)
  moreover have "list_all app_check (upsert_by pa_app_key_hash merge_app new rows)"
    by (rule upsert_by_all)
      (use ok new in \<open>auto simp: apps_ok_def app_check_def merge_app_def coalesce_def opt_ok_def
        name_check_def split: option.splits\<close>)
  moreover have "unique_by pa_bundle_key_hash (upsert_by pa_app_key_hash merge_app new rows)"
  proof (rule unique_byI)
    show "distinct (upsert_by pa_app_key_hash merge_app new rows)"
      using calculation(1) by (simp add: distinct_map)
  next
    fix x y
    assume x: "x \<in> set (upsert_by pa_app_key_hash merge_app new rows)"
      and y: "y \<in> set (upsert_by pa_app_key_hash merge_app new rows)"
      and same: "pa_bundle_key_hash x \<noteq> None" "pa_bundle_key_hash x = pa_bundle_key_hash y"
    have keys: "distinct (map pa_app_key_hash rows)" and bundles: "unique_by pa_bundle_key_hash rows"
      using ok by (simp_all add: apps_ok_def)
    have apart: False if u: "u \<in> set (upsert_by pa_app_key_hash merge_app new rows)" "v \<in> set rows"
      "pa_app_key_hash u = pa_app_key_hash new" "pa_app_key_hash v \<noteq> pa_app_key_hash new"
      "pa_bundle_key_hash v \<noteq> None" "pa_bundle_key_hash u = pa_bundle_key_hash v" for u v
      using u(1) keys
    proof (cases rule: set_upsert_byE)
      case added
      then show False using free [OF u(2)] u(4,5,6) by metis
    next
      case (merged r)
      obtain b where b: "pa_bundle_key_hash v = Some b" using u(5) by auto
      show False
      proof (cases "pa_bundle_key_hash new")
        case None
        then have "pa_bundle_key_hash r = Some b"
          using u(6) b merged(3) by (simp add: coalesce_def merge_app_def)
        then have "r = v" using unique_byD [OF bundles merged(1) u(2)] b by blast
        then show False using merged(2) u(4) by simp
      next
        case (Some c)
        then have "pa_bundle_key_hash v = pa_bundle_key_hash new"
          using u(6) merged(3) by (simp add: coalesce_def merge_app_def)
        then show False using free [OF u(2)] Some u(4) by simp
      qed
    qed (use u in auto)
    have side: "pa_app_key_hash u = pa_app_key_hash new \<or> u \<in> set rows \<and> pa_app_key_hash u \<noteq> pa_app_key_hash new"
      if "u \<in> set (upsert_by pa_app_key_hash merge_app new rows)" for u
      using that keys by (cases rule: set_upsert_byE) (auto simp: merge_app_def)
    from side [OF x] side [OF y]
    consider "pa_app_key_hash x = pa_app_key_hash y" | "x \<in> set rows" "y \<in> set rows"
      using apart [of x y] apart [of y x] same x y by metis
    then show "x = y"
    proof cases
      case 1
      then show ?thesis using calculation(1) x y by (meson distinct_map inj_onD)
    qed (use same unique_byD [OF bundles] in auto)
  qed
  ultimately show ?thesis by (simp add: apps_ok_def)
qed

lemma fold_alias_outcome:
  assumes "apps_ok (rs_app s)" "key_check k"
  shows "fold_alias b k t s = (Inr (), s\<lparr>rs_app := drop_alias b k (rekey_alias b k t (rs_app s))\<rparr>)"
  using apps_ok_rekey [OF assms]
  by (simp add: fold_alias_def andthen_def modify_def write_rows_def)

definition alias_folded :: "string option \<Rightarrow> string \<Rightarrow> int \<Rightarrow> app_rule list \<Rightarrow> app_rule list" where
  "alias_folded bundle k t rows = (case bundle of None \<Rightarrow> rows
     | Some b \<Rightarrow> drop_alias b k (rekey_alias b k t rows))"

lemma apps_ok_folded: "apps_ok rows \<Longrightarrow> key_check k \<Longrightarrow> apps_ok (alias_folded bundle k t rows)"
  by (auto simp: alias_folded_def drop_alias_def apps_ok_rekey apps_ok_filter split: option.splits)

text \<open>What the writer of an application rule leaves, whatever the table held before.\<close>

lemma upsert_app_scope_rule_outcome:
  fixes category :: string and app_only :: bool and t :: int
  assumes ok: "apps_ok (rs_app s)" and keys: "key_check k" "opt_ok key_check bundle" "name_check name"
  defines "rows \<equiv> upsert_by pa_app_key_hash merge_app
      (new_app_rule k bundle category name app_only t) (alias_folded bundle k t (rs_app s))"
  shows "upsert_app_scope_rule k bundle category name app_only t s = (Inr (), s\<lparr>rs_app := rows\<rparr>)"
    and "apps_ok rows"
proof -
  have folded: "apps_ok (alias_folded bundle k t (rs_app s))" by (rule apps_ok_folded [OF ok keys(1)])
  have free: "pa_app_key_hash r = k"
    if "r \<in> set (alias_folded bundle k t (rs_app s))" "bundle \<noteq> None" "pa_bundle_key_hash r = bundle" for r
    using that by (auto simp: alias_folded_def drop_alias_def)
  show rows_ok: "apps_ok rows"
    unfolding rows_def by (rule apps_ok_upsert [OF folded]) (use keys free in \<open>auto simp: app_check_def new_app_rule_def\<close>)
  show "upsert_app_scope_rule k bundle category name app_only t s = (Inr (), s\<lparr>rs_app := rows\<rparr>)"
    using rows_ok
    by (auto simp: upsert_app_scope_rule_def rows_def andthen_def ret_def write_rows_def
        alias_folded_def fold_alias_outcome [OF ok keys(1)] split: option.splits)
qed

lemma new_app_rule_simps [simp]:
  "pa_app_key_hash (new_app_rule k bundle c n ao t) = k"
  "pa_bundle_key_hash (new_app_rule k bundle c n ao t) = bundle"
  "pa_category (new_app_rule k bundle c n ao t) = c"
  "pa_activity_name (new_app_rule k bundle c n ao t) = n"
  "pa_app_only (new_app_rule k bundle c n ao t) = ao"
  "pa_correction_count (new_app_rule k bundle c n ao t) = 1"
  by (simp_all add: new_app_rule_def)

lemma merge_app_simps [simp]:
  "pa_app_key_hash (merge_app new r) = pa_app_key_hash r"
  "pa_bundle_key_hash (merge_app new r) = coalesce (pa_bundle_key_hash new) (pa_bundle_key_hash r)"
  "pa_category (merge_app new r) = pa_category new"
  "pa_correction_count (merge_app new r) = pa_correction_count r + 1"
  "pa_app_only (merge_app new r) = (pa_app_only r \<or> pa_app_only new)"
  by (simp_all add: merge_app_def)

text \<open>After a rename the rule under the old name is the one found under the new name.\<close>

lemma alias_is_rekeyed:
  assumes ok: "apps_ok rows" and k: "key_check k" and r: "r \<in> set rows" "pa_bundle_key_hash r = Some b"
    and new: "\<not> list_ex (\<lambda>r. pa_app_key_hash r = k) rows"
  shows "find (\<lambda>r. pa_app_key_hash r = k) (alias_folded (Some b) k t rows) =
    Some (r\<lparr>pa_app_key_hash := k, pa_updated_at := t\<rparr>)"
proof -
  let ?f = "\<lambda>r. if pa_bundle_key_hash r = Some b \<and> pa_app_key_hash r \<noteq> k
       then r\<lparr>pa_app_key_hash := k, pa_updated_at := t\<rparr> else r"
  have rk: "pa_app_key_hash x \<noteq> k" if "x \<in> set rows" for x using new that by (auto simp: list_ex_iff)
  have folded: "alias_folded (Some b) k t rows = map ?f rows"
    using new rk by (auto simp: alias_folded_def drop_alias_def rekey_alias_def intro!: filter_True)
  have "distinct (map pa_app_key_hash (map ?f rows))"
    using apps_ok_folded [OF ok k, of "Some b" t] unfolding folded by (simp add: apps_ok_def)
  moreover have "r\<lparr>pa_app_key_hash := k, pa_updated_at := t\<rparr> \<in> set (map ?f rows)"
    using r rk [OF r(1)] by (force intro!: image_eqI [where x = r])
  ultimately show ?thesis unfolding folded
    using find_by_key [of pa_app_key_hash "map ?f rows" "r\<lparr>pa_app_key_hash := k, pa_updated_at := t\<rparr>"]
    by simp
qed

section \<open>A sample\<close>

definition sample_key :: string where
  "sample_key = replicate 64 CHR ''a''"

definition sample_event :: event_row where
  "sample_event = \<lparr>er_event_id = ''e1'', er_stable_id = ''abs_1'', er_label = ''unlogged'',
     er_local_display_label = None, er_local_name_suggestion = None, er_category = ''UNLOGGED'',
     er_taxonomy_version = ''1'', er_tier = ''fallback'', er_status = ''unclassified'',
     er_confidence = ''none'', er_source = ''fallback'', er_occurred_at = 1800000000,
     er_duration_seconds = 600, er_upload_eligible = True, er_app = Some sample_key,
     er_app_scope_eligible = True, er_bundle = None, er_declared_app_category = None,
     er_document_type_ids = None, er_site = None\<rparr>"

definition sample_list :: rules where
  "sample_list = (fresh_rules [] [])\<lparr>rs_events := [sample_event]\<rparr>"

lemma sample_list_fields:
  "rs_events sample_list = [sample_event]" "rs_app sample_list = []" "rs_site_names sample_list = []"
  "rs_prompt_entries sample_list = []" "rs_card_entries sample_list = []" "rs_reminders sample_list = []"
  by (simp_all add: sample_list_def fresh_rules_def)

end
