(* ===== verification/Prompt.thy ===== *)
theory Prompt
  imports Triage Initiation
begin

text \<open>
  The needs-a-category card and its daily reminder (\<^verbatim>\<open>category_prompt/mod.rs\<close> and
  \<^verbatim>\<open>SqliteCategoryPromptRepo\<close> of \<^verbatim>\<open>persistence/sqlite.rs\<close>, tables of migration 0041).

  The ledger is three tables of the store: the entries ever listed, the entries filed under
  the latest two cards (in \<^verbatim>\<open>rowid\<close> order), and one row per local day with a reminder. The gates
  are the ones the invitation reads, over the work-block and focus tables; they are only read
  here, so their state is an argument. Parameters: \<open>fd\<close> prints a local day number and
  \<open>minted\<close> is the card id \<^verbatim>\<open>lower(hex(randomblob(32)))\<close> returns. Instants within days of
  the ends of the clock's range are not modelled.
\<close>

definition CATEGORY_PROMPT_POLICY_VERSION :: nat where
  "CATEGORY_PROMPT_POLICY_VERSION = 1"

definition CATEGORY_PROMPT_LOOKBACK_DAYS :: nat where
  "CATEGORY_PROMPT_LOOKBACK_DAYS = 7"

definition REMINDER_BACKOFF_UNOPENED :: nat where
  "REMINDER_BACKOFF_UNOPENED = 3"

definition REMINDER_BACKOFF_PAUSE_DAYS :: int where
  "REMINDER_BACKOFF_PAUSE_DAYS = 7"

definition CATEGORY_PROMPT_NOTIFICATION_RETENTION_DAYS :: int where
  "CATEGORY_PROMPT_NOTIFICATION_RETENTION_DAYS = 30"

definition REMINDER_BACKOFF_WINDOW_DAYS :: int where
  "REMINDER_BACKOFF_WINDOW_DAYS = CATEGORY_PROMPT_NOTIFICATION_RETENTION_DAYS"

section \<open>The ledger's constraints\<close>

definition hex_char :: "char \<Rightarrow> bool" where
  "hex_char c \<longleftrightarrow> c \<in> set ''0123456789abcdef''"

definition entry_key_check :: "string \<Rightarrow> bool" where
  "entry_key_check k \<longleftrightarrow>
     (take 12 k = ''application:'' \<and> length k = 76 \<or> take 5 k = ''site:'' \<and> length k = 69)
     \<and> list_all hex_char (tl (dropWhile (\<lambda>c. c \<noteq> CHR '':'') k))"

definition card_id_check :: "string \<Rightarrow> bool" where
  "card_id_check i \<longleftrightarrow> length i = 64 \<and> list_all hex_char i"

definition date_check :: "string \<Rightarrow> bool" where
  "date_check d = list_all2 (\<lambda>c allowed. c \<in> set allowed) d
     [''0123456789'', ''0123456789'', ''0123456789'', ''0123456789'', ''-'', ''01'', ''0123456789'',
      ''-'', ''0123'', ''0123456789'']"

definition reminder_check :: "reminder \<Rightarrow> bool" where
  "reminder_check r \<longleftrightarrow> date_check (rm_local_date r) \<and> 1 \<le> rm_entry_count r \<and> rm_entry_count r \<le> 8
     \<and> 1 \<le> rm_policy_version r"

definition prompt_entries_ok :: "prompt_entry list \<Rightarrow> bool" where
  "prompt_entries_ok rows \<longleftrightarrow> list_all (\<lambda>r. entry_key_check (ce_key r)) rows
     \<and> unique_by (\<lambda>r. Some (ce_key r)) rows"

definition cards_ok :: "prompt_entry list \<Rightarrow> card_entry list \<Rightarrow> bool" where
  "cards_ok entries rows \<longleftrightarrow> list_all (\<lambda>r. card_id_check (cc_prompt_id r)) rows
     \<and> unique_by (\<lambda>r. Some (cc_prompt_id r, cc_key r)) rows
     \<and> list_all (\<lambda>r. list_ex (\<lambda>e. ce_key e = cc_key r) entries) rows"

definition reminders_ok :: "reminder list \<Rightarrow> bool" where
  "reminders_ok rows \<longleftrightarrow> list_all reminder_check rows \<and> unique_by (\<lambda>r. Some (rm_local_date r)) rows"

definition write_cards :: "card_entry list \<Rightarrow> unit ru" where
  "write_cards rows s = write_rows (cards_ok (rs_prompt_entries s)) rs_card_entries_update rows s"

section \<open>The ledger\<close>

definition listed_rows :: "string \<Rightarrow> int \<Rightarrow> prompt_entry list \<Rightarrow> prompt_entry list" where
  "listed_rows k t rows =
     upsert_by ce_key (\<lambda>new old. old\<lparr>ce_last_listed_at := ce_last_listed_at new\<rparr>)
       \<lparr>ce_key = k, ce_first_listed_at = t, ce_last_listed_at = t, ce_acknowledged_at = None,
        ce_notified_at = None\<rparr> rows"

definition list_entry :: "string \<Rightarrow> int \<Rightarrow> unit ru" where
  "list_entry k t s = write_rows prompt_entries_ok rs_prompt_entries_update
     (listed_rows k t (rs_prompt_entries s)) s"

fun record_keys :: "string list \<Rightarrow> int \<Rightarrow> prompt_entry list ru" where
  "record_keys [] t = ret []"
| "record_keys (k # ks) t =
     andthen (list_entry k t) (\<lambda>_.
     andthen (gets (\<lambda>s. find (\<lambda>r. ce_key r = k) (rs_prompt_entries s))) (\<lambda>found.
     case found of None \<Rightarrow> err RulesSqlite
     | Some r \<Rightarrow> andthen (record_keys ks t) (\<lambda>rs. ret (r # rs))))"

definition record_listed :: "string list \<Rightarrow> instant \<Rightarrow> prompt_entry list ru" where
  "record_listed keys now = atomically (record_keys keys (timestamp now))"

definition latest_card :: "card_entry list \<Rightarrow> string option" where
  "latest_card rows = (if rows = [] then None else Some (cc_prompt_id (last rows)))"

definition counted_by :: "string option \<Rightarrow> card_entry list \<Rightarrow> string set" where
  "counted_by p rows = cc_key ` set (filter (\<lambda>r. Some (cc_prompt_id r) = p \<and> cc_counted r) rows)"

definition card_row :: "string \<Rightarrow> string \<Rightarrow> bool \<Rightarrow> card_entry" where
  "card_row p k c = \<lparr>cc_prompt_id = p, cc_key = k, cc_counted = c\<rparr>"

fun file_counted :: "string \<Rightarrow> string list \<Rightarrow> unit ru" where
  "file_counted p [] = ret ()"
| "file_counted p (k # ks) =
     andthen (\<lambda>s. write_cards
       (rs_card_entries s @ [card_row p k True]) s)
       (\<lambda>_. file_counted p ks)"

fun file_uncounted :: "string \<Rightarrow> string list \<Rightarrow> unit ru" where
  "file_uncounted p [] = ret ()"
| "file_uncounted p (k # ks) =
     andthen (\<lambda>s. if list_ex (\<lambda>r. cc_prompt_id r = p \<and> cc_key r = k) (rs_card_entries s)
       then (Inr (), s)
       else write_cards (rs_card_entries s @ [card_row p k False]) s)
       (\<lambda>_. file_uncounted p ks)"

definition card_for :: "string \<Rightarrow> string list \<Rightarrow> string list \<Rightarrow> string ru" where
  "card_for minted counted_keys uncounted_keys = atomically (
     andthen (gets (\<lambda>s. latest_card (rs_card_entries s))) (\<lambda>latest.
     andthen (gets (\<lambda>s. counted_by latest (rs_card_entries s))) (\<lambda>latest_counted.
     andthen (if latest \<noteq> None \<and> latest_counted = set counted_keys then ret (the latest)
       else andthen (modify (\<lambda>s. s\<lparr>rs_card_entries :=
                filter (\<lambda>r. Some (cc_prompt_id r) = latest) (rs_card_entries s)\<rparr>)) (\<lambda>_.
            andthen (file_counted minted counted_keys) (\<lambda>_. ret minted))) (\<lambda>prompt_id.
     andthen (file_uncounted prompt_id uncounted_keys) (\<lambda>_. ret prompt_id)))))"

definition latest_reminders :: "reminder list \<Rightarrow> reminder list" where
  "latest_reminders rows = rev (sort_key (\<lambda>r. (rm_posted_at r, rm_local_date r)) rows)"

definition acknowledged :: "string \<Rightarrow> int \<Rightarrow> rules \<Rightarrow> prompt_entry \<Rightarrow> prompt_entry" where
  "acknowledged p t s r =
     (if ce_acknowledged_at r = None
         \<and> list_ex (\<lambda>c. cc_prompt_id c = p \<and> cc_key c = ce_key r) (rs_card_entries s)
      then r\<lparr>ce_acknowledged_at := Some t\<rparr> else r)"

definition open_latest :: "int \<Rightarrow> reminder list \<Rightarrow> reminder list" where
  "open_latest t rows = (case latest_reminders rows of [] \<Rightarrow> rows
     | l # _ \<Rightarrow> map (\<lambda>r. if rm_local_date r = rm_local_date l \<and> rm_opened_at r = None
           \<and> rm_posted_at r \<le> t then r\<lparr>rm_opened_at := Some t\<rparr> else r) rows)"

definition acknowledge_prompt :: "string \<Rightarrow> bool \<Rightarrow> instant \<Rightarrow> nat ru" where
  "acknowledge_prompt p opened now s =
     (let t = timestamp now in
      (Inr (length (filter (\<lambda>r. ce_acknowledged_at r = None
          \<and> list_ex (\<lambda>c. cc_prompt_id c = p \<and> cc_key c = ce_key r) (rs_card_entries s))
          (rs_prompt_entries s))),
       s\<lparr>rs_prompt_entries := map (acknowledged p t s) (rs_prompt_entries s),
         rs_reminders := (if opened then open_latest t (rs_reminders s) else rs_reminders s)\<rparr>))"

definition notified :: "string list \<Rightarrow> int \<Rightarrow> prompt_entry \<Rightarrow> prompt_entry" where
  "notified keys t r = (if ce_key r \<in> set keys \<and> ce_notified_at r = None
     then r\<lparr>ce_notified_at := Some t\<rparr> else r)"

definition claim_notification ::
  "string \<Rightarrow> string list \<Rightarrow> nat \<Rightarrow> nat \<Rightarrow> instant \<Rightarrow> bool ru" where
  "claim_notification d keys n version now = atomically (\<lambda>s.
     if list_ex (\<lambda>r. rm_local_date r = d) (rs_reminders s) then (Inr False, s)
     else andthen (write_rows reminders_ok rs_reminders_update
         (rs_reminders s @ [\<lparr>rm_local_date = d, rm_posted_at = timestamp now, rm_entry_count = n,
            rm_policy_version = version, rm_opened_at = None\<rparr>])) (\<lambda>_.
       andthen (modify (\<lambda>s. s\<lparr>rs_prompt_entries :=
           map (notified keys (timestamp now)) (rs_prompt_entries s)\<rparr>)) (\<lambda>_. ret True)) s)"

definition recent_notifications :: "nat \<Rightarrow> reminder list ru" where
  "recent_notifications n = gets (\<lambda>s. take n (latest_reminders (rs_reminders s)))"

text \<open>An entry's card rows are deleted with it.\<close>

definition delete_expired_entries :: "instant \<Rightarrow> nat \<Rightarrow> nat ru" where
  "delete_expired_entries cutoff limit s =
     (let kept = delete_up_to (sort_key ce_last_listed_at) ce_key
            (\<lambda>r. ce_last_listed_at r < timestamp cutoff) limit (rs_prompt_entries s)
      in (Inr (length (rs_prompt_entries s) - length kept),
          s\<lparr>rs_prompt_entries := kept,
            rs_card_entries := filter (\<lambda>c. list_ex (\<lambda>r. ce_key r = cc_key c) kept)
              (rs_card_entries s)\<rparr>))"

definition delete_expired_notifications :: "instant \<Rightarrow> nat \<Rightarrow> nat ru" where
  "delete_expired_notifications cutoff limit s =
     (let kept = delete_up_to (sort_key rm_posted_at) rm_local_date
            (\<lambda>r. rm_posted_at r < timestamp cutoff) limit (rs_reminders s)
      in (Inr (length (rs_reminders s) - length kept), s\<lparr>rs_reminders := kept\<rparr>))"

section \<open>Copy\<close>

record list_counts =
  lc_sites :: nat
  lc_applications :: nat

record prompt_card =
  pc_title :: string
  pc_body :: string
  pc_primary_action :: string
  pc_secondary_action :: string
  pc_entry_count :: nat

record prompt_notification =
  pn_title :: string
  pn_body :: string

record category_prompt =
  cp_prompt_id :: "string option"
  cp_card :: "prompt_card option"
  cp_notification :: "prompt_notification option"

datatype prompt_response = Opened | NotNow

definition list_total :: "list_counts \<Rightarrow> nat" where
  "list_total c = lc_sites c + lc_applications c"

definition counted_noun :: "nat \<Rightarrow> string \<Rightarrow> string \<Rightarrow> string" where
  "counted_noun n one many =
     (if n = 1 then ''1 '' @ one else nat_str n @ '' '' @ many)"

definition counted_entries :: "list_counts \<Rightarrow> string" where
  "counted_entries c =
     (if lc_sites c = 0 then counted_noun (lc_applications c) ''app'' ''apps''
      else if lc_applications c = 0 then counted_noun (lc_sites c) ''site'' ''sites''
      else counted_noun (lc_sites c) ''site'' ''sites'' @ '' and ''
        @ counted_noun (lc_applications c) ''app'' ''apps'')"

definition needs_sentence :: "list_counts \<Rightarrow> string" where
  "needs_sentence c = counted_entries c @ '' you used this week ''
     @ (if list_total c = 1 then ''doesn't'' else ''don't'') @ '' have a category yet.''"

definition card_copy :: "list_counts \<Rightarrow> prompt_card" where
  "card_copy c =
     (let reach =
        (if lc_sites c = 1 \<and> lc_applications c = 0 then ''every page of that site''
         else if lc_applications c = 0 then ''every page of each site''
         else if lc_sites c = 0 \<and> lc_applications c = 1 then ''every window of that app''
         else if lc_sites c = 0 then ''every window of each app''
         else ''every page of a site and every window of an app'')
      in \<lparr>pc_title = ''Needs a category'',
          pc_body = needs_sentence c @ '' Choose once and it covers '' @ reach @ ''.'',
          pc_primary_action =
            (if list_total c = 1 then ''Choose a category'' else ''Choose categories''),
          pc_secondary_action = ''Not now'', pc_entry_count = list_total c\<rparr>)"

definition notification_copy :: "list_counts \<Rightarrow> prompt_notification" where
  "notification_copy c = \<lparr>pn_title =
       (if lc_sites c = 1 \<and> lc_applications c = 0 then ''A site needs a category''
        else if lc_sites c = 0 \<and> lc_applications c = 1 then ''An app needs a category''
        else if lc_applications c = 0 then ''A few sites need a category''
        else if lc_sites c = 0 then ''A few apps need a category''
        else ''A few things need a category''),
     pn_body = needs_sentence c @ '' Choose once in Velvt.''\<rparr>"

definition no_prompt :: category_prompt where
  "no_prompt = \<lparr>cp_prompt_id = None, cp_card = None, cp_notification = None\<rparr>"

section \<open>The manager\<close>

type_synonym candidate = "triage_kind \<times> string"

fun kind_str :: "triage_kind \<Rightarrow> string" where
  "kind_str Application = ''application''"
| "kind_str Site = ''site''"

definition entry_key :: "candidate \<Rightarrow> string" where
  "entry_key c = kind_str (fst c) @ '':'' @ snd c"

definition candidates :: "instant \<Rightarrow> candidate list ru" where
  "candidates now = andthen (everything_that_needs_a_category CATEGORY_PROMPT_LOOKBACK_DAYS now)
     (\<lambda>entries. ret (map (\<lambda>e. (te_kind e, te_stable_id e)) entries))"

definition counts_of :: "candidate list \<Rightarrow> list_counts" where
  "counts_of cs = (let n = length (filter (\<lambda>c. fst c = Site) cs) in
     \<lparr>lc_sites = n, lc_applications = length cs - n\<rparr>)"

definition reminders_paused :: "reminder list \<Rightarrow> instant \<Rightarrow> bool" where
  "reminders_paused recent now =
     (let horizon = now - days REMINDER_BACKOFF_WINDOW_DAYS;
          run = take REMINDER_BACKOFF_UNOPENED
            (takeWhile (\<lambda>r. horizon \<le> from_timestamp (rm_posted_at r)) recent)
      in case run of [] \<Rightarrow> False
         | newest # _ \<Rightarrow> length run = REMINDER_BACKOFF_UNOPENED
             \<and> list_all (\<lambda>r. rm_opened_at r = None) run
             \<and> now < from_timestamp (rm_posted_at newest) + days REMINDER_BACKOFF_PAUSE_DAYS)"

definition something_new :: "prompt_entry list \<Rightarrow> bool" where
  "something_new es = list_ex (\<lambda>e. ce_notified_at e = None \<and> ce_acknowledged_at e = None) es"

definition reminder_for :: "(int \<Rightarrow> string) \<Rightarrow> initiation \<Rightarrow> instant \<Rightarrow> int option \<Rightarrow> prompt_entry list
  \<Rightarrow> string list \<Rightarrow> list_counts \<Rightarrow> prompt_notification option ru" where
  "reminder_for fd g now utc_offset counted keys counts = (case utc_offset of None \<Rightarrow> ret None
     | Some o' \<Rightarrow>
        let off = clamp_offset o' in
        if something_new counted \<and> \<not> in_velvt_quiet_hours_at (in_focus g) now off
           \<and> \<not> is_focus_active (in_focus g) now
        then andthen (recent_notifications REMINDER_BACKOFF_UNOPENED) (\<lambda>recent.
          if reminders_paused recent now then ret None
          else andthen (claim_notification (format_local_date fd (to_local now off)) keys
                 (list_total counts) CATEGORY_PROMPT_POLICY_VERSION now) (\<lambda>claimed.
            ret (if claimed then Some (notification_copy counts) else None)))
        else ret None)"

definition evaluate :: "(int \<Rightarrow> string) \<Rightarrow> initiation \<Rightarrow> string \<Rightarrow> instant \<Rightarrow> int option
  \<Rightarrow> category_prompt ru" where
  "evaluate fd g minted now utc_offset =
     (if fst (live_block_exists g) = Inr True then ret no_prompt
      else andthen (candidates now) (\<lambda>listed.
        if listed = [] then ret no_prompt
        else let keys = map entry_key listed; shown = min (length listed) TRIAGE_MAX_ENTRIES in
          andthen (record_listed keys now) (\<lambda>entries.
          let counted = take shown entries; counts = counts_of (take shown listed) in
          if list_all (\<lambda>e. ce_acknowledged_at e \<noteq> None) counted then ret no_prompt
          else andthen (card_for minted (take shown keys) (drop shown keys)) (\<lambda>prompt_id.
            andthen (reminder_for fd g now utc_offset counted keys counts) (\<lambda>notification.
            ret \<lparr>cp_prompt_id = Some prompt_id, cp_card = Some (card_copy counts),
                 cp_notification = notification\<rparr>)))))"

definition pending_prompt ::
  "(int \<Rightarrow> string) \<Rightarrow> initiation \<Rightarrow> string \<Rightarrow> instant \<Rightarrow> int \<Rightarrow> category_prompt ru" where
  "pending_prompt fd g minted now utc_offset = evaluate fd g minted now (Some utc_offset)"

definition current_card ::
  "(int \<Rightarrow> string) \<Rightarrow> initiation \<Rightarrow> string \<Rightarrow> instant \<Rightarrow> category_prompt ru" where
  "current_card fd g minted now = evaluate fd g minted now None"

definition acknowledge :: "string \<Rightarrow> prompt_response \<Rightarrow> instant \<Rightarrow> unit ru" where
  "acknowledge p response now =
     andthen (acknowledge_prompt p (response = Opened) now) (\<lambda>_. ret ())"

end
