(* ===== verification/Prompt_Properties.thy ===== *)
theory Prompt_Properties
  imports Rules_Properties Prompt Block_Manager
begin

text \<open>
  What the needs-a-category card promises: the capped list is the head of the uncapped one,
  the ledger keeps its constraints and the rows of two cards at most, an answered card stays
  away, and exactly when a reminder is posted.
\<close>

section \<open>The head of a merged list\<close>

lemma sort_key_smallest_inside:
  assumes "\<And>x. x \<in> set xs \<Longrightarrow> f b < f x" "\<And>y. y \<in> set ys \<Longrightarrow> f b \<le> f y"
  shows "sort_key f (xs @ b # ys) = b # sort_key f (xs @ ys)"
  using assms
proof (induction xs)
  case Nil
  then show ?case by (simp add: insort_is_Cons)
next
  case (Cons x xs)
  then have "\<not> f x \<le> f b" by (simp add: not_le)
  then show ?case using Cons by simp
qed

lemma take_sorted_merge:
  fixes f :: "'a \<Rightarrow> 'b::linorder"
  assumes "sorted (map f xs)" "sorted (map f ys)"
  shows "take n (sort_key f (xs @ ys)) = take n (sort_key f (take n xs @ take n ys))"
  using assms
proof (induction n arbitrary: xs ys)
  case (Suc n)
  have head: "take n (sort_key f (take n as @ take n bs)) =
      take n (sort_key f (take j as @ take l bs))"
    if "sorted (map f as)" "sorted (map f bs)" "n \<le> j" "n \<le> l" for as bs j l
    using Suc.IH [of "take j as" "take l bs"] that
    by (simp add: take_map [symmetric] sorted_wrt_take min_def)
  show ?case
  proof (cases xs)
    case Nil
    then show ?thesis using Suc.prems sorted_wrt_take [of "(\<le>)" "map f ys" "Suc n"]
      by (simp add: sort_key_id_if_sorted take_map)
  next
    case x: (Cons x xs')
    show ?thesis
    proof (cases ys)
      case Nil
      then show ?thesis using Suc.prems sorted_wrt_take [of "(\<le>)" "map f xs" "Suc n"]
        by (simp add: sort_key_id_if_sorted take_map)
    next
      case y: (Cons y ys')
      have below: "z \<in> set (take n xs') \<Longrightarrow> z \<in> set xs'" "z \<in> set (take n ys') \<Longrightarrow> z \<in> set ys'" for z
        by (auto dest: in_set_takeD)
      have xs': "\<And>z. z \<in> set xs' \<Longrightarrow> f x \<le> f z" "sorted (map f xs')"
        and ys': "\<And>z. z \<in> set ys' \<Longrightarrow> f y \<le> f z" "sorted (map f ys')" using Suc.prems x y by auto
      show ?thesis
      proof (cases "f x \<le> f y")
        case True
        have "sort_key f (x # as @ y # bs) = x # sort_key f (as @ y # bs)"
          if sub: "set as \<subseteq> set xs'" "set bs \<subseteq> set ys'" for as bs
        proof -
          have "f x \<le> f z" if "z \<in> set (as @ y # bs)" for z
            using that sub True xs'(1) order_trans [OF True ys'(1)] by auto
          then show ?thesis by (simp add: insort_is_Cons)
        qed
        then show ?thesis using x y below Suc.IH [OF xs'(2) Suc.prems(2)]
            head [OF xs'(2) Suc.prems(2), of n "Suc n"]
          by (simp add: subset_iff)
      next
        case False
        have "sort_key f (x # as @ y # bs) = y # sort_key f (x # as @ bs)"
          if sub: "set as \<subseteq> set xs'" "set bs \<subseteq> set ys'" for as bs
        proof -
          have lt: "f y < f x" using False by simp
          have "f y < f z" if "z \<in> set (x # as)" for z
            using that sub lt less_le_trans [OF lt xs'(1)] by auto
          then show ?thesis using sort_key_smallest_inside [of "x # as" f y bs] ys'(1) sub by auto
        qed
        then show ?thesis using x y below Suc.IH [OF Suc.prems(1) ys'(2)]
            head [OF Suc.prems(1) ys'(2), of "Suc n" n]
          by (simp add: subset_iff)
      qed
    qed
  qed
qed simp

lemma ranked_halves_sorted:
  "sorted (map triage_rank (map entry_of_app (ranked_apps s cutoff least)))"
  "sorted (map triage_rank (map entry_of_site (ranked_sites s cutoff least)))"
proof -
  have "sorted (map (\<lambda>e. (- int (ae_seconds e), ae_app e)) (ranked_apps s cutoff least))"
    unfolding ranked_apps_def Let_def by (rule sorted_sort_key)
  then show "sorted (map triage_rank (map entry_of_app (ranked_apps s cutoff least)))"
    unfolding map_map sorted_map
    by (rule sorted_wrt_mono_rel [rotated]) (auto simp: triage_rank_def entry_of_app_def less_eq_prod_def)
next
  have "sorted (map (\<lambda>e. (- int (se_seconds e), se_site e)) (ranked_sites s cutoff least))"
    unfolding ranked_sites_def Let_def by (rule sorted_sort_key)
  then show "sorted (map triage_rank (map entry_of_site (ranked_sites s cutoff least)))"
    unfolding map_map sorted_map
    by (rule sorted_wrt_mono_rel [rotated]) (auto simp: triage_rank_def entry_of_site_def less_eq_prod_def)
qed

text \<open>
  C34: The list of eight is the head of everything that needs a category: asking each half for
  its first eight and merging loses nothing against merging the two halves whole and keeping
  the first eight.
\<close>

theorem needs_a_category_is_the_top_eight:
  "needs_a_category lookback now s =
     andthen (everything_that_needs_a_category lookback now) (\<lambda>es. ret (take TRIAGE_MAX_ENTRIES es)) s"
proof -
  let ?A = "ranked_apps s (triage_cutoff lookback now) TRIAGE_MIN_SECONDS"
    and ?S = "ranked_sites s (triage_cutoff lookback now) TRIAGE_MIN_SECONDS"
  have "take n (ranked ?A ?S) = take n (ranked (take n ?A) (take n ?S))" for n
    using take_sorted_merge [OF ranked_halves_sorted, of n] by (simp add: ranked_def take_map)
  then show ?thesis
    by (simp add: needs_a_category_def everything_that_needs_a_category_def unclassified_triage_def
        unclassified_site_triage_def every_unclassified_application_def every_unclassified_site_def
        unclassified_applications_def unclassified_sites_def limited_def andthen_def gets_def ret_def
        TRIAGE_MAX_ENTRIES_def)
qed

section \<open>The ledger\<close>

definition ledger_ok :: "rules \<Rightarrow> bool" where
  "ledger_ok s \<longleftrightarrow> prompt_entries_ok (rs_prompt_entries s)
     \<and> cards_ok (rs_prompt_entries s) (rs_card_entries s) \<and> reminders_ok (rs_reminders s)"

definition two_cards :: "rules \<Rightarrow> bool" where
  "two_cards s \<longleftrightarrow> card (cc_prompt_id ` set (rs_card_entries s)) \<le> 2"

lemma cards_ok_more:
  "cards_ok es cs \<Longrightarrow> ce_key ` set es \<subseteq> ce_key ` set es' \<Longrightarrow> cards_ok es' cs"
  unfolding cards_ok_def list_all_iff list_ex_iff
  by (auto, metis (no_types, lifting) image_iff subset_iff)

lemma cards_ok_filter: "cards_ok es cs \<Longrightarrow> cards_ok es (filter p cs)"
  by (auto simp: cards_ok_def list_all_iff distinct_map_filter)

lemma listed_rows_keys: "ce_key ` set (listed_rows k t rows) = insert k (ce_key ` set rows)"
  unfolding listed_rows_def by (induction rows) auto

lemma listed_rows_find:
  "find (\<lambda>r. ce_key r = j) (listed_rows k t rows) = (if j = k
     then Some (case find (\<lambda>r. ce_key r = j) rows of
         None \<Rightarrow> \<lparr>ce_key = k, ce_first_listed_at = t, ce_last_listed_at = t, ce_acknowledged_at = None,
           ce_notified_at = None\<rparr>
       | Some r \<Rightarrow> r\<lparr>ce_last_listed_at := t\<rparr>)
     else find (\<lambda>r. ce_key r = j) rows)"
  unfolding listed_rows_def by (subst upsert_by_find) (auto split: option.splits)

lemma prompt_entries_ok_listed:
  assumes "prompt_entries_ok rows" "entry_key_check k"
  shows "prompt_entries_ok (listed_rows k t rows)"
proof -
  have "list_all (\<lambda>r. entry_key_check (ce_key r)) (listed_rows k t rows)"
    unfolding listed_rows_def by (rule upsert_by_all) (use assms in \<open>auto simp: prompt_entries_ok_def\<close>)
  moreover have "distinct (map ce_key (listed_rows k t rows))"
    unfolding listed_rows_def by (rule upsert_by_distinct) (use assms in \<open>auto simp: prompt_entries_ok_def\<close>)
  ultimately show ?thesis by (simp add: prompt_entries_ok_def)
qed

lemma list_entry_outcome:
  assumes ok: "ledger_ok s" and k: "entry_key_check k"
  shows "list_entry k t s = (Inr (), s\<lparr>rs_prompt_entries := listed_rows k t (rs_prompt_entries s)\<rparr>)"
    and "ledger_ok (s\<lparr>rs_prompt_entries := listed_rows k t (rs_prompt_entries s)\<rparr>)"
proof -
  let ?rows = "listed_rows k t (rs_prompt_entries s)"
  have rows: "prompt_entries_ok ?rows"
    by (rule prompt_entries_ok_listed [OF _ k]) (use ok in \<open>simp add: ledger_ok_def\<close>)
  have "cards_ok ?rows (rs_card_entries s)"
    by (rule cards_ok_more [of "rs_prompt_entries s"]) (use ok in \<open>auto simp: ledger_ok_def listed_rows_keys\<close>)
  then show "ledger_ok (s\<lparr>rs_prompt_entries := ?rows\<rparr>)" using ok rows by (simp add: ledger_ok_def)
  show "list_entry k t s = (Inr (), s\<lparr>rs_prompt_entries := ?rows\<rparr>)"
    using rows by (simp add: list_entry_def write_rows_def)
qed

text \<open>
  Listing keys succeeds when each has the shape the table asks for. Every key then has a row,
  an answer or a reminder recorded before stays recorded, a key not listed keeps its row, and
  the rows returned carry the stamps that were stored.
\<close>

definition stamps :: "rules \<Rightarrow> string \<Rightarrow> int option \<times> int option" where
  "stamps s k = (case find (\<lambda>r. ce_key r = k) (rs_prompt_entries s) of None \<Rightarrow> (None, None)
     | Some r \<Rightarrow> (ce_acknowledged_at r, ce_notified_at r))"

lemma stamps_listed [simp]: "stamps (s\<lparr>rs_prompt_entries := listed_rows k t (rs_prompt_entries s)\<rparr>) = stamps s"
  by (auto simp: stamps_def listed_rows_find fun_eq_iff split: option.splits)

lemma record_keys_outcome:
  assumes "ledger_ok s" "list_all entry_key_check keys"
  shows "\<exists>rows entries. record_keys keys t s = (Inr entries, s\<lparr>rs_prompt_entries := rows\<rparr>)
    \<and> ledger_ok (s\<lparr>rs_prompt_entries := rows\<rparr>) \<and> stamps (s\<lparr>rs_prompt_entries := rows\<rparr>) = stamps s
    \<and> ce_key ` set rows = set keys \<union> ce_key ` set (rs_prompt_entries s)
    \<and> map (\<lambda>e. (ce_key e, ce_acknowledged_at e, ce_notified_at e)) entries =
        map (\<lambda>k. (k, stamps s k)) keys"
  using assms
proof (induction keys arbitrary: s)
  case Nil
  then show ?case by (auto simp: ret_def intro!: exI [of _ "rs_prompt_entries s"])
next
  case (Cons k keys)
  let ?s1 = "s\<lparr>rs_prompt_entries := listed_rows k t (rs_prompt_entries s)\<rparr>"
  have step: "list_entry k t s = (Inr (), ?s1)" and ok1: "ledger_ok ?s1"
    using list_entry_outcome [OF Cons.prems(1), of k t] Cons.prems(2) by simp_all
  obtain r where r: "find (\<lambda>r. ce_key r = k) (rs_prompt_entries ?s1) = Some r"
    "ce_key r = k" "(ce_acknowledged_at r, ce_notified_at r) = stamps s k"
  proof (cases "find (\<lambda>r. ce_key r = k) (rs_prompt_entries s)")
    case None
    then show ?thesis
      by (intro that [of "\<lparr>ce_key = k, ce_first_listed_at = t, ce_last_listed_at = t,
          ce_acknowledged_at = None, ce_notified_at = None\<rparr>"]) (simp_all add: listed_rows_find stamps_def)
  next
    case (Some r0)
    then have "ce_key r0 = k" by (auto simp: find_Some_iff)
    then show ?thesis using Some
      by (intro that [of "r0\<lparr>ce_last_listed_at := t\<rparr>"]) (simp_all add: listed_rows_find stamps_def)
  qed
  obtain rows entries where rec: "record_keys keys t ?s1 = (Inr entries, s\<lparr>rs_prompt_entries := rows\<rparr>)"
    "ledger_ok (s\<lparr>rs_prompt_entries := rows\<rparr>)" "stamps (s\<lparr>rs_prompt_entries := rows\<rparr>) = stamps s"
    "ce_key ` set rows = set keys \<union> ce_key ` set (rs_prompt_entries ?s1)"
    "map (\<lambda>e. (ce_key e, ce_acknowledged_at e, ce_notified_at e)) entries = map (\<lambda>k. (k, stamps s k)) keys"
    using Cons.IH [OF ok1] Cons.prems(2) by auto
  show ?case
    by (rule exI [of _ rows], rule exI [of _ "r # entries"])
      (use step r rec in \<open>auto simp: andthen_def gets_def ret_def listed_rows_keys\<close>)
qed

section \<open>Cards\<close>

lemma card_row_simps [simp]:
  "cc_prompt_id (card_row p k c) = p" "cc_key (card_row p k c) = k" "cc_counted (card_row p k c) = c"
  by (simp_all add: card_row_def)

lemma file_counted_outcome:
  assumes "ledger_ok s" "card_id_check p" "distinct ks" "set ks \<subseteq> ce_key ` set (rs_prompt_entries s)"
    "\<And>c. c \<in> set (rs_card_entries s) \<Longrightarrow> cc_prompt_id c = p \<Longrightarrow> cc_key c \<notin> set ks"
  shows "file_counted p ks s = (Inr (), s\<lparr>rs_card_entries := rs_card_entries s @
      map (\<lambda>k. card_row p k True) ks\<rparr>)
    \<and> ledger_ok (s\<lparr>rs_card_entries := rs_card_entries s @
      map (\<lambda>k. card_row p k True) ks\<rparr>)"
  using assms
proof (induction ks arbitrary: s)
  case (Cons k ks)
  let ?s1 = "s\<lparr>rs_card_entries := rs_card_entries s @ [card_row p k True]\<rparr>"
  have ok: "cards_ok (rs_prompt_entries s) (rs_card_entries ?s1)"
    using Cons.prems by (force simp: ledger_ok_def cards_ok_def list_ex_iff)
  have step: "write_cards (rs_card_entries ?s1) s = (Inr (), ?s1)"
    using ok by (simp add: write_cards_def write_rows_def)
  have ok1: "ledger_ok ?s1" using ok Cons.prems(1) by (simp add: ledger_ok_def)
  have unfiled: "cc_key c \<notin> set ks" if c: "c \<in> set (rs_card_entries ?s1)" "cc_prompt_id c = p" for c
  proof -
    consider "c \<in> set (rs_card_entries s)" | "c = card_row p k True" using c(1) by auto
    then show ?thesis using Cons.prems(3) Cons.prems(5) [OF _ c(2)] by cases auto
  qed
  have ih: "file_counted p ks ?s1 = (Inr (), ?s1\<lparr>rs_card_entries := rs_card_entries ?s1 @
      map (\<lambda>k. card_row p k True) ks\<rparr>)
    \<and> ledger_ok (?s1\<lparr>rs_card_entries := rs_card_entries ?s1 @
      map (\<lambda>k. card_row p k True) ks\<rparr>)"
    by (rule Cons.IH [OF ok1 Cons.prems(2) _ _ unfiled]) (use Cons.prems(3,4) in auto)
  then show ?case using step by (simp add: andthen_def)
qed (simp add: ret_def)

lemma file_uncounted_outcome:
  assumes "ledger_ok s" "card_id_check p" "set ks \<subseteq> ce_key ` set (rs_prompt_entries s)"
  shows "\<exists>added. file_uncounted p ks s = (Inr (), s\<lparr>rs_card_entries := rs_card_entries s @ added\<rparr>)
    \<and> ledger_ok (s\<lparr>rs_card_entries := rs_card_entries s @ added\<rparr>)
    \<and> cc_prompt_id ` set added \<subseteq> {p}
    \<and> set ks \<subseteq> cc_key ` {c \<in> set (rs_card_entries s @ added). cc_prompt_id c = p}"
  using assms
proof (induction ks arbitrary: s)
  case Nil
  then show ?case by (auto simp: ret_def intro!: exI [of _ "[]"])
next
  case (Cons k ks)
  show ?case
  proof (cases "list_ex (\<lambda>r. cc_prompt_id r = p \<and> cc_key r = k) (rs_card_entries s)")
    case True
    obtain added where added: "file_uncounted p ks s = (Inr (), s\<lparr>rs_card_entries := rs_card_entries s @ added\<rparr>)"
      "ledger_ok (s\<lparr>rs_card_entries := rs_card_entries s @ added\<rparr>)" "cc_prompt_id ` set added \<subseteq> {p}"
      "set ks \<subseteq> cc_key ` {c \<in> set (rs_card_entries s @ added). cc_prompt_id c = p}"
      using Cons.IH [OF Cons.prems(1,2)] Cons.prems(3) by auto
    moreover have "k \<in> cc_key ` {c \<in> set (rs_card_entries s @ added). cc_prompt_id c = p}"
      using True by (auto simp: list_ex_iff)
    ultimately show ?thesis using True by (auto simp: andthen_def)
  next
    case False
    let ?c = "card_row p k False"
    let ?s1 = "s\<lparr>rs_card_entries := rs_card_entries s @ [?c]\<rparr>"
    have ok: "cards_ok (rs_prompt_entries s) (rs_card_entries ?s1)"
      using Cons.prems False by (force simp: ledger_ok_def cards_ok_def list_ex_iff)
    have step: "write_cards (rs_card_entries ?s1) s = (Inr (), ?s1)"
      using ok by (simp add: write_cards_def write_rows_def)
    have ok1: "ledger_ok ?s1" using ok Cons.prems(1) by (simp add: ledger_ok_def)
    obtain added where added: "file_uncounted p ks ?s1 =
        (Inr (), s\<lparr>rs_card_entries := rs_card_entries s @ ?c # added\<rparr>)"
      "ledger_ok (s\<lparr>rs_card_entries := rs_card_entries s @ ?c # added\<rparr>)" "cc_prompt_id ` set added \<subseteq> {p}"
      "set ks \<subseteq> cc_key ` {c \<in> set (rs_card_entries s @ ?c # added). cc_prompt_id c = p}"
      using Cons.IH [OF ok1 Cons.prems(2)] Cons.prems(3) by auto
    moreover have "k \<in> cc_key ` {c \<in> set (rs_card_entries s @ ?c # added). cc_prompt_id c = p}"
      by (rule image_eqI [of _ _ ?c]) simp_all
    ultimately show ?thesis using False step
      by (intro exI [of _ "?c # added"]) (simp add: andthen_def)
  qed
qed

lemma card_le_two: "A \<subseteq> {x, y} \<Longrightarrow> card A \<le> 2"
  by (rule order_trans [OF card_mono]) (auto simp: card_insert_if)

definition covers :: "rules \<Rightarrow> string \<Rightarrow> string list \<Rightarrow> bool" where
  "covers s p ks \<longleftrightarrow> set ks \<subseteq> cc_key ` {c \<in> set (rs_card_entries s). cc_prompt_id c = p}"

lemma latest_card_in: "latest_card cs = Some p \<Longrightarrow> p \<in> cc_prompt_id ` set cs"
  by (auto simp: latest_card_def split: if_splits)

text \<open>
  Drawing a card: it covers every listed key, and only the rows of the card before it stay
  beside it.
\<close>

lemma card_for_outcome:
  assumes ok: "ledger_ok s" and two: "two_cards s"
    and minted: "card_id_check minted" "minted \<notin> cc_prompt_id ` set (rs_card_entries s)"
    and keys: "distinct ck" "set ck \<subseteq> ce_key ` set (rs_prompt_entries s)"
      "set uk \<subseteq> ce_key ` set (rs_prompt_entries s)"
  shows "\<exists>p cards. card_for minted ck uk s = (Inr p, s\<lparr>rs_card_entries := cards\<rparr>)
    \<and> ledger_ok (s\<lparr>rs_card_entries := cards\<rparr>) \<and> two_cards (s\<lparr>rs_card_entries := cards\<rparr>)
    \<and> covers (s\<lparr>rs_card_entries := cards\<rparr>) p (ck @ uk)"
proof (cases "latest_card (rs_card_entries s) \<noteq> None
    \<and> counted_by (latest_card (rs_card_entries s)) (rs_card_entries s) = set ck")
  case True
  then obtain p where p: "latest_card (rs_card_entries s) = Some p"
    and ck: "counted_by (Some p) (rs_card_entries s) = set ck" by auto
  have p_in: "p \<in> cc_prompt_id ` set (rs_card_entries s)" by (rule latest_card_in [OF p])
  then have "card_id_check p" using ok by (auto simp: ledger_ok_def cards_ok_def list_all_iff)
  then obtain added where added: "file_uncounted p uk s = (Inr (), s\<lparr>rs_card_entries := rs_card_entries s @ added\<rparr>)"
    "ledger_ok (s\<lparr>rs_card_entries := rs_card_entries s @ added\<rparr>)" "cc_prompt_id ` set added \<subseteq> {p}"
    "set uk \<subseteq> cc_key ` {c \<in> set (rs_card_entries s @ added). cc_prompt_id c = p}"
    using file_uncounted_outcome [OF ok _ keys(3)] by blast
  have "cc_prompt_id ` set (rs_card_entries s @ added) = cc_prompt_id ` set (rs_card_entries s)"
    using p_in added(3) by auto
  then have "two_cards (s\<lparr>rs_card_entries := rs_card_entries s @ added\<rparr>)" using two by (simp add: two_cards_def)
  moreover have "set ck \<subseteq> cc_key ` {c \<in> set (rs_card_entries s @ added). cc_prompt_id c = p}"
    unfolding ck [symmetric] by (auto simp: counted_by_def)
  ultimately show ?thesis using added True p
    by (intro exI [of _ p] exI [of _ "rs_card_entries s @ added"])
      (simp add: card_for_def atomically_def andthen_def gets_def ret_def covers_def)
next
  case False
  let ?kept = "filter (\<lambda>r. Some (cc_prompt_id r) = latest_card (rs_card_entries s)) (rs_card_entries s)"
  let ?s1 = "s\<lparr>rs_card_entries := ?kept\<rparr>"
  let ?s2 = "?s1\<lparr>rs_card_entries := ?kept @ map (\<lambda>k. card_row minted k True) ck\<rparr>"
  have ok1: "ledger_ok ?s1" using ok by (simp add: ledger_ok_def cards_ok_filter)
  have new: "cc_key c \<notin> set ck" if "c \<in> set (rs_card_entries ?s1)" "cc_prompt_id c = minted" for c
    using that minted(2) by auto
  have step: "file_counted minted ck ?s1 = (Inr (), ?s2)" and ok2: "ledger_ok ?s2"
    using file_counted_outcome [OF ok1 minted(1) keys(1) _ new] keys(2) by simp_all
  obtain added where added: "file_uncounted minted uk ?s2 =
      (Inr (), ?s2\<lparr>rs_card_entries := rs_card_entries ?s2 @ added\<rparr>)"
    "ledger_ok (?s2\<lparr>rs_card_entries := rs_card_entries ?s2 @ added\<rparr>)" "cc_prompt_id ` set added \<subseteq> {minted}"
    "set uk \<subseteq> cc_key ` {c \<in> set (rs_card_entries ?s2 @ added). cc_prompt_id c = minted}"
    using file_uncounted_outcome [OF ok2 minted(1), of uk] keys(3) by auto
  have "cc_prompt_id ` set (rs_card_entries ?s2 @ added) \<subseteq> {the (latest_card (rs_card_entries s)), minted}"
    using added(3) by (auto simp: image_iff) (metis option.sel)
  then have "two_cards (?s2\<lparr>rs_card_entries := rs_card_entries ?s2 @ added\<rparr>)"
    by (simp add: two_cards_def card_le_two del: image_subset_iff)
  moreover have "set ck \<subseteq> cc_key ` {c \<in> set (rs_card_entries ?s2 @ added). cc_prompt_id c = minted}"
    by (force simp: image_iff)
  moreover have "card_for minted ck uk s = (Inr minted, ?s2\<lparr>rs_card_entries := rs_card_entries ?s2 @ added\<rparr>)"
    using step added(1) False by (auto simp: card_for_def atomically_def andthen_def gets_def ret_def modify_def)
  ultimately show ?thesis using added(2,4)
    by (intro exI [of _ minted] exI [of _ "rs_card_entries ?s2 @ added"]) (simp add: covers_def)
qed

section \<open>Reminders\<close>

text \<open>When a reminder is handed over, as a condition on the state before.\<close>

definition reminder_due :: "(int \<Rightarrow> string) \<Rightarrow> initiation \<Rightarrow> instant \<Rightarrow> int option \<Rightarrow> string list
  \<Rightarrow> rules \<Rightarrow> bool" where
  "reminder_due fd g now utc_offset shown s \<longleftrightarrow> (case utc_offset of None \<Rightarrow> False
     | Some o' \<Rightarrow> (\<exists>k\<in>set shown. stamps s k = (None, None))
         \<and> \<not> in_velvt_quiet_hours_at (in_focus g) now (clamp_offset o')
         \<and> \<not> is_focus_active (in_focus g) now
         \<and> \<not> reminders_paused (take REMINDER_BACKOFF_UNOPENED (latest_reminders (rs_reminders s))) now
         \<and> format_local_date fd (to_local now (clamp_offset o')) \<notin> rm_local_date ` set (rs_reminders s))"

lemma stamps_notified:
  "fst (stamps (s\<lparr>rs_prompt_entries := map (notified keys t) (rs_prompt_entries s)\<rparr>) k) = fst (stamps s k)"
proof -
  have "ce_key (notified keys t r) = ce_key r" "ce_acknowledged_at (notified keys t r) = ce_acknowledged_at r"
    for r by (simp_all add: notified_def)
  moreover have "find (\<lambda>r. ce_key r = k) (map (notified keys t) rows) =
      map_option (notified keys t) (find (\<lambda>r. ce_key r = k) rows)" for rows
    by (induction rows) (simp_all add: notified_def)
  ultimately show ?thesis by (cases "find (\<lambda>r. ce_key r = k) (rs_prompt_entries s)") (simp_all add: stamps_def)
qed

lemma ledger_ok_notified:
  "ledger_ok s \<Longrightarrow> ledger_ok (s\<lparr>rs_prompt_entries := map (notified keys t) (rs_prompt_entries s)\<rparr>)"
proof -
  have key: "ce_key (notified keys t r) = ce_key r" for r by (simp add: notified_def)
  then show "ledger_ok s \<Longrightarrow> ?thesis"
    by (auto simp: ledger_ok_def prompt_entries_ok_def cards_ok_def list_all_iff list_ex_iff comp_def)
qed

text \<open>Printed dates have the shape the table asks for.\<close>

definition prints_dates :: "(int \<Rightarrow> string) \<Rightarrow> bool" where
  "prints_dates fd \<longleftrightarrow> (\<forall>d. date_check (fd d))"

lemma claim_notification_outcome:
  assumes ok: "ledger_ok s" and d: "date_check d" and n: "1 \<le> n" "n \<le> 8" and v: "1 \<le> v"
  shows "d \<in> rm_local_date ` set (rs_reminders s) \<Longrightarrow> claim_notification d keys n v now s = (Inr False, s)"
    and "d \<notin> rm_local_date ` set (rs_reminders s) \<Longrightarrow> \<exists>s'. claim_notification d keys n v now s = (Inr True, s')
      \<and> ledger_ok s' \<and> rs_card_entries s' = rs_card_entries s
      \<and> (\<forall>k. fst (stamps s' k) = fst (stamps s k)) \<and> d \<in> rm_local_date ` set (rs_reminders s')"
proof -
  assume "d \<in> rm_local_date ` set (rs_reminders s)"
  then show "claim_notification d keys n v now s = (Inr False, s)"
    by (auto simp: claim_notification_def atomically_def list_ex_iff)
next
  assume new: "d \<notin> rm_local_date ` set (rs_reminders s)"
  let ?r = "\<lparr>rm_local_date = d, rm_posted_at = timestamp now, rm_entry_count = n,
            rm_policy_version = v, rm_opened_at = None\<rparr>"
  let ?s1 = "s\<lparr>rs_reminders := rs_reminders s @ [?r]\<rparr>"
  let ?s2 = "?s1\<lparr>rs_prompt_entries := map (notified keys (timestamp now)) (rs_prompt_entries s)\<rparr>"
  have rows: "reminders_ok (rs_reminders s @ [?r])"
    using ok d n v new by (simp add: ledger_ok_def reminders_ok_def reminder_check_def)
  have absent: "\<not> list_ex (\<lambda>r. rm_local_date r = d) (rs_reminders s)" using new by (auto simp: list_ex_iff)
  have "ledger_ok ?s1" using ok rows by (simp add: ledger_ok_def)
  then have "ledger_ok ?s2" using ledger_ok_notified [where s = ?s1] by simp
  moreover have "fst (stamps ?s2 k) = fst (stamps s k)" for k
    using stamps_notified [where s = ?s1 and keys = keys and t = "timestamp now" and k = k] by (simp add: stamps_def)
  moreover have "claim_notification d keys n v now s = (Inr True, ?s2)"
    using rows absent by (simp add: claim_notification_def atomically_def andthen_def write_rows_def
        modify_def ret_def)
  ultimately show "\<exists>s'. claim_notification d keys n v now s = (Inr True, s')
      \<and> ledger_ok s' \<and> rs_card_entries s' = rs_card_entries s
      \<and> (\<forall>k. fst (stamps s' k) = fst (stamps s k)) \<and> d \<in> rm_local_date ` set (rs_reminders s')"
    by (intro exI [of _ ?s2]) simp
qed

text \<open>
  Asking for the reminder never fails and changes no card and no answer. It hands one over
  exactly when one is due, and the local day then has its reminder.
\<close>

lemma reminder_for_outcome:
  assumes ok: "ledger_ok s" and fd: "prints_dates fd" and n: "1 \<le> list_total counts" "list_total counts \<le> 8"
    and counted: "map (\<lambda>e. (ce_acknowledged_at e, ce_notified_at e)) counted = map (stamps s) shown"
  shows "\<exists>r s'. reminder_for fd g now off counted keys counts s = (Inr r, s') \<and> ledger_ok s'
    \<and> rs_card_entries s' = rs_card_entries s \<and> (\<forall>k. fst (stamps s' k) = fst (stamps s k))
    \<and> (r \<noteq> None \<longleftrightarrow> reminder_due fd g now off shown s)
    \<and> (r \<noteq> None \<longrightarrow> format_local_date fd (to_local now (clamp_offset (the off)))
         \<in> rm_local_date ` set (rs_reminders s'))
    \<and> (r = None \<longrightarrow> s' = s)"
proof (cases off)
  case None
  then show ?thesis using ok by (simp add: reminder_for_def ret_def reminder_due_def)
next
  case (Some o')
  let ?d = "format_local_date fd (to_local now (clamp_offset o'))"
  have new: "something_new counted \<longleftrightarrow> (\<exists>k\<in>set shown. stamps s k = (None, None))"
  proof -
    have "something_new counted \<longleftrightarrow> (None, None) \<in> set (map (\<lambda>e. (ce_acknowledged_at e, ce_notified_at e)) counted)"
      by (force simp: something_new_def list_ex_iff)
    then show ?thesis unfolding counted by (force simp: image_iff)
  qed
  have d: "date_check ?d" using fd by (simp add: prints_dates_def format_local_date_def)
  note claim = claim_notification_outcome [OF ok d n, of CATEGORY_PROMPT_POLICY_VERSION keys now]
  show ?thesis
  proof (cases "?d \<in> rm_local_date ` set (rs_reminders s)")
    case True
    then show ?thesis using ok Some claim(1)
      by (simp add: reminder_for_def Let_def andthen_def recent_notifications_def gets_def ret_def
          reminder_due_def CATEGORY_PROMPT_POLICY_VERSION_def)
  next
    case False
    obtain s' where s': "claim_notification ?d keys (list_total counts) CATEGORY_PROMPT_POLICY_VERSION now s =
        (Inr True, s')" "ledger_ok s'" "rs_card_entries s' = rs_card_entries s"
      "\<forall>k. fst (stamps s' k) = fst (stamps s k)" "?d \<in> rm_local_date ` set (rs_reminders s')"
      using claim(2) False by (auto simp: CATEGORY_PROMPT_POLICY_VERSION_def)
    show ?thesis
    proof (cases "reminder_due fd g now off shown s")
      case True
      then show ?thesis using s' Some new
        by (intro exI [of _ "Some (notification_copy counts)"] exI [of _ s'])
          (simp add: reminder_for_def Let_def andthen_def recent_notifications_def gets_def ret_def
            reminder_due_def)
    next
      case due: False
      then have "\<not> (something_new counted \<and> \<not> in_velvt_quiet_hours_at (in_focus g) now (clamp_offset o')
          \<and> \<not> is_focus_active (in_focus g) now
          \<and> \<not> reminders_paused (take REMINDER_BACKOFF_UNOPENED (latest_reminders (rs_reminders s))) now)"
        using False Some new by (simp add: reminder_due_def)
      then show ?thesis using ok Some due
        by (auto simp: reminder_for_def Let_def andthen_def recent_notifications_def gets_def ret_def)
    qed
  qed
qed

section \<open>The keys the card lists\<close>

definition listed_at :: "instant \<Rightarrow> rules \<Rightarrow> candidate list" where
  "listed_at now s = map (\<lambda>e. (te_kind e, te_stable_id e))
     (ranked (ranked_apps s (triage_cutoff CATEGORY_PROMPT_LOOKBACK_DAYS now) TRIAGE_MIN_SECONDS)
       (ranked_sites s (triage_cutoff CATEGORY_PROMPT_LOOKBACK_DAYS now) TRIAGE_MIN_SECONDS))"

lemma candidates_listed: "candidates now s = (Inr (listed_at now s), s)"
  by (simp add: candidates_def everything_that_needs_a_category_def every_unclassified_application_def
      every_unclassified_site_def unclassified_applications_def unclassified_sites_def limited_def
      andthen_def gets_def ret_def listed_at_def)

text \<open>Every stored key is a digest: 64 lowercase hexadecimal characters.\<close>

definition digest :: "string \<Rightarrow> bool" where
  "digest k \<longleftrightarrow> length k = 64 \<and> list_all hex_char k"

definition digests :: "rules \<Rightarrow> bool" where
  "digests s \<longleftrightarrow> (\<forall>r\<in>set (rs_events s). opt_ok digest (er_app r) \<and> opt_ok digest (er_site r))"

lemma entry_key_ok: "digest i \<Longrightarrow> entry_key_check (entry_key (kd, i))"
  by (cases kd) (simp_all add: entry_key_def entry_key_check_def digest_def)

lemma entry_key_inj: "entry_key c = entry_key c' \<longleftrightarrow> c = c'"
  by (cases c; cases c'; cases "fst c"; cases "fst c'") (auto simp: entry_key_def)

lemma distinct_map_sort_key: "distinct (map f (sort_key g xs)) = distinct (map f xs)"
  by (rule mset_eq_imp_distinct_iff) (simp add: mset_map)

lemma distinct_listed:
  assumes "site_names_ok (rs_site_names s)"
  shows "distinct (map entry_key (listed_at now s))"
proof -
  let ?c = "triage_cutoff CATEGORY_PROMPT_LOOKBACK_DAYS now"
  have apps: "distinct (map ae_app (ranked_apps s ?c TRIAGE_MIN_SECONDS))"
    unfolding ranked_apps_def Let_def distinct_map_sort_key
    by (rule distinct_map_filter) (simp add: comp_def app_entry_of_def Let_def)
  have sites: "distinct (map se_site (ranked_sites s ?c TRIAGE_MIN_SECONDS))"
    unfolding ranked_sites_def Let_def distinct_map_sort_key
    by (rule distinct_map_filter)
      (use assms in \<open>auto simp: comp_def site_entry_of_def Let_def site_names_ok_def distinct_map_filter\<close>)
  have "distinct (map (\<lambda>e. (te_kind e, te_stable_id e)) (map entry_of_app (ranked_apps s ?c TRIAGE_MIN_SECONDS)
      @ map entry_of_site (ranked_sites s ?c TRIAGE_MIN_SECONDS)))"
    using apps sites by (auto simp: distinct_map inj_on_def entry_of_app_def entry_of_site_def)
  then have "distinct (listed_at now s)" unfolding listed_at_def ranked_def distinct_map_sort_key .
  then show ?thesis by (simp add: distinct_map inj_on_def entry_key_inj)
qed

lemma listed_digests:
  assumes "digests s" "c \<in> set (listed_at now s)"
  shows "entry_key_check (entry_key c)"
proof -
  let ?c = "triage_cutoff CATEGORY_PROMPT_LOOKBACK_DAYS now"
  consider e where "e \<in> set (ranked_apps s ?c TRIAGE_MIN_SECONDS)" "c = (Application, ae_app e)"
    | e where "e \<in> set (ranked_sites s ?c TRIAGE_MIN_SECONDS)" "c = (Site, se_site e)"
    using assms(2) by (auto simp: listed_at_def ranked_def entry_of_app_def entry_of_site_def)
  then show ?thesis
  proof cases
    case 1
    then obtain r where "r \<in> set (rs_events s)" "er_app r = Some (ae_app e)"
      by (auto simp: ranked_apps_def Let_def app_entry_of_def set_map_filter)
    then show ?thesis using assms(1) 1(2) entry_key_ok by (force simp: digests_def opt_ok_def)
  next
    case 2
    then obtain r where "r \<in> set (rs_events s)" "er_site r = Some (se_site e)"
      by (auto simp: ranked_sites_def Let_def site_entry_of_def list_ex_iff)
    then show ?thesis using assms(1) 2(2) entry_key_ok by (force simp: digests_def opt_ok_def)
  qed
qed

text \<open>Listing and drawing leave what the list is read from.\<close>

lemma listed_at_frame:
  assumes "rs_events s' = rs_events s" "rs_app s' = rs_app s" "rs_site s' = rs_site s"
    "rs_site_names s' = rs_site_names s"
  shows "listed_at now s' = listed_at now s"
proof -
  have "app_observed s' c = app_observed s c" "site_observed s' c = site_observed s c"
    "app_entry_of s' rows = app_entry_of s rows" for c rows
    by (simp_all add: fun_eq_iff assms app_observed_def app_taught_def site_observed_def site_taught_def
        app_entry_of_def latest_name_def)
  then show ?thesis by (simp add: listed_at_def ranked_apps_def ranked_sites_def Let_def assms)
qed

lemma counts_total: "list_total (counts_of cs) = length cs"
  by (simp add: counts_of_def list_total_def Let_def)

section \<open>One evaluation\<close>

text \<open>The keys the card would count: the first eight listed.\<close>

definition shown_keys :: "instant \<Rightarrow> rules \<Rightarrow> string list" where
  "shown_keys now s = take TRIAGE_MAX_ENTRIES (map entry_key (listed_at now s))"

definition all_answered :: "rules \<Rightarrow> string list \<Rightarrow> bool" where
  "all_answered s ks \<longleftrightarrow> (\<forall>k\<in>set ks. fst (stamps s k) \<noteq> None)"

lemma take_shown [simp]: "take (min (length xs) n) xs = take n xs"
  by (simp add: min_def)

lemma stamps_of_entries:
  "map (\<lambda>e. (ce_key e, ce_acknowledged_at e, ce_notified_at e)) es = map (\<lambda>k. (k, stamps s k)) ks \<Longrightarrow>
   map (\<lambda>e. (ce_acknowledged_at e, ce_notified_at e)) es = map (stamps s) ks"
  by (drule arg_cong [where f = "map snd"]) (simp add: comp_def)

lemma answered_entries:
  "map (\<lambda>e. (ce_acknowledged_at e, ce_notified_at e)) es = map (stamps s) ks \<Longrightarrow>
   list_all (\<lambda>e. ce_acknowledged_at e \<noteq> None) es \<longleftrightarrow> all_answered s ks"
proof -
  assume eq: "map (\<lambda>e. (ce_acknowledged_at e, ce_notified_at e)) es = map (stamps s) ks"
  have "list_all (\<lambda>e. ce_acknowledged_at e \<noteq> None) es \<longleftrightarrow>
      (\<forall>p\<in>set (map (\<lambda>e. (ce_acknowledged_at e, ce_notified_at e)) es). fst p \<noteq> None)"
    by (auto simp: list_all_iff)
  then show ?thesis unfolding eq by (simp add: all_answered_def)
qed

text \<open>
  What an evaluation leaves. Its outcome is a value; the ledger keeps its constraints and two
  cards at most; no answer is lost; and the reply has a card exactly when no block is live and
  a key among the first eight is unanswered, a card that covers every listed key.
\<close>

definition prompt_ready :: "(int \<Rightarrow> string) \<Rightarrow> string \<Rightarrow> rules \<Rightarrow> bool" where
  "prompt_ready fd minted s \<longleftrightarrow> ledger_ok s \<and> two_cards s \<and> digests s
     \<and> site_names_ok (rs_site_names s) \<and> prints_dates fd \<and> card_id_check minted
     \<and> minted \<notin> cc_prompt_id ` set (rs_card_entries s)"

lemma evaluate_quiet:
  assumes ready: "prompt_ready fd minted s"
    and quiet: "fst (live_block_exists g) = Inr True \<or> all_answered s (shown_keys now s)"
  shows "\<exists>s'. evaluate fd g minted now off s = (Inr no_prompt, s') \<and> ledger_ok s' \<and> two_cards s'
    \<and> stamps s' = stamps s \<and> rs_card_entries s' = rs_card_entries s \<and> rs_reminders s' = rs_reminders s"
proof (cases "fst (live_block_exists g) = Inr True \<or> listed_at now s = []")
  case True
  then show ?thesis using ready
    by (auto simp: evaluate_def ret_def andthen_def candidates_listed prompt_ready_def)
next
  case False
  let ?keys = "map entry_key (listed_at now s)"
  have ok: "ledger_ok s" "two_cards s" using ready by (simp_all add: prompt_ready_def)
  have checks: "list_all entry_key_check ?keys"
    using listed_digests ready by (auto simp: list_all_iff prompt_ready_def)
  obtain rows entries where rec: "record_keys ?keys (timestamp now) s = (Inr entries, s\<lparr>rs_prompt_entries := rows\<rparr>)"
    "ledger_ok (s\<lparr>rs_prompt_entries := rows\<rparr>)" "stamps (s\<lparr>rs_prompt_entries := rows\<rparr>) = stamps s"
    and stamped: "map (\<lambda>e. (ce_key e, ce_acknowledged_at e, ce_notified_at e)) entries =
      map (\<lambda>k. (k, stamps s k)) ?keys"
    using record_keys_outcome [OF ok(1) checks] by blast
  have "map (\<lambda>e. (ce_acknowledged_at e, ce_notified_at e))
      (take (min (length (listed_at now s)) TRIAGE_MAX_ENTRIES) entries) = map (stamps s) (shown_keys now s)"
    using arg_cong [OF stamps_of_entries [OF stamped],
        of "take (min (length (listed_at now s)) TRIAGE_MAX_ENTRIES)"]
    by (simp add: shown_keys_def take_map)
  then have "list_all (\<lambda>e. ce_acknowledged_at e \<noteq> None)
      (take (min (length (listed_at now s)) TRIAGE_MAX_ENTRIES) entries)"
    using answered_entries quiet False by blast
  then show ?thesis using False rec ok
    by (intro exI [of _ "s\<lparr>rs_prompt_entries := rows\<rparr>"])
      (simp add: evaluate_def ret_def andthen_def candidates_listed Let_def record_listed_def
        atomically_def two_cards_def)
qed

lemma covered_keys_have_entries:
  assumes "ledger_ok s" "covers s p ks" "k \<in> set ks"
  shows "k \<in> ce_key ` set (rs_prompt_entries s)"
proof -
  obtain c where "c \<in> set (rs_card_entries s)" "cc_key c = k" using assms(2,3) by (auto simp: covers_def)
  then show ?thesis using assms(1)
    by (simp add: ledger_ok_def cards_ok_def list_all_iff list_ex_iff) (metis image_eqI)
qed

lemma evaluate_card:
  assumes ready: "prompt_ready fd minted s" and idle: "fst (live_block_exists g) \<noteq> Inr True"
    and open_entry: "\<not> all_answered s (shown_keys now s)"
  shows "\<exists>s' p r. evaluate fd g minted now off s = (Inr \<lparr>cp_prompt_id = Some p,
        cp_card = Some (card_copy (counts_of (take TRIAGE_MAX_ENTRIES (listed_at now s)))),
        cp_notification = r\<rparr>, s')
    \<and> ledger_ok s' \<and> two_cards s' \<and> (\<forall>k. fst (stamps s' k) = fst (stamps s k))
    \<and> covers s' p (map entry_key (listed_at now s))
    \<and> (r \<noteq> None \<longleftrightarrow> reminder_due fd g now off (shown_keys now s) s)
    \<and> (r \<noteq> None \<longrightarrow> format_local_date fd (to_local now (clamp_offset (the off)))
         \<in> rm_local_date ` set (rs_reminders s'))"
proof -
  let ?keys = "map entry_key (listed_at now s)" and ?n = "min (length (listed_at now s)) TRIAGE_MAX_ENTRIES"
  let ?counts = "counts_of (take ?n (listed_at now s))"
  have some: "listed_at now s \<noteq> []" using open_entry by (auto simp: shown_keys_def all_answered_def)
  have ok: "ledger_ok s" "two_cards s" "prints_dates fd" and minted: "card_id_check minted"
    "minted \<notin> cc_prompt_id ` set (rs_card_entries s)" using ready by (simp_all add: prompt_ready_def)
  have checks: "list_all entry_key_check ?keys"
    using listed_digests ready by (auto simp: list_all_iff prompt_ready_def)
  obtain rows entries where rec: "record_keys ?keys (timestamp now) s = (Inr entries, s\<lparr>rs_prompt_entries := rows\<rparr>)"
    and ok1: "ledger_ok (s\<lparr>rs_prompt_entries := rows\<rparr>)" and st1: "stamps (s\<lparr>rs_prompt_entries := rows\<rparr>) = stamps s"
    and filed: "ce_key ` set rows = set ?keys \<union> ce_key ` set (rs_prompt_entries s)"
    and stamped: "map (\<lambda>e. (ce_key e, ce_acknowledged_at e, ce_notified_at e)) entries =
      map (\<lambda>k. (k, stamps s k)) ?keys"
    using record_keys_outcome [OF ok(1) checks] by blast
  have counted: "map (\<lambda>e. (ce_acknowledged_at e, ce_notified_at e)) (take ?n entries) =
      map (stamps s) (shown_keys now s)"
    using arg_cong [OF stamps_of_entries [OF stamped], of "take ?n"] by (simp add: shown_keys_def take_map)
  have unanswered: "\<not> list_all (\<lambda>e. ce_acknowledged_at e \<noteq> None) (take ?n entries)"
    using answered_entries [OF counted] open_entry by blast
  let ?s1 = "s\<lparr>rs_prompt_entries := rows\<rparr>"
  have keys: "distinct (take ?n ?keys)" "set (take ?n ?keys) \<subseteq> ce_key ` set (rs_prompt_entries ?s1)"
    "set (drop ?n ?keys) \<subseteq> ce_key ` set (rs_prompt_entries ?s1)"
    using distinct_listed [of s now] ready filed set_take_subset [of ?n ?keys] set_drop_subset [of ?n ?keys]
    by (auto simp: prompt_ready_def simp del: take_shown)
  have "two_cards ?s1" "minted \<notin> cc_prompt_id ` set (rs_card_entries ?s1)"
    using ok(2) minted(2) by (simp_all add: two_cards_def)
  then obtain p cards where card: "card_for minted (take ?n ?keys) (drop ?n ?keys) ?s1 =
      (Inr p, ?s1\<lparr>rs_card_entries := cards\<rparr>)"
    and ok2: "ledger_ok (?s1\<lparr>rs_card_entries := cards\<rparr>)" "two_cards (?s1\<lparr>rs_card_entries := cards\<rparr>)"
      "covers (?s1\<lparr>rs_card_entries := cards\<rparr>) p ?keys"
    using card_for_outcome [OF ok1 _ minted(1) _ keys] by (auto simp: append_take_drop_id)
  let ?s2 = "?s1\<lparr>rs_card_entries := cards\<rparr>"
  have st2: "stamps ?s2 = stamps s" using st1 by (simp add: stamps_def fun_eq_iff)
  have total: "1 \<le> list_total ?counts" "list_total ?counts \<le> 8"
    using some by (cases "listed_at now s"; simp add: counts_total TRIAGE_MAX_ENTRIES_def)+
  obtain r s' where rem: "reminder_for fd g now off (take ?n entries) ?keys ?counts ?s2 = (Inr r, s')"
    "ledger_ok s'" "rs_card_entries s' = rs_card_entries ?s2" "\<forall>k. fst (stamps s' k) = fst (stamps s k)"
    "r \<noteq> None \<longleftrightarrow> reminder_due fd g now off (shown_keys now s) ?s2"
    "r \<noteq> None \<longrightarrow> format_local_date fd (to_local now (clamp_offset (the off))) \<in> rm_local_date ` set (rs_reminders s')"
    using reminder_for_outcome [OF ok2(1) ok(3) total, of "take ?n entries" "shown_keys now s" g now off ?keys]
    unfolding st2 using counted by blast
  have due: "reminder_due fd g now off (shown_keys now s) ?s2 = reminder_due fd g now off (shown_keys now s) s"
    unfolding reminder_due_def st2 by (simp split: option.splits)
  have "evaluate fd g minted now off s = (Inr \<lparr>cp_prompt_id = Some p,
        cp_card = Some (card_copy ?counts), cp_notification = r\<rparr>, s')"
    using idle some rec card rem(1) unanswered
    by (simp add: evaluate_def ret_def andthen_def candidates_listed Let_def record_listed_def
        atomically_def del: take_shown)
  moreover have "two_cards s'" "covers s' p ?keys" using ok2(2,3) rem(3) by (simp_all add: two_cards_def covers_def)
  ultimately show ?thesis using rem(2,4,5,6) due unfolding take_shown by blast
qed

section \<open>Answers\<close>

lemma stamps_acknowledged:
  assumes "covers s p ks" "k \<in> set ks" "k \<in> ce_key ` set (rs_prompt_entries s)"
  shows "fst (stamps (snd (acknowledge_prompt p opened now s)) k) \<noteq> None"
proof -
  obtain c where c: "c \<in> set (rs_card_entries s)" "cc_prompt_id c = p" "cc_key c = k"
    using assms(1,2) by (auto simp: covers_def)
  have "find (\<lambda>r. ce_key r = k) (map (acknowledged p t s) rows) =
      map_option (acknowledged p t s) (find (\<lambda>r. ce_key r = k) rows)" for rows t
    by (induction rows) (simp_all add: acknowledged_def)
  moreover obtain r where r: "find (\<lambda>r. ce_key r = k) (rs_prompt_entries s) = Some r"
    using assms(3) by (cases "find (\<lambda>r. ce_key r = k) (rs_prompt_entries s)") (auto simp: find_None_iff)
  moreover have "ce_key r = k" using r by (auto simp: find_Some_iff)
  then have "ce_acknowledged_at (acknowledged p t s r) \<noteq> None" for t
    using c by (auto simp: acknowledged_def list_ex_iff)
  ultimately show ?thesis by (simp add: acknowledge_prompt_def Let_def stamps_def)
qed

lemma find_map_same:
  "(\<And>r. ce_key (f r) = ce_key r) \<Longrightarrow>
   find (\<lambda>r. ce_key r = k) (map f rows) = map_option f (find (\<lambda>r. ce_key r = k) rows)"
  by (induction rows) simp_all

definition answered_key :: "string \<Rightarrow> rules \<Rightarrow> bool" where
  "answered_key k s \<longleftrightarrow> fst (stamps s k) \<noteq> None"

lemma answered_key_map:
  assumes "\<And>r. ce_key (f r) = ce_key r" "\<And>r. ce_acknowledged_at r \<noteq> None \<Longrightarrow> ce_acknowledged_at (f r) \<noteq> None"
    and "answered_key k s"
  shows "answered_key k (s\<lparr>rs_prompt_entries := map f (rs_prompt_entries s)\<rparr>)"
  using assms(2,3) find_map_same [of f, OF assms(1)]
  by (auto simp: answered_key_def stamps_def split: option.splits)

lemma answered_key_frame:
  "rs_prompt_entries s' = rs_prompt_entries s \<Longrightarrow> answered_key k s' = answered_key k s"
  by (simp add: answered_key_def stamps_def)

lemma answered_list_entry: "obeys (keeping (answered_key k)) (list_entry k' t)"
  by (auto simp: obeys_def keeping_def list_entry_def write_rows_def answered_key_def)

lemma answered_record_listed: "obeys (keeping (answered_key k)) (record_listed keys now)"
proof -
  have "obeys (keeping (answered_key k)) (record_keys ks t)" for ks t
    by (induction ks) (auto intro!: keeping.rules answered_list_entry)
  then show ?thesis unfolding record_listed_def by (rule obeys_atomically)
qed

lemma answered_write_cards: "obeys (keeping (answered_key k)) (\<lambda>s. write_cards (f s) s)"
  by (auto simp: obeys_def keeping_def write_cards_def write_rows_def answered_key_def stamps_def)

lemma answered_write_if:
  "obeys (keeping (answered_key k)) (\<lambda>s. if P s then (Inr (), s) else write_cards (f s) s)"
  using answered_write_cards [of k f] by (auto simp: obeys_def keeping_def)

lemma answered_card_for: "obeys (keeping (answered_key k)) (card_for minted ks us)"
proof -
  have counted: "obeys (keeping (answered_key k)) (file_counted p ks)" for p ks
    by (induction ks) (auto intro!: keeping.rules answered_write_cards)
  have uncounted: "obeys (keeping (answered_key k)) (file_uncounted p ks)" for p ks
    by (induction ks) (auto intro!: keeping.rules answered_write_if)
  show ?thesis unfolding card_for_def
    by (intro obeys_atomically keeping.rules counted uncounted)
      (simp add: keeping_def answered_key_def stamps_def)
qed

lemma answered_claim: "obeys (keeping (answered_key k)) (claim_notification d ks n v now)"
proof -
  have "answered_key k (s\<lparr>rs_prompt_entries := map (notified ks t) (rs_prompt_entries s)\<rparr>)"
    if "answered_key k s" for s t
    using that by (rule answered_key_map [rotated 2]) (simp_all add: notified_def)
  then have mark: "obeys (keeping (answered_key k)) (modify (\<lambda>s. s\<lparr>rs_prompt_entries :=
      map (notified ks t) (rs_prompt_entries s)\<rparr>))" for t
    by (intro keeping.modify) (simp add: keeping_def)
  have claim: "obeys (keeping (answered_key k)) (\<lambda>s. write_rows reminders_ok rs_reminders_update (f s) s)" for f
    by (auto simp: obeys_def keeping_def write_rows_def answered_key_def stamps_def)
  have "obeys (keeping (answered_key k)) (\<lambda>s. andthen (write_rows reminders_ok rs_reminders_update (f s)) m s)"
    if "\<And>a. obeys (keeping (answered_key k)) (m a)" for f and m :: "unit \<Rightarrow> bool ru"
    using keeping.andthen [OF claim [of f] that] by (simp add: andthen_def)
  note step = this [OF keeping.andthen [OF mark keeping.ret]]
  have "obeys (keeping (answered_key k)) (\<lambda>s. if P s then (Inr False, s) else m s)"
    if "obeys (keeping (answered_key k)) m" for P and m :: "bool ru"
    using that by (simp add: obeys_def keeping_def)
  note guarded = this [OF step]
  show ?thesis unfolding claim_notification_def by (intro obeys_atomically guarded)
qed

lemma answered_evaluate: "obeys (keeping (answered_key k)) (evaluate fd g minted now off)"
proof -
  have "obeys (keeping (answered_key k)) (candidates now)"
    by (simp add: obeys_def keeping_def candidates_listed)
  moreover have "obeys (keeping (answered_key k)) (reminder_for fd g now off es ks c)" for es ks c
    unfolding reminder_for_def recent_notifications_def Let_def by (intro keeping.rules answered_claim)
  ultimately show ?thesis
    unfolding evaluate_def Let_def
    by (intro keeping.rules answered_record_listed answered_card_for)
qed

lemma answered_acknowledge: "obeys (keeping (answered_key k)) (acknowledge p response now)"
proof -
  have "answered_key k (s\<lparr>rs_prompt_entries := map (acknowledged p t s) (rs_prompt_entries s)\<rparr>)"
    if "answered_key k s" for s t
    using that by (rule answered_key_map [rotated 2]) (simp_all add: acknowledged_def)
  then show ?thesis
    by (auto simp: obeys_def keeping_def acknowledge_def acknowledge_prompt_def andthen_def ret_def Let_def
        answered_key_def stamps_def)
qed

text \<open>Retention touches no entry it keeps.\<close>

lemma find_filter_kept:
  "(\<And>r. r \<in> set rows \<Longrightarrow> ce_key r = k \<Longrightarrow> P r) \<Longrightarrow>
   find (\<lambda>r. ce_key r = k) (filter P rows) = find (\<lambda>r. ce_key r = k) rows"
  by (induction rows) auto

text \<open>
  Everything that may happen to the ledger: evaluations, answers, both retention sweeps, and
  steps of other components, which never write the entries. The set collects the keys whose entries
  a sweep deleted.
\<close>

inductive ledger_run :: "rules \<Rightarrow> string set \<Rightarrow> rules \<Rightarrow> bool" for s where
  started: "ledger_run s {} s"
| evaluated: "ledger_run s X s' \<Longrightarrow> ledger_run s X (snd (evaluate fd g minted now off s'))"
| answered: "ledger_run s X s' \<Longrightarrow> ledger_run s X (snd (acknowledge p response now s'))"
| swept_reminders: "ledger_run s X s' \<Longrightarrow> ledger_run s X (snd (delete_expired_notifications cutoff limit s'))"
| swept_entries: "ledger_run s X s' \<Longrightarrow> s'' = snd (delete_expired_entries cutoff limit s') \<Longrightarrow>
    ledger_run s (X \<union> (ce_key ` set (rs_prompt_entries s') - ce_key ` set (rs_prompt_entries s''))) s''"
| elsewhere: "ledger_run s X s' \<Longrightarrow> rs_prompt_entries s'' = rs_prompt_entries s' \<Longrightarrow> ledger_run s X s''"

lemma answered_sweep:
  assumes "answered_key k s'" "s'' = snd (delete_expired_entries cutoff limit s')"
    and "k \<in> ce_key ` set (rs_prompt_entries s'')"
  shows "answered_key k s''"
proof -
  let ?P = "\<lambda>r. ce_key r = k"
  obtain D where kept: "rs_prompt_entries s'' = filter (\<lambda>r. ce_key r \<notin> D) (rs_prompt_entries s')"
    using assms(2) by (simp add: delete_expired_entries_def delete_up_to_def Let_def)
  then have "k \<notin> D" using assms(3) by auto
  then have "find ?P (rs_prompt_entries s'') = find ?P (rs_prompt_entries s')"
    unfolding kept by (intro find_filter_kept) simp
  then show ?thesis using assms(1) by (simp add: answered_key_def stamps_def)
qed

lemma answered_stays:
  assumes "ledger_run s X s'" "answered_key k s" "k \<notin> X"
  shows "answered_key k s'"
  using assms
proof (induction rule: ledger_run.induct)
  case (evaluated X s')
  then show ?case using obeysD [OF answered_evaluate] by (simp add: keeping_def)
next
  case (answered X s')
  then show ?case using obeysD [OF answered_acknowledge] by (simp add: keeping_def)
next
  case (swept_reminders X s' cutoff limit)
  then show ?case by (simp add: delete_expired_notifications_def Let_def answered_key_def stamps_def)
next
  case (swept_entries X s' s'' cutoff limit)
  then have "answered_key k s'" by simp
  moreover from this have "k \<in> ce_key ` set (rs_prompt_entries s')"
    by (auto simp: answered_key_def stamps_def find_Some_iff split: option.splits)
  ultimately show ?case using answered_sweep [of k s' s''] swept_entries by auto
next
  case (elsewhere X s' s'')
  then show ?case using answered_key_frame [OF elsewhere.hyps(2)] by blast
qed

text \<open>
  C32: An answered card stays away. Take a reply of the needs-a-category policy that carries a
  card and answer it either way while its rows are still on file. Then let anything happen:
  further evaluations, drawn cards, reminders, answers and retention sweeps, and whatever other
  components do. As long as every entry then listed first was on the list when the card was drawn
  and its entry has not been deleted by retention since, an evaluation replies with no card and no
  reminder; an entry that only moves up into the first eight does not bring the card back.
\<close>

theorem answered_card_stays_away:
  assumes drawn: "pending_prompt fd g minted now off s = (Inr pr, s1)" "cp_prompt_id pr = Some p"
    and ready: "prompt_ready fd minted s"
    and on_file: "set (rs_card_entries s1) \<subseteq> set (rs_card_entries s2)" "ledger_ok s2"
    and answered: "acknowledge p response now1 s2 = (Inr (), s3)"
    and later: "ledger_run s3 swept s4" "prompt_ready fd minted2 s4"
    and known: "set (shown_keys now2 s4) \<subseteq> set (map entry_key (listed_at now s)) - swept"
  shows "fst (evaluate fd g2 minted2 now2 off2 s4) = Inr no_prompt"
proof -
  have "\<not> (fst (live_block_exists g) = Inr True \<or> all_answered s (shown_keys now s))"
    using evaluate_quiet [OF ready, of g now "Some off"] drawn
    by (auto simp: pending_prompt_def no_prompt_def)
  then obtain s' p' r where ev: "evaluate fd g minted now (Some off) s = (Inr \<lparr>cp_prompt_id = Some p',
        cp_card = Some (card_copy (counts_of (take TRIAGE_MAX_ENTRIES (listed_at now s)))),
        cp_notification = r\<rparr>, s')" "ledger_ok s'" "covers s' p' (map entry_key (listed_at now s))"
    using evaluate_card [OF ready, of g now "Some off"] by auto
  have "covers s1 p (map entry_key (listed_at now s))"
    using ev drawn by (auto simp: pending_prompt_def)
  then have s2: "covers s2 p (map entry_key (listed_at now s))"
    using on_file(1) unfolding covers_def by blast
  have s3: "s3 = snd (acknowledge_prompt p (response = Opened) now1 s2)"
    using answered by (simp add: acknowledge_def andthen_def acknowledge_prompt_def Let_def ret_def)
  have "all_answered s4 (shown_keys now2 s4)"
    unfolding all_answered_def
  proof
    fix k assume "k \<in> set (shown_keys now2 s4)"
    then have k: "k \<in> set (map entry_key (listed_at now s))" "k \<notin> swept" using known by blast+
    have "answered_key k s3"
      unfolding answered_key_def s3
      by (rule stamps_acknowledged [OF s2 k(1) covered_keys_have_entries [OF on_file(2) s2 k(1)]])
    then show "fst (stamps s4 k) \<noteq> None"
      using answered_stays [OF later(1) _ k(2)] by (simp add: answered_key_def)
  qed
  then show ?thesis using evaluate_quiet [OF later(2), of g2 now2 off2] by auto
qed

lemma evaluate_succeeds:
  assumes ready: "prompt_ready fd minted s"
  shows "\<exists>pr s'. evaluate fd g minted now off s = (Inr pr, s') \<and> ledger_ok s'"
  using evaluate_quiet [OF ready, of g now off] evaluate_card [OF ready, of g now off] by blast

text \<open>
  C33: When a reminder is handed over. From a ledger within its constraints an evaluation always
  succeeds, and it hands over a reminder exactly when a reminder was asked for, no block is
  live, an entry among the first eight has neither been answered nor announced, it is not
  Velvt's quiet hours at the client's offset, macOS Focus is not known to be on, the backoff is
  not pausing reminders, and the local day has had none. The day then has one, so the next
  evaluation of that day hands over nothing.
\<close>

theorem reminder_rule:
  assumes ready: "prompt_ready fd minted s"
  shows "\<exists>pr s'. evaluate fd g minted now off s = (Inr pr, s') \<and> ledger_ok s' \<and> two_cards s'
    \<and> (cp_notification pr \<noteq> None \<longleftrightarrow>
         fst (live_block_exists g) \<noteq> Inr True \<and> reminder_due fd g now off (shown_keys now s) s)
    \<and> (cp_notification pr \<noteq> None \<longrightarrow>
         format_local_date fd (to_local now (clamp_offset (the off))) \<in> rm_local_date ` set (rs_reminders s'))"
proof (cases "fst (live_block_exists g) = Inr True \<or> all_answered s (shown_keys now s)")
  case True
  have "\<not> reminder_due fd g now off (shown_keys now s) s" if "all_answered s (shown_keys now s)"
    using that by (auto simp: reminder_due_def all_answered_def split: option.splits)
  then show ?thesis using evaluate_quiet [OF ready True, of off] True by (auto simp: no_prompt_def)
next
  case False
  then show ?thesis using evaluate_card [OF ready, of g now off] by fastforce
qed

section \<open>A sample\<close>

definition sample_now :: instant where
  "sample_now = from_timestamp 1800000600"

definition idle_gates :: initiation where
  "idle_gates = \<lparr>in_invitations = [], in_settings = None, in_blocks = empty_store, in_focus = empty_focus\<rparr>"

definition sample_card_id :: "string" where
  "sample_card_id = replicate 64 CHR ''c''"

lemma idle_is_idle: "fst (live_block_exists idle_gates) = Inr False"
  by (simp add: live_block_exists_def gets_def idle_gates_def empty_store_def latest_def)

lemma sample_cutoff: "triage_cutoff 7 sample_now = 1799395800"
  by (simp add: triage_cutoff_def sample_now_def timestamp_def from_timestamp_def seconds_def
      TRIAGE_MAX_LOOKBACK_DAYS_def NANOS_def)

lemma sample_entry:
  "ae_seconds (app_entry_of sample_list [sample_event] sample_key) = 600"
  "ae_app (app_entry_of sample_list [sample_event] sample_key) = sample_key"
  "ae_bundle (app_entry_of sample_list [sample_event] sample_key) = None"
  by (simp_all add: app_entry_of_def Let_def max_key_def sample_event_def)

lemma sample_apps: "ranked_apps sample_list 1799395800 TRIAGE_MIN_SECONDS =
  [app_entry_of sample_list [sample_event] sample_key]"
proof -
  have "er_app sample_event = Some sample_key" "app_observed sample_list 1799395800 sample_event"
    by (simp_all add: app_observed_def sample_list_fields unlogged_def app_taught_def sample_event_def)
  then show ?thesis
    using sample_entry(1) by (simp add: ranked_apps_def sample_list_fields TRIAGE_MIN_SECONDS_def)
qed

lemma sample_listed: "listed_at sample_now sample_list = [(Application, sample_key)]"
proof -
  have "ranked_sites sample_list 1799395800 TRIAGE_MIN_SECONDS = []"
    by (simp add: ranked_sites_def sample_list_fields)
  then show ?thesis
    by (simp add: listed_at_def CATEGORY_PROMPT_LOOKBACK_DAYS_def sample_cutoff sample_apps sample_entry
        ranked_def entry_of_app_def)
qed

lemma sample_ready: "prompt_ready (\<lambda>_. ''2027-01-15'') sample_card_id sample_list"
proof -
  have "digest sample_key" by (simp add: digest_def sample_key_def list_all_iff hex_char_def)
  then have "digests sample_list" by (simp add: digests_def sample_list_fields sample_event_def opt_ok_def)
  moreover have "card_id_check sample_card_id"
    by (simp add: card_id_check_def sample_card_id_def list_all_iff hex_char_def)
  moreover have "prints_dates (\<lambda>_. ''2027-01-15'')" by (simp add: prints_dates_def date_check_def)
  ultimately show ?thesis
    by (simp add: prompt_ready_def sample_list_fields ledger_ok_def prompt_entries_ok_def cards_ok_def
        reminders_ok_def two_cards_def site_names_ok_def)
qed

lemma sample_unanswered: "stamps sample_list k = (None, None)"
  by (simp add: stamps_def sample_list_fields)

lemma sample_due: "reminder_due (\<lambda>_. ''2027-01-15'') idle_gates sample_now (Some 0)
  (shown_keys sample_now sample_list) sample_list"
proof -
  have "\<not> in_velvt_quiet_hours_at (in_focus idle_gates) sample_now (clamp_offset 0)"
    "\<not> is_focus_active (in_focus idle_gates) sample_now"
    by (simp_all add: idle_gates_def in_velvt_quiet_hours_at_def quiet_hours_remaining_minutes_at_def
        is_focus_active_def empty_focus_def focus_state_at_bucket_def latest_row_def op_simps gets_def)
  then show ?thesis
    by (simp add: reminder_due_def sample_unanswered shown_keys_def sample_listed TRIAGE_MAX_ENTRIES_def
        sample_list_fields latest_reminders_def reminders_paused_def)
qed

lemma sample_open: "\<not> all_answered sample_list (shown_keys sample_now sample_list)"
  by (simp add: all_answered_def shown_keys_def sample_listed sample_unanswered TRIAGE_MAX_ENTRIES_def)

lemma prompt_entries_ok_acknowledged:
  assumes "prompt_entries_ok rows"
  shows "prompt_entries_ok (map (acknowledged p t s) rows)"
proof -
  have "ce_key (acknowledged p t s r) = ce_key r" for r by (simp add: acknowledged_def)
  then show ?thesis using assms by (simp add: prompt_entries_ok_def list_all_iff unique_by_def comp_def)
qed

theorem reminder_rule_witness:
  "\<exists>pr s'. evaluate (\<lambda>_. ''2027-01-15'') idle_gates sample_card_id sample_now (Some 0) sample_list = (Inr pr, s')
    \<and> ledger_ok s' \<and> cp_notification pr \<noteq> None
    \<and> format_local_date (\<lambda>_. ''2027-01-15'') (to_local sample_now (clamp_offset 0)) \<in> rm_local_date ` set (rs_reminders s')"
  using reminder_rule [OF sample_ready, of idle_gates sample_now "Some 0"] sample_due idle_is_idle by auto

theorem answered_card_stays_away_witness:
  "\<exists>pr p s1 s2 s4. pending_prompt (\<lambda>_. ''2027-01-15'') idle_gates sample_card_id sample_now 0 sample_list = (Inr pr, s1)
    \<and> cp_prompt_id pr = Some p \<and> acknowledge p NotNow sample_now s1 = (Inr (), s2)
    \<and> s4 = snd (evaluate (\<lambda>_. ''2027-01-15'') idle_gates sample_card_id sample_now (Some 0)
            (sample_list\<lparr>rs_prompt_entries := rs_prompt_entries s2\<rparr>))
    \<and> fst (evaluate (\<lambda>_. ''2027-01-15'') idle_gates sample_card_id sample_now (Some 0)
            (sample_list\<lparr>rs_prompt_entries := rs_prompt_entries s4\<rparr>)) = Inr no_prompt"
proof -
  let ?fd = "\<lambda>_. ''2027-01-15''"
  let ?with = "\<lambda>s. sample_list\<lparr>rs_prompt_entries := rs_prompt_entries s\<rparr>"
  obtain s1 p r where s1: "evaluate ?fd idle_gates sample_card_id sample_now (Some 0) sample_list =
        (Inr \<lparr>cp_prompt_id = Some p, cp_card = Some (card_copy (counts_of (take TRIAGE_MAX_ENTRIES
          (listed_at sample_now sample_list)))), cp_notification = r\<rparr>, s1)" and ok: "ledger_ok s1"
    using evaluate_card [OF sample_ready _ sample_open, of idle_gates "Some 0"] idle_is_idle by auto
  define pr where "pr = \<lparr>cp_prompt_id = Some p, cp_card = Some (card_copy (counts_of (take TRIAGE_MAX_ENTRIES
          (listed_at sample_now sample_list)))), cp_notification = r\<rparr>"
  define s2 where "s2 = snd (acknowledge_prompt p False sample_now s1)"
  define s4 where "s4 = snd (evaluate ?fd idle_gates sample_card_id sample_now (Some 0) (?with s2))"
  have drawn: "pending_prompt ?fd idle_gates sample_card_id sample_now 0 sample_list = (Inr pr, s1)"
    "cp_prompt_id pr = Some p" using s1 by (simp_all add: pending_prompt_def pr_def)
  have answered: "acknowledge p NotNow sample_now s1 = (Inr (), s2)"
    by (simp add: acknowledge_def andthen_def acknowledge_prompt_def Let_def ret_def s2_def)
  have ready: "prompt_ready ?fd sample_card_id (?with s)" if "prompt_entries_ok (rs_prompt_entries s)" for s
    using that sample_ready
    by (simp add: prompt_ready_def ledger_ok_def sample_list_fields cards_ok_def two_cards_def digests_def)
  have ok2: "prompt_entries_ok (rs_prompt_entries s2)"
    using ok by (simp add: s2_def acknowledge_prompt_def Let_def ledger_ok_def prompt_entries_ok_acknowledged)
  have ok4: "prompt_entries_ok (rs_prompt_entries s4)"
    using evaluate_succeeds [OF ready [OF ok2], of idle_gates sample_now "Some 0"]
    by (auto simp: s4_def ledger_ok_def)
  have run: "ledger_run s2 {} (?with s4)"
    unfolding s4_def by (rule elsewhere [OF evaluated [OF elsewhere [OF started]]]) simp_all
  have "listed_at sample_now (?with s4) = listed_at sample_now sample_list"
    by (rule listed_at_frame) simp_all
  then have "set (shown_keys sample_now (?with s4)) \<subseteq> set (map entry_key (listed_at sample_now sample_list)) - {}"
    by (auto simp: shown_keys_def dest: in_set_takeD)
  from answered_card_stays_away [OF drawn sample_ready _ ok answered run ready [OF ok4] this]
  show ?thesis using drawn answered unfolding s4_def by blast
qed

end
