(* ===== verification/Rules_Invariant.thy ===== *)
theory Rules_Invariant
  imports Rules_Properties
begin

text \<open>
  The invariant of the rule store and its preservation by every operation: each table within
  its constraints, the semantic memory within its caps, a mapping behind every window rule,
  and no hostname kept for a site that has been taught.
\<close>

definition tables_ok :: "rules \<Rightarrow> bool" where
  "tables_ok s \<longleftrightarrow> events_ok (rs_events s) \<and> mappings_ok (rs_map s) \<and> windows_ok (rs_window s)
     \<and> apps_ok (rs_app s) \<and> sites_ok (rs_site s) \<and> site_names_ok (rs_site_names s)
     \<and> cache_ok (rs_cache s) \<and> prototypes_ok (rs_prototypes s)"

definition memory_bounded :: "rules \<Rightarrow> bool" where
  "memory_bounded s \<longleftrightarrow> length (rs_cache s) \<le> CACHE_ROWS \<and> length (rs_prototypes s) \<le> PROTOTYPES_TOTAL
     \<and> (\<forall>c. length (filter (\<lambda>r. pt_category r = c) (rs_prototypes s)) \<le> PROTOTYPES_PER_CATEGORY)"

definition anchored :: "rules \<Rightarrow> bool" where
  "anchored s \<longleftrightarrow> po_key_hash ` set (rs_window s) \<subseteq> am_key_hash ` set (rs_map s)"

definition names_untaught :: "rules \<Rightarrow> bool" where
  "names_untaught s \<longleftrightarrow> ps_site_key_hash ` set (rs_site s) \<inter> sn_site_key_hash ` set (rs_site_names s) = {}"

definition store_inv :: "rules \<Rightarrow> bool" where
  "store_inv s \<longleftrightarrow> tables_ok s \<and> memory_bounded s \<and> anchored s \<and> names_untaught s"

lemmas store_inv_defs = store_inv_def tables_ok_def memory_bounded_def anchored_def names_untaught_def

section \<open>Tables under deletion\<close>

lemmas table_defs = events_ok_def mappings_ok_def windows_ok_def apps_ok_def sites_ok_def
  site_names_ok_def cache_ok_def prototypes_ok_def

lemma ok_filter:
  "mappings_ok ms \<Longrightarrow> mappings_ok (filter p ms)" "windows_ok ws \<Longrightarrow> windows_ok (filter q ws)"
  "sites_ok ss \<Longrightarrow> sites_ok (filter r ss)" "site_names_ok ns \<Longrightarrow> site_names_ok (filter u ns)"
  "cache_ok cs \<Longrightarrow> cache_ok (filter v cs)" "prototypes_ok ps \<Longrightarrow> prototypes_ok (filter w ps)"
  "events_ok es \<Longrightarrow> events_ok (filter x es)"
  by (auto simp: table_defs list_all_iff distinct_map_filter)

lemma ok_Nil [simp]:
  "mappings_ok []" "windows_ok []" "sites_ok []" "site_names_ok []" "cache_ok []" "prototypes_ok []"
  "apps_ok []" "events_ok []"
  by (simp_all add: table_defs unique_by_def)

lemma nameless_simps [simp]:
  "am_key_hash (nameless p r) = am_key_hash r" "am_stable_id (nameless p r) = am_stable_id r"
  "mapping_check (nameless p r) = mapping_check r"
  by (simp_all add: nameless_def mapping_check_def)

lemma mappings_ok_nameless [simp]: "mappings_ok (map (nameless p) ms) = mappings_ok ms"
  by (simp add: mappings_ok_def list_all_iff comp_def)

lemma nameless_keys [simp]: "am_key_hash ` nameless p ` A = am_key_hash ` A"
  by (simp add: image_image)

section \<open>Ranked caps\<close>

lemma keep_ranked_cap:
  assumes "distinct (map key rows)"
  shows "length (filter p (keep_ranked rank key n p rows)) \<le> n"
proof -
  let ?S = "sort_key rank (filter p rows)" and ?L = "filter p (keep_ranked rank key n p rows)"
  have "set ?L \<subseteq> set (take n ?S)"
  proof
    fix x assume x: "x \<in> set ?L"
    then have "x \<in> set ?S" by (simp add: keep_ranked_def)
    then have "x \<in> set (take n ?S) \<or> x \<in> set (drop n ?S)"
      by (metis Un_iff append_take_drop_id set_append)
    then show "x \<in> set (take n ?S)" using x by (auto simp: keep_ranked_def)
  qed
  moreover have "distinct ?L" using assms by (simp add: keep_ranked_def distinct_map)
  ultimately have "length ?L \<le> card (set (take n ?S))"
    by (metis card_mono distinct_card finite_set)
  also have "\<dots> \<le> n" using card_length [of "take n ?S"] by simp
  finally show ?thesis .
qed

lemma keep_ranked_all:
  "distinct (map key rows) \<Longrightarrow> length (keep_ranked rank key n (\<lambda>_. True) rows) \<le> n"
  using keep_ranked_cap [of key rows "\<lambda>_. True" rank n] by simp

lemma keep_ranked_shrinks: "length (filter q (keep_ranked rank key n p rows)) \<le> length (filter q rows)"
  unfolding keep_ranked_def filter_filter by (rule length_filter_implies) simp

lemma upsert_other_category:
  assumes "c \<noteq> pt_category new"
  shows "length (filter (\<lambda>r. pt_category r = c) (upsert_by pt_key_hash merge_prototype new rows))
    \<le> length (filter (\<lambda>r. pt_category r = c) rows)"
  using assms by (induction rows) (auto simp: merge_prototype_def)

text \<open>Learning one prototype and trimming leaves every cap in place.\<close>

lemma trim_prototypes_bounds:
  assumes keys: "distinct (map pt_key_hash (rs_prototypes s))"
    and others: "\<And>c'. c' \<noteq> c \<Longrightarrow>
      length (filter (\<lambda>r. pt_category r = c') (rs_prototypes s)) \<le> PROTOTYPES_PER_CATEGORY"
  shows "length (rs_prototypes (trim_prototypes c s)) \<le> PROTOTYPES_TOTAL"
    and "length (filter (\<lambda>r. pt_category r = c') (rs_prototypes (trim_prototypes c s)))
      \<le> PROTOTYPES_PER_CATEGORY"
proof -
  let ?A = "keep_ranked prototype_rank pt_key_hash PROTOTYPES_PER_CATEGORY (\<lambda>r. pt_category r = c)
    (rs_prototypes s)"
  have A: "distinct (map pt_key_hash ?A)" using keys by (simp add: keep_ranked_def distinct_map_filter)
  show "length (rs_prototypes (trim_prototypes c s)) \<le> PROTOTYPES_TOTAL"
    using keep_ranked_all [OF A] by (simp add: trim_prototypes_def)
  have "length (filter (\<lambda>r. pt_category r = c') ?A) \<le> PROTOTYPES_PER_CATEGORY"
    using keep_ranked_cap [OF keys, of "\<lambda>r. pt_category r = c"]
      order_trans [OF keep_ranked_shrinks others [of c']] by (cases "c' = c") simp_all
  then show "length (filter (\<lambda>r. pt_category r = c') (rs_prototypes (trim_prototypes c s)))
      \<le> PROTOTYPES_PER_CATEGORY"
    using order_trans [OF keep_ranked_shrinks] by (simp add: trim_prototypes_def)
qed

section \<open>Every operation keeps the invariant\<close>

lemma obeys_as_store_error: "obeys (keeping P) m \<Longrightarrow> obeys (keeping P) (as_store_error m)"
  by (auto simp: obeys_def keeping_def as_store_error_def split: prod.splits sum.splits)

lemma inv_op: "(\<And>s. store_inv s \<Longrightarrow> store_inv (snd (m s))) \<Longrightarrow> obeys (keeping store_inv) m"
  by (simp add: obeys_def keeping_def)

lemma inv_insert_event: "obeys (keeping store_inv) (insert_event r)"
  by (rule inv_op) (auto simp: insert_event_def write_rows_def store_inv_defs)

lemma inv_update_classification: "obeys (keeping store_inv) (update_classification i l c n)"
  by (rule inv_op) (auto simp: update_classification_def write_rows_def store_inv_defs)

lemma inv_delete_before: "obeys (keeping store_inv) (delete_before cutoff)"
  by (rule inv_op) (auto simp: delete_before_def store_inv_defs intro: ok_filter)

lemma merge_mapping_key [simp]: "am_key_hash (merge_mapping m r) = am_key_hash r"
  by (simp add: merge_mapping_def)

lemma upsert_by_key_set:
  assumes "\<And>r. key r = key new \<Longrightarrow> key (merge new r) = key new"
  shows "key ` set (upsert_by key merge new rows) = insert (key new) (key ` set rows)"
  using assms by (induction rows) auto

lemma inv_upsert_mapping: "obeys (keeping store_inv) (upsert_mapping m)"
  by (rule inv_op) (auto simp: upsert_mapping_def write_rows_def store_inv_defs upsert_by_key_set)

lemma inv_resolve_id: "obeys (keeping store_inv) (resolve_id m)"
  unfolding resolve_id_def
  by (intro obeys_as_store_error keeping.rules inv_upsert_mapping)

lemma inv_counters:
  "obeys (keeping store_inv) (increment_classification_count v tier)"
  "obeys (keeping store_inv) (record_classifier_use v)"
  by (auto simp: increment_classification_count_def record_classifier_use_def store_inv_defs keeping_def
      intro!: keeping.rules)

lemma inv_write_app:
  "obeys (keeping store_inv) (\<lambda>s. write_rows apps_ok rs_app_update (f s) s)"
  by (rule inv_op) (auto simp: write_rows_def store_inv_defs)

lemma inv_upsert_app_scope_rule: "obeys (keeping store_inv) (upsert_app_scope_rule k b c n ao t)"
  unfolding upsert_app_scope_rule_def fold_alias_def
  by (intro keeping.rules inv_write_app)
    (auto simp: keeping_def store_inv_defs drop_alias_def intro: apps_ok_filter)

lemma inv_save_app_identity: "obeys (keeping store_inv) (save_app_identity f c n t)"
  unfolding save_app_identity_def
  by (intro obeys_atomically keeping.rules)
    (auto intro!: keeping.rules inv_upsert_app_scope_rule split: prod.splits)

lemma obeys_guard: "obeys (keeping P) (guard e p)"
  by (simp add: obeys_def keeping_def guard_def)

lemma inv_save_app_scope_override: "obeys (keeping store_inv) (save_app_scope_override k b c n t)"
  unfolding save_app_scope_override_def
  by (intro obeys_atomically keeping.rules obeys_guard inv_upsert_app_scope_rule)

lemma inv_remove_app_scope_override: "obeys (keeping store_inv) (remove_app_scope_override k)"
  by (rule inv_op)
    (auto simp: remove_app_scope_override_def clear_display_names_def store_inv_defs intro: apps_ok_filter)

lemma inv_save_personal_app:
  "obeys (keeping store_inv) (save_personal_app_override i c n t)"
  "obeys (keeping store_inv) (save_personal_app_override_by_stable_id i c n t)"
  by (simp_all add: save_personal_app_override_def save_personal_app_override_by_stable_id_def
      inv_save_app_identity)

section \<open>Site rules\<close>

lemma merge_site_key [simp]: "ps_site_key_hash (merge_site keep new r) = ps_site_key_hash r"
  by (simp add: merge_site_def)

lemma upsert_site_rule_outcome:
  assumes "upsert_site_rule keep k c n t s = (Inr u, s')"
  obtains rows where "s' = s\<lparr>rs_site := rows\<rparr>" "sites_ok rows"
    "ps_site_key_hash ` set rows = insert k (ps_site_key_hash ` set (rs_site s))"
  using assms by (auto simp: upsert_site_rule_def upsert_by_key_set)

lemma upsert_site_rule_error: "upsert_site_rule keep k c n t s = (Inl e, s') \<Longrightarrow> s' = s"
  by (simp add: upsert_site_rule_def write_rows_def split: if_splits)

lemma inv_save_site_scope_override: "obeys (keeping store_inv) (save_site_scope_override k c n t)"
proof (rule inv_op)
  fix s assume inv: "store_inv s"
  show "store_inv (snd (save_site_scope_override k c n t s))"
  proof (cases "upsert_site_rule True k c n t s")
    case (Pair r s')
    show ?thesis
    proof (cases r)
      case (Inl e)
      then show ?thesis using Pair inv
        by (simp add: save_site_scope_override_def atomically_def andthen_def)
    next
      case (Inr u)
      then obtain rows where rows: "s' = s\<lparr>rs_site := rows\<rparr>" "sites_ok rows"
        "ps_site_key_hash ` set rows = insert k (ps_site_key_hash ` set (rs_site s))"
        using Pair upsert_site_rule_outcome by blast
      have "snd (save_site_scope_override k c n t s) = s\<lparr>rs_site := rows, rs_site_names :=
          filter (\<lambda>r. sn_site_key_hash r \<noteq> k) (rs_site_names s)\<rparr>"
        using Pair Inr rows(1)
        by (simp add: save_site_scope_override_def atomically_def andthen_def modify_def)
      then show ?thesis using inv rows(2,3) by (auto simp: store_inv_defs intro: ok_filter)
    qed
  qed
qed

text \<open>An edit keeps the invariant where the router calls it: on a site that has a rule.\<close>

lemma inv_edit_site_scope_override:
  assumes inv: "store_inv s" and rule: "list_ex (\<lambda>r. ps_site_key_hash r = k) (rs_site s)"
  shows "store_inv (snd (edit_site_scope_override k c n t s))"
proof (cases "upsert_site_rule False k c n t s")
  case (Pair r s')
  show ?thesis
  proof (cases r)
    case (Inl e)
    then show ?thesis using Pair inv
      by (simp add: edit_site_scope_override_def atomically_def andthen_def)
  next
    case (Inr u)
    then obtain rows where rows: "s' = s\<lparr>rs_site := rows\<rparr>" "sites_ok rows"
      "ps_site_key_hash ` set rows = insert k (ps_site_key_hash ` set (rs_site s))"
      using Pair upsert_site_rule_outcome by blast
    have "k \<in> ps_site_key_hash ` set (rs_site s)" using rule by (auto simp: list_ex_iff)
    then have "store_inv s'" using inv rows by (auto simp: store_inv_defs insert_absorb)
    then show ?thesis using Pair Inr
      by (auto simp: edit_site_scope_override_def atomically_def andthen_def modify_def ret_def
          clear_display_names_def store_inv_defs)
  qed
qed

lemma inv_remove_site_scope_override: "obeys (keeping store_inv) (remove_site_scope_override k)"
  by (rule inv_op)
    (auto simp: remove_site_scope_override_def clear_display_names_def store_inv_defs intro: ok_filter)

lemma inv_record_local_site_name: "obeys (keeping store_inv) (record_local_site_name i h seen)"
proof (rule inv_op)
  fix s assume inv: "store_inv s"
  let ?found = "find (\<lambda>r. er_event_id r = i \<and> site_visit_needs_a_category r
         \<and> \<not> site_taught s (the (er_site r))) (rs_events s)"
  show "store_inv (snd (record_local_site_name i h seen s))"
  proof (cases ?found)
    case None
    then show ?thesis using inv by (simp add: record_local_site_name_def op_simps)
  next
    case (Some r)
    then have "the (er_site r) \<notin> ps_site_key_hash ` set (rs_site s)"
      by (auto simp: find_Some_iff site_taught_def list_ex_iff)
    then show ?thesis using inv Some
      by (auto simp: record_local_site_name_def op_simps andthen_def write_rows_def ret_def
          upsert_by_key_set store_inv_defs)
  qed
qed

section \<open>Window rules\<close>

lemma merge_window_key [simp]: "po_key_hash (merge_window new r) = po_key_hash r"
  by (simp add: merge_window_def)

lemma merge_prototype_key [simp]: "pt_key_hash (merge_prototype new r) = pt_key_hash r"
  by (simp add: merge_prototype_def)

text \<open>Learning one prototype may put its category one over the cap, and no other.\<close>

lemma learn_prototype_outcome:
  assumes "learn_prototype k c t s = (Inr u, s')"
  obtains rows where "s' = s\<lparr>rs_prototypes := rows\<rparr>" "prototypes_ok (rs_prototypes s) \<longrightarrow> prototypes_ok rows"
    "\<And>c'. c' \<noteq> c \<Longrightarrow> length (filter (\<lambda>r. pt_category r = c') rows)
       \<le> length (filter (\<lambda>r. pt_category r = c') (rs_prototypes s))"
proof (cases "find (\<lambda>r. em_key_hash r = k) (rs_cache s)")
  case None
  then show ?thesis using assms that [of "rs_prototypes s"] by (simp add: learn_prototype_def)
next
  case (Some e)
  let ?new = "\<lparr>pt_key_hash = k, pt_category = c, pt_embedding = em_embedding e,
            pt_dimensions = em_dimensions e, pt_correction_count = 1, pt_updated_at = t\<rparr>"
  have "s' = s\<lparr>rs_prototypes := upsert_by pt_key_hash merge_prototype ?new (rs_prototypes s)\<rparr>"
    "prototypes_ok (upsert_by pt_key_hash merge_prototype ?new (rs_prototypes s))"
    using assms Some by (auto simp: learn_prototype_def)
  then show ?thesis using that upsert_other_category [of _ ?new] by simp
qed

lemma save_personal_override_outcome:
  assumes inv: "store_inv s" and out: "save_personal_override i c n t s = (Inr u, s')"
  obtains m wrows prows where "find (\<lambda>r. am_stable_id r = i) (rs_map s) = Some m"
    "wrows = upsert_by po_key_hash merge_window \<lparr>po_key_hash = am_key_hash m, po_category = c,
       po_activity_name = n, po_app_key_hash = paired_rung i s, po_updated_at = t\<rparr> (rs_window s)"
    "windows_ok wrows" "prototypes_ok prows"
    "\<And>c'. c' \<noteq> c \<Longrightarrow> length (filter (\<lambda>r. pt_category r = c') prows) \<le> PROTOTYPES_PER_CATEGORY"
    "s' = trim_prototypes c (s\<lparr>rs_window := wrows, rs_prototypes := prows\<rparr>)"
proof -
  obtain m where m: "find (\<lambda>r. am_stable_id r = i) (rs_map s) = Some m"
    using out by (auto simp: save_personal_override_def andthen_def gets_def err_def split: option.splits)
  let ?w = "upsert_by po_key_hash merge_window \<lparr>po_key_hash = am_key_hash m, po_category = c,
       po_activity_name = n, po_app_key_hash = paired_rung i s, po_updated_at = t\<rparr> (rs_window s)"
  obtain s1 where ok: "windows_ok ?w"
    and learn: "learn_prototype (am_key_hash m) c t (s\<lparr>rs_window := ?w\<rparr>) = (Inr (), s1)"
    and s': "s' = trim_prototypes c s1"
    using out m
    by (auto simp: save_personal_override_def andthen_def gets_def write_rows_def modify_def
        split: prod.splits sum.splits if_splits)
  obtain rows where rows: "s1 = s\<lparr>rs_window := ?w, rs_prototypes := rows\<rparr>"
    "prototypes_ok (rs_prototypes s) \<longrightarrow> prototypes_ok rows"
    "\<And>c'. c' \<noteq> c \<Longrightarrow> length (filter (\<lambda>r. pt_category r = c') rows)
       \<le> length (filter (\<lambda>r. pt_category r = c') (rs_prototypes s))"
    by (rule learn_prototype_outcome [OF learn]) (rule that, simp_all)
  show ?thesis
    by (rule that [OF m refl ok _ _ s' [unfolded rows(1)]])
      (use rows inv in \<open>auto simp: store_inv_defs intro: order_trans\<close>)
qed

lemma prototypes_ok_trim:
  "prototypes_ok (rs_prototypes s) \<Longrightarrow> prototypes_ok (rs_prototypes (trim_prototypes c s))"
  by (simp add: trim_prototypes_def keep_ranked_def ok_filter)

lemma trim_prototypes_frame [simp]:
  "rs_events (trim_prototypes c s) = rs_events s" "rs_map (trim_prototypes c s) = rs_map s"
  "rs_window (trim_prototypes c s) = rs_window s" "rs_app (trim_prototypes c s) = rs_app s"
  "rs_site (trim_prototypes c s) = rs_site s" "rs_site_names (trim_prototypes c s) = rs_site_names s"
  "rs_cache (trim_prototypes c s) = rs_cache s"
  by (simp_all add: trim_prototypes_def)

lemma inv_save_personal_override: "obeys (keeping store_inv) (save_personal_override i c n t)"
proof (rule inv_op)
  fix s assume inv: "store_inv s"
  show "store_inv (snd (save_personal_override i c n t s))"
  proof (cases "save_personal_override i c n t s")
    case (Pair r s')
    show ?thesis
    proof (cases r)
      case (Inl e)
      then have "s' = s" using Pair atomically_Inl unfolding save_personal_override_def by blast
      then show ?thesis using Pair inv by simp
    next
      case (Inr u)
      obtain m wrows prows where m: "find (\<lambda>r. am_stable_id r = i) (rs_map s) = Some m"
        and w: "wrows = upsert_by po_key_hash merge_window \<lparr>po_key_hash = am_key_hash m,
          po_category = c, po_activity_name = n, po_app_key_hash = paired_rung i s,
          po_updated_at = t\<rparr> (rs_window s)" "windows_ok wrows"
        and p: "prototypes_ok prows" "\<And>c'. c' \<noteq> c \<Longrightarrow>
          length (filter (\<lambda>r. pt_category r = c') prows) \<le> PROTOTYPES_PER_CATEGORY"
        and s': "s' = trim_prototypes c (s\<lparr>rs_window := wrows, rs_prototypes := prows\<rparr>)"
        using save_personal_override_outcome [OF inv Pair [unfolded Inr]] by blast
      let ?t = "s\<lparr>rs_window := wrows, rs_prototypes := prows\<rparr>"
      have keys: "distinct (map pt_key_hash (rs_prototypes ?t))" using p(1) by (simp add: prototypes_ok_def)
      note bounds = trim_prototypes_bounds [OF keys, of c, simplified, OF p(2)]
      have "am_key_hash m \<in> am_key_hash ` set (rs_map s)" using m by (auto simp: find_Some_iff)
      then have "po_key_hash ` set wrows \<subseteq> am_key_hash ` set (rs_map s)"
        using inv by (simp add: w(1) upsert_by_key_set store_inv_defs)
      then show ?thesis using Pair inv w(2) p(1) bounds prototypes_ok_trim [of ?t c]
        by (simp add: s' store_inv_defs)
    qed
  qed
qed

lemma filter_filter_shrinks: "length (filter p (filter q xs)) \<le> length (filter p xs)"
  unfolding filter_filter by (rule length_filter_implies) simp

lemma inv_remove_personal_override: "obeys (keeping store_inv) (remove_personal_override i)"
proof (rule inv_op)
  fix s assume inv: "store_inv s"
  have "length (filter (\<lambda>r. pt_category r = c) (filter q (rs_prototypes s))) \<le> PROTOTYPES_PER_CATEGORY"
    for c q
    by (rule order_trans [OF filter_filter_shrinks]) (use inv in \<open>simp add: store_inv_defs\<close>)
  moreover have "length (filter q (rs_prototypes s)) \<le> PROTOTYPES_TOTAL" for q
    by (rule order_trans [OF length_filter_le]) (use inv in \<open>simp add: store_inv_defs\<close>)
  ultimately show "store_inv (snd (remove_personal_override i s))" using inv
    by (auto simp: remove_personal_override_def clear_display_names_def Let_def store_inv_defs
        intro: ok_filter apps_ok_filter)
qed

lemma inv_reset_personal_overrides: "obeys (keeping store_inv) reset_personal_overrides"
  by (rule inv_op) (auto simp: reset_personal_overrides_def clear_display_names_def store_inv_defs)

section \<open>Semantic memory, salts and sweeps\<close>

lemma merge_embedding_key [simp]: "em_key_hash (merge_embedding new r) = em_key_hash r"
  by (simp add: merge_embedding_def)

lemma inv_record_embedding: "obeys (keeping store_inv) (record_embedding k e t)"
proof (rule inv_op)
  fix s assume inv: "store_inv s"
  have cap: "length (keep_ranked (\<lambda>r. (- em_updated_at r, em_key_hash r)) em_key_hash CACHE_ROWS
      (\<lambda>_. True) rows) \<le> CACHE_ROWS" if "cache_ok rows" for rows
    using keep_ranked_all that by (auto simp: cache_ok_def)
  have kept: "cache_ok (keep_ranked rank em_key_hash n p rows)" if "cache_ok rows"
    for rank :: "embedding_row \<Rightarrow> int \<times> string" and n p rows
    using that by (simp add: keep_ranked_def ok_filter)
  show "store_inv (snd (record_embedding k e t s))"
    using inv cap kept
    by (auto simp: record_embedding_def as_store_error_def atomically_def andthen_def write_rows_def
        modify_def err_def trim_cache_def store_inv_defs split: option.splits)
qed

lemma inv_embedding_salt: "obeys (keeping store_inv) (embedding_salt minted)"
  by (rule inv_op) (auto simp: embedding_salt_def atomically_def store_inv_defs split: option.splits)

lemma events_ok_forget: "events_ok es \<Longrightarrow> events_ok (map forget_keys es)"
proof -
  have "er_event_id (forget_keys r) = er_event_id r" for r by (simp add: forget_keys_def)
  moreover have "event_row_check r \<Longrightarrow> event_row_check (forget_keys r)" for r
    by (simp add: forget_keys_def event_row_check_def opt_ok_def)
  ultimately show "events_ok es \<Longrightarrow> ?thesis" by (simp add: events_ok_def list_all_iff comp_def)
qed

lemma inv_stable_key_salt: "obeys (keeping store_inv) (stable_key_salt minted)"
  by (rule inv_op)
    (auto simp: stable_key_salt_def atomically_def store_inv_defs events_ok_forget split: option.splits)

lemma inv_delete_expired_semantic_embeddings:
  "obeys (keeping store_inv) (delete_expired_semantic_embeddings visit cutoff limit)"
  by (rule inv_op)
    (auto simp: delete_expired_semantic_embeddings_def delete_up_to_def Let_def store_inv_defs
      intro: ok_filter order_trans [OF length_filter_le])

lemma inv_delete_expired_mappings: "obeys (keeping store_inv) (delete_expired_mappings cutoff limit)"
proof (rule inv_op)
  fix s assume inv: "store_inv s"
  let ?S = "sort_key am_updated_at (filter (mapping_expired s cutoff) (rs_map s))"
  have "am_key_hash m \<notin> po_key_hash ` set (rs_window s)" if "m \<in> set (take limit ?S)" for m
  proof -
    have "m \<in> set ?S" using that by (rule in_set_takeD)
    then show ?thesis by (auto simp: mapping_expired_def list_ex_iff)
  qed
  then have "po_key_hash ` set (rs_window s) \<subseteq> am_key_hash ` {m \<in> set (rs_map s).
      am_key_hash m \<notin> am_key_hash ` set (take limit ?S)}"
    using inv by (force simp: store_inv_defs)
  then show "store_inv (snd (delete_expired_mappings cutoff limit s))" using inv
    by (auto simp: delete_expired_mappings_def delete_up_to_def Let_def store_inv_defs intro: ok_filter)
qed

lemma inv_delete_expired_site_names:
  "obeys (keeping store_inv) (delete_expired_site_names cutoff limit)"
  by (rule inv_op)
    (auto simp: delete_expired_site_names_def delete_up_to_def Let_def store_inv_defs intro: ok_filter)

end
