(* ===== verification/Corrections.thy ===== *)
theory Corrections
  imports Prompt Upload
begin

text \<open>
  The router's correction messages (\<^verbatim>\<open>ipc/router.rs\<close>): teaching an application or a site,
  correcting an event, editing, removing and resetting rules, the history page, and the
  needs-a-category messages, over the rule store and the upload queue.

  A reply that carries a menu status is \<open>MenuSaying\<close> with its acknowledgment; the rest of the
  status is a snapshot of other components. \<open>during_block\<close> is what the work-block manager
  answers, \<open>signed_in\<close> the session state, and \<open>t\<close> the second the statements run in. The optional
  parts of the router are taken to be attached.
\<close>

datatype correction_reply =
    CorrectionError string
  | TriageError
  | MenuSaying ustr
  | HistoryPage "rule_record list" nat nat nat bool
  | TriageList "triage_entry list" nat
  | PromptReply category_prompt
  | InvalidPromptId

record desk =
  dk_rules :: rules
  dk_upload :: upload
  dk_patches :: "(string \<times> string) list"

fun override_label_for_category :: "string \<Rightarrow> string option" where
  "override_label_for_category c =
     (if c = ''FOCUS_WORK'' then Some ''document:inferred''
      else if c = ''PASSIVE_CONSUMPTION'' then Some ''video:inferred''
      else if c = ''SOCIAL_FEED'' then Some ''social:inferred''
      else if c = ''COMMUNICATION'' then Some ''communication:inferred''
      else if c = ''TASK_MANAGEMENT'' then Some ''task:inferred''
      else if c = ''REFERENCE'' then Some ''reference:inferred''
      else if c = ''SYSTEM'' then Some ''system:inferred''
      else if c = ''UNLOGGED'' then Some ''unlogged''
      else None)"

section \<open>Validation\<close>

text \<open>Unicode's control characters.\<close>

definition is_control :: "nat \<Rightarrow> bool" where
  "is_control c \<longleftrightarrow> c < 32 \<or> 127 \<le> c \<and> c < 160"

definition normalized_local_activity_name :: "ustr option \<Rightarrow> ustr option option" where
  "normalized_local_activity_name v = (case v of None \<Rightarrow> Some None
     | Some u \<Rightarrow> if trim u = [] \<or> 48 < length (trim u) \<or> list_ex is_control (trim u) then None
         else Some (Some (trim u)))"

definition normalized_correction_query :: "ustr option \<Rightarrow> ustr option option" where
  "normalized_correction_query v = (case v of None \<Rightarrow> Some None
     | Some u \<Rightarrow> if 64 < length (trim u) \<or> list_ex is_control (trim u) then None
         else Some (if trim u = [] then None else Some (trim u)))"

definition normalized_app_stable_id :: "string \<Rightarrow> string option" where
  "normalized_app_stable_id v = (if length v = 64 \<and> list_all hex_char v then Some v else None)"

definition normalized_prompt_id :: "string \<Rightarrow> string option" where
  "normalized_prompt_id v = normalized_app_stable_id v"

section \<open>Acknowledgments\<close>

text \<open>8212 is the em dash.\<close>

definition spoken_category :: "string \<Rightarrow> ustr" where
  "spoken_category c = of_str (to_ascii_lowercase (map (\<lambda>x. if x = CHR ''_'' then CHR '' '' else x) c))"

definition subject_or :: "string \<Rightarrow> ustr option \<Rightarrow> ustr" where
  "subject_or fallback activity = (case activity of None \<Rightarrow> of_str fallback | Some a \<Rightarrow> a)"

definition correction_acknowledgment :: "ustr option \<Rightarrow> string \<Rightarrow> bool \<Rightarrow> ustr" where
  "correction_acknowledgment activity c during_block =
     of_str ''Got it '' @ [8212] @ of_str '' '' @ subject_or ''This activity'' activity
     @ of_str '' counts as '' @ spoken_category c
     @ of_str (if during_block then '' for the rest of this block.'' else '' from now on.'')"

definition application_acknowledgment :: "ustr option \<Rightarrow> string \<Rightarrow> ustr" where
  "application_acknowledgment activity c =
     of_str ''Got it '' @ [8212] @ of_str '' '' @ subject_or ''This app'' activity
     @ of_str '' counts as '' @ spoken_category c @ of_str '' from now on.''"

definition site_acknowledgment :: "ustr option \<Rightarrow> string \<Rightarrow> ustr" where
  "site_acknowledgment activity c =
     of_str ''Got it '' @ [8212] @ of_str '' every page of '' @ subject_or ''this site'' activity
     @ of_str '', in every browser, counts as '' @ spoken_category c @ of_str '' from now on.''"

definition removal_acknowledgment :: "bool \<Rightarrow> ustr" where
  "removal_acknowledgment removed = (if removed
     then of_str ''Removed '' @ [8212] @ of_str '' Velvt classifies this on its own again.''
     else of_str ''Nothing to remove '' @ [8212]
       @ of_str '' Velvt is already classifying this on its own.'')"

definition reset_acknowledgment :: ustr where
  "reset_acknowledgment = of_str ''Removed every saved rule '' @ [8212]
     @ of_str '' Velvt classifies everything on its own again.''"

section \<open>Handlers over the rule store\<close>

text \<open>A failed call answers with an error; what it wrote before failing stays.\<close>

definition answer :: "'a ru \<Rightarrow> correction_reply \<Rightarrow> ('a \<Rightarrow> correction_reply) \<Rightarrow> rules
  \<Rightarrow> correction_reply \<times> rules" where
  "answer m failed reply s =
     (case m s of (Inl _, s') \<Rightarrow> (failed, s') | (Inr a, s') \<Rightarrow> (reply a, s'))"

definition persistence_failed :: correction_reply where
  "persistence_failed = CorrectionError ''classification_correction_persistence_failed''"

definition request_correction_history ::
  "ustr option \<Rightarrow> nat \<Rightarrow> nat \<Rightarrow> rules \<Rightarrow> correction_reply \<times> rules" where
  "request_correction_history q skip page_size s =
     (case normalized_correction_query q of
        None \<Rightarrow> (CorrectionError ''invalid_correction_history_query'', s)
      | Some q' \<Rightarrow>
          let page = min (max page_size 1) 20 in
          answer (search_personal_overrides q' skip page)
            (CorrectionError ''classification_correction_history_failed'')
            (\<lambda>(items, total). HistoryPage items skip page total (skip + length items < total)) s)"

text \<open>A bundle key that cannot be read is no bundle key: the rule is taught under the name alone.\<close>

definition or_none :: "'a option ru \<Rightarrow> 'a option ru" where
  "or_none m s = (case m s of (Inl _, s') \<Rightarrow> (Inr None, s') | (Inr v, s') \<Rightarrow> (Inr v, s'))"

definition set_application_category ::
  "string \<Rightarrow> string \<Rightarrow> ustr option \<Rightarrow> int \<Rightarrow> rules \<Rightarrow> correction_reply \<times> rules" where
  "set_application_category app category activity t s =
     (if override_label_for_category category = None
      then (CorrectionError ''invalid_classification_category'', s)
      else case normalized_app_stable_id app of
        None \<Rightarrow> (CorrectionError ''invalid_app_stable_id'', s)
      | Some k \<Rightarrow> (case normalized_local_activity_name activity of
          None \<Rightarrow> (CorrectionError ''invalid_local_activity_name'', s)
        | Some name \<Rightarrow>
            answer (andthen (or_none (unclassified_app_bundle_key k)) (\<lambda>bundle.
                save_app_scope_override k bundle category name t))
              persistence_failed (\<lambda>_. MenuSaying (application_acknowledgment name category)) s))"

definition set_site_category ::
  "string \<Rightarrow> string \<Rightarrow> ustr option \<Rightarrow> int \<Rightarrow> rules \<Rightarrow> correction_reply \<times> rules" where
  "set_site_category site category activity t s =
     (if override_label_for_category category = None
      then (CorrectionError ''invalid_classification_category'', s)
      else case normalized_app_stable_id site of
        None \<Rightarrow> (CorrectionError ''invalid_site_stable_id'', s)
      | Some k \<Rightarrow> (case normalized_local_activity_name activity of
          None \<Rightarrow> (CorrectionError ''invalid_local_activity_name'', s)
        | Some name \<Rightarrow> answer (save_site_scope_override k category name t)
            persistence_failed (\<lambda>_. MenuSaying (site_acknowledgment name category)) s))"

text \<open>
  An edit names a rule by an identifier of one of three domains; the stored rule decides which
  it is. Only a window edit also tries the application rung, whose failure is not reported.
\<close>

definition best_effort :: "'a ru \<Rightarrow> rules \<Rightarrow> rules" where
  "best_effort m s = snd (m s)"

definition edit_window_rule ::
  "string \<Rightarrow> string \<Rightarrow> ustr option \<Rightarrow> int \<Rightarrow> bool \<Rightarrow> rules \<Rightarrow> correction_reply \<times> rules" where
  "edit_window_rule i category name t during_block s =
     answer (save_personal_override i category name t) persistence_failed
       (\<lambda>_. MenuSaying (correction_acknowledgment name category during_block))
       (best_effort (save_personal_app_override_by_stable_id i category name t) s)"

definition update_classification_override ::
  "string \<Rightarrow> string \<Rightarrow> ustr option \<Rightarrow> int \<Rightarrow> bool \<Rightarrow> rules \<Rightarrow> correction_reply \<times> rules" where
  "update_classification_override i category activity t during_block s =
     (if override_label_for_category category = None
      then (CorrectionError ''invalid_classification_category'', s)
      else case normalized_local_activity_name activity of
        None \<Rightarrow> (CorrectionError ''invalid_local_activity_name'', s)
      | Some name \<Rightarrow>
          if list_ex (\<lambda>r. pa_app_key_hash r = i) (rs_app s)
          then answer (save_app_scope_override i None category name t) persistence_failed
            (\<lambda>_. MenuSaying (correction_acknowledgment name category during_block)) s
          else if list_ex (\<lambda>r. ps_site_key_hash r = i) (rs_site s)
          then answer (edit_site_scope_override i category name t) persistence_failed
            (\<lambda>_. MenuSaying (site_acknowledgment name category)) s
          else edit_window_rule i category name t during_block s)"

definition remove_classification_override :: "string \<Rightarrow> rules \<Rightarrow> correction_reply \<times> rules" where
  "remove_classification_override i =
     answer (andthen (remove_personal_override i) (\<lambda>removed.
         andthen (if removed then ret True else remove_app_scope_override i) (\<lambda>removed.
         if removed then ret True else remove_site_scope_override i)))
       persistence_failed (\<lambda>removed. MenuSaying (removal_acknowledgment removed))"

definition reset_classification_overrides :: "rules \<Rightarrow> correction_reply \<times> rules" where
  "reset_classification_overrides =
     answer reset_personal_overrides persistence_failed (\<lambda>_. MenuSaying reset_acknowledgment)"

definition request_unclassified_triage :: "nat \<Rightarrow> instant \<Rightarrow> rules \<Rightarrow> correction_reply \<times> rules" where
  "request_unclassified_triage lookback now =
     answer (needs_a_category lookback now) TriageError
       (\<lambda>entries. TriageList entries (min (max lookback 1) TRIAGE_MAX_LOOKBACK_DAYS))"

definition request_category_prompt :: "(int \<Rightarrow> string) \<Rightarrow> initiation \<Rightarrow> string \<Rightarrow> instant \<Rightarrow> int
  \<Rightarrow> rules \<Rightarrow> correction_reply \<times> rules" where
  "request_category_prompt fd g minted now off =
     answer (pending_prompt fd g minted now off) (PromptReply no_prompt) PromptReply"

definition acknowledge_category_prompt :: "(int \<Rightarrow> string) \<Rightarrow> initiation \<Rightarrow> string \<Rightarrow> instant
  \<Rightarrow> string \<Rightarrow> prompt_response \<Rightarrow> rules \<Rightarrow> correction_reply \<times> rules" where
  "acknowledge_category_prompt fd g minted now p response s =
     (case normalized_prompt_id p of None \<Rightarrow> (InvalidPromptId, s)
      | Some p' \<Rightarrow> answer (current_card fd g minted now) (PromptReply no_prompt) PromptReply
          (best_effort (acknowledge p' response now) s))"

section \<open>Correcting an event\<close>

text \<open>
  The application rung first, best effort; then the window rule, the buffered event and the
  queued event, stopping at the first failure; then, for a signed-in device, one request to the
  cloud, whose outcome changes nothing here.
\<close>

definition save_locally :: "string \<Rightarrow> string \<Rightarrow> string \<Rightarrow> string \<Rightarrow> ustr option \<Rightarrow> int \<Rightarrow> desk \<Rightarrow> bool \<times> desk"
where
  "save_locally event_id i label category name t d =
     (case andthen (save_personal_override i category name t)
             (\<lambda>_. update_classification event_id label category name) (dk_rules d) of
        (Inl _, r) \<Rightarrow> (False, d\<lparr>dk_rules := r\<rparr>)
      | (Inr _, r) \<Rightarrow> (case update_event_classification event_id label category (dk_upload d) of
          (Inl _, u) \<Rightarrow> (False, d\<lparr>dk_rules := r, dk_upload := u\<rparr>)
        | (Inr _, u) \<Rightarrow> (True, d\<lparr>dk_rules := r, dk_upload := u\<rparr>)))"

definition correct_event_classification :: "string \<Rightarrow> string \<Rightarrow> string \<Rightarrow> ustr option \<Rightarrow> int \<Rightarrow> bool \<Rightarrow> bool
  \<Rightarrow> desk \<Rightarrow> correction_reply \<times> desk" where
  "correct_event_classification event_id i category activity t during_block signed_in d =
     (case override_label_for_category category of
        None \<Rightarrow> (CorrectionError ''invalid_classification_category'', d)
      | Some label \<Rightarrow> (case normalized_local_activity_name activity of
          None \<Rightarrow> (CorrectionError ''invalid_local_activity_name'', d)
        | Some name \<Rightarrow>
            let d1 = d\<lparr>dk_rules :=
                  best_effort (save_personal_app_override event_id category name t) (dk_rules d)\<rparr>;
                (saved, d2) = save_locally event_id i label category name t d1
            in if \<not> saved then (persistence_failed, d2)
               else (MenuSaying (correction_acknowledgment name category during_block),
                     d2\<lparr>dk_patches := dk_patches d2 @
                       (if signed_in then [(''/v1/events/'' @ event_id @ ''/classification'', category)]
                        else [])\<rparr>)))"

section \<open>Dispatch\<close>

datatype correction_message =
    RequestCorrectionHistory "ustr option" nat nat
  | CorrectEventClassification string string string "ustr option"
  | UpdateClassificationOverride string string "ustr option"
  | RemoveClassificationOverride string
  | ResetClassificationOverrides
  | RequestUnclassifiedTriage nat
  | SetApplicationCategory string string "ustr option"
  | SetSiteCategory string string "ustr option"
  | RequestCategoryPrompt int
  | AcknowledgeCategoryPrompt string prompt_response

text \<open>What a message meets when it arrives, the clock and the other components.\<close>

record moment =
  mo_now :: instant
  mo_second :: int
  mo_dates :: "int \<Rightarrow> string"
  mo_gates :: initiation
  mo_minted :: string
  mo_during_block :: bool
  mo_signed_in :: bool

definition on_rules :: "(rules \<Rightarrow> correction_reply \<times> rules) \<Rightarrow> desk \<Rightarrow> correction_reply \<times> desk" where
  "on_rules h d = (case h (dk_rules d) of (reply, r) \<Rightarrow> (reply, d\<lparr>dk_rules := r\<rparr>))"

fun route_correction :: "moment \<Rightarrow> correction_message \<Rightarrow> desk \<Rightarrow> correction_reply \<times> desk" where
  "route_correction v (RequestCorrectionHistory q skip page) =
     on_rules (request_correction_history q skip page)"
| "route_correction v (CorrectEventClassification event_id i category activity) =
     correct_event_classification event_id i category activity (mo_second v) (mo_during_block v)
       (mo_signed_in v)"
| "route_correction v (UpdateClassificationOverride i category activity) =
     on_rules (update_classification_override i category activity (mo_second v) (mo_during_block v))"
| "route_correction v (RemoveClassificationOverride i) = on_rules (remove_classification_override i)"
| "route_correction v ResetClassificationOverrides = on_rules reset_classification_overrides"
| "route_correction v (RequestUnclassifiedTriage lookback) =
     on_rules (request_unclassified_triage lookback (mo_now v))"
| "route_correction v (SetApplicationCategory app category activity) =
     on_rules (set_application_category app category activity (mo_second v))"
| "route_correction v (SetSiteCategory site category activity) =
     on_rules (set_site_category site category activity (mo_second v))"
| "route_correction v (RequestCategoryPrompt off) =
     on_rules (request_category_prompt (mo_dates v) (mo_gates v) (mo_minted v) (mo_now v) off)"
| "route_correction v (AcknowledgeCategoryPrompt p response) =
     on_rules (acknowledge_category_prompt (mo_dates v) (mo_gates v) (mo_minted v) (mo_now v) p response)"

end
