(* ===== verification/Corrections_Properties.thy ===== *)
theory Corrections_Properties
  imports Rules_Invariant Prompt_Properties Corrections Upload_Properties
begin

text \<open>
  What the correction messages promise, over the invariant of the rule store: an application
  keeps one rule through a rename, what the list offers can be taught and then leaves the
  list, an undo reaches both rungs, the history shows every rule once, and a stored embedding
  reads back as it was written.
\<close>

section \<open>Renames\<close>

text \<open>
  C29: Writing an application rule never trips over the name the application used to have. From
  a table within its constraints the write succeeds and leaves the table within them, so one
  rule at most claims a bundle identifier; the rule found under the current name has the new
  category and claims the bundle given, if one was given; and when the bundle was known under
  another name and the current name had no rule, that rule is the one carried over, its
  correction count one higher.
\<close>

theorem renamed_application_keeps_its_rule:
  assumes "apps_ok (rs_app s)" "key_check k" "opt_ok key_check bundle" "name_check name"
  shows "\<exists>s' r. upsert_app_scope_rule k bundle category name app_only t s = (Inr (), s')
      \<and> apps_ok (rs_app s') \<and> fst (app_scope_override k s') = Inr (Some r)
      \<and> pa_category r = category \<and> (bundle \<noteq> None \<longrightarrow> pa_bundle_key_hash r = bundle)
      \<and> (app_only \<longrightarrow> pa_app_only r)
      \<and> (\<forall>b old. bundle = Some b \<longrightarrow> old \<in> set (rs_app s) \<longrightarrow> pa_bundle_key_hash old = Some b \<longrightarrow>
           k \<notin> pa_app_key_hash ` set (rs_app s) \<longrightarrow>
           pa_correction_count r = pa_correction_count old + 1
           \<and> (pa_app_only old \<longrightarrow> pa_app_only r))"
proof -
  let ?rows = "upsert_by pa_app_key_hash merge_app (new_app_rule k bundle category name app_only t)
    (alias_folded bundle k t (rs_app s))"
  let ?found = "find (\<lambda>r. pa_app_key_hash r = k) (alias_folded bundle k t (rs_app s))"
  let ?new = "new_app_rule k bundle category name app_only t"
  let ?r = "case ?found of None \<Rightarrow> ?new | Some r \<Rightarrow> merge_app ?new r"
  have wrote: "upsert_app_scope_rule k bundle category name app_only t s = (Inr (), s\<lparr>rs_app := ?rows\<rparr>)"
    and ok: "apps_ok ?rows"
    using upsert_app_scope_rule_outcome [OF assms] by blast+
  have found: "find (\<lambda>r. pa_app_key_hash r = k) ?rows = Some ?r" by (simp add: upsert_by_find)
  have carried: "pa_correction_count ?r = pa_correction_count old + 1 \<and> (pa_app_only old \<longrightarrow> pa_app_only ?r)"
    if "bundle = Some b" "old \<in> set (rs_app s)" "pa_bundle_key_hash old = Some b"
      "k \<notin> pa_app_key_hash ` set (rs_app s)" for b old
  proof -
    have "\<not> list_ex (\<lambda>r. pa_app_key_hash r = k) (rs_app s)" using that(4) by (auto simp: list_ex_iff)
    from alias_is_rekeyed [OF assms(1,2) that(2,3) this, of t] show ?thesis using that(1) by simp
  qed
  show ?thesis
    by (rule exI [of _ "s\<lparr>rs_app := ?rows\<rparr>"], rule exI [of _ ?r])
      (use wrote ok found carried in \<open>auto simp: app_scope_override_def gets_def coalesce_def
        split: option.splits\<close>)
qed

definition sample_rule :: app_rule where
  "sample_rule = new_app_rule (replicate 64 CHR ''a'') (Some (replicate 64 CHR ''b'')) ''FOCUS_WORK''
     None True 0"

definition sample_store :: rules where
  "sample_store = (fresh_rules [] [])\<lparr>rs_app := [sample_rule]\<rparr>"

theorem renamed_application_keeps_its_rule_witness:
  "\<exists>s' r. upsert_app_scope_rule (replicate 64 CHR ''c'') (Some (replicate 64 CHR ''b'')) ''REFERENCE''
      None False 5 sample_store = (Inr (), s')
    \<and> fst (app_scope_override (replicate 64 CHR ''c'') s') = Inr (Some r)
    \<and> pa_category r = ''REFERENCE'' \<and> pa_correction_count r = 2 \<and> pa_app_only r"
proof -
  have ok: "apps_ok (rs_app sample_store)" "key_check (replicate 64 CHR ''c'')"
    "opt_ok key_check (Some (replicate 64 CHR ''b''))" "name_check None"
    by (simp_all add: sample_store_def sample_rule_def new_app_rule_def apps_ok_def app_check_def
        key_check_def opt_ok_def name_check_def unique_by_def)
  have held: "rs_app sample_store = [sample_rule]" "pa_bundle_key_hash sample_rule = Some (replicate 64 CHR ''b'')"
    "pa_app_key_hash sample_rule = replicate 64 CHR ''a''" "pa_correction_count sample_rule = 1"
    "pa_app_only sample_rule" "replicate 64 CHR ''c'' \<noteq> replicate 64 CHR ''a''"
    by (simp_all add: sample_store_def sample_rule_def)
  show ?thesis
    using renamed_application_keeps_its_rule [OF ok, of "''REFERENCE''" False 5] held
    by (auto simp del: replicate.simps)
qed

section \<open>Teaching what the list offers\<close>

lemma sql_trim_trim: "trim u \<noteq> [] \<Longrightarrow> sql_trim (trim u) = trim u"
proof -
  assume ne: "trim u \<noteq> []"
  have sp: "is_whitespace 32" by (simp add: is_whitespace_def)
  have ends: "hd (trim u) \<noteq> 32" "last (trim u) \<noteq> 32"
    using trim_hd [OF ne] trim_last [OF ne] sp by auto
  have front: "dropWhile (\<lambda>c. c = 32) (trim u) = trim u"
    using ends(1) by (subst dropWhile_eq_self_iff) simp
  have rear: "dropWhile (\<lambda>c. c = 32) (rev (trim u)) = rev (trim u)"
    using ends(2) by (subst dropWhile_eq_self_iff) (simp add: hd_rev)
  show "sql_trim (trim u) = trim u" by (simp add: sql_trim_def front rear)
qed

lemma normalized_name_ok:
  assumes "normalized_local_activity_name v = Some name"
  shows "name_check name"
proof (cases v)
  case None
  then show ?thesis using assms by (auto simp: normalized_local_activity_name_def name_check_def opt_ok_def)
next
  case (Some u)
  then have u: "name = Some (trim u)" "trim u \<noteq> []" "length (trim u) \<le> 48" "\<not> list_ex is_control (trim u)"
    using assms by (auto simp: normalized_local_activity_name_def split: if_splits)
  then have "10 \<notin> set (trim u)" "13 \<notin> set (trim u)" by (auto simp: list_ex_iff is_control_def)
  then show ?thesis using u sql_trim_trim [OF u(2)]
    by (cases "trim u") (auto simp: name_check_def opt_ok_def)
qed

lemma normalized_id_ok: "normalized_app_stable_id v = Some k \<Longrightarrow> key_check k \<and> k = v"
  by (auto simp: normalized_app_stable_id_def key_check_def split: if_splits)

lemma event_keys_ok:
  assumes "events_ok es" "r \<in> set es"
  shows "er_app r = Some k \<Longrightarrow> key_check k" "er_bundle r = Some k \<Longrightarrow> key_check k"
    "er_site r = Some k \<Longrightarrow> key_check k"
proof -
  have "event_row_check r" using assms by (auto simp: events_ok_def list_all_iff)
  then show "er_app r = Some k \<Longrightarrow> key_check k" "er_bundle r = Some k \<Longrightarrow> key_check k"
    "er_site r = Some k \<Longrightarrow> key_check k" by (simp_all add: event_row_check_def opt_ok_def)
qed

lemma fold_max_in: "fold max ks (k::'a::linorder) \<in> set (k # ks)"
  by (induction ks arbitrary: k) (auto simp: max_def)

lemma max_key_in: "max_key ks = Some k \<Longrightarrow> k \<in> set ks"
  using fold_max_in by (auto simp: max_key_def split: list.splits)

lemma listed_application:
  assumes "e \<in> set (ranked_apps s cutoff least)"
  obtains r where "r \<in> set (rs_events s)" "app_observed s cutoff r" "er_app r = Some (ae_app e)"
  using assms by (auto simp: ranked_apps_def Let_def app_entry_of_def set_map_filter)

lemma listed_bundle:
  assumes "e \<in> set (ranked_apps s cutoff least)" "ae_bundle e = Some b"
  obtains r where "r \<in> set (rs_events s)" "app_observed s cutoff r" "er_bundle r = Some b"
  using assms
  by (auto simp: ranked_apps_def Let_def app_entry_of_def set_map_filter dest!: max_key_in)

lemma listed_application_is_eligible:
  assumes "e \<in> set (ranked_apps s cutoff least)"
  shows "\<not> app_scope_identity_is_ineligible (ae_app e) (ae_bundle e) s"
proof -
  obtain r where r: "app_observed s cutoff r" "er_app r = Some (ae_app e)"
    using listed_application [OF assms] by blast
  have "\<not> list_ex (\<lambda>v. \<not> er_app_scope_eligible v \<and> er_bundle v = Some b) (rs_events s)"
    if b: "ae_bundle e = Some b" for b
  proof -
    obtain r' where "app_observed s cutoff r'" "er_bundle r' = Some b"
      using listed_bundle [OF assms b] by blast
    then show ?thesis by (auto simp: app_observed_def list_ex_iff)
  qed
  then show ?thesis using r
    by (cases "ae_bundle e") (auto simp: app_observed_def app_scope_identity_is_ineligible_def list_ex_iff)
qed

text \<open>A rule under an application's name takes every event of the application off the list.\<close>

lemma taught_application_is_unlisted:
  assumes "k \<in> pa_app_key_hash ` set (rs_app s)"
  shows "k \<notin> ae_app ` set (ranked_apps s cutoff least)"
proof
  assume "k \<in> ae_app ` set (ranked_apps s cutoff least)"
  then obtain e where e: "e \<in> set (ranked_apps s cutoff least)" "ae_app e = k" by blast
  obtain r where "app_observed s cutoff r" "er_app r = Some k"
    using listed_application [OF e(1)] e(2) by blast
  then show False using assms by (auto simp: app_observed_def app_taught_def list_ex_iff)
qed

lemma save_app_scope_override_outcome:
  assumes "apps_ok (rs_app s)" "key_check k" "opt_ok key_check bundle" "name_check name"
    and "\<not> app_scope_identity_is_ineligible k bundle s"
  obtains rows where "save_app_scope_override k bundle category name t s = (Inr (), s\<lparr>rs_app := rows\<rparr>)"
    "apps_ok rows" "k \<in> pa_app_key_hash ` set rows"
proof (rule that)
  let ?rows = "upsert_by pa_app_key_hash merge_app (new_app_rule k bundle category name True t)
    (alias_folded bundle k t (rs_app s))"
  show "save_app_scope_override k bundle category name t s = (Inr (), s\<lparr>rs_app := ?rows\<rparr>)"
    using upsert_app_scope_rule_outcome(1) [OF assms(1-4)] assms(5)
    by (simp add: save_app_scope_override_def atomically_def andthen_def guard_def)
  show "apps_ok ?rows" by (rule upsert_app_scope_rule_outcome(2) [OF assms(1-4)])
  show "k \<in> pa_app_key_hash ` set ?rows" by (simp add: upsert_by_key_set)
qed

text \<open>
  A listed application's own events are all generalizable, so only events of other names that
  share the bundle key can make its identity ineligible.
\<close>

definition barred_bundle :: "string option \<Rightarrow> rules \<Rightarrow> bool" where
  "barred_bundle bk s \<longleftrightarrow>
     (\<exists>v\<in>set (rs_events s). \<not> er_app_scope_eligible v \<and> bk \<noteq> None \<and> er_bundle v = bk)"

lemma listed_ineligible_iff:
  assumes "e \<in> set (ranked_apps s cutoff least)"
  shows "app_scope_identity_is_ineligible (ae_app e) bk s \<longleftrightarrow> barred_bundle bk s"
  using listed_application_is_eligible [OF assms]
  by (auto simp: app_scope_identity_is_ineligible_def barred_bundle_def list_ex_iff)

lemma read_bundle_ok:
  assumes "events_ok (rs_events s)" "unclassified_app_bundle_key k s = (Inr bk, s)"
  shows "opt_ok key_check bk"
proof (cases bk)
  case (Some b)
  then obtain r where "r \<in> set (rs_events s)" "er_bundle r = Some b"
    using assms(2) max_key_in
    by (fastforce simp: unclassified_app_bundle_key_def gets_def set_map_filter)
  then show ?thesis using Some event_keys_ok(2) [OF assms(1)] by (simp add: opt_ok_def)
qed (simp add: opt_ok_def)

text \<open>
  C31: When an application on the list can be taught. For a listed application whose key has the
  shape Velvt issues, a known category and an acceptable name, let the bundle key be the one the
  handler reads. If an event that cannot be generalized carries this bundle key, the handler is
  refused and changes nothing; in every other case, so always when the bundle key is the one the
  list found, it succeeds, writes nothing but application rules, and the application is on no
  later list, however long.
\<close>

theorem offered_application_can_be_taught:
  assumes inv: "store_inv s"
    and listed: "fst (every_unclassified_application lookback now s) = Inr entries" "e \<in> set entries"
    and request: "override_label_for_category category \<noteq> None" "list_all hex_char (ae_app e)"
      "normalized_local_activity_name activity = Some name"
    and read: "unclassified_app_bundle_key (ae_app e) s = (Inr bk, s)"
  shows "(if barred_bundle bk s
      then set_application_category (ae_app e) category activity t s = (persistence_failed, s)
      else \<exists>s' rows. set_application_category (ae_app e) category activity t s =
          (MenuSaying (application_acknowledgment name category), s')
        \<and> s' = s\<lparr>rs_app := rows\<rparr> \<and> apps_ok rows
        \<and> (\<forall>lookback' now' later. fst (every_unclassified_application lookback' now' s') = Inr later \<longrightarrow>
             ae_app e \<notin> ae_app ` set later))
    \<and> \<not> barred_bundle (ae_bundle e) s"
proof -
  have e: "e \<in> set (ranked_apps s (triage_cutoff lookback now) TRIAGE_MIN_SECONDS)"
    using listed by (auto simp: every_unclassified_application_def unclassified_applications_def
        gets_def limited_def)
  have tables: "apps_ok (rs_app s)" "events_ok (rs_events s)" using inv by (auto simp: store_inv_defs)
  obtain r where r: "r \<in> set (rs_events s)" "er_app r = Some (ae_app e)"
    using listed_application [OF e] by blast
  have key: "key_check (ae_app e)" by (rule event_keys_ok(1) [OF tables(2) r])
  have id: "normalized_app_stable_id (ae_app e) = Some (ae_app e)"
    using key request(2) by (simp add: normalized_app_stable_id_def key_check_def)
  note handler = set_application_category_def answer_def andthen_def or_none_def id read request
  have listed_fine: "\<not> barred_bundle (ae_bundle e) s"
    using listed_application_is_eligible [OF e] listed_ineligible_iff [OF e] by blast
  show ?thesis
  proof (cases "barred_bundle bk s")
    case True
    then have "save_app_scope_override (ae_app e) bk category name t s = (Inl AppScopeIneligible, s)"
      using listed_ineligible_iff [OF e]
      by (simp add: save_app_scope_override_def atomically_def andthen_def guard_def)
    then show ?thesis using True listed_fine by (simp add: handler del: override_label_for_category.simps)
  next
    case False
    then obtain rows where rows: "save_app_scope_override (ae_app e) bk category name t s =
        (Inr (), s\<lparr>rs_app := rows\<rparr>)" "apps_ok rows" "ae_app e \<in> pa_app_key_hash ` set rows"
      using save_app_scope_override_outcome [OF tables(1) key read_bundle_ok [OF tables(2) read]
          normalized_name_ok [OF request(3)]] listed_ineligible_iff [OF e] by metis
    have "set_application_category (ae_app e) category activity t s =
        (MenuSaying (application_acknowledgment name category), s\<lparr>rs_app := rows\<rparr>)"
      using rows(1) by (simp add: handler del: override_label_for_category.simps)
    moreover have "ae_app e \<notin> ae_app ` set (ranked_apps (s\<lparr>rs_app := rows\<rparr>) cutoff least)" for cutoff least
      by (rule taught_application_is_unlisted) (simp add: rows(3))
    ultimately show ?thesis using rows(2) False listed_fine
      by (auto simp: every_unclassified_application_def unclassified_applications_def gets_def limited_def)
  qed
qed

theorem offered_application_can_be_taught_witness:
  "\<exists>s'. set_application_category sample_key ''FOCUS_WORK'' None 5 sample_list =
      (MenuSaying (application_acknowledgment None ''FOCUS_WORK''), s')
    \<and> (\<forall>lookback now later. fst (every_unclassified_application lookback now s') = Inr later \<longrightarrow>
         sample_key \<notin> ae_app ` set later)"
proof -
  let ?e = "app_entry_of sample_list [sample_event] sample_key"
  have "fst (every_unclassified_application 7 sample_now sample_list) = Inr [?e]"
    by (simp add: every_unclassified_application_def unclassified_applications_def gets_def limited_def
        sample_cutoff sample_apps)
  moreover have "store_inv sample_list"
    by (simp add: store_inv_defs table_defs unique_by_def sample_list_def fresh_rules_def event_row_check_def
        sample_event_def name_check_def opt_ok_def key_check_def sample_key_def)
  moreover have "list_all hex_char (ae_app ?e)"
    unfolding sample_entry by (simp add: sample_key_def list_all_iff hex_char_def)
  moreover have "unclassified_app_bundle_key (ae_app ?e) sample_list = (Inr None, sample_list)"
    unfolding sample_entry
    by (simp add: unclassified_app_bundle_key_def gets_def sample_list_fields max_key_def sample_event_def)
  ultimately show ?thesis
    using offered_application_can_be_taught [where s = sample_list and lookback = 7 and now = sample_now
        and entries = "[?e]" and e = ?e and category = "''FOCUS_WORK''" and activity = None and name = None
        and bk = None and t = 5]
    by (auto simp: normalized_local_activity_name_def sample_entry barred_bundle_def)
qed

section \<open>Undo\<close>

lemma find_none_filter: "find p xs = None \<Longrightarrow> filter (\<lambda>x. \<not> p x) xs = xs"
  by (auto simp: find_None_iff intro!: filter_True)

lemma upsert_by_new: "key new \<notin> key ` set rows \<Longrightarrow> upsert_by key merge new rows = rows @ [new]"
  by (induction rows) auto

lemma alias_folded_new:
  assumes "\<And>b r. bundle = Some b \<Longrightarrow> r \<in> set rows \<Longrightarrow> pa_bundle_key_hash r \<noteq> Some b"
  shows "alias_folded bundle k t rows = rows"
proof (cases "bundle")
  case (Some b)
  then have free: "pa_bundle_key_hash r \<noteq> Some b" if "r \<in> set rows" for r using assms that by blast
  then have "rekey_alias b k t rows = rows" by (auto simp: rekey_alias_def intro: map_idI)
  then show ?thesis using Some free by (auto simp: alias_folded_def drop_alias_def intro!: filter_True)
qed (simp add: alias_folded_def)

lemma row_identity_in:
  assumes "row_identity rows = Some (k, b)"
  obtains r where "r \<in> set rows" "er_app r = Some k" "er_bundle r = b"
proof -
  obtain r rest where r: "filter (\<lambda>r. er_app r \<noteq> None \<and> er_app_scope_eligible r) rows = r # rest"
    "the (er_app r) = k" "er_bundle r = b"
    using assms by (auto simp: row_identity_def split: list.splits)
  then have "r \<in> set (filter (\<lambda>r. er_app r \<noteq> None \<and> er_app_scope_eligible r) rows)" by simp
  then show ?thesis using that r(2,3) by auto
qed

definition app_rung_written ::
  "(string \<times> string option) option \<Rightarrow> string \<Rightarrow> ustr option \<Rightarrow> int \<Rightarrow> app_rule list" where
  "app_rung_written identity category name t = (case identity of None \<Rightarrow> []
     | Some (k, bundle) \<Rightarrow> [new_app_rule k bundle category name False t])"

text \<open>The rung a first correction writes, when no rule claims either key of the application.\<close>

lemma save_personal_app_override_first:
  assumes ok: "apps_ok (rs_app s)" "events_ok (rs_events s)" and name: "name_check name"
    and first: "\<And>k bundle r. app_identity_for_event i s = Some (k, bundle) \<Longrightarrow> r \<in> set (rs_app s) \<Longrightarrow>
      pa_app_key_hash r \<noteq> k \<and> (bundle \<noteq> None \<longrightarrow> pa_bundle_key_hash r \<noteq> bundle)"
  shows "snd (save_personal_app_override i category name t s) =
    s\<lparr>rs_app := rs_app s @ app_rung_written (app_identity_for_event i s) category name t\<rparr>"
proof (cases "app_identity_for_event i s")
  case None
  then show ?thesis by (simp add: save_personal_app_override_def save_app_identity_def atomically_def
        andthen_def gets_def ret_def app_rung_written_def)
next
  case (Some id)
  obtain k bd where id: "id = (k, bd)" by (cases id)
  obtain r where r: "r \<in> set (rs_events s)" "er_app r = Some k" "er_bundle r = bd"
  proof -
    have "row_identity (filter (\<lambda>r. er_event_id r = i) (rs_events s)) = Some (k, bd)"
      using Some unfolding id app_identity_for_event_def eligible_app_identity_def
      by (auto split: option.splits prod.splits if_splits)
    from row_identity_in [OF this] show ?thesis using that by auto
  qed
  have keys: "key_check k" "opt_ok key_check bd"
    using event_keys_ok(1,2) [OF ok(2) r(1)] r(2,3) by (auto simp: opt_ok_def split: option.splits)
  have "alias_folded bd k t (rs_app s) = rs_app s"
    by (rule alias_folded_new) (use first Some id in auto)
  moreover have "k \<notin> pa_app_key_hash ` set (rs_app s)" using first Some id by auto
  ultimately have "upsert_app_scope_rule k bd category name False t s =
      (Inr (), s\<lparr>rs_app := rs_app s @ [new_app_rule k bd category name False t]\<rparr>)"
    using upsert_app_scope_rule_outcome(1) [OF ok(1) keys name, of category False t]
    by (simp add: upsert_by_new)
  then show ?thesis using Some id
    by (simp add: save_personal_app_override_def save_app_identity_def atomically_def andthen_def
        gets_def ret_def app_rung_written_def)
qed

lemma reclassify_keeps [simp]:
  "er_stable_id (reclassify_row i l c n r) = er_stable_id r" "er_app (reclassify_row i l c n r) = er_app r"
  by (simp_all add: reclassify_row_def)

lemma nameless_clears:
  assumes "m' \<in> set (map (nameless (\<lambda>r. am_stable_id r = i \<or> q r)) ms)" "am_stable_id m' = i"
  shows "am_display_name m' = None"
proof -
  obtain m0 where m0: "m' = nameless (\<lambda>r. am_stable_id r = i \<or> q r) m0" using assms(1) by auto
  then have "am_stable_id m0 = i" using assms(2) by simp
  then show ?thesis by (simp add: m0 nameless_def)
qed

lemma find_append_new: "(\<And>r. r \<in> set xs \<Longrightarrow> \<not> P r) \<Longrightarrow> P x \<Longrightarrow> find P (xs @ [x]) = Some x"
  by (induction xs) auto

text \<open>What an undo does to the rules, given the window rule it finds.\<close>

lemma remove_personal_override_outcome:
  assumes m: "find (\<lambda>r. am_stable_id r = i) (rs_map s) = Some m"
    and r: "find (\<lambda>r. po_key_hash r = am_key_hash m) (rs_window s) = Some r"
  obtains s' where "remove_classification_override i s = (MenuSaying (removal_acknowledgment True), s')"
    "rs_window s' = filter (\<lambda>r. po_key_hash r \<noteq> am_key_hash m) (rs_window s)"
    "rs_app s' = filter (\<lambda>a. \<not> (Some (pa_app_key_hash a) = po_app_key_hash r \<and> \<not> pa_app_only a)) (rs_app s)"
    "rs_site s' = rs_site s"
    "\<And>m'. m' \<in> set (rs_map s') \<Longrightarrow> am_stable_id m' = i \<Longrightarrow> am_display_name m' = None"
proof -
  define s' where "s' = snd (remove_personal_override i s)"
  have ex: "list_ex (\<lambda>r. po_key_hash r = am_key_hash m) (rs_window s)"
    using r by (auto simp: find_Some_iff list_ex_iff)
  have "fst (remove_personal_override i s) = Inr True"
    using m ex by (simp add: remove_personal_override_def Let_def)
  then have removed: "remove_personal_override i s = (Inr True, s')" by (simp add: s'_def prod_eq_iff)
  have s': "rs_window s' = filter (\<lambda>r. po_key_hash r \<noteq> am_key_hash m) (rs_window s)"
    "rs_app s' = filter (\<lambda>a. \<not> (Some (pa_app_key_hash a) = po_app_key_hash r \<and> \<not> pa_app_only a)) (rs_app s)"
    "rs_site s' = rs_site s"
    unfolding s'_def remove_personal_override_def Let_def clear_display_names_def
    by (simp_all add: m r)
  have p: "rs_map s' = map (nameless (\<lambda>r'. am_stable_id r' = i \<or> po_app_key_hash r \<noteq> None
      \<and> am_stable_id r' \<in> windows_where (\<lambda>v. er_app v = po_app_key_hash r) s)) (rs_map s)"
    unfolding s'_def remove_personal_override_def Let_def clear_display_names_def by (simp add: m r)
  have cleared: "am_display_name m' = None" if "m' \<in> set (rs_map s')" "am_stable_id m' = i" for m'
    using that unfolding p by (rule nameless_clears)
  show ?thesis
    by (rule that [OF _ s' cleared]) (simp_all add: remove_classification_override_def answer_def andthen_def
        ret_def removed)
qed

text \<open>
  C30: A correction can be undone. When a person corrects an event whose window had no rule and
  whose application had none under either of its keys, and the application rung the window
  rule records is the one the event names, removing the rule afterwards reports a removal and
  leaves the window, application and site rules exactly as they were before the correction.
\<close>

theorem correction_can_be_undone:
  assumes inv: "store_inv (dk_rules d)"
    and corrected: "correct_event_classification event_id i category activity t during_block signed_in d =
      (MenuSaying ack, d')"
    and m: "find (\<lambda>r. am_stable_id r = i) (rs_map (dk_rules d)) = Some m"
    and no_window_rule: "am_key_hash m \<notin> po_key_hash ` set (rs_window (dk_rules d))"
    and no_app_rule: "\<forall>r\<in>set (rs_app (dk_rules d)). case app_identity_for_event event_id (dk_rules d) of
      None \<Rightarrow> True | Some (k, b) \<Rightarrow> pa_app_key_hash r \<noteq> k \<and> (b \<noteq> None \<longrightarrow> pa_bundle_key_hash r \<noteq> b)"
    and rung: "paired_rung i (dk_rules d) = map_option fst (app_identity_for_event event_id (dk_rules d))"
  shows "\<exists>s'. remove_classification_override i (dk_rules d') =
      (MenuSaying (removal_acknowledgment True), s')
    \<and> rs_window s' = rs_window (dk_rules d) \<and> rs_app s' = rs_app (dk_rules d)
    \<and> rs_site s' = rs_site (dk_rules d)"
proof -
  let ?s = "dk_rules d" and ?id = "app_identity_for_event event_id (dk_rules d)"
  obtain label name where named: "normalized_local_activity_name activity = Some name"
    and label: "override_label_for_category category = Some label"
    using corrected by (auto simp: correct_event_classification_def simp del: override_label_for_category.simps
        split: option.splits)
  let ?s1 = "?s\<lparr>rs_app := rs_app ?s @ app_rung_written ?id category name t\<rparr>"
  have tables: "apps_ok (rs_app ?s)" "events_ok (rs_events ?s)" using inv by (auto simp: store_inv_defs)
  have s1: "snd (save_personal_app_override event_id category name t ?s) = ?s1"
    by (rule save_personal_app_override_first [OF tables normalized_name_ok [OF named]])
      (use no_app_rule in fastforce)
  have inv1: "store_inv ?s1"
    using inv_save_personal_app(1) [of event_id category name t] inv s1
    by (metis obeysD keeping_def)
  obtain s2 where save: "save_personal_override i category name t ?s1 = (Inr (), s2)"
    and rules': "rs_window (dk_rules d') = rs_window s2" "rs_app (dk_rules d') = rs_app s2"
      "rs_site (dk_rules d') = rs_site s2" "rs_map (dk_rules d') = rs_map s2"
    using corrected
    by (auto simp: correct_event_classification_def named label best_effort_def s1 save_locally_def
        andthen_def update_classification_def write_rows_def persistence_failed_def Let_def
        simp del: override_label_for_category.simps split: prod.splits sum.splits if_splits)
  let ?rule = "\<lparr>po_key_hash = am_key_hash m, po_category = category, po_activity_name = name,
     po_app_key_hash = paired_rung i ?s1, po_updated_at = t\<rparr>"
  obtain m1 wrows prows where m1: "find (\<lambda>r. am_stable_id r = i) (rs_map ?s1) = Some m1"
    and wrows: "wrows = upsert_by po_key_hash merge_window \<lparr>po_key_hash = am_key_hash m1,
       po_category = category, po_activity_name = name, po_app_key_hash = paired_rung i ?s1,
       po_updated_at = t\<rparr> (rs_window ?s1)"
    and s2: "s2 = trim_prototypes category (?s1\<lparr>rs_window := wrows, rs_prototypes := prows\<rparr>)"
    using save_personal_override_outcome [OF inv1 save] by blast
  have w: "rs_window (dk_rules d') = rs_window ?s @ [?rule]"
    using m m1 wrows no_window_rule by (simp add: rules' s2 upsert_by_new)
  have a: "rs_app (dk_rules d') = rs_app ?s @ app_rung_written ?id category name t"
    by (simp add: rules' s2)
  have "paired_rung i ?s1 = paired_rung i ?s"
    by (simp add: paired_rung_def app_scope_identity_is_ineligible_def)
  then have paired: "po_app_key_hash ?rule = map_option fst ?id" using rung by simp
  have other: "po_key_hash r \<noteq> am_key_hash m" if "r \<in> set (rs_window ?s)" for r
    using no_window_rule that by (metis image_eqI)
  have found: "find (\<lambda>r. po_key_hash r = am_key_hash m) (rs_window (dk_rules d')) = Some ?rule"
    unfolding w by (rule find_append_new) (use other in auto)
  have map': "find (\<lambda>r. am_stable_id r = i) (rs_map (dk_rules d')) = Some m"
    using m by (simp add: rules' s2)
  obtain s' where s': "remove_classification_override i (dk_rules d') =
      (MenuSaying (removal_acknowledgment True), s')"
    "rs_window s' = filter (\<lambda>r. po_key_hash r \<noteq> am_key_hash m) (rs_window (dk_rules d'))"
    "rs_app s' = filter (\<lambda>a. \<not> (Some (pa_app_key_hash a) = po_app_key_hash ?rule \<and> \<not> pa_app_only a))
       (rs_app (dk_rules d'))" "rs_site s' = rs_site (dk_rules d')"
    using remove_personal_override_outcome [OF map' found] by blast
  have "rs_window s' = rs_window ?s"
    using other by (auto simp: s'(2) w intro!: filter_True)
  moreover have "rs_app s' = rs_app ?s"
    using no_app_rule paired
    by (auto simp: s'(3) a app_rung_written_def split: option.splits intro!: filter_True)
  moreover have "rs_site s' = rs_site ?s" by (simp add: s'(4) rules' s2)
  ultimately show ?thesis using s'(1) by blast
qed

definition sample_mapping :: mapping where
  "sample_mapping = \<lparr>am_key_hash = replicate 64 CHR ''d'', am_stable_id = ''abs_1'', am_label = ''unlogged'',
     am_category = ''UNLOGGED'', am_taxonomy_version = ''1'', am_tier = ''fallback'',
     am_status = ''unclassified'', am_confidence = ''none'', am_source = ''fallback'',
     am_display_name = None, am_updated_at = 0\<rparr>"

definition sample_desk :: desk where
  "sample_desk = \<lparr>dk_rules = sample_list\<lparr>rs_map := [sample_mapping]\<rparr>, dk_upload = empty_upload, dk_patches = []\<rparr>"

lemma sample_identity:
  "app_identity_for_event ''e1'' (dk_rules sample_desk) = Some (sample_key, None)"
  "paired_rung ''abs_1'' (dk_rules sample_desk) = Some sample_key"
  by (simp_all add: sample_desk_def app_identity_for_event_def paired_rung_def eligible_app_identity_def
      row_identity_def app_scope_identity_is_ineligible_def latest_first_def sample_list_fields sample_event_def
      sample_list_def fresh_rules_def)

lemma sample_desk_inv: "store_inv (dk_rules sample_desk)"
  by (simp add: store_inv_defs table_defs unique_by_def sample_desk_def sample_list_def fresh_rules_def
      event_row_check_def sample_event_def name_check_def opt_ok_def key_check_def sample_key_def
      sample_mapping_def mapping_check_def)

lemma sample_correction: "\<exists>d'. correct_event_classification ''e1'' ''abs_1'' ''FOCUS_WORK'' None 5 False False sample_desk =
  (MenuSaying (correction_acknowledgment None ''FOCUS_WORK'' False), d')"
proof -
  have "snd (save_personal_app_override ''e1'' ''FOCUS_WORK'' None 5 (dk_rules sample_desk)) =
      dk_rules sample_desk\<lparr>rs_app := [new_app_rule sample_key None ''FOCUS_WORK'' None False 5]\<rparr>"
    using save_personal_app_override_first [where s = "dk_rules sample_desk" and i = "''e1''" and name = None
        and category = "''FOCUS_WORK''" and t = 5] sample_desk_inv
    by (simp add: sample_identity store_inv_defs name_check_def opt_ok_def app_rung_written_def)
      (simp add: sample_desk_def sample_list_fields)
  then show ?thesis
    by (simp add: correct_event_classification_def normalized_local_activity_name_def best_effort_def Let_def
      save_locally_def save_personal_override_def update_classification_def atomically_def andthen_def gets_def
      modify_def write_rows_def learn_prototype_def sample_desk_def sample_list_def fresh_rules_def
      sample_mapping_def sample_event_def reclassify_row_def events_ok_def windows_ok_def window_check_def
      event_row_check_def name_check_def opt_ok_def key_check_def sample_key_def unique_by_def
      paired_rung_def latest_first_def app_scope_identity_is_ineligible_def
      update_event_classification_def empty_upload_def event_ids_def io_def)
qed

theorem correction_can_be_undone_witness:
  "\<exists>d' s'. correct_event_classification ''e1'' ''abs_1'' ''FOCUS_WORK'' None 5 False False sample_desk =
      (MenuSaying (correction_acknowledgment None ''FOCUS_WORK'' False), d')
    \<and> remove_classification_override ''abs_1'' (dk_rules d') = (MenuSaying (removal_acknowledgment True), s')
    \<and> rs_window s' = [] \<and> rs_app s' = []"
proof -
  obtain d' where d': "correct_event_classification ''e1'' ''abs_1'' ''FOCUS_WORK'' None 5 False False sample_desk =
      (MenuSaying (correction_acknowledgment None ''FOCUS_WORK'' False), d')" using sample_correction by blast
  have fields: "rs_window (dk_rules sample_desk) = []" "rs_app (dk_rules sample_desk) = []"
    "find (\<lambda>r. am_stable_id r = ''abs_1'') (rs_map (dk_rules sample_desk)) = Some sample_mapping"
    by (simp_all add: sample_desk_def sample_list_def fresh_rules_def sample_mapping_def)
  show ?thesis
    using correction_can_be_undone [OF sample_desk_inv d' fields(3)] d' by (auto simp: fields sample_identity)
qed

section \<open>The correction history\<close>

lemma window_records_once:
  assumes "store_inv s"
  shows "map (\<lambda>r. (rr_scope r, rr_category r, rr_updated_at r)) (window_records s) =
    map (\<lambda>r. (WindowScope, po_category r, po_updated_at r)) (rs_window s)"
proof -
  have maps: "distinct (map am_key_hash (rs_map s))" and
    anchored: "\<And>r. r \<in> set (rs_window s) \<Longrightarrow> po_key_hash r \<in> am_key_hash ` set (rs_map s)"
    using assms by (auto simp: store_inv_defs mappings_ok_def)
  have one: "\<exists>m. filter (\<lambda>m. am_key_hash m = k) ms = [m]"
    if "distinct (map am_key_hash ms)" "k \<in> am_key_hash ` set ms" for k and ms :: "mapping list"
    using that
  proof (induction ms)
    case (Cons m ms)
    show ?case
    proof (cases "am_key_hash m = k")
      case True
      then have "filter (\<lambda>m. am_key_hash m = k) ms = []"
        using Cons.prems(1) by (simp add: filter_empty_conv) (metis image_eqI)
      then show ?thesis using True by simp
    qed (use Cons in auto)
  qed simp
  have "map (\<lambda>r. (rr_scope r, rr_category r, rr_updated_at r)) (concat (map (\<lambda>r. map (\<lambda>m.
       \<lparr>rr_scope = WindowScope, rr_stable_id = am_stable_id m, rr_label = am_label m,
        rr_local_label = coalesce (po_activity_name r) (am_display_name m),
        rr_category = po_category r, rr_updated_at = po_updated_at r\<rparr>)
     (filter (\<lambda>m. am_key_hash m = po_key_hash r) (rs_map s))) ws)) =
    map (\<lambda>r. (WindowScope, po_category r, po_updated_at r)) ws"
    if "\<And>r. r \<in> set ws \<Longrightarrow> po_key_hash r \<in> am_key_hash ` set (rs_map s)" for ws
    using that
  proof (induction ws)
    case (Cons r ws)
    obtain m where "filter (\<lambda>m. am_key_hash m = po_key_hash r) (rs_map s) = [m]"
      using one [OF maps] Cons.prems by fastforce
    then show ?case using Cons by simp
  qed simp
  from this [OF anchored] show ?thesis by (simp add: window_records_def)
qed

lemma take_drop_pages:
  "concat (map (\<lambda>j. take p (drop (j * p) xs)) [0..<n]) = take (n * p) xs"
  by (induction n) (simp_all flip: take_add add: add.commute)

text \<open>
  The history shows every rule once. In a store that satisfies its invariant, with no
  query, the reported total is the number of window rules, of application rules taught in
  their own right and of site rules, so no window rule is lost for want of its mapping; and the
  pages of any size up to twenty, read one after the other, are the whole listing in order,
  newest change first.
\<close>

theorem history_shows_every_rule_once:
  assumes inv: "store_inv s" and size: "1 \<le> p" "p \<le> 20"
    and enough: "length (rule_source s) \<le> n * p"
  shows "\<exists>pages. (\<forall>j<n. fst (search_personal_overrides None (j * p) p s) =
        Inr (pages j, length (rs_window s) + length (filter pa_app_only (rs_app s)) + length (rs_site s)))
    \<and> mset (concat (map pages [0..<n])) = mset (rule_source s)
    \<and> sorted_wrt (\<lambda>x y. rr_updated_at y \<le> rr_updated_at x) (concat (map pages [0..<n]))"
proof -
  let ?all = "sort_key (\<lambda>r. (- rr_updated_at r, rr_stable_id r)) (rule_source s)"
  have "length (window_records s) = length (rs_window s)"
    using arg_cong [OF window_records_once [OF inv], of length] by simp
  then have total: "length (rule_source s) =
      length (rs_window s) + length (filter pa_app_only (rs_app s)) + length (rs_site s)"
    by (simp add: rule_source_def)
  have page: "fst (search_personal_overrides None (j * p) p s) =
      Inr (take p (drop (j * p) ?all), length (rule_source s))" for j
    using size by (simp add: search_personal_overrides_def gets_def Let_def clean_query_def rule_filter_def)
  have all: "concat (map (\<lambda>j. take p (drop (j * p) ?all)) [0..<n]) = ?all"
    using enough by (simp add: take_drop_pages)
  have "sorted (map (\<lambda>r. (- rr_updated_at r, rr_stable_id r)) ?all)" by (rule sorted_sort_key)
  then have "sorted_wrt (\<lambda>x y. rr_updated_at y \<le> rr_updated_at x) ?all"
    unfolding sorted_map by (rule sorted_wrt_mono_rel [rotated]) (auto simp: less_eq_prod_def)
  then show ?thesis using page total all
    by (intro exI [of _ "\<lambda>j. take p (drop (j * p) ?all)"]) simp
qed

theorem history_shows_every_rule_once_witness:
  "\<exists>pages. fst (search_personal_overrides None 0 20 sample_store) = Inr (pages, 1)
    \<and> mset pages = mset (rule_source sample_store)"
proof -
  have inv: "store_inv sample_store"
    by (simp add: store_inv_defs table_defs unique_by_def sample_store_def sample_rule_def fresh_rules_def
        new_app_rule_def app_check_def name_check_def opt_ok_def key_check_def)
  have fields: "rs_window sample_store = []" "rs_app sample_store = [sample_rule]" "rs_site sample_store = []"
    "pa_app_only sample_rule" by (simp_all add: sample_store_def fresh_rules_def sample_rule_def new_app_rule_def)
  then have "length (rule_source sample_store) \<le> 1 * 20" by (simp add: rule_source_def window_records_def)
  from history_shows_every_rule_once [OF inv _ _ this] fields show ?thesis by auto
qed

section \<open>Stored embeddings\<close>

lemma from_to_le_bytes [simp]: "from_le_bytes (to_le_bytes w) = w"
proof (rule bit_word_eqI)
  fix n assume "n < LENGTH(32)"
  then have n: "n < 32" by simp
  consider "n < 8" | "8 \<le> n" "n < 16" | "16 \<le> n" "n < 24" | "24 \<le> n" "n < 32" using n by linarith
  then show "bit (from_le_bytes (to_le_bytes w)) n = bit w n"
    by cases (auto simp: to_le_bytes_def bit_simps dest: bit_imp_le_length)
qed

lemma to_from_le_bytes: "to_le_bytes (from_le_bytes [a, b, c, d]) = [a, b, c, d]"
  unfolding to_le_bytes_def
  by (simp, intro conjI; rule bit_word_eqI; auto simp: bit_simps dest: bit_imp_le_length)

lemma chunks_of_bytes: "map from_le_bytes (chunks_exact4 (concat (map to_le_bytes e))) = e"
proof (induction e)
  case (Cons w e)
  have "chunks_exact4 (to_le_bytes w @ bs) = to_le_bytes w # chunks_exact4 bs" for bs
    by (simp add: to_le_bytes_def)
  then show ?case using Cons by simp
qed simp

lemma bytes_of_chunks: "length bs = n * 4 \<Longrightarrow>
  concat (map to_le_bytes (map from_le_bytes (chunks_exact4 bs))) = bs"
proof (induction bs arbitrary: n rule: chunks_exact4.induct)
  case (1 a b c d bs)
  then have "length bs = (n - 1) * 4" by simp
  then show ?case using 1 by (simp add: to_from_le_bytes del: from_le_bytes.simps)
qed (simp_all, presburger+)

lemma collect_finite_eq:
  "collect_finite vs = (if list_all is_finite vs then Inr vs else Inl InvalidSemanticEmbedding)"
  by (induction vs) auto

lemma length_bytes: "length (concat (map to_le_bytes e)) = length e * 4"
  by (induction e) (simp_all add: to_le_bytes_def)

lemma length_chunks: "length (chunks_exact4 bs) = length bs div 4"
  by (induction bs rule: chunks_exact4.induct) auto

text \<open>
  A stored embedding reads back bit for bit, and nothing else does: the bytes an embedding
  is stored as decode, at its own length, to exactly that embedding, and any bytes that decode
  at all are the ones their embedding is stored as.
\<close>

theorem embedding_round_trip:
  "encode_embedding e = Some bytes \<longleftrightarrow> decode_embedding bytes (length e) = Inr e"
proof
  assume "encode_embedding e = Some bytes"
  then have e: "e \<noteq> []" "length e \<le> 1024" "list_all is_finite e" "bytes = concat (map to_le_bytes e)"
    by (auto simp: encode_embedding_def list_ex_iff list_all_iff split: if_splits)
  then show "decode_embedding bytes (length e) = Inr e"
    by (simp add: decode_embedding_def length_bytes chunks_of_bytes collect_finite_eq)
next
  assume dec: "decode_embedding bytes (length e) = Inr e"
  then have e: "e \<noteq> []" "length e \<le> 1024" "length bytes = length e * 4"
    "e = map from_le_bytes (chunks_exact4 bytes)" "list_all is_finite e"
    by (auto simp: decode_embedding_def collect_finite_eq split: if_splits)
  then have "concat (map to_le_bytes e) = bytes" using bytes_of_chunks [OF e(3)] by simp
  then show "encode_embedding e = Some bytes"
    using e(1,2,5) by (auto simp: encode_embedding_def list_ex_iff list_all_iff)
qed

end
