(* ===== verification/Rule_Runs.thy ===== *)
theory Rule_Runs
  imports Rules_Invariant Prompt_Properties Corrections Upload_Properties
begin

text \<open>
  The rule store over whole runs: a step is one correction message, or one call that ingest, the
  classification engine or the retention worker makes, and every desk reached from an empty
  store satisfies the invariant of the rules and of the needs-a-category ledger.
\<close>

section \<open>Steps\<close>

datatype store_call =
    InsertEvent event_row
  | DeleteBefore instant
  | ResolveId mapping
  | CountClassification string string
  | RecordClassifierUse string
  | RecordSiteName string string instant
  | RecordEmbedding string "f32 list" int
  | EmbeddingSalt "byte list"
  | StableKeySalt "byte list"
  | SweepEmbeddings "embedding_row list \<Rightarrow> embedding_row list" instant nat
  | SweepMappings instant nat
  | SweepSiteNames instant nat
  | SweepPromptEntries instant nat
  | SweepReminders instant nat

fun run_store_call :: "store_call \<Rightarrow> rules \<Rightarrow> rules" where
  "run_store_call (InsertEvent r) = best_effort (insert_event r)"
| "run_store_call (DeleteBefore cutoff) = best_effort (delete_before cutoff)"
| "run_store_call (ResolveId m) = best_effort (resolve_id m)"
| "run_store_call (CountClassification v tier) = best_effort (increment_classification_count v tier)"
| "run_store_call (RecordClassifierUse v) = best_effort (record_classifier_use v)"
| "run_store_call (RecordSiteName i h seen) = best_effort (record_local_site_name i h seen)"
| "run_store_call (RecordEmbedding k e t) = best_effort (record_embedding k e t)"
| "run_store_call (EmbeddingSalt minted) = best_effort (embedding_salt minted)"
| "run_store_call (StableKeySalt minted) = best_effort (stable_key_salt minted)"
| "run_store_call (SweepEmbeddings visit cutoff n) = best_effort (delete_expired_semantic_embeddings visit cutoff n)"
| "run_store_call (SweepMappings cutoff n) = best_effort (delete_expired_mappings cutoff n)"
| "run_store_call (SweepSiteNames cutoff n) = best_effort (delete_expired_site_names cutoff n)"
| "run_store_call (SweepPromptEntries cutoff n) = best_effort (delete_expired_entries cutoff n)"
| "run_store_call (SweepReminders cutoff n) = best_effort (delete_expired_notifications cutoff n)"

inductive desk_step :: "desk \<Rightarrow> desk \<Rightarrow> bool" where
  message: "desk_step d (snd (route_correction v msg d))"
| call: "desk_step d (d\<lparr>dk_rules := run_store_call c (dk_rules d)\<rparr>)"

inductive_cases desk_stepE: "desk_step d d'"

section \<open>The ledger's own invariant\<close>

definition ledger_inv :: "rules \<Rightarrow> bool" where
  "ledger_inv s \<longleftrightarrow> ledger_ok s \<and> two_cards s"

definition ledger_of :: "rules \<Rightarrow> prompt_entry list \<times> card_entry list \<times> reminder list" where
  "ledger_of s = (rs_prompt_entries s, rs_card_entries s, rs_reminders s)"

lemma ledger_inv_cong: "ledger_of s = ledger_of t \<Longrightarrow> ledger_inv s = ledger_inv t"
  by (simp add: ledger_of_def ledger_inv_def ledger_ok_def two_cards_def)

text \<open>Operations that leave the ledger's tables alone.\<close>

definition same_ledger :: "rules \<Rightarrow> rules \<Rightarrow> bool" where
  "same_ledger s t \<longleftrightarrow> ledger_of t = ledger_of s"

interpretation off_ledger: evolution same_ledger
  by unfold_locales (simp_all add: same_ledger_def)

lemma off_ledger_inv:
  assumes "obeys same_ledger m"
  shows "obeys (keeping ledger_inv) m"
proof (rule obeysI)
  fix s
  have "ledger_of (snd (m s)) = ledger_of s" using obeysD [OF assms, of s] by (simp add: same_ledger_def)
  from ledger_inv_cong [OF this] show "keeping ledger_inv s (snd (m s))" by (simp add: keeping_def)
qed

lemma off_ledger_atomically:
  assumes "obeys same_ledger m"
  shows "obeys same_ledger (atomically m)"
proof (rule obeysI)
  fix s
  show "same_ledger s (snd (atomically m s))"
    using obeysD [OF assms, of s]
    by (auto simp: atomically_def off_ledger.refl split: prod.splits sum.splits)
qed

lemma off_ledger_as_store_error:
  assumes "obeys same_ledger m"
  shows "obeys same_ledger (as_store_error m)"
proof (rule obeysI)
  fix s
  show "same_ledger s (snd (as_store_error m s))"
    using obeysD [OF assms, of s] by (auto simp: as_store_error_def split: prod.splits sum.splits)
qed

lemma off_ledger_calls:
  "obeys same_ledger (insert_event r)"
  "obeys same_ledger (update_classification i l c n)"
  "obeys same_ledger (delete_before cutoff)"
  "obeys same_ledger (upsert_mapping m)"
  "obeys same_ledger (increment_classification_count v tier)"
  "obeys same_ledger (record_classifier_use v)"
  "obeys same_ledger (upsert_site_rule keep k c n t')"
  "obeys same_ledger (learn_prototype k c t')"
  "obeys same_ledger (embedding_salt minted)"
  "obeys same_ledger (remove_app_scope_override k)"
  "obeys same_ledger (remove_site_scope_override k)"
  "obeys same_ledger (remove_personal_override i)"
  "obeys same_ledger reset_personal_overrides"
  "obeys same_ledger (delete_expired_semantic_embeddings visit cutoff l')"
  "obeys same_ledger (delete_expired_mappings cutoff l')"
  "obeys same_ledger (delete_expired_site_names cutoff l')"
  "obeys same_ledger (guard e p)"
  "obeys same_ledger (\<lambda>s. write_rows apps_ok rs_app_update (f s) s)"
  "obeys same_ledger (\<lambda>s. write_rows windows_ok rs_window_update (g s) s)"
  "obeys same_ledger (\<lambda>s. write_rows cache_ok rs_cache_update (h s) s)"
  "obeys same_ledger (\<lambda>s. write_rows site_names_ok rs_site_names_update (n' s) s)"
  by (simp_all add: obeys_def same_ledger_def ledger_of_def insert_event_def update_classification_def delete_before_def
      upsert_mapping_def write_rows_def increment_classification_count_def record_classifier_use_def
      upsert_site_rule_def learn_prototype_def embedding_salt_def atomically_def
      remove_app_scope_override_def remove_site_scope_override_def remove_personal_override_def
      reset_personal_overrides_def delete_expired_semantic_embeddings_def delete_expired_mappings_def
      delete_expired_site_names_def clear_display_names_def guard_def op_simps Let_def
      split: option.splits)

lemma off_ledger_apps:
  "obeys same_ledger (upsert_app_scope_rule k b c n ao t)"
  unfolding upsert_app_scope_rule_def fold_alias_def
  by (intro off_ledger.rules off_ledger_calls) (simp add: same_ledger_def ledger_of_def)

lemma off_ledger_rules:
  "obeys same_ledger (save_app_identity identity c n t)"
  "obeys same_ledger (save_app_scope_override k b c n t)"
  "obeys same_ledger (save_site_scope_override k c n t)"
  "obeys same_ledger (edit_site_scope_override k c n t)"
  "obeys same_ledger (save_personal_override i c n t)"
  "obeys same_ledger (resolve_id m)"
  "obeys same_ledger (record_embedding k e t)"
  "obeys same_ledger (record_local_site_name i' h' seen)"
  unfolding save_app_identity_def save_app_scope_override_def save_site_scope_override_def
    edit_site_scope_override_def save_personal_override_def resolve_id_def record_embedding_def
    record_local_site_name_def
  by (auto intro!: off_ledger_atomically off_ledger_as_store_error off_ledger.rules off_ledger_calls
      off_ledger_apps split: prod.splits
      simp: same_ledger_def ledger_of_def clear_display_names_def trim_prototypes_def trim_cache_def)

section \<open>What the ledger's operations keep\<close>

definition rules_lawful :: "rules \<Rightarrow> bool" where
  "rules_lawful s \<longleftrightarrow> store_inv s \<and> ledger_inv s"

lemma lawful_op:
  assumes "obeys (keeping store_inv) m" "obeys (keeping ledger_inv) m"
  shows "obeys (keeping rules_lawful) m"
  using assms by (simp add: obeys_def keeping_def rules_lawful_def)

lemma ledger_inv_op:
  assumes "obeys (keeping ledger_ok) m" "obeys (keeping two_cards) m"
  shows "obeys (keeping ledger_inv) m"
  using assms by (simp add: obeys_def keeping_def ledger_inv_def)

lemma keeping_op: "(\<And>s. P s \<Longrightarrow> P (snd (m s))) \<Longrightarrow> obeys (keeping P) m"
  by (simp add: obeys_def keeping_def)

lemma list_entry_lawful: "obeys (keeping rules_lawful) (list_entry k t)"
proof (rule lawful_op)
  show "obeys (keeping store_inv) (list_entry k t)"
    by (rule inv_op) (auto simp: list_entry_def write_rows_def store_inv_defs)
  show "obeys (keeping ledger_inv) (list_entry k t)"
  proof (rule keeping_op)
    fix s assume inv: "ledger_inv s"
    have "cards_ok (listed_rows k t (rs_prompt_entries s)) (rs_card_entries s)"
      by (rule cards_ok_more [of "rs_prompt_entries s"])
        (use inv in \<open>auto simp: ledger_inv_def ledger_ok_def listed_rows_keys\<close>)
    then show "ledger_inv (snd (list_entry k t s))" using inv
      by (simp add: list_entry_def write_rows_def ledger_inv_def ledger_ok_def two_cards_def)
  qed
qed

lemma record_keys_lawful: "obeys (keeping rules_lawful) (record_keys ks t)"
  by (induction ks) (auto intro!: keeping.rules list_entry_lawful)

lemma write_cards_keeps:
  "obeys (keeping store_inv) (\<lambda>s. write_cards (f s) s)"
  "obeys (keeping ledger_ok) (\<lambda>s. write_cards (f s) s)"
  by (auto simp: obeys_def keeping_def write_cards_def write_rows_def store_inv_defs ledger_ok_def)

lemma file_keeps:
  assumes "\<And>f. obeys (keeping P) (\<lambda>s. write_cards (f s) s)"
  shows "obeys (keeping P) (file_counted p ks)" "obeys (keeping P) (file_uncounted p ks)"
proof -
  have skip: "obeys (keeping P) (\<lambda>s. if b s then (Inr (), s) else write_cards (f s) s)" for b f
    using assms [of f] by (simp add: obeys_def keeping_def)
  show "obeys (keeping P) (file_counted p ks)"
    by (induction ks) (auto intro!: keeping.rules assms)
  show "obeys (keeping P) (file_uncounted p ks)"
    by (induction ks) (auto intro!: keeping.rules skip)
qed

text \<open>Filing a card adds rows of that card only, so the table never holds three.\<close>

definition card_ids :: "rules \<Rightarrow> string set" where
  "card_ids s = cc_prompt_id ` set (rs_card_entries s)"

definition files_only :: "string \<Rightarrow> rules \<Rightarrow> rules \<Rightarrow> bool" where
  "files_only p s t \<longleftrightarrow> card_ids t \<subseteq> insert p (card_ids s)"

interpretation files_only: evolution "files_only p"
  unfolding files_only_def by unfold_locales blast+

lemma file_adds_one_card:
  "obeys (files_only p) (file_counted p ks)" "obeys (files_only p) (file_uncounted p ks)"
proof -
  have add: "obeys (files_only p) (\<lambda>s. write_cards (rs_card_entries s @ [card_row p k c]) s)"
    "obeys (files_only p) (\<lambda>s. if b s then (Inr (), s) else write_cards (rs_card_entries s @ [card_row p k c]) s)"
    for k c b by (auto simp: obeys_def files_only_def card_ids_def write_cards_def write_rows_def card_row_def)
  show "obeys (files_only p) (file_counted p ks)"
    by (induction ks) (auto intro!: files_only.rules add)
  show "obeys (files_only p) (file_uncounted p ks)"
    by (induction ks) (auto intro!: files_only.rules add)
qed

lemma two_cards_within:
  assumes "card_ids t \<subseteq> {a, b}"
  shows "two_cards t"
  using card_mono [OF _ assms] card_length [of "[a, b]"] by (simp add: two_cards_def card_ids_def)

lemma card_for_two_cards: "obeys (keeping two_cards) (card_for minted ck uk)"
proof (rule keeping_op)
  fix s assume two: "two_cards s"
  let ?l = "latest_card (rs_card_entries s)"
  show "two_cards (snd (card_for minted ck uk s))"
  proof (cases "?l \<noteq> None \<and> counted_by ?l (rs_card_entries s) = set ck")
    case True
    then obtain l where l: "?l = Some l" by auto
    then have "l \<in> card_ids s" by (auto simp: latest_card_def card_ids_def split: if_splits)
    then have sub: "card_ids (snd (file_uncounted l uk s)) \<subseteq> card_ids s"
      using obeysD [OF file_adds_one_card(2), of l s uk] by (auto simp: files_only_def insert_absorb)
    have "finite (card_ids s)" by (simp add: card_ids_def)
    from card_mono [OF this sub] have "two_cards (snd (file_uncounted l uk s))"
      using two unfolding two_cards_def card_ids_def by linarith
    then show ?thesis using True l two
      by (auto simp: card_for_def atomically_def andthen_def gets_def ret_def split: prod.splits sum.splits)
  next
    case False
    let ?s1 = "s\<lparr>rs_card_entries := filter (\<lambda>r. Some (cc_prompt_id r) = ?l) (rs_card_entries s)\<rparr>"
    let ?m = "andthen (file_counted minted ck) (\<lambda>_. andthen (file_uncounted minted uk) (\<lambda>_. ret minted))"
    have "card_for minted ck uk s = (case ?m ?s1 of (Inl e, _) \<Rightarrow> (Inl e, s) | (Inr a, t) \<Rightarrow> (Inr a, t))"
      using False unfolding card_for_def atomically_def
      by (auto simp: op_simps andthen_assoc)
    moreover have "obeys (files_only minted) ?m"
      by (intro files_only.andthen file_adds_one_card files_only.ret)
    then have "card_ids (snd (?m ?s1)) \<subseteq> insert minted (card_ids ?s1)"
      unfolding files_only_def [symmetric] by (rule obeysD)
    moreover have "card_ids ?s1 \<subseteq> {case ?l of None \<Rightarrow> minted | Some l \<Rightarrow> l}"
      by (auto simp: card_ids_def split: option.splits)
    ultimately have "two_cards (snd (?m ?s1))"
      by (intro two_cards_within [of _ minted "case ?l of None \<Rightarrow> minted | Some l \<Rightarrow> l"]) blast
    then show ?thesis using two \<open>card_for minted ck uk s = _\<close>
      by (auto split: prod.splits sum.splits)
  qed
qed

lemma card_for_lawful: "obeys (keeping rules_lawful) (card_for minted ck uk)"
proof -
  have drop: "keeping store_inv s (s\<lparr>rs_card_entries := filter q (rs_card_entries s)\<rparr>)"
    "keeping ledger_ok s (s\<lparr>rs_card_entries := filter q (rs_card_entries s)\<rparr>)" for s q
    by (auto simp: keeping_def store_inv_defs ledger_ok_def cards_ok_filter)
  have "obeys (keeping store_inv) (card_for minted ck uk)" "obeys (keeping ledger_ok) (card_for minted ck uk)"
    unfolding card_for_def
    by (intro obeys_atomically keeping.rules file_keeps write_cards_keeps drop)+
  then show ?thesis by (intro lawful_op ledger_inv_op card_for_two_cards)
qed

lemma claim_notification_lawful: "obeys (keeping rules_lawful) (claim_notification d keys n v now)"
proof -
  have post: "obeys (keeping rules_lawful) (write_rows reminders_ok rs_reminders_update rows)" for rows
    by (rule keeping_op) (auto simp: write_rows_def rules_lawful_def store_inv_defs ledger_inv_def ledger_ok_def two_cards_def)
  have stamp: "keeping rules_lawful s (s\<lparr>rs_prompt_entries := map (notified keys t) (rs_prompt_entries s)\<rparr>)" for s t
    using ledger_ok_notified [of s keys t]
    by (auto simp: keeping_def rules_lawful_def store_inv_defs ledger_inv_def two_cards_def)
  have claim: "obeys (keeping rules_lawful) (andthen (write_rows reminders_ok rs_reminders_update rows) (\<lambda>_.
      andthen (modify (\<lambda>s. s\<lparr>rs_prompt_entries := map (notified keys (timestamp now)) (rs_prompt_entries s)\<rparr>))
        (\<lambda>_. ret True)))" for rows
    by (intro keeping.rules post stamp)
  show ?thesis unfolding claim_notification_def
    by (rule obeys_atomically, rule keeping_op)
      (use claim in \<open>auto simp: obeys_def keeping_def\<close>)
qed

lemma evaluate_lawful: "obeys (keeping rules_lawful) (evaluate fd g minted now off)"
proof -
  have list: "obeys (keeping rules_lawful) (record_listed keys now)" for keys
    unfolding record_listed_def by (intro obeys_atomically record_keys_lawful)
  have read: "obeys (keeping rules_lawful) (candidates now)"
    unfolding candidates_def everything_that_needs_a_category_def every_unclassified_application_def
      every_unclassified_site_def unclassified_applications_def unclassified_sites_def
    by (intro keeping.rules)
  have remind: "obeys (keeping rules_lawful) (reminder_for fd g now off counted keys counts)" for counted keys counts
    unfolding reminder_for_def Let_def recent_notifications_def
    by (intro keeping.rules claim_notification_lawful)
  show ?thesis unfolding evaluate_def Let_def
    by (intro keeping.rules list read remind card_for_lawful)
qed

lemma reminders_ok_open_latest: "reminders_ok rows \<Longrightarrow> reminders_ok (open_latest t rows)"
proof -
  let ?f = "\<lambda>d r. if rm_local_date r = d \<and> rm_opened_at r = None \<and> rm_posted_at r \<le> t
      then r\<lparr>rm_opened_at := Some t\<rparr> else r"
  have keeps: "reminder_check (?f d r) = reminder_check r" "rm_local_date (?f d r) = rm_local_date r" for d r
    by (simp_all add: reminder_check_def)
  have "reminders_ok (map (?f d) rows)" if "reminders_ok rows" for d
    using that by (simp add: reminders_ok_def list_all_iff comp_def keeps unique_by_def del: if_image_distrib)
  then show "reminders_ok rows \<Longrightarrow> ?thesis" by (simp add: open_latest_def split: list.split)
qed

lemma acknowledge_lawful: "obeys (keeping rules_lawful) (acknowledge p response now)"
proof -
  have keys: "ce_key (acknowledged q t s r) = ce_key r" for q t s r by (simp add: acknowledged_def)
  have "obeys (keeping rules_lawful) (acknowledge_prompt p opened now)" for opened
  proof (rule keeping_op)
    fix s assume l: "rules_lawful s"
    let ?rows = "map (acknowledged p (timestamp now) s) (rs_prompt_entries s)"
    have "prompt_entries_ok ?rows" "cards_ok ?rows (rs_card_entries s)"
      using l cards_ok_more [of "rs_prompt_entries s" "rs_card_entries s" ?rows]
      by (auto simp: rules_lawful_def ledger_inv_def ledger_ok_def prompt_entries_ok_acknowledged image_image keys)
    then show "rules_lawful (snd (acknowledge_prompt p opened now s))" using l
      by (simp add: acknowledge_prompt_def Let_def rules_lawful_def store_inv_defs ledger_inv_def ledger_ok_def
          two_cards_def reminders_ok_open_latest)
  qed
  then show ?thesis unfolding acknowledge_def by (intro keeping.rules)
qed

lemma sweep_ledger_lawful:
  "obeys (keeping rules_lawful) (delete_expired_entries cutoff n)"
  "obeys (keeping rules_lawful) (delete_expired_notifications cutoff n)"
proof -
  show "obeys (keeping rules_lawful) (delete_expired_entries cutoff n)"
  proof (rule keeping_op)
    fix s assume l: "rules_lawful s"
    define kept where "kept = delete_up_to (sort_key ce_last_listed_at) ce_key
        (\<lambda>r. ce_last_listed_at r < timestamp cutoff) n (rs_prompt_entries s)"
    let ?cards = "filter (\<lambda>c. list_ex (\<lambda>r. ce_key r = cc_key c) kept) (rs_card_entries s)"
    have "prompt_entries_ok kept" using l
      by (auto simp: kept_def delete_up_to_def rules_lawful_def ledger_inv_def ledger_ok_def prompt_entries_ok_def
          list_all_iff unique_by_def distinct_map_filter)
    moreover have "cards_ok kept ?cards"
      using l cards_ok_filter [of "rs_prompt_entries s" "rs_card_entries s"]
      by (auto simp: rules_lawful_def ledger_inv_def ledger_ok_def cards_ok_def list_all_iff)
    moreover have "card (cc_prompt_id ` set ?cards) \<le> card (cc_prompt_id ` set (rs_card_entries s))"
      by (rule card_mono) auto
    then have "card (cc_prompt_id ` set ?cards) \<le> 2"
      using l by (simp add: rules_lawful_def ledger_inv_def two_cards_def)
    ultimately show "rules_lawful (snd (delete_expired_entries cutoff n s))" using l
      by (simp add: delete_expired_entries_def kept_def [symmetric] rules_lawful_def store_inv_defs ledger_inv_def
          ledger_ok_def two_cards_def)
  qed
  show "obeys (keeping rules_lawful) (delete_expired_notifications cutoff n)"
    by (rule keeping_op) (auto simp: delete_expired_notifications_def Let_def delete_up_to_def rules_lawful_def
        store_inv_defs ledger_inv_def ledger_ok_def two_cards_def reminders_ok_def list_all_iff unique_by_def
        distinct_map_filter)
qed

section \<open>What the messages and calls keep\<close>

lemmas inv_calls = inv_insert_event inv_update_classification inv_delete_before inv_resolve_id
  inv_counters inv_save_personal_app inv_save_app_scope_override inv_remove_app_scope_override
  inv_save_site_scope_override inv_remove_site_scope_override inv_record_local_site_name
  inv_save_personal_override inv_remove_personal_override inv_reset_personal_overrides
  inv_record_embedding inv_embedding_salt inv_delete_expired_semantic_embeddings
  inv_delete_expired_mappings inv_delete_expired_site_names

lemma off_ledger_personal_app:
  "obeys same_ledger (save_personal_app_override i c n t)"
  "obeys same_ledger (save_personal_app_override_by_stable_id i c n t)"
  by (simp_all add: save_personal_app_override_def save_personal_app_override_by_stable_id_def off_ledger_rules)

lemmas off_ledger_all = off_ledger_calls off_ledger_rules off_ledger_personal_app

lemma lawful_calls:
  "obeys (keeping rules_lawful) (insert_event r)"
  "obeys (keeping rules_lawful) (update_classification i l c n)"
  "obeys (keeping rules_lawful) (delete_before cutoff)"
  "obeys (keeping rules_lawful) (resolve_id m)"
  "obeys (keeping rules_lawful) (increment_classification_count v tier)"
  "obeys (keeping rules_lawful) (record_classifier_use v)"
  "obeys (keeping rules_lawful) (save_personal_app_override i c n t)"
  "obeys (keeping rules_lawful) (save_personal_app_override_by_stable_id i c n t)"
  "obeys (keeping rules_lawful) (save_app_scope_override k b c n t)"
  "obeys (keeping rules_lawful) (remove_app_scope_override k)"
  "obeys (keeping rules_lawful) (save_site_scope_override k c n t)"
  "obeys (keeping rules_lawful) (remove_site_scope_override k)"
  "obeys (keeping rules_lawful) (record_local_site_name i h seen)"
  "obeys (keeping rules_lawful) (save_personal_override i c n t)"
  "obeys (keeping rules_lawful) (remove_personal_override i)"
  "obeys (keeping rules_lawful) reset_personal_overrides"
  "obeys (keeping rules_lawful) (record_embedding k e t)"
  "obeys (keeping rules_lawful) (embedding_salt minted)"
  "obeys (keeping rules_lawful) (delete_expired_semantic_embeddings visit cutoff most)"
  "obeys (keeping rules_lawful) (delete_expired_mappings cutoff most)"
  "obeys (keeping rules_lawful) (delete_expired_site_names cutoff most)"
  by (intro lawful_op off_ledger_inv inv_calls off_ledger_all)+

lemma stable_key_salt_lawful: "obeys (keeping rules_lawful) (stable_key_salt minted)"
proof (rule lawful_op)
  show "obeys (keeping ledger_inv) (stable_key_salt minted)"
    by (rule keeping_op) (auto simp: stable_key_salt_def atomically_def ledger_inv_def ledger_ok_def
        two_cards_def prompt_entries_ok_def cards_ok_def unique_by_def split: option.splits)
qed (rule inv_stable_key_salt)

lemma lawful_store_call: "rules_lawful s \<Longrightarrow> rules_lawful (run_store_call c s)"
  by (cases c) (use lawful_calls stable_key_salt_lawful sweep_ledger_lawful
    in \<open>auto simp: best_effort_def obeys_def keeping_def\<close>)

lemma answer_lawful: "obeys (keeping rules_lawful) m \<Longrightarrow> rules_lawful s \<Longrightarrow> rules_lawful (snd (answer m failed reply s))"
  using obeysD [of "keeping rules_lawful" m s]
  by (auto simp: answer_def keeping_def split: prod.splits sum.splits)

lemma best_effort_lawful: "obeys (keeping rules_lawful) m \<Longrightarrow> rules_lawful s \<Longrightarrow> rules_lawful (best_effort m s)"
  by (simp add: best_effort_def obeys_def keeping_def)

text \<open>An edit of a site rule is only sent where the site has one.\<close>

lemma edit_site_lawful:
  assumes "rules_lawful s" "list_ex (\<lambda>r. ps_site_key_hash r = k) (rs_site s)"
  shows "rules_lawful (snd (edit_site_scope_override k c n t s))"
proof -
  have "ledger_of (snd (edit_site_scope_override k c n t s)) = ledger_of s"
    using obeysD [OF off_ledger_rules(4)] by (simp add: same_ledger_def)
  from ledger_inv_cong [OF this] show ?thesis
    using assms inv_edit_site_scope_override [of s k c n t] by (simp add: rules_lawful_def)
qed

lemma update_classification_override_lawful:
  assumes l: "rules_lawful s"
  shows "rules_lawful (snd (update_classification_override i c activity t during_block s))"
proof -
  have edit: "rules_lawful (snd (answer (edit_site_scope_override i c name t) failed reply s))"
    if "list_ex (\<lambda>r. ps_site_key_hash r = i) (rs_site s)" for name failed reply
    using edit_site_lawful [OF l that, of c name t]
    by (auto simp: answer_def split: prod.splits sum.splits)
  have app: "rules_lawful (snd (answer (save_app_scope_override i None c name t) failed reply s))" for name failed reply
    by (intro answer_lawful lawful_calls l)
  have window: "rules_lawful (snd (edit_window_rule i c name t during_block s))" for name
    unfolding edit_window_rule_def by (intro answer_lawful best_effort_lawful lawful_calls l)
  show ?thesis unfolding update_classification_override_def
    by (simp add: l edit app window del: override_label_for_category.simps split: option.split)
qed

lemma save_locally_lawful:
  assumes "rules_lawful (dk_rules d)"
  shows "rules_lawful (dk_rules (snd (save_locally e i label c name t d)))"
proof -
  have "obeys (keeping rules_lawful) (andthen (save_personal_override i c name t)
      (\<lambda>_. update_classification e label c name))" by (intro keeping.rules lawful_calls)
  from obeysD [OF this, of "dk_rules d"] show ?thesis using assms
    by (auto simp: save_locally_def keeping_def split: prod.splits sum.splits)
qed

lemma correct_event_lawful:
  assumes l: "rules_lawful (dk_rules d)"
  shows "rules_lawful (dk_rules (snd (correct_event_classification e i c activity t during_block signed_in d)))"
proof (cases "override_label_for_category c")
  case None
  then show ?thesis using l by (simp add: correct_event_classification_def del: override_label_for_category.simps)
next
  case (Some label)
  show ?thesis
  proof (cases "normalized_local_activity_name activity")
    case None
    then show ?thesis using l Some
      by (simp add: correct_event_classification_def del: override_label_for_category.simps)
  next
    case name: (Some name)
    let ?d = "d\<lparr>dk_rules := best_effort (save_personal_app_override e c name t) (dk_rules d)\<rparr>"
    have "rules_lawful (dk_rules (snd (save_locally e i label c name t ?d)))"
      by (rule save_locally_lawful) (simp add: best_effort_lawful [OF lawful_calls(7) l])
    then show ?thesis using Some name
      by (cases "save_locally e i label c name t ?d")
        (simp add: correct_event_classification_def Let_def del: override_label_for_category.simps)
  qed
qed

lemma reads_lawful:
  "obeys (keeping rules_lawful) (search_personal_overrides q skip most)"
  "obeys (keeping rules_lawful) (needs_a_category lookback now)"
  "obeys (keeping rules_lawful) (or_none (unclassified_app_bundle_key k))"
proof -
  show "obeys (keeping rules_lawful) (search_personal_overrides q skip most)"
    unfolding search_personal_overrides_def Let_def by (intro keeping.rules)
  show "obeys (keeping rules_lawful) (needs_a_category lookback now)"
    unfolding needs_a_category_def unclassified_applications_def unclassified_sites_def unclassified_triage_def
      unclassified_site_triage_def Let_def by (intro keeping.rules)
  show "obeys (keeping rules_lawful) (or_none (unclassified_app_bundle_key k))"
    by (rule keeping_op) (simp add: or_none_def unclassified_app_bundle_key_def gets_def)
qed

lemma route_correction_lawful:
  "rules_lawful (dk_rules d) \<Longrightarrow> rules_lawful (dk_rules (snd (route_correction v msg d)))"
proof -
  assume l: "rules_lawful (dk_rules d)"
  have on: "rules_lawful (dk_rules (snd (on_rules h d)))" if "rules_lawful (snd (h (dk_rules d)))" for h
    using that by (cases "h (dk_rules d)") (simp add: on_rules_def)
  show ?thesis
  proof (cases msg)
    case (CorrectEventClassification e i c activity)
    then show ?thesis using correct_event_lawful [OF l] by simp
  next
    case (UpdateClassificationOverride i c activity)
    then show ?thesis using on update_classification_override_lawful [OF l] by simp
  qed (auto intro!: on answer_lawful best_effort_lawful keeping.rules reads_lawful lawful_calls
      evaluate_lawful acknowledge_lawful l
      simp: request_correction_history_def set_application_category_def set_site_category_def
        remove_classification_override_def reset_classification_overrides_def request_unclassified_triage_def
        request_category_prompt_def pending_prompt_def acknowledge_category_prompt_def current_card_def Let_def
      simp del: override_label_for_category.simps split: option.splits)
qed

section \<open>Every run\<close>

text \<open>
  C27: The rule store stays lawful over every run. Whatever messages arrive and whatever ingest,
  the classifier and the retention worker call in between, in any order, failures included:
  every table keeps its constraints, the semantic memory its row limits, every window rule the
  mapping it is anchored to, no site that has a rule keeps a stored host name, and the
  needs-a-category ledger its keys, with the rows of two cards at most.
\<close>

theorem rule_store_stays_lawful:
  assumes "desk_step\<^sup>*\<^sup>* d d'" and "rules_lawful (dk_rules d)"
  shows "rules_lawful (dk_rules d')"
  using assms
proof (induction rule: rtranclp_induct)
  case (step d1 d2)
  from step(2) show ?case
    by cases (use step in \<open>simp_all add: route_correction_lawful lawful_store_call\<close>)
qed

lemma fresh_lawful: "rules_lawful (fresh_rules [] [])"
  by (simp add: rules_lawful_def store_inv_defs table_defs unique_by_def fresh_rules_def ledger_inv_def ledger_ok_def
      two_cards_def prompt_entries_ok_def cards_ok_def reminders_ok_def)

definition fresh_desk :: desk where
  "fresh_desk = \<lparr>dk_rules = fresh_rules [] [], dk_upload = empty_upload, dk_patches = []\<rparr>"

theorem rule_store_stays_lawful_witness:
  "\<exists>d. desk_step\<^sup>*\<^sup>* fresh_desk d \<and> rs_events (dk_rules d) = [sample_event] \<and> rules_lawful (dk_rules d)"
proof -
  let ?d = "fresh_desk\<lparr>dk_rules := run_store_call (InsertEvent sample_event) (dk_rules fresh_desk)\<rparr>"
  have run: "desk_step\<^sup>*\<^sup>* fresh_desk ?d" by (intro r_into_rtranclp desk_step.call)
  have "rs_events (dk_rules ?d) = [sample_event]"
    by (simp add: fresh_desk_def fresh_rules_def best_effort_def insert_event_def write_rows_def events_ok_def
        event_row_check_def sample_event_def name_check_def opt_ok_def key_check_def sample_key_def unique_by_def)
  moreover have "rules_lawful (dk_rules ?d)"
    by (rule rule_store_stays_lawful [OF run]) (simp add: fresh_desk_def fresh_lawful)
  ultimately show ?thesis using run by blast
qed

end
