(* ===== verification/Retention.thy ===== *)
theory Retention
  imports Rule_Runs Fetch
begin

text \<open>
  Retention (\<^verbatim>\<open>retention/scheduler.rs\<close>, \<^verbatim>\<open>retention/targets.rs\<close>): the scheduler's loop over any
  targets, the targets of the rule store and of the needs-a-category ledger, and the target of
  the two caches. A target is one bounded delete per pass; a failed one is logged and tried
  again on the next pass.
\<close>

section \<open>The scheduler\<close>

type_synonym ('w, 'e) retention_target = "instant \<Rightarrow> 'w \<Rightarrow> ('e + nat) \<times> 'w"

text \<open>
  What wakes the loop: a tick, with the clock reading each target takes in its turn and the
  shutdown flag as it stands, or the shutdown channel, changed or closed.
\<close>

datatype retention_wake = RetentionTick "nat \<Rightarrow> instant" bool | ShutdownChanged bool | ShutdownClosed

definition retention_pass :: "('w, 'e) retention_target list \<Rightarrow> (nat \<Rightarrow> instant) \<Rightarrow> 'w \<Rightarrow> 'w" where
  "retention_pass targets clock w = fold (\<lambda>i w. snd ((targets ! i) (clock i) w)) [0..<length targets] w"

fun run_retention :: "('w, 'e) retention_target list \<Rightarrow> retention_wake list \<Rightarrow> 'w \<Rightarrow> bool \<times> 'w" where
  "run_retention targets [] w = (False, w)"
| "run_retention targets (RetentionTick clock down # es) w =
     (if down then (True, w) else run_retention targets es (retention_pass targets clock w))"
| "run_retention targets (ShutdownChanged down # es) w =
     (if down then (True, w) else run_retention targets es w)"
| "run_retention targets (ShutdownClosed # es) w = (True, w)"

section \<open>Targets\<close>

definition SEMANTIC_EMBEDDING_CACHE_RETENTION_DAYS :: int where
  "SEMANTIC_EMBEDDING_CACHE_RETENTION_DAYS = 14"

definition ABSTRACTION_MAP_RETENTION_DAYS :: int where
  "ABSTRACTION_MAP_RETENTION_DAYS = 14"

definition LOCAL_SITE_NAME_RETENTION_DAYS :: int where
  "LOCAL_SITE_NAME_RETENTION_DAYS = 14"

definition CATEGORY_PROMPT_ENTRY_RETENTION_DAYS :: int where
  "CATEGORY_PROMPT_ENTRY_RETENTION_DAYS = 14"

definition horizon :: "int \<Rightarrow> instant \<Rightarrow> instant" where
  "horizon n now = now - seconds (n * 24 * 60 * 60)"

definition semantic_embedding_cache_target ::
  "(embedding_row list \<Rightarrow> embedding_row list) \<Rightarrow> nat \<Rightarrow> (rules, rules_error) retention_target" where
  "semantic_embedding_cache_target visit n now =
     delete_expired_semantic_embeddings visit (horizon SEMANTIC_EMBEDDING_CACHE_RETENTION_DAYS now) n"

definition abstraction_map_target :: "nat \<Rightarrow> (rules, rules_error) retention_target" where
  "abstraction_map_target n now =
     delete_expired_mappings (horizon ABSTRACTION_MAP_RETENTION_DAYS now) n"

definition local_site_name_target :: "nat \<Rightarrow> (rules, rules_error) retention_target" where
  "local_site_name_target n now =
     delete_expired_site_names (horizon LOCAL_SITE_NAME_RETENTION_DAYS now) n"

definition category_prompt_entry_target :: "nat \<Rightarrow> (rules, rules_error) retention_target" where
  "category_prompt_entry_target n now =
     delete_expired_entries (horizon CATEGORY_PROMPT_ENTRY_RETENTION_DAYS now) n"

definition category_prompt_notification_target :: "nat \<Rightarrow> (rules, rules_error) retention_target" where
  "category_prompt_notification_target n now =
     delete_expired_notifications (horizon CATEGORY_PROMPT_NOTIFICATION_RETENTION_DAYS now) n"

text \<open>The targets of the rule store, in the order the service registers them.\<close>

definition rule_targets ::
  "(embedding_row list \<Rightarrow> embedding_row list) \<Rightarrow> nat \<Rightarrow> (rules, rules_error) retention_target list" where
  "rule_targets visit n = [semantic_embedding_cache_target visit n, abstraction_map_target n,
     local_site_name_target n, category_prompt_entry_target n, category_prompt_notification_target n]"

definition delete_expired_rows :: "((string \<times> cache_row) list \<Rightarrow> (string \<times> cache_row) list) \<Rightarrow> instant \<Rightarrow> nat
  \<Rightarrow> (string \<times> cache_row) list \<Rightarrow> (string \<times> cache_row) list" where
  "delete_expired_rows visit cutoff n rows =
     delete_up_to visit fst (\<lambda>r. cr_ttl (snd r) < timestamp cutoff) n rows"

definition cache_target :: "((string \<times> cache_row) list \<Rightarrow> (string \<times> cache_row) list) \<Rightarrow> int \<Rightarrow> nat
  \<Rightarrow> ('j fetch, fetch_error) retention_target" where
  "cache_target visit grace n now =
     (let cutoff = now - seconds grace in
      andthen (\<lambda>s. let kept = delete_expired_rows visit cutoff n (fs_history s)
          in (Inr (length (fs_history s) - length kept), s\<lparr>fs_history := kept\<rparr>)) (\<lambda>a.
      andthen (\<lambda>s. let kept = delete_expired_rows visit cutoff n (fs_insight s)
          in (Inr (length (fs_insight s) - length kept), s\<lparr>fs_insight := kept\<rparr>)) (\<lambda>b.
      ret (a + b))))"

end
