(* ===== verification/Retention_Properties.thy ===== *)
theory Retention_Properties
  imports Retention
begin

text \<open>
  What retention promises: a bounded delete of the oldest rows first, pass after pass, reaches
  every row that was expired when the passes began, whatever the order in which SQLite visits
  an unordered table, and the targets of the rule store do not get in each other's way.
\<close>

section \<open>Deleting up to a limit\<close>

text \<open>A \<^verbatim>\<open>SELECT\<close> returns every row it selects, in some order.\<close>

definition visits_all :: "('r list \<Rightarrow> 'r list) \<Rightarrow> bool" where
  "visits_all visit \<longleftrightarrow> (\<forall>rows. mset (visit rows) = mset rows)"

lemma visits_all_sort_key: "visits_all (sort_key f)"
  by (simp add: visits_all_def)

lemma delete_up_to_rows:
  assumes "distinct (map key rows)" and "visits_all visit"
  shows "delete_up_to visit key e n rows = filter (\<lambda>r. r \<notin> set (take n (visit (filter e rows)))) rows"
proof -
  let ?taken = "take n (visit (filter e rows))"
  have "set (visit (filter e rows)) \<subseteq> set rows"
    using assms(2) by (metis visits_all_def filter_is_subset set_mset_mset)
  then have mem: "set ?taken \<subseteq> set rows" by (meson in_set_takeD subset_iff)
  have "inj_on key (set rows)" using assms(1) by (simp add: distinct_map)
  then have "key r \<in> key ` set ?taken \<longleftrightarrow> r \<in> set ?taken" if "r \<in> set rows" for r
    using that mem by (auto simp: inj_on_def)
  then show ?thesis unfolding delete_up_to_def by (intro filter_cong) simp_all
qed

lemma distinct_visit: "visits_all visit \<Longrightarrow> distinct (visit xs) = distinct xs"
  unfolding visits_all_def by (metis mset_eq_imp_distinct_iff)

lemma length_visit: "visits_all visit \<Longrightarrow> length (visit xs) = length xs"
  unfolding visits_all_def by (metis size_mset)

lemma set_visit: "visits_all visit \<Longrightarrow> set (visit xs) = set xs"
  unfolding visits_all_def by (metis set_mset_mset)

lemma length_without:
  assumes "distinct rows" "distinct taken" "set taken \<subseteq> {r \<in> set rows. p r}"
  shows "length (filter p (filter (\<lambda>r. r \<notin> set taken) rows)) = length (filter p rows) - length taken"
proof -
  have "length (filter p (filter (\<lambda>r. r \<notin> set taken) rows)) = card ({r \<in> set rows. p r} - set taken)"
    using distinct_length_filter [OF assms(1), of "\<lambda>r. r \<notin> set taken \<and> p r"]
    by (simp add: filter_filter) (rule arg_cong [of _ _ card], auto)
  also have "\<dots> = card {r \<in> set rows. p r} - card (set taken)"
    by (rule card_Diff_subset) (use assms in auto)
  finally show ?thesis
    using distinct_length_filter [OF assms(1), of p] distinct_card [OF assms(2)]
    by (simp add: Int_def conj_commute)
qed

text \<open>What one bounded delete does to the number of rows, and to what is expired.\<close>

lemma delete_up_to_length:
  assumes "distinct (map key rows)" "visits_all visit"
  shows "length (delete_up_to visit key e n rows) = length rows - min n (length (filter e rows))"
proof -
  let ?taken = "take n (visit (filter e rows))"
  have d: "distinct rows" using assms(1) by (simp add: distinct_map)
  have "set ?taken \<subseteq> set rows" by (fastforce simp: set_visit [OF assms(2)] dest: in_set_takeD)
  then have "length (filter (\<lambda>_. True) (filter (\<lambda>r. r \<notin> set ?taken) rows)) = length (filter (\<lambda>_. True) rows) - length ?taken"
    by (intro length_without) (use d in \<open>auto simp: distinct_visit [OF assms(2)]\<close>)
  then show ?thesis by (simp add: delete_up_to_rows [OF assms] length_visit [OF assms(2)] min.commute)
qed

lemma delete_up_to_bites:
  assumes "distinct (map key rows)" "visits_all visit" "\<And>r. r \<in> set rows \<Longrightarrow> old r \<Longrightarrow> e r"
  shows "filter old (delete_up_to visit key e n rows) = [] \<or>
    length (delete_up_to visit key e n rows) + n \<le> length rows"
proof (cases "n \<le> length (filter e rows)")
  case True
  then have "length (delete_up_to visit key e n rows) = length rows - n"
    using delete_up_to_length [OF assms(1,2), where n = n and e = e] by simp
  then show ?thesis using True length_filter_le [of e rows] by linarith
next
  case False
  then have "take n (visit (filter e rows)) = visit (filter e rows)"
    by (simp add: length_visit [OF assms(2)])
  then show ?thesis using assms(3)
    by (auto simp: delete_up_to_rows [OF assms(1,2)] filter_empty_conv set_visit [OF assms(2)])
qed

lemma old_first:
  fixes f :: "'r \<Rightarrow> 'k::linorder"
  assumes "sorted (map f xs)"
  shows "filter (\<lambda>x. f x < c) xs = take (length (filter (\<lambda>x. f x < c) xs)) xs"
  using assms
proof (induction xs)
  case (Cons x xs)
  show ?case
  proof (cases "f x < c")
    case False
    then have "filter (\<lambda>x. f x < c) xs = []" using Cons.prems by (auto simp: filter_empty_conv not_less)
    then show ?thesis using False by simp
  qed (use Cons in auto)
qed simp

lemma oldest_deleted_first:
  fixes age :: "'r \<Rightarrow> 'k::linorder"
  assumes dist: "distinct (map key rows)"
    and e: "\<And>r. e r \<longleftrightarrow> age r < c \<and> p r" and old: "\<And>r. old r \<longleftrightarrow> age r < c0 \<and> p r" and "c0 \<le> c"
  shows "length (filter old (delete_up_to (sort_key age) key e n rows)) = length (filter old rows) - n"
proof -
  let ?S = "sort_key age (filter e rows)"
  let ?m = "length (filter old rows)"
  have d: "distinct rows" using dist by (simp add: distinct_map)
  have rows: "delete_up_to (sort_key age) key e n rows = filter (\<lambda>r. r \<notin> set (take n ?S)) rows"
    by (rule delete_up_to_rows [OF dist visits_all_sort_key])
  have in_e: "old r \<Longrightarrow> e r" for r using assms(4) by (auto simp: e old)
  have eq: "filter (\<lambda>r. age r < c0) ?S = filter old ?S" by (rule filter_cong) (auto simp: e old)
  have "length (filter old ?S) = ?m"
  proof -
    have "length (filter old ?S) = length (filter old (filter e rows))" by (metis filter_sort length_sort)
    also have "filter old (filter e rows) = filter old rows" by (auto simp: in_e intro: filter_cong)
    finally show ?thesis .
  qed
  then have oldest: "filter old ?S = take ?m ?S"
    using old_first [of age ?S c0] by (simp add: eq)
  show ?thesis
  proof (cases "?m \<le> n")
    case True
    have "set (take ?m ?S) \<subseteq> set (take n ?S)" by (rule set_take_subset_set_take [OF True])
    then have "r \<in> set (take n ?S)" if "r \<in> set rows" "old r" for r
      using that in_e oldest [symmetric] by auto
    then have "filter old (filter (\<lambda>r. r \<notin> set (take n ?S)) rows) = []" by (auto simp: filter_empty_conv)
    then show ?thesis using True by (simp add: rows)
  next
    case False
    then have "set (take n ?S) \<subseteq> set (take ?m ?S)" by (intro set_take_subset_set_take) simp
    then have "set (take n ?S) \<subseteq> {r \<in> set rows. old r}" unfolding oldest [symmetric] by auto
    moreover have "length (take n ?S) = n"
      using False length_filter_le [of old ?S] \<open>length (filter old ?S) = ?m\<close> by simp
    ultimately show ?thesis
      using length_without [OF d, of "take n ?S" old] d by (simp add: rows)
  qed
qed

section \<open>The contract of a sweep\<close>

text \<open>
  A target deletes a bounded number of rows per pass; \<open>due t0\<close> counts the rows expired as of
  \<open>t0\<close>, \<open>weight t0\<close> is what a pass that leaves any of them wears down.
\<close>

locale sweeping =
  fixes target :: "nat \<Rightarrow> instant \<Rightarrow> 's \<Rightarrow> ('e + nat) \<times> 's"
    and due :: "instant \<Rightarrow> 's \<Rightarrow> nat"
    and weight :: "instant \<Rightarrow> 's \<Rightarrow> nat"
    and good :: "'s \<Rightarrow> bool"
  assumes keeps: "good s \<Longrightarrow> good (snd (target n now s))"
    and covers: "good s \<Longrightarrow> due t0 s \<le> weight t0 s"
    and lessens: "good s \<Longrightarrow> t0 \<le> now \<Longrightarrow> due t0 (snd (target n now s)) \<le> due t0 s"
    and bites: "good s \<Longrightarrow> t0 \<le> now \<Longrightarrow>
      due t0 (snd (target n now s)) = 0 \<or> weight t0 (snd (target n now s)) + n \<le> weight t0 s"
begin

definition harmless :: "instant \<Rightarrow> ('s \<Rightarrow> 's) \<Rightarrow> bool" where
  "harmless t0 f \<longleftrightarrow> (\<forall>s. good s \<longrightarrow> good (f s) \<and> due t0 (f s) \<le> due t0 s \<and> weight t0 (f s) \<le> weight t0 s)"

lemma one_pass:
  assumes "good s" "t0 \<le> now" "harmless t0 f" "harmless t0 g"
  shows "good (g (snd (target n now (f s))))"
    and "due t0 (g (snd (target n now (f s)))) \<le> due t0 s"
    and "due t0 (g (snd (target n now (f s)))) = 0 \<or>
      weight t0 (g (snd (target n now (f s)))) + n \<le> weight t0 s"
proof -
  have before: "good (f s)" "due t0 (f s) \<le> due t0 s" "weight t0 (f s) \<le> weight t0 s"
    using assms(1,3) by (simp_all add: harmless_def)
  have mid: "good (snd (target n now (f s)))" by (rule keeps [OF before(1)])
  have after: "due t0 (g (snd (target n now (f s)))) \<le> due t0 (snd (target n now (f s)))"
    "weight t0 (g (snd (target n now (f s)))) \<le> weight t0 (snd (target n now (f s)))"
    using mid assms(4) by (simp_all add: harmless_def)
  show "good (g (snd (target n now (f s))))" using mid assms(4) by (simp add: harmless_def)
  show "due t0 (g (snd (target n now (f s)))) \<le> due t0 s"
    using lessens [OF before(1) assms(2), of n] before(2) after(1) by simp
  show "due t0 (g (snd (target n now (f s)))) = 0 \<or>
      weight t0 (g (snd (target n now (f s)))) + n \<le> weight t0 s"
    using bites [OF before(1) assms(2), of n] before(3) after by fastforce
qed

text \<open>Enough passes at or after \<open>t0\<close>, with harmless work around the target, leave nothing due.\<close>

lemma drains:
  assumes "good s" "\<And>p. p \<in> set passes \<Longrightarrow> t0 \<le> time p"
    "\<And>p. p \<in> set passes \<Longrightarrow> harmless t0 (f p)" "\<And>p. p \<in> set passes \<Longrightarrow> harmless t0 (g p)"
    and "due t0 s = 0 \<or> weight t0 s \<le> length passes * n"
  shows "due t0 (fold (\<lambda>p s. g p (snd (target n (time p) (f p s)))) passes s) = 0"
  using assms
proof (induction passes arbitrary: s)
  case Nil
  then show ?case using covers [of s t0] by auto
next
  case (Cons p passes)
  let ?s = "g p (snd (target n (time p) (f p s)))"
  have ok: "t0 \<le> time p" "harmless t0 (f p)" "harmless t0 (g p)" using Cons.prems by simp_all
  have "due t0 ?s = 0 \<or> weight t0 ?s \<le> length passes * n"
    using one_pass(2,3) [OF Cons.prems(1) ok] Cons.prems(5) by fastforce
  then show ?case using Cons.IH [OF one_pass(1) [OF Cons.prems(1) ok]] Cons.prems(2-4) by simp
qed

end

text \<open>A target that deletes the oldest first makes progress on what is due itself.\<close>

locale oldest_first =
  fixes target :: "nat \<Rightarrow> instant \<Rightarrow> 's \<Rightarrow> ('e + nat) \<times> 's"
    and due :: "instant \<Rightarrow> 's \<Rightarrow> nat"
    and good :: "'s \<Rightarrow> bool"
  assumes keeps: "good s \<Longrightarrow> good (snd (target n now s))"
    and shrinks: "good s \<Longrightarrow> t0 \<le> now \<Longrightarrow> due t0 (snd (target n now s)) = due t0 s - n"

sublocale oldest_first \<subseteq> swept: sweeping target due due good
  by unfold_locales (auto simp: keeps shrinks)

section \<open>The targets of the rule store\<close>

lemma horizon_mono: "t \<le> u \<Longrightarrow> timestamp (horizon n t) \<le> timestamp (horizon n u)"
  by (rule timestamp_mono) (simp add: horizon_def)

definition due_embeddings :: "instant \<Rightarrow> rules \<Rightarrow> nat" where
  "due_embeddings t s = length (filter (\<lambda>r. em_updated_at r <
     timestamp (horizon SEMANTIC_EMBEDDING_CACHE_RETENTION_DAYS t)) (rs_cache s))"

definition due_mappings :: "instant \<Rightarrow> rules \<Rightarrow> nat" where
  "due_mappings t s = length (filter (mapping_expired s (horizon ABSTRACTION_MAP_RETENTION_DAYS t)) (rs_map s))"

definition due_site_names :: "instant \<Rightarrow> rules \<Rightarrow> nat" where
  "due_site_names t s = length (filter (\<lambda>r. sn_last_seen_at r <
     timestamp (horizon LOCAL_SITE_NAME_RETENTION_DAYS t)) (rs_site_names s))"

definition due_entries :: "instant \<Rightarrow> rules \<Rightarrow> nat" where
  "due_entries t s = length (filter (\<lambda>r. ce_last_listed_at r <
     timestamp (horizon CATEGORY_PROMPT_ENTRY_RETENTION_DAYS t)) (rs_prompt_entries s))"

definition due_reminders :: "instant \<Rightarrow> rules \<Rightarrow> nat" where
  "due_reminders t s = length (filter (\<lambda>r. rm_posted_at r <
     timestamp (horizon CATEGORY_PROMPT_NOTIFICATION_RETENTION_DAYS t)) (rs_reminders s))"

lemmas target_defs = semantic_embedding_cache_target_def abstraction_map_target_def local_site_name_target_def
  category_prompt_entry_target_def category_prompt_notification_target_def
  delete_expired_semantic_embeddings_def delete_expired_mappings_def delete_expired_site_names_def
  delete_expired_entries_def delete_expired_notifications_def Let_def

lemmas due_defs = due_embeddings_def due_mappings_def due_site_names_def due_entries_def due_reminders_def

lemma keys_distinct:
  assumes "rules_lawful s"
  shows "distinct (map em_key_hash (rs_cache s))" "distinct (map am_key_hash (rs_map s))"
    "distinct (map sn_site_key_hash (rs_site_names s))" "distinct (map ce_key (rs_prompt_entries s))"
    "distinct (map rm_local_date (rs_reminders s))"
  using assms by (auto simp: rules_lawful_def store_inv_defs ledger_inv_def ledger_ok_def table_defs
      prompt_entries_ok_def reminders_ok_def unique_by_def comp_def distinct_map inj_on_def)

lemma targets_lawful:
  "rules_lawful s \<Longrightarrow> rules_lawful (snd (semantic_embedding_cache_target visit n now s))"
  "rules_lawful s \<Longrightarrow> rules_lawful (snd (abstraction_map_target n now s))"
  "rules_lawful s \<Longrightarrow> rules_lawful (snd (local_site_name_target n now s))"
  "rules_lawful s \<Longrightarrow> rules_lawful (snd (category_prompt_entry_target n now s))"
  "rules_lawful s \<Longrightarrow> rules_lawful (snd (category_prompt_notification_target n now s))"
  using lawful_store_call [of s "SweepEmbeddings visit (horizon SEMANTIC_EMBEDDING_CACHE_RETENTION_DAYS now) n"]
    lawful_store_call [of s "SweepMappings (horizon ABSTRACTION_MAP_RETENTION_DAYS now) n"]
    lawful_store_call [of s "SweepSiteNames (horizon LOCAL_SITE_NAME_RETENTION_DAYS now) n"]
    lawful_store_call [of s "SweepPromptEntries (horizon CATEGORY_PROMPT_ENTRY_RETENTION_DAYS now) n"]
    lawful_store_call [of s "SweepReminders (horizon CATEGORY_PROMPT_NOTIFICATION_RETENTION_DAYS now) n"]
  by (simp_all add: best_effort_def semantic_embedding_cache_target_def abstraction_map_target_def
      local_site_name_target_def category_prompt_entry_target_def category_prompt_notification_target_def)

lemma mapping_expired_frame:
  "mapping_expired (s\<lparr>rs_map := ms\<rparr>) = mapping_expired s"
  "mapping_expired (s\<lparr>rs_cache := cs\<rparr>) = mapping_expired s"
  "mapping_expired (s\<lparr>rs_site_names := ns\<rparr>) = mapping_expired s"
  "mapping_expired (s\<lparr>rs_prompt_entries := es, rs_card_entries := ks\<rparr>) = mapping_expired s"
  "mapping_expired (s\<lparr>rs_reminders := rs\<rparr>) = mapping_expired s"
  by (simp_all add: fun_eq_iff mapping_expired_def)

interpretation mappings: oldest_first abstraction_map_target due_mappings rules_lawful
proof
  fix s n now t0 assume s: "rules_lawful s"
  show "rules_lawful (snd (abstraction_map_target n now s))" by (rule targets_lawful(2) [OF s])
  assume "t0 \<le> now"
  then show "due_mappings t0 (snd (abstraction_map_target n now s)) = due_mappings t0 s - n"
    unfolding due_mappings_def target_defs
    by (simp add: mapping_expired_frame)
      (rule oldest_deleted_first [OF keys_distinct(2) [OF s] _ _ horizon_mono], auto simp: mapping_expired_def)
qed

interpretation site_names: oldest_first local_site_name_target due_site_names rules_lawful
proof
  fix s n now t0 assume s: "rules_lawful s"
  show "rules_lawful (snd (local_site_name_target n now s))" by (rule targets_lawful(3) [OF s])
  assume "t0 \<le> now"
  then show "due_site_names t0 (snd (local_site_name_target n now s)) = due_site_names t0 s - n"
    unfolding due_site_names_def target_defs
    by simp (rule oldest_deleted_first [OF keys_distinct(3) [OF s], where p = "\<lambda>_. True", OF _ _ horizon_mono], auto)
qed

interpretation entries: oldest_first category_prompt_entry_target due_entries rules_lawful
proof
  fix s n now t0 assume s: "rules_lawful s"
  show "rules_lawful (snd (category_prompt_entry_target n now s))" by (rule targets_lawful(4) [OF s])
  assume "t0 \<le> now"
  then show "due_entries t0 (snd (category_prompt_entry_target n now s)) = due_entries t0 s - n"
    unfolding due_entries_def target_defs
    by simp (rule oldest_deleted_first [OF keys_distinct(4) [OF s], where p = "\<lambda>_. True", OF _ _ horizon_mono], auto)
qed

interpretation reminders: oldest_first category_prompt_notification_target due_reminders rules_lawful
proof
  fix s n now t0 assume s: "rules_lawful s"
  show "rules_lawful (snd (category_prompt_notification_target n now s))" by (rule targets_lawful(5) [OF s])
  assume "t0 \<le> now"
  then show "due_reminders t0 (snd (category_prompt_notification_target n now s)) = due_reminders t0 s - n"
    unfolding due_reminders_def target_defs
    by simp (rule oldest_deleted_first [OF keys_distinct(5) [OF s], where p = "\<lambda>_. True", OF _ _ horizon_mono], auto)
qed

lemma length_filter_filter: "length (filter p (filter q xs)) \<le> length (filter p xs)"
  by (induction xs) auto

text \<open>The embedding cache is swept in no order, so it is its size that a pass wears down.\<close>

lemma embeddings_swept:
  assumes "visits_all visit"
  shows "sweeping (semantic_embedding_cache_target visit) due_embeddings (\<lambda>_ s. length (rs_cache s)) rules_lawful"
proof
  fix s n now t0 assume s: "rules_lawful s"
  show "rules_lawful (snd (semantic_embedding_cache_target visit n now s))" by (rule targets_lawful(1) [OF s])
  show "due_embeddings t0 s \<le> length (rs_cache s)" by (simp add: due_embeddings_def)
  assume t0: "t0 \<le> now"
  show "due_embeddings t0 (snd (semantic_embedding_cache_target visit n now s)) \<le> due_embeddings t0 s"
    by (simp add: due_embeddings_def target_defs delete_up_to_def length_filter_filter del: filter_filter)
  show "due_embeddings t0 (snd (semantic_embedding_cache_target visit n now s)) = 0
    \<or> length (rs_cache (snd (semantic_embedding_cache_target visit n now s))) + n \<le> length (rs_cache s)"
    using delete_up_to_bites [OF keys_distinct(1) [OF s] assms,
        where old = "\<lambda>r. em_updated_at r < timestamp (horizon SEMANTIC_EMBEDDING_CACHE_RETENTION_DAYS t0)"
        and e = "\<lambda>r. em_updated_at r < timestamp (horizon SEMANTIC_EMBEDDING_CACHE_RETENTION_DAYS now)" and n = n]
      horizon_mono [OF t0, of SEMANTIC_EMBEDDING_CACHE_RETENTION_DAYS]
    by (auto simp: due_embeddings_def target_defs)
qed

lemma targets_apart:
  "due_embeddings t (snd (abstraction_map_target n now s)) = due_embeddings t s"
  "due_embeddings t (snd (local_site_name_target n now s)) = due_embeddings t s"
  "due_embeddings t (snd (category_prompt_entry_target n now s)) = due_embeddings t s"
  "due_embeddings t (snd (category_prompt_notification_target n now s)) = due_embeddings t s"
  "rs_cache (snd (abstraction_map_target n now s)) = rs_cache s"
  "rs_cache (snd (local_site_name_target n now s)) = rs_cache s"
  "rs_cache (snd (category_prompt_entry_target n now s)) = rs_cache s"
  "rs_cache (snd (category_prompt_notification_target n now s)) = rs_cache s"
  "due_mappings t (snd (semantic_embedding_cache_target visit n now s)) = due_mappings t s"
  "due_mappings t (snd (local_site_name_target n now s)) = due_mappings t s"
  "due_mappings t (snd (category_prompt_entry_target n now s)) = due_mappings t s"
  "due_mappings t (snd (category_prompt_notification_target n now s)) = due_mappings t s"
  "due_site_names t (snd (semantic_embedding_cache_target visit n now s)) = due_site_names t s"
  "due_site_names t (snd (abstraction_map_target n now s)) = due_site_names t s"
  "due_site_names t (snd (category_prompt_entry_target n now s)) = due_site_names t s"
  "due_site_names t (snd (category_prompt_notification_target n now s)) = due_site_names t s"
  "due_entries t (snd (semantic_embedding_cache_target visit n now s)) = due_entries t s"
  "due_entries t (snd (abstraction_map_target n now s)) = due_entries t s"
  "due_entries t (snd (local_site_name_target n now s)) = due_entries t s"
  "due_entries t (snd (category_prompt_notification_target n now s)) = due_entries t s"
  "due_reminders t (snd (semantic_embedding_cache_target visit n now s)) = due_reminders t s"
  "due_reminders t (snd (abstraction_map_target n now s)) = due_reminders t s"
  "due_reminders t (snd (local_site_name_target n now s)) = due_reminders t s"
  "due_reminders t (snd (category_prompt_entry_target n now s)) = due_reminders t s"
  by (simp_all add: due_defs target_defs mapping_expired_frame)

lemma due_within:
  "length (rs_map s) \<le> k \<Longrightarrow> due_mappings t s \<le> k"
  "length (rs_site_names s) \<le> k \<Longrightarrow> due_site_names t s \<le> k"
  "length (rs_prompt_entries s) \<le> k \<Longrightarrow> due_entries t s \<le> k"
  "length (rs_reminders s) \<le> k \<Longrightarrow> due_reminders t s \<le> k"
  unfolding due_defs by (rule le_trans [OF length_filter_le], assumption)+

lemma rule_pass: "retention_pass (rule_targets visit n) clock s =
  snd (category_prompt_notification_target n (clock 4) (snd (category_prompt_entry_target n (clock 3)
    (snd (local_site_name_target n (clock 2) (snd (abstraction_map_target n (clock 1)
      (snd (semantic_embedding_cache_target visit n (clock 0) s)))))))))"
  by (simp add: retention_pass_def rule_targets_def upt_conv_Cons eval_nat_numeral)

lemma run_ticks: "run_retention targets (map (\<lambda>c. RetentionTick c False) clocks) w =
  (False, fold (retention_pass targets) clocks w)"
  by (induction clocks arbitrary: w) auto

section \<open>Nothing expired outlives enough passes\<close>

text \<open>
  C28: Retention reaches everything that is expired. From a lawful rule store, whatever the order
  SQLite visits the embedding cache in, ticks of the retention scheduler whose clock readings are
  at or after some time leave no embedding, mapping, host name, prompt entry or reminder that was
  expired at that time, once there have been enough ticks for the largest of those tables at one
  batch per tick; the store is lawful after them. Rows that expire meanwhile do not delay the
  ones that were expired before.
\<close>

theorem retention_reaches_every_expired_row:
  assumes l: "rules_lawful s" and visit: "visits_all visit"
    and late: "\<forall>clock\<in>set clocks. \<forall>i. t0 \<le> clock i"
    and enough: "length (rs_cache s) \<le> length clocks * n" "length (rs_map s) \<le> length clocks * n"
      "length (rs_site_names s) \<le> length clocks * n" "length (rs_prompt_entries s) \<le> length clocks * n"
      "length (rs_reminders s) \<le> length clocks * n"
  shows "\<exists>s'. run_retention (rule_targets visit n) (map (\<lambda>c. RetentionTick c False) clocks) s = (False, s')
    \<and> rules_lawful s' \<and> due_embeddings t0 s' = 0 \<and> due_mappings t0 s' = 0 \<and> due_site_names t0 s' = 0
    \<and> due_entries t0 s' = 0 \<and> due_reminders t0 s' = 0"
proof -
  let ?pass = "retention_pass (rule_targets visit n)"
  let ?a = "\<lambda>c s. snd (semantic_embedding_cache_target visit n (c 0) s)"
  let ?b = "\<lambda>c s. snd (abstraction_map_target n (c 1) s)"
  let ?c = "\<lambda>c s. snd (local_site_name_target n (c 2) s)"
  let ?d = "\<lambda>c s. snd (category_prompt_entry_target n (c 3) s)"
  let ?e = "\<lambda>c s. snd (category_prompt_notification_target n (c 4) s)"
  have pass: "?pass = (\<lambda>c s. ?e c (?d c (?c c (?b c (?a c s)))))" by (simp add: fun_eq_iff rule_pass)
  have "rules_lawful (fold ?pass cs s)" for cs using l
    by (induction cs arbitrary: s) (simp_all add: pass targets_lawful)
  moreover have "due_embeddings t0 (fold ?pass clocks s) = 0"
    unfolding pass
    by (rule sweeping.drains [OF embeddings_swept [OF visit], where f = "\<lambda>c s. s" and time = "\<lambda>c. c 0"
          and g = "\<lambda>c s. ?e c (?d c (?c c (?b c s)))"])
      (use l late enough in \<open>auto simp: sweeping.harmless_def [OF embeddings_swept [OF visit]] targets_apart targets_lawful\<close>)
  moreover have "due_mappings t0 (fold ?pass clocks s) = 0"
    unfolding pass
    by (rule mappings.swept.drains [where f = ?a and time = "\<lambda>c. c 1" and g = "\<lambda>c s. ?e c (?d c (?c c s))"])
      (use l late enough in \<open>auto simp: mappings.swept.harmless_def targets_apart targets_lawful due_within\<close>)
  moreover have "due_site_names t0 (fold ?pass clocks s) = 0"
    unfolding pass
    by (rule site_names.swept.drains [where f = "\<lambda>c s. ?b c (?a c s)" and time = "\<lambda>c. c 2" and g = "\<lambda>c s. ?e c (?d c s)"])
      (use l late enough in \<open>auto simp: site_names.swept.harmless_def targets_apart targets_lawful due_within\<close>)
  moreover have "due_entries t0 (fold ?pass clocks s) = 0"
    unfolding pass
    by (rule entries.swept.drains [where f = "\<lambda>c s. ?c c (?b c (?a c s))" and time = "\<lambda>c. c 3" and g = "?e"])
      (use l late enough in \<open>auto simp: entries.swept.harmless_def targets_apart targets_lawful due_within\<close>)
  moreover have "due_reminders t0 (fold ?pass clocks s) = 0"
    unfolding pass
    by (rule reminders.swept.drains [where f = "\<lambda>c s. ?d c (?c c (?b c (?a c s)))" and time = "\<lambda>c. c 4" and g = "\<lambda>c s. s"])
      (use l late enough in \<open>auto simp: reminders.swept.harmless_def targets_apart targets_lawful due_within\<close>)
  ultimately show ?thesis unfolding run_ticks by blast
qed

definition stale_mapping :: mapping where
  "stale_mapping = \<lparr>am_key_hash = replicate 64 CHR ''d'', am_stable_id = ''abs_1'', am_label = ''unlogged'',
     am_category = ''UNLOGGED'', am_taxonomy_version = ''1'', am_tier = ''fallback'',
     am_status = ''unclassified'', am_confidence = ''none'', am_source = ''fallback'',
     am_display_name = None, am_updated_at = 0\<rparr>"

definition stale_store :: rules where
  "stale_store = (fresh_rules [] [])\<lparr>rs_map := [stale_mapping]\<rparr>"

theorem retention_reaches_every_expired_row_witness:
  "due_mappings sample_now stale_store = 1
   \<and> (\<exists>s'. run_retention (rule_targets (\<lambda>rows. rows) 1) [RetentionTick (\<lambda>_. sample_now) False] stale_store = (False, s')
      \<and> due_mappings sample_now s' = 0)"
proof -
  have fields: "rs_cache stale_store = []" "rs_map stale_store = [stale_mapping]" "rs_site_names stale_store = []"
    "rs_prompt_entries stale_store = []" "rs_reminders stale_store = []" "rs_window stale_store = []"
    "rs_events stale_store = []" "am_updated_at stale_mapping = 0"
    by (simp_all add: stale_store_def fresh_rules_def stale_mapping_def)
  have l: "rules_lawful stale_store" using fresh_lawful
    by (simp add: rules_lawful_def stale_store_def store_inv_defs table_defs unique_by_def stale_mapping_def
        mapping_check_def key_check_def ledger_inv_def ledger_ok_def two_cards_def fresh_rules_def)
  have "due_mappings sample_now stale_store = 1"
    by (simp add: due_mappings_def fields mapping_expired_def horizon_def ABSTRACTION_MAP_RETENTION_DAYS_def
        sample_now_def from_timestamp_def timestamp_def seconds_def NANOS_def)
  moreover have "visits_all (\<lambda>rows. rows)" by (simp add: visits_all_def)
  from retention_reaches_every_expired_row [OF l this, where clocks = "[\<lambda>_. sample_now]" and n = 1 and ?t0.0 = sample_now]
  have "\<exists>s'. run_retention (rule_targets (\<lambda>rows. rows) 1) [RetentionTick (\<lambda>_. sample_now) False] stale_store = (False, s')
      \<and> due_mappings sample_now s' = 0" by (auto simp: fields)
  ultimately show ?thesis by blast
qed

section \<open>Sweeping the caches\<close>

lemma fresh_row_after_sweep:
  assumes dist: "distinct (map fst rows)" and visit: "visits_all visit" and later: "timestamp cutoff \<le> timestamp now"
  shows "fresh_row now d (delete_expired_rows visit cutoff n rows) = fresh_row now d rows"
proof -
  let ?kept = "delete_expired_rows visit cutoff n rows"
  let ?old = "\<lambda>r. cr_ttl (snd r) < timestamp cutoff"
  let ?taken = "set (take n (visit (filter ?old rows)))"
  have kept: "?kept = filter (\<lambda>r. r \<notin> ?taken) rows"
    unfolding delete_expired_rows_def by (rule delete_up_to_rows [OF dist visit])
  have old: "?taken \<subseteq> {r \<in> set rows. ?old r}"
    using set_visit [OF visit, of "filter ?old rows"] by (auto dest: in_set_takeD)
  have dist': "distinct (map fst ?kept)" using dist by (simp add: kept distinct_map_filter)
  show ?thesis
  proof (cases "map_of rows d")
    case None
    then have "map_of ?kept d = None" by (auto simp: kept map_of_eq_None_iff)
    then show ?thesis using None by (simp add: fresh_row_def)
  next
    case (Some r)
    then have r: "(d, r) \<in> set rows" by (simp add: map_of_SomeD)
    show ?thesis
    proof (cases "(d, r) \<in> ?taken")
      case True
      then have "\<not> timestamp now < cr_ttl r" using old later by auto
      moreover have "map_of ?kept d = None"
        using True Some by (auto simp: kept map_of_eq_None_iff) (metis map_of_is_SomeI [OF dist] option.inject)
      ultimately show ?thesis using Some by (simp add: fresh_row_def)
    next
      case False
      then have "map_of ?kept d = Some r" using r by (intro map_of_is_SomeI [OF dist']) (simp add: kept)
      then show ?thesis using Some by (simp add: fresh_row_def)
    qed
  qed
qed

text \<open>
  The cache sweep is invisible. Retention of the two caches deletes only rows whose
  time-to-live had already passed by the grace period, so every read of either cache at or after
  the sweep finds exactly what it would have found without it.
\<close>

theorem cache_sweep_is_invisible:
  assumes keys: "distinct (map fst (fs_history s))" "distinct (map fst (fs_insight s))"
    and visit: "visits_all visit" and times: "0 \<le> grace" "now \<le> later"
  shows "fresh_row later d (fs_history (snd (cache_target visit grace n now s))) = fresh_row later d (fs_history s)"
    and "fresh_row later d (fs_insight (snd (cache_target visit grace n now s))) = fresh_row later d (fs_insight s)"
proof -
  have "timestamp (now - seconds grace) \<le> timestamp later"
    by (rule timestamp_mono) (use times in \<open>simp add: seconds_def NANOS_def\<close>)
  then show "fresh_row later d (fs_history (snd (cache_target visit grace n now s))) = fresh_row later d (fs_history s)"
    "fresh_row later d (fs_insight (snd (cache_target visit grace n now s))) = fresh_row later d (fs_insight s)"
    using fresh_row_after_sweep [OF keys(1) visit] fresh_row_after_sweep [OF keys(2) visit]
    by (simp_all add: cache_target_def andthen_def ret_def Let_def)
qed

end
