(* ===== verification/Receipts.thy ===== *)
theory Receipts
  imports Initiation
begin

text \<open>
  The weekly digest and the explain-tap count (\<^verbatim>\<open>receipts/mod.rs\<close>, \<^verbatim>\<open>ReceiptsRepo\<close> in
  \<^verbatim>\<open>persistence/sqlite.rs\<close>). \<open>rc_world\<close> is what the digest reads and what its gates ask: the block
  tables, the invitations and the focus record. A calendar date is its day number; printing and
  parsing it is the environment's. A stored block result is kept decoded.
\<close>

datatype receipts_error = ReceiptsSqlite | ReceiptsGate initiation_error

record weekly_digest_record =
  wd_week_start :: string
  wd_generated_at :: instant
  wd_blocks_declared :: nat
  wd_blocks_completed :: nat
  wd_recoveries :: nat
  wd_wrong_interventions :: nat
  wd_invitations_accepted :: nat
  wd_withheld :: nat
  wd_digest_version :: nat
  wd_delivered_at :: "instant option"
  wd_acknowledged_at :: "instant option"

record digest_card =
  dg_week_start :: string
  dg_blocks_declared :: nat
  dg_blocks_completed :: nat
  dg_recoveries :: nat
  dg_wrong_interventions :: nat
  dg_invitations_accepted :: nat
  dg_withheld :: nat
  dg_headline :: string
  dg_digest_version :: nat

record receipts =
  rc_digests :: "weekly_digest_record list"
  rc_taps :: "(string \<times> nat \<times> int) list"
  rc_world :: initiation

record receipts_env =
  re_format_date :: "int \<Rightarrow> string"
  re_parse_date :: "string \<Rightarrow> int option"

type_synonym 'a receipts_op = "(receipts, receipts_error, 'a) op"

definition DIGEST_POLICY_VERSION :: nat where
  "DIGEST_POLICY_VERSION = 1"

definition RECEIPTS_RETENTION_WEEKS :: int where
  "RECEIPTS_RETENTION_WEEKS = 12"

section \<open>Statements\<close>

definition in_range :: "instant \<Rightarrow> instant \<Rightarrow> instant \<Rightarrow> bool" where
  "in_range since until t \<longleftrightarrow> timestamp since \<le> timestamp t \<and> timestamp t < timestamp until"

definition declared_block_count_between :: "instant \<Rightarrow> instant \<Rightarrow> nat receipts_op" where
  "declared_block_count_between since until = gets (\<lambda>s.
     length (filter (\<lambda>b. in_range since until (wb_started_at b)) (t_work_block (in_blocks (rc_world s)))))"

definition completed_block_count_between :: "instant \<Rightarrow> instant \<Rightarrow> nat receipts_op" where
  "completed_block_count_between since until = gets (\<lambda>s.
     length (filter (\<lambda>b. wb_phase b = Completed \<and> in_range since until (wb_started_at b))
       (t_work_block (in_blocks (rc_world s)))))"

definition results_between :: "instant \<Rightarrow> instant \<Rightarrow> block_result list receipts_op" where
  "results_between since until = gets (\<lambda>s.
     let blocks = sort_key (\<lambda>b. (timestamp (wb_started_at b), wb_block_id b))
           (filter (\<lambda>b. in_range since until (wb_started_at b)) (t_work_block (in_blocks (rc_world s))))
     in concat (map (\<lambda>b. map snd (filter (\<lambda>(k, r). k = wb_block_id b)
          (t_result (in_blocks (rc_world s))))) blocks))"

definition accepted_invitation_count_between :: "instant \<Rightarrow> instant \<Rightarrow> nat receipts_op" where
  "accepted_invitation_count_between since until = gets (\<lambda>s.
     length (filter (\<lambda>i. ii_outcome i = InvAccepted
         \<and> (case ii_outcome_at i of None \<Rightarrow> False | Some t \<Rightarrow> in_range since until t))
       (in_invitations (rc_world s))))"

definition withheld_count_between :: "instant \<Rightarrow> instant \<Rightarrow> nat receipts_op" where
  "withheld_count_between since until = gets (\<lambda>s.
     length (filter (\<lambda>(b, i). iv_outcome i \<in> {DeliverySuppressedDnd, WithheldDemotion}
         \<and> in_range since until (iv_offered_at i)) (t_intervention (in_blocks (rc_world s)))))"

definition wrong_intervention_counts_between :: "instant \<Rightarrow> instant \<Rightarrow> intervention_counts receipts_op" where
  "wrong_intervention_counts_between since until = gets (\<lambda>s.
     counts_between (in_blocks (rc_world s)) (timestamp since) (Some (timestamp until)))"

definition delivered_intervention_count_between :: "instant \<Rightarrow> instant \<Rightarrow> nat receipts_op" where
  "delivered_intervention_count_between since until =
     andthen (wrong_intervention_counts_between since until) (\<lambda>c. ret (delivered c))"

definition weekly_digest :: "string \<Rightarrow> weekly_digest_record option receipts_op" where
  "weekly_digest w = gets (\<lambda>s. find (\<lambda>r. wd_week_start r = w) (rc_digests s))"

definition digest_check :: "receipts \<Rightarrow> weekly_digest_record \<Rightarrow> bool" where
  "digest_check s r \<longleftrightarrow> length (wd_week_start r) = 10 \<and> 1 \<le> wd_digest_version r
     \<and> wd_week_start r \<notin> wd_week_start ` set (rc_digests s)"

definition store_weekly_digest :: "weekly_digest_record \<Rightarrow> unit receipts_op" where
  "store_weekly_digest r = (\<lambda>s. if digest_check s r
     then (Inr (), s\<lparr>rc_digests := rc_digests s @ [r\<lparr>wd_generated_at := stored (wd_generated_at r),
        wd_delivered_at := map_option stored (wd_delivered_at r),
        wd_acknowledged_at := map_option stored (wd_acknowledged_at r)\<rparr>]\<rparr>)
     else (Inl ReceiptsSqlite, s))"

definition mark_digest_delivered :: "string \<Rightarrow> instant \<Rightarrow> unit receipts_op" where
  "mark_digest_delivered w t = modify (\<lambda>s. s\<lparr>rc_digests := map (\<lambda>r.
     if wd_week_start r = w \<and> wd_delivered_at r = None then r\<lparr>wd_delivered_at := Some (stored t)\<rparr> else r)
       (rc_digests s)\<rparr>)"

definition acknowledge_digest :: "string \<Rightarrow> instant \<Rightarrow> unit receipts_op" where
  "acknowledge_digest w t = modify (\<lambda>s. s\<lparr>rc_digests := map (\<lambda>r.
     if wd_week_start r = w \<and> wd_acknowledged_at r = None then r\<lparr>wd_acknowledged_at := Some (stored t)\<rparr> else r)
       (rc_digests s)\<rparr>)"

fun tap_row :: "string \<Rightarrow> int \<Rightarrow> (string \<times> nat \<times> int) list \<Rightarrow> (string \<times> nat \<times> int) list" where
  "tap_row w t [] = [(w, 1, t)]"
| "tap_row w t ((w', n, u) # rows) =
     (if w' = w then (w', n + 1, t) # rows else (w', n, u) # tap_row w t rows)"

definition record_explain_tap_row :: "string \<Rightarrow> instant \<Rightarrow> unit receipts_op" where
  "record_explain_tap_row w t = (\<lambda>s. if length w = 10
     then (Inr (), s\<lparr>rc_taps := tap_row w (timestamp t) (rc_taps s)\<rparr>) else (Inl ReceiptsSqlite, s))"

definition explain_taps_for_week :: "string \<Rightarrow> nat receipts_op" where
  "explain_taps_for_week w = gets (\<lambda>s. case map_of (rc_taps s) w of None \<Rightarrow> 0 | Some (n, _) \<Rightarrow> n)"

definition prune_receipts_before :: "string \<Rightarrow> nat receipts_op" where
  "prune_receipts_before w = (\<lambda>s.
     (Inr (length (filter (\<lambda>r. wd_week_start r < w) (rc_digests s))
           + length (filter (\<lambda>r. fst r < w) (rc_taps s))),
      s\<lparr>rc_digests := filter (\<lambda>r. \<not> wd_week_start r < w) (rc_digests s),
        rc_taps := filter (\<lambda>r. \<not> fst r < w) (rc_taps s)\<rparr>))"

definition clear_receipts :: "nat receipts_op" where
  "clear_receipts = (\<lambda>s. (Inr (length (rc_digests s) + length (rc_taps s)),
     s\<lparr>rc_digests := [], rc_taps := []\<rparr>))"

section \<open>Local weeks\<close>

record local_week =
  lw_start_local_date :: string
  lw_start_utc :: instant
  lw_end_utc :: instant

definition local_day :: "instant \<Rightarrow> int \<Rightarrow> int" where
  "local_day now off = (now + seconds off) div (86400 * NANOS)"

definition local_monday :: "instant \<Rightarrow> int \<Rightarrow> int" where
  "local_monday now off =
     (let today = local_day now off in today - num_days_from_monday (today * 86400))"

definition week_from_monday :: "receipts_env \<Rightarrow> int \<Rightarrow> int \<Rightarrow> local_week" where
  "week_from_monday E monday off =
     \<lparr>lw_start_local_date = re_format_date E monday,
      lw_start_utc = from_timestamp (monday * 86400) - seconds off,
      lw_end_utc = from_timestamp ((monday + 7) * 86400) - seconds off\<rparr>"

definition previous_local_week :: "receipts_env \<Rightarrow> instant \<Rightarrow> int \<Rightarrow> local_week" where
  "previous_local_week E now off = week_from_monday E (local_monday now off - 7) off"

definition current_local_week :: "receipts_env \<Rightarrow> instant \<Rightarrow> int \<Rightarrow> local_week" where
  "current_local_week E now off = week_from_monday E (local_monday now off) off"

definition current_local_week_start :: "receipts_env \<Rightarrow> instant \<Rightarrow> int \<Rightarrow> string" where
  "current_local_week_start E now off = re_format_date E (local_monday now off)"

definition receipts_cutoff :: "receipts_env \<Rightarrow> string \<Rightarrow> string option" where
  "receipts_cutoff E w = map_option (\<lambda>monday. re_format_date E (monday - 7 * RECEIPTS_RETENTION_WEEKS))
     (re_parse_date E w)"

section \<open>Copy\<close>

definition digest_headline :: "nat \<Rightarrow> nat \<Rightarrow> nat \<Rightarrow> nat \<Rightarrow> string" where
  "digest_headline recoveries completed declared withheld =
     (let counts =
        (if recoveries = 0 \<and> declared = 0 then ''Your week's receipts, from the evidence Velvt kept''
         else if recoveries = 0
         then ''You completed '' @ nat_str completed @ '' of '' @ nat_str declared @ '' blocks this week''
         else if declared = 0
         then ''You returned to your work '' @ nat_str recoveries @ '' times this week''
         else ''You returned '' @ nat_str recoveries @ '' times and completed '' @ nat_str completed
           @ '' of '' @ nat_str declared @ '' blocks this week'')
      in if withheld = 0 then counts @ ''.''
         else if withheld = 1 then counts @ '', and Velvt chose not to send one nudge.''
         else counts @ '', and Velvt chose not to send '' @ nat_str withheld @ '' nudges.'')"

definition digest_payload :: "weekly_digest_record \<Rightarrow> digest_card" where
  "digest_payload r = \<lparr>dg_week_start = wd_week_start r, dg_blocks_declared = wd_blocks_declared r,
     dg_blocks_completed = wd_blocks_completed r, dg_recoveries = wd_recoveries r,
     dg_wrong_interventions = wd_wrong_interventions r,
     dg_invitations_accepted = wd_invitations_accepted r, dg_withheld = wd_withheld r,
     dg_headline = digest_headline (wd_recoveries r) (wd_blocks_completed r) (wd_blocks_declared r)
       (wd_withheld r),
     dg_digest_version = wd_digest_version r\<rparr>"

section \<open>The manager\<close>

definition bounded_count :: "nat \<Rightarrow> nat" where
  "bounded_count n = min n u32_max"

definition total_recoveries :: "block_result list \<Rightarrow> nat" where
  "total_recoveries results = fold (\<lambda>r total. sat_add total (rs_recoveries r)) results 0"

definition generate_digest :: "receipts_env \<Rightarrow> local_week \<Rightarrow> instant \<Rightarrow> weekly_digest_record option receipts_op"
where
  "generate_digest E week now =
     (let since = lw_start_utc week; until = lw_end_utc week in
      andthen (declared_block_count_between since until) (\<lambda>declared.
      andthen (completed_block_count_between since until) (\<lambda>completed.
      andthen (results_between since until) (\<lambda>results.
      andthen (wrong_intervention_counts_between since until) (\<lambda>wrong.
      andthen (accepted_invitation_count_between since until) (\<lambda>accepted.
      andthen (withheld_count_between since until) (\<lambda>withheld.
      let r = \<lparr>wd_week_start = lw_start_local_date week, wd_generated_at = now,
            wd_blocks_declared = bounded_count declared, wd_blocks_completed = bounded_count completed,
            wd_recoveries = total_recoveries results, wd_wrong_interventions = was_focused wrong,
            wd_invitations_accepted = bounded_count accepted, wd_withheld = bounded_count withheld,
            wd_digest_version = DIGEST_POLICY_VERSION, wd_delivered_at = None,
            wd_acknowledged_at = None\<rparr>
      in if wd_blocks_declared r = 0 \<and> wd_blocks_completed r = 0 \<and> wd_recoveries r = 0
            \<and> wd_wrong_interventions r = 0 \<and> wd_invitations_accepted r = 0 \<and> wd_withheld r = 0
         then ret None
         else andthen (store_weekly_digest r) (\<lambda>_.
           andthen (case receipts_cutoff E (lw_start_local_date week) of
               None \<Rightarrow> ret 0 | Some c \<Rightarrow> prune_receipts_before c) (\<lambda>_. ret (Some r))))))))))"

definition ask_gates :: "'a init_op \<Rightarrow> 'a receipts_op" where
  "ask_gates m = (\<lambda>s. case m (rc_world s) of (Inl e, w) \<Rightarrow> (Inl (ReceiptsGate e), s\<lparr>rc_world := w\<rparr>)
     | (Inr a, w) \<Rightarrow> (Inr a, s\<lparr>rc_world := w\<rparr>))"

definition pending_digest :: "receipts_env \<Rightarrow> instant \<Rightarrow> int \<Rightarrow> digest_card option receipts_op" where
  "pending_digest E now utc_offset =
     (let week = previous_local_week E now (clamp_offset utc_offset) in
      andthen (weekly_digest (lw_start_local_date week)) (\<lambda>found.
      andthen (case found of Some r \<Rightarrow> ret (Some r) | None \<Rightarrow> generate_digest E week now) (\<lambda>found.
      case found of None \<Rightarrow> ret None
      | Some r \<Rightarrow>
          if wd_acknowledged_at r \<noteq> None then ret None
          else andthen (ask_gates (suppressed now)) (\<lambda>held.
            if held then ret None
            else andthen (mark_digest_delivered (lw_start_local_date week) now) (\<lambda>_.
              ret (Some (digest_payload r)))))))"

definition acknowledge_weekly_digest :: "string \<Rightarrow> instant \<Rightarrow> unit receipts_op" where
  "acknowledge_weekly_digest w now = andthen (acknowledge_digest w now) (\<lambda>_. ret ())"

definition record_explain_tap :: "receipts_env \<Rightarrow> instant \<Rightarrow> int \<Rightarrow> unit receipts_op" where
  "record_explain_tap E now utc_offset =
     andthen (record_explain_tap_row (current_local_week_start E now (clamp_offset utc_offset)) now)
       (\<lambda>_. ret ())"

definition explain_taps_this_week :: "receipts_env \<Rightarrow> instant \<Rightarrow> int \<Rightarrow> nat receipts_op" where
  "explain_taps_this_week E now utc_offset =
     explain_taps_for_week (current_local_week_start E now (clamp_offset utc_offset))"

definition interventions_delivered_this_week :: "receipts_env \<Rightarrow> instant \<Rightarrow> int \<Rightarrow> nat receipts_op" where
  "interventions_delivered_this_week E now utc_offset =
     (let week = current_local_week E now (clamp_offset utc_offset) in
      delivered_intervention_count_between (lw_start_utc week) (lw_end_utc week))"

definition clear_receipts_data :: "unit receipts_op" where
  "clear_receipts_data = andthen clear_receipts (\<lambda>_. ret ())"

section \<open>Runs\<close>

text \<open>Between two calls the tables the digest reads may become anything.\<close>

datatype receipts_command = RPending instant int | RAcknowledge string instant | RTap instant int
  | RClear | RWorld initiation

fun exec_receipts :: "receipts_env \<Rightarrow> receipts_command \<Rightarrow> receipts \<Rightarrow> receipts" where
  "exec_receipts E (RPending now off) s = snd (pending_digest E now off s)"
| "exec_receipts E (RAcknowledge w now) s = snd (acknowledge_weekly_digest w now s)"
| "exec_receipts E (RTap now off) s = snd (record_explain_tap E now off s)"
| "exec_receipts E RClear s = snd (clear_receipts_data s)"
| "exec_receipts E (RWorld w) s = s\<lparr>rc_world := w\<rparr>"

end
