(* ===== verification/Receipts_Properties.thy ===== *)
theory Receipts_Properties
  imports Receipts Block_Manager
begin

text \<open>
  What the weekly digest promises: local weeks tile the calendar, the counts are those of the
  completed week by the local calendar, and a digest that was handed over once is handed over
  unchanged until it is acknowledged, and never after.
\<close>

section \<open>Local weeks\<close>

lemma local_monday_iff:
  "local_monday t off = m \<longleftrightarrow> m \<le> local_day t off \<and> local_day t off < m + 7 \<and> (m + 3) mod 7 = 0"
proof -
  have "d - (d + 3) mod 7 = m \<longleftrightarrow> m \<le> d \<and> d < m + 7 \<and> (m + 3) mod 7 = 0" for d :: int by presburger
  then show ?thesis by (simp add: local_monday_def Let_def num_days_from_monday_def)
qed

lemma le_div_iff:
  fixes x n :: int
  assumes "0 < n"
  shows "m \<le> x div n \<longleftrightarrow> m * n \<le> x"
proof
  assume "m \<le> x div n"
  then have "m * n \<le> x div n * n" using assms by (simp add: mult_right_mono)
  also have "\<dots> \<le> x" using div_mult_mod_eq [of x n] pos_mod_sign [OF assms, of x] by linarith
  finally show "m * n \<le> x" .
next
  assume "m * n \<le> x"
  then have "m * n div n \<le> x div n" using assms by (rule zdiv_mono1)
  then show "m \<le> x div n" using assms by simp
qed

lemma local_day_bounds:
  "m \<le> local_day t off \<longleftrightarrow> from_timestamp (m * 86400) - seconds off \<le> t"
  "local_day t off < m \<longleftrightarrow> t < from_timestamp (m * 86400) - seconds off"
proof -
  have "m \<le> local_day t off \<longleftrightarrow> m * (86400 * NANOS) \<le> t + seconds off"
    unfolding local_day_def by (rule le_div_iff) (simp add: NANOS_def)
  then show iff: "m \<le> local_day t off \<longleftrightarrow> from_timestamp (m * 86400) - seconds off \<le> t"
    by (simp add: from_timestamp_def algebra_simps)
  then show "local_day t off < m \<longleftrightarrow> t < from_timestamp (m * 86400) - seconds off" by linarith
qed

lemma whole_second:
  "timestamp (from_timestamp k - seconds off) = k - off"
  "k - off \<le> timestamp t \<longleftrightarrow> from_timestamp k - seconds off \<le> t"
proof -
  have eq: "from_timestamp k - seconds off = (k - off) * NANOS"
    by (simp add: from_timestamp_def seconds_def left_diff_distrib)
  have pos: "0 < NANOS" by (simp add: NANOS_def)
  then show "timestamp (from_timestamp k - seconds off) = k - off" by (simp add: eq timestamp_def)
  show "k - off \<le> timestamp t \<longleftrightarrow> from_timestamp k - seconds off \<le> t"
    unfolding eq timestamp_def by (rule le_div_iff [OF pos])
qed

lemma in_week:
  assumes "(m + 3) mod 7 = 0"
  shows "in_range (lw_start_utc (week_from_monday E m off)) (lw_end_utc (week_from_monday E m off)) t \<longleftrightarrow>
    local_monday t off = m"
proof -
  have "timestamp t < (m + 7) * 86400 - off \<longleftrightarrow> t < from_timestamp ((m + 7) * 86400) - seconds off"
    using whole_second(2) [of "(m + 7) * 86400" off t] by linarith
  then show ?thesis using assms
    by (simp only: in_range_def week_from_monday_def local_week.simps whole_second local_monday_iff
        local_day_bounds) simp
qed

text \<open>
  Local weeks tile the calendar. At any offset the current week contains the current
  instant, runs for seven days from a local Monday, and starts exactly where the week before,
  the one the digest reports, ends; and the whole seconds the tables store fall in the range of
  a week exactly when their local Monday is that week's.
\<close>

theorem local_weeks_tile_the_calendar:
  "lw_start_utc (current_local_week E now off) \<le> now \<and> now < lw_end_utc (current_local_week E now off)
   \<and> lw_end_utc (current_local_week E now off) = lw_start_utc (current_local_week E now off) + days 7
   \<and> lw_end_utc (previous_local_week E now off) = lw_start_utc (current_local_week E now off)
   \<and> num_days_from_monday (local_monday now off * 86400) = 0
   \<and> (in_range (lw_start_utc (previous_local_week E now off)) (lw_end_utc (previous_local_week E now off)) t
      \<longleftrightarrow> local_monday t off = local_monday now off - 7)"
proof -
  let ?m = "local_monday now off"
  have m: "?m \<le> local_day now off" "local_day now off < ?m + 7" "(?m + 3) mod 7 = 0"
    using local_monday_iff [of now off ?m] by simp_all
  have "((?m - 7) + 3) mod 7 = 0" using m(3) by presburger
  from in_week [OF this, of E off t] m show ?thesis
    by (simp add: current_local_week_def previous_local_week_def local_day_bounds week_from_monday_def days_def
        num_days_from_monday_def from_timestamp_def seconds_def algebra_simps)
qed

section \<open>The counts of a week\<close>

text \<open>
  The reference: what a week holds, read off the tables by the local calendar and without any
  range, order or running total. The counters of the record are 32 bits wide.
\<close>

definition week_recoveries :: "wb_state \<Rightarrow> (instant \<Rightarrow> bool) \<Rightarrow> nat" where
  "week_recoveries b P = (\<Sum>x \<leftarrow> filter (\<lambda>x. P (wb_started_at x)) (t_work_block b).
     \<Sum>(k, r) \<leftarrow> filter (\<lambda>(k, r). k = wb_block_id x) (t_result b). rs_recoveries r)"

definition calendar_digest :: "receipts_env \<Rightarrow> instant \<Rightarrow> int \<Rightarrow> int \<Rightarrow> initiation \<Rightarrow> weekly_digest_record" where
  "calendar_digest E now off m w =
     (let P = (\<lambda>t. local_monday t off = m); b = in_blocks w; count = (\<lambda>n. min n u32_max) in
      \<lparr>wd_week_start = re_format_date E m, wd_generated_at = now,
       wd_blocks_declared = count (length (filter (\<lambda>x. P (wb_started_at x)) (t_work_block b))),
       wd_blocks_completed = count (length (filter (\<lambda>x. wb_phase x = Completed \<and> P (wb_started_at x)) (t_work_block b))),
       wd_recoveries = count (week_recoveries b P),
       wd_wrong_interventions = length (filter (\<lambda>(k, i). P (iv_offered_at i) \<and> iv_outcome i = WasFocused) (t_intervention b)),
       wd_invitations_accepted = count (length (filter (\<lambda>i. ii_outcome i = InvAccepted
         \<and> (case ii_outcome_at i of None \<Rightarrow> False | Some t \<Rightarrow> P t)) (in_invitations w))),
       wd_withheld = count (length (filter (\<lambda>(k, i). iv_outcome i \<in> {DeliverySuppressedDnd, WithheldDemotion}
         \<and> P (iv_offered_at i)) (t_intervention b))),
       wd_digest_version = DIGEST_POLICY_VERSION, wd_delivered_at = None, wd_acknowledged_at = None\<rparr>)"

definition nothing_counted :: "weekly_digest_record \<Rightarrow> bool" where
  "nothing_counted r \<longleftrightarrow> wd_blocks_declared r = 0 \<and> wd_blocks_completed r = 0 \<and> wd_recoveries r = 0
     \<and> wd_wrong_interventions r = 0 \<and> wd_invitations_accepted r = 0 \<and> wd_withheld r = 0"

lemma total_recoveries_eq: "total_recoveries rs = min (\<Sum>r \<leftarrow> rs. rs_recoveries r) u32_max"
proof -
  have "fold (\<lambda>r total. sat_add total (rs_recoveries r)) rs a = min (a + (\<Sum>r \<leftarrow> rs. rs_recoveries r)) u32_max"
    if "a \<le> u32_max" for a
    using that
  proof (induction rs arbitrary: a)
    case Nil
    then show ?case by simp
  next
    case (Cons r rs)
    show ?case using Cons.IH [of "sat_add a (rs_recoveries r)"] by (simp add: sat_add_def)
  qed
  from this [of 0] show ?thesis by (simp add: total_recoveries_def)
qed

lemma sum_list_sort_key: "(\<Sum>x \<leftarrow> sort_key k xs. f x) = (\<Sum>x \<leftarrow> xs. f x)" for f :: "'a \<Rightarrow> nat"
proof (induction xs)
  case (Cons x xs)
  have "(\<Sum>y \<leftarrow> insort_key k x ys. f y) = f x + (\<Sum>y \<leftarrow> ys. f y)" for ys by (induction ys) simp_all
  with Cons show ?case by simp
qed simp

lemma recoveries_of_joined_rows:
  "(\<Sum>r \<leftarrow> concat (map (\<lambda>b. map snd (filter (Q b) T)) xs). rs_recoveries r)
   = (\<Sum>b \<leftarrow> xs. \<Sum>(k, r) \<leftarrow> filter (Q b) T. rs_recoveries r)"
  by (induction xs) (simp_all add: o_def case_prod_beta)

lemma generate_digest_eq:
  assumes m: "(m + 3) mod 7 = 0"
  shows "generate_digest E (week_from_monday E m off) now s =
    (let r = calendar_digest E now off m (rc_world s) in
     if nothing_counted r then (Inr None, s)
     else andthen (store_weekly_digest r) (\<lambda>_. andthen (case receipts_cutoff E (re_format_date E m) of
               None \<Rightarrow> ret 0 | Some c \<Rightarrow> prune_receipts_before c) (\<lambda>_. ret (Some r))) s)"
proof -
  let ?w = "week_from_monday E m off"
  have range: "in_range (lw_start_utc ?w) (lw_end_utc ?w) = (\<lambda>t. local_monday t off = m)"
    using in_week [OF m] by blast
  have wrong: "was_focused (counts_between b (timestamp (lw_start_utc ?w)) (Some (timestamp (lw_end_utc ?w))))
      = length (filter (\<lambda>(k, i). local_monday (iv_offered_at i) off = m \<and> iv_outcome i = WasFocused) (t_intervention b))"
    for b
    unfolding range [THEN fun_cong, symmetric]
    by (simp add: counts_between_def Let_def filter_map o_def in_range_def case_prod_unfold conj_ac)
  have results: "min (\<Sum>r \<leftarrow> concat (map (\<lambda>b. map snd (filter (\<lambda>(k, r). k = wb_block_id b) (t_result B)))
        (sort_key (\<lambda>b. (timestamp (wb_started_at b), wb_block_id b))
          (filter (\<lambda>b. local_monday (wb_started_at b) off = m) (t_work_block B)))). rs_recoveries r) u32_max
      = min (week_recoveries B (\<lambda>t. local_monday t off = m)) u32_max" for B
    by (simp only: recoveries_of_joined_rows sum_list_sort_key week_recoveries_def)
  have start: "lw_start_local_date ?w = re_format_date E m" by (simp add: week_from_monday_def)
  have early: "(if c then ret None else q) s = (if c then (Inr None, s) else q s)"
    for c and q :: "weekly_digest_record option receipts_op"
    by (simp add: op_defs)
  show ?thesis
    unfolding generate_digest_def Let_def declared_block_count_between_def completed_block_count_between_def
      results_between_def accepted_invitation_count_between_def withheld_count_between_def
      wrong_intervention_counts_between_def andthen_gets range wrong total_recoveries_eq results start
      calendar_digest_def bounded_count_def nothing_counted_def early weekly_digest_record.simps ..
qed

lemma suppressed_answers:
  obtains b where "suppressed now w = (Inr b, w)"
  by (cases "suppressed now w")
    (auto simp: suppressed_def live_block_exists_def in_quiet_hours_def focus_active_def op_defs
      split: if_splits)

definition held :: "instant \<Rightarrow> initiation \<Rightarrow> bool" where
  "held now w \<longleftrightarrow> fst (suppressed now w) = Inr True"

lemma gates_answer: "ask_gates (suppressed now) s = (Inr (held now (rc_world s)), s)"
proof -
  obtain b where "suppressed now (rc_world s) = (Inr b, rc_world s)" by (rule suppressed_answers)
  then show ?thesis by (cases b) (simp_all add: ask_gates_def held_def)
qed

lemma offer_row:
  "fst (andthen (ask_gates (suppressed now)) (\<lambda>h. if h then ret None
      else andthen (mark_digest_delivered k now) (\<lambda>_. ret (Some (digest_payload r)))) s)
   = Inr (if held now (rc_world s) then None else Some (digest_payload r))"
  by (simp add: andthen_def gates_answer op_simps op_defs mark_digest_delivered_def)

lemma find_absent: "\<forall>x \<in> set xs. key x \<noteq> k \<Longrightarrow> find (\<lambda>x. key x = k) xs = None"
  by (induction xs) auto

lemma previous_monday: "(local_monday now off - 7 + 3) mod 7 = 0"
  using local_monday_iff [of now off "local_monday now off"] by presburger

lemma store_and_prune:
  assumes "wd_week_start r \<notin> wd_week_start ` set (rc_digests s)" and "length (wd_week_start r) = 10"
    and "1 \<le> wd_digest_version r"
  obtains t where "andthen (store_weekly_digest r) (\<lambda>_. andthen (case cutoff of
      None \<Rightarrow> ret 0 | Some c \<Rightarrow> prune_receipts_before c) (\<lambda>_. ret (Some r))) s = (Inr (Some r), t)"
    and "rc_world t = rc_world s"
  using assms by (cases cutoff)
    (auto simp: op_defs store_weekly_digest_def digest_check_def prune_receipts_before_def)

text \<open>
  C35: What the digest says. For a completed week with no stored row the request writes one
  and, unless a gate is closed, hands over exactly the counts of that week by the local
  calendar: blocks declared and completed, recoveries of their results, interruptions answered
  "was focused", invitations accepted and nudges withheld. A week in which nothing was counted
  gives no digest.
\<close>

theorem digest_counts_the_week:
  fixes E now off s
  defines "m \<equiv> local_monday now (clamp_offset off) - 7"
  defines "r \<equiv> calendar_digest E now (clamp_offset off) m (rc_world s)"
  assumes fresh: "\<forall>x \<in> set (rc_digests s). wd_week_start x \<noteq> re_format_date E m"
    and date: "length (re_format_date E m) = 10"
  shows "fst (pending_digest E now off s) =
    Inr (if nothing_counted r \<or> held now (rc_world s) then None else Some (digest_payload r))"
proof -
  have week: "previous_local_week E now (clamp_offset off) = week_from_monday E m (clamp_offset off)"
    by (simp add: previous_local_week_def m_def)
  have start: "lw_start_local_date (week_from_monday E m (clamp_offset off)) = re_format_date E m"
    by (simp add: week_from_monday_def)
  have absent: "weekly_digest (re_format_date E m) s = (Inr None, s)"
    using find_absent [OF fresh] by (simp add: weekly_digest_def op_simps)
  have gen: "generate_digest E (week_from_monday E m (clamp_offset off)) now s =
      (if nothing_counted r then (Inr None, s)
       else andthen (store_weekly_digest r) (\<lambda>_. andthen (case receipts_cutoff E (re_format_date E m) of
               None \<Rightarrow> ret 0 | Some c \<Rightarrow> prune_receipts_before c) (\<lambda>_. ret (Some r))) s)"
    using generate_digest_eq [OF previous_monday [of now "clamp_offset off"], folded m_def]
    by (simp add: Let_def r_def)
  have row: "wd_week_start r = re_format_date E m" "wd_digest_version r = 1" "wd_acknowledged_at r = None"
    by (simp_all add: r_def calendar_digest_def Let_def DIGEST_POLICY_VERSION_def)
  have "wd_week_start r \<notin> wd_week_start ` set (rc_digests s)" using fresh row by auto
  then obtain t where t: "andthen (store_weekly_digest r) (\<lambda>_. andthen (case receipts_cutoff E (re_format_date E m) of
               None \<Rightarrow> ret 0 | Some c \<Rightarrow> prune_receipts_before c) (\<lambda>_. ret (Some r))) s = (Inr (Some r), t)"
      "rc_world t = rc_world s"
    by (rule store_and_prune) (simp_all add: row date)
  show ?thesis
  proof (cases "nothing_counted r")
    case True
    then show ?thesis unfolding pending_digest_def Let_def week start
      by (simp add: andthen_def absent gen ret_def)
  next
    case False
    have "fst (pending_digest E now off s) = fst (andthen (ask_gates (suppressed now)) (\<lambda>h. if h then ret None
      else andthen (mark_digest_delivered (re_format_date E m) now) (\<lambda>_. ret (Some (digest_payload r)))) t)"
      unfolding pending_digest_def Let_def week start
      using False t by (simp add: andthen_def [of "weekly_digest _"] andthen_def [of "generate_digest _ _ _"] absent gen row)
    then show ?thesis using False t by (simp add: offer_row)
  qed
qed

section \<open>A digest is frozen\<close>

text \<open>
  The row behind a card: the one of its week, with the card's counts, and closed or not.
  \<open>spares\<close> says of a command that it does not take the row of week \<open>w\<close> away: no wipe, and no
  request so much later that the twelve weeks of retention have passed.
\<close>

definition digest_row :: "string \<Rightarrow> receipts \<Rightarrow> weekly_digest_record option" where
  "digest_row w s = find (\<lambda>r. wd_week_start r = w) (rc_digests s)"

definition on_file :: "digest_card \<Rightarrow> bool \<Rightarrow> receipts \<Rightarrow> bool" where
  "on_file d shut s \<longleftrightarrow> (\<exists>r. digest_row (dg_week_start d) s = Some r \<and> digest_payload r = d
     \<and> (wd_acknowledged_at r \<noteq> None) = shut)"

definition digest_week :: "receipts_env \<Rightarrow> instant \<Rightarrow> int \<Rightarrow> string" where
  "digest_week E now off = re_format_date E (local_monday now (clamp_offset off) - 7)"

fun spares :: "receipts_env \<Rightarrow> string \<Rightarrow> receipts_command \<Rightarrow> bool" where
  "spares E w RClear = False"
| "spares E w (RPending now off) =
     (case receipts_cutoff E (digest_week E now off) of None \<Rightarrow> True | Some c \<Rightarrow> \<not> w < c)"
| "spares E w c = True"

fun closes :: "string \<Rightarrow> receipts_command \<Rightarrow> bool" where
  "closes w (RAcknowledge v t) \<longleftrightarrow> v = w"
| "closes w c \<longleftrightarrow> False"

lemma digest_week_eq: "lw_start_local_date (previous_local_week E now (clamp_offset off)) = digest_week E now off"
  by (simp add: previous_local_week_def week_from_monday_def digest_week_def)

lemma find_map_rows: "(\<And>x. P (f x) = P x) \<Longrightarrow> find P (map f xs) = map_option f (find P xs)"
  by (induction xs) simp_all

lemma find_filtered: "(\<And>x. P x \<Longrightarrow> Q x) \<Longrightarrow> find P (filter Q xs) = find P xs"
  by (induction xs) auto

lemma find_appended: "find P (xs @ ys) = (case find P xs of None \<Rightarrow> find P ys | Some x \<Rightarrow> Some x)"
  by (induction xs) simp_all

lemma digest_row_mark:
  "digest_row w (snd (mark_digest_delivered k t s)) = map_option (\<lambda>r.
     if wd_week_start r = k \<and> wd_delivered_at r = None then r\<lparr>wd_delivered_at := Some (stored t)\<rparr> else r) (digest_row w s)"
  by (simp add: digest_row_def mark_digest_delivered_def op_simps find_map_rows)

lemma digest_row_acknowledge:
  "digest_row w (snd (acknowledge_digest k t s)) = map_option (\<lambda>r.
     if wd_week_start r = k \<and> wd_acknowledged_at r = None then r\<lparr>wd_acknowledged_at := Some (stored t)\<rparr> else r) (digest_row w s)"
  by (simp add: digest_row_def acknowledge_digest_def op_simps find_map_rows)

lemma digest_row_prune: "\<not> w < c \<Longrightarrow> digest_row w (snd (prune_receipts_before c s)) = digest_row w s"
  by (auto simp: digest_row_def prune_receipts_before_def intro!: find_filtered)

lemma digest_row_store: "digest_row w s = Some r \<Longrightarrow> digest_row w (snd (store_weekly_digest x s)) = Some r"
  by (simp add: digest_row_def store_weekly_digest_def find_appended)

lemma digest_row_week: "digest_row w s = Some r \<Longrightarrow> wd_week_start r = w"
  by (auto simp: digest_row_def find_Some_iff)

lemma on_file_same: "rc_digests t = rc_digests s \<Longrightarrow> on_file d a t = on_file d a s"
  by (simp add: on_file_def digest_row_def)

lemma payload_fields [simp]:
  "digest_payload (r\<lparr>wd_delivered_at := x\<rparr>) = digest_payload r"
  "digest_payload (r\<lparr>wd_acknowledged_at := x\<rparr>) = digest_payload r"
  "dg_week_start (digest_payload r) = wd_week_start r"
  by (simp_all add: digest_payload_def)

lemma on_file_mapped:
  assumes "on_file d a s"
    and "digest_row (dg_week_start d) t = map_option f (digest_row (dg_week_start d) s)"
    and "\<And>r. digest_payload (f r) = digest_payload r"
    and "\<And>r. wd_week_start r = dg_week_start d \<Longrightarrow>
      (wd_acknowledged_at (f r) \<noteq> None) = (wd_acknowledged_at r \<noteq> None \<or> b)"
  shows "on_file d (a \<or> b) t"
proof -
  obtain r where r: "digest_row (dg_week_start d) s = Some r" "digest_payload r = d" "(wd_acknowledged_at r \<noteq> None) = a"
    using assms(1) unfolding on_file_def by blast
  have "digest_row (dg_week_start d) t = Some (f r)" using assms(2) r(1) by simp
  moreover have "digest_payload (f r) = d" using assms(3) r(2) by simp
  moreover have "(wd_acknowledged_at (f r) \<noteq> None) = (a \<or> b)"
    using assms(4) [OF digest_row_week [OF r(1)]] r(3) by simp
  ultimately show ?thesis unfolding on_file_def by blast
qed

lemma mark_obeys: "obeys (keeping (on_file d a)) (mark_digest_delivered k t)"
proof (rule obeysI)
  fix s
  have "on_file d (a \<or> False) (snd (mark_digest_delivered k t s))" if "on_file d a s"
    by (rule on_file_mapped [OF that digest_row_mark]) simp_all
  then show "keeping (on_file d a) s (snd (mark_digest_delivered k t s))" by (simp add: keeping_def)
qed

lemma store_obeys: "obeys (keeping (on_file d a)) (store_weekly_digest x)"
  by (rule obeysI) (auto simp: keeping_def on_file_def dest: digest_row_store)

lemma prune_obeys: "\<not> dg_week_start d < c \<Longrightarrow> obeys (keeping (on_file d a)) (prune_receipts_before c)"
  by (rule obeysI) (simp add: keeping_def on_file_def digest_row_prune)

lemma gates_obey: "obeys (keeping (on_file d a)) (ask_gates (suppressed now))"
  by (rule obeysI) (simp add: keeping_def gates_answer)

lemma generate_obeys:
  assumes "\<And>c. receipts_cutoff E (lw_start_local_date week) = Some c \<Longrightarrow> \<not> dg_week_start d < c"
  shows "obeys (keeping (on_file d a)) (generate_digest E week now)"
  unfolding generate_digest_def Let_def declared_block_count_between_def completed_block_count_between_def
      results_between_def accepted_invitation_count_between_def withheld_count_between_def
      wrong_intervention_counts_between_def
  by (intro keeping.rules store_obeys prune_obeys assms)

lemma pending_obeys:
  assumes "spares E (dg_week_start d) (RPending now off)"
  shows "obeys (keeping (on_file d a)) (pending_digest E now off)"
proof -
  have "\<not> dg_week_start d < c" if "receipts_cutoff E (lw_start_local_date (previous_local_week E now (clamp_offset off))) = Some c" for c
    using assms that by (simp add: digest_week_eq)
  then show ?thesis
    unfolding pending_digest_def Let_def weekly_digest_def
    by (intro keeping.rules generate_obeys gates_obey mark_obeys)
qed

lemma on_file_step:
  assumes "on_file d a s" and "spares E (dg_week_start d) c"
  shows "on_file d (a \<or> closes (dg_week_start d) c) (exec_receipts E c s)"
proof (cases c)
  case (RPending now off)
  then show ?thesis using assms obeysD [OF pending_obeys, of E d now off a s] by (simp add: keeping_def)
next
  case (RAcknowledge v t)
  have "snd (acknowledge_weekly_digest v t s) = snd (acknowledge_digest v t s)"
    by (simp add: acknowledge_weekly_digest_def acknowledge_digest_def op_defs)
  moreover have "on_file d (a \<or> v = dg_week_start d) (snd (acknowledge_digest v t s))"
    by (rule on_file_mapped [OF assms(1) digest_row_acknowledge]) auto
  ultimately show ?thesis using RAcknowledge by simp
next
  case (RTap t off)
  then show ?thesis using assms on_file_same [of "exec_receipts E c s" s]
    by (simp add: record_explain_tap_def record_explain_tap_row_def op_defs)
qed (use assms in \<open>auto simp: on_file_def digest_row_def\<close>)

lemma on_file_run:
  assumes "on_file d a s" and "\<forall>c \<in> set cs. spares E (dg_week_start d) c"
  shows "on_file d (a \<or> (\<exists>c \<in> set cs. closes (dg_week_start d) c)) (fold (exec_receipts E) cs s)"
  using assms
proof (induction cs arbitrary: a s)
  case (Cons c cs)
  have "on_file d (a \<or> closes (dg_week_start d) c) (exec_receipts E c s)"
    using Cons.prems by (intro on_file_step) simp_all
  from Cons.IH [OF this] Cons.prems show ?case by (simp add: disj_assoc)
qed simp

lemma pending_by_row:
  "pending_digest E now off s =
    (case digest_row (digest_week E now off) s of
       Some r \<Rightarrow> if wd_acknowledged_at r \<noteq> None \<or> held now (rc_world s) then (Inr None, s)
                 else (Inr (Some (digest_payload r)), snd (mark_digest_delivered (digest_week E now off) now s))
     | None \<Rightarrow> (case generate_digest E (week_from_monday E (local_monday now (clamp_offset off) - 7) (clamp_offset off)) now s of
         (Inl e, t) \<Rightarrow> (Inl e, t) | (Inr None, t) \<Rightarrow> (Inr None, t)
       | (Inr (Some r), t) \<Rightarrow> if wd_acknowledged_at r \<noteq> None \<or> held now (rc_world t) then (Inr None, t)
                 else (Inr (Some (digest_payload r)), snd (mark_digest_delivered (digest_week E now off) now t))))"
  unfolding pending_digest_def Let_def digest_week_eq
  by (auto simp: weekly_digest_def digest_row_def previous_local_week_def andthen_def gets_def ret_def modify_def
      gates_answer mark_digest_delivered_def split: option.splits sum.splits prod.splits)

lemma stored_on_file:
  assumes "digest_check s r" and "wd_acknowledged_at r = None"
  shows "on_file (digest_payload r) False (snd (store_weekly_digest r s))"
proof -
  let ?row = "r\<lparr>wd_generated_at := stored (wd_generated_at r), wd_delivered_at := map_option stored (wd_delivered_at r),
        wd_acknowledged_at := map_option stored (wd_acknowledged_at r)\<rparr>"
  have "find (\<lambda>x. wd_week_start x = wd_week_start r) (rc_digests s) = None"
    using assms(1) by (intro find_absent) (auto simp: digest_check_def image_iff)
  then have "digest_row (wd_week_start r) (snd (store_weekly_digest r s)) = Some ?row"
    using assms(1) by (simp add: digest_row_def store_weekly_digest_def find_appended)
  moreover have "digest_payload ?row = digest_payload r" "dg_week_start (digest_payload r) = wd_week_start r"
    by (simp_all add: digest_payload_def)
  ultimately show ?thesis using assms(2) by (simp add: on_file_def)
qed

lemma generated_row:
  assumes "generate_digest E (week_from_monday E m off) now s = (Inr (Some r), t)" and "(m + 3) mod 7 = 0"
  shows "wd_week_start r = re_format_date E m"
    and "(\<And>c. receipts_cutoff E (re_format_date E m) = Some c \<Longrightarrow> \<not> re_format_date E m < c) \<Longrightarrow>
      on_file (digest_payload r) False t"
proof -
  let ?r = "calendar_digest E now off m (rc_world s)"
  let ?t = "snd (store_weekly_digest ?r s)"
  have key: "wd_week_start ?r = re_format_date E m" "wd_acknowledged_at ?r = None"
    by (simp_all add: calendar_digest_def Let_def)
  have r: "r = ?r" and ok: "digest_check s ?r"
    and t: "t = (case receipts_cutoff E (re_format_date E m) of None \<Rightarrow> ?t | Some c \<Rightarrow> snd (prune_receipts_before c ?t))"
    using assms(1) unfolding generate_digest_eq [OF assms(2)] Let_def
    by (auto simp: op_defs store_weekly_digest_def prune_receipts_before_def split: if_splits option.splits)
  show "wd_week_start r = re_format_date E m" using r key by simp
  have week: "dg_week_start (digest_payload ?r) = re_format_date E m" by (simp add: digest_payload_def key)
  have "on_file (digest_payload ?r) False ?t" by (rule stored_on_file [OF ok key(2)])
  then show "on_file (digest_payload r) False t"
    if "\<And>c. receipts_cutoff E (re_format_date E m) = Some c \<Longrightarrow> \<not> re_format_date E m < c"
    using t r that obeysD [OF prune_obeys [of "digest_payload ?r", unfolded week], of _ False ?t]
    by (auto simp: keeping_def split: option.splits)
qed

lemma handed_over:
  assumes "fst (pending_digest E now off s) = Inr (Some d)"
    and "spares E (dg_week_start d) (RPending now off)"
  shows "on_file d False (snd (pending_digest E now off s))"
proof (cases "digest_row (digest_week E now off) s")
  case (Some r)
  have "wd_week_start r = digest_week E now off" using Some by (rule digest_row_week)
  with assms(1) Some have "on_file d False s" by (auto simp: pending_by_row on_file_def split: if_splits)
  then show ?thesis using obeysD [OF pending_obeys [OF assms(2)], of False s] by (simp add: keeping_def)
next
  case None
  let ?m = "local_monday now (clamp_offset off) - 7"
  obtain r t where g: "generate_digest E (week_from_monday E ?m (clamp_offset off)) now s = (Inr (Some r), t)"
    and d: "d = digest_payload r"
    and u: "snd (pending_digest E now off s) = snd (mark_digest_delivered (digest_week E now off) now t)"
    using assms(1) None by (auto simp: pending_by_row split: prod.splits sum.splits option.splits if_splits)
  have week: "wd_week_start r = re_format_date E ?m" by (rule generated_row(1) [OF g previous_monday])
  have "on_file d False t"
    unfolding d
    by (rule generated_row(2) [OF g previous_monday]) (use assms(2) week in \<open>simp add: d digest_week_def\<close>)
  then show ?thesis using obeysD [OF mark_obeys, of d False t _ now] by (simp add: u keeping_def)
qed

text \<open>
  C36: A digest is frozen. Once handed over, a card stays what it is: asked again in the same
  week, after any commands that do not wipe the record or outlive its twelve weeks of
  retention, and whatever has become of the blocks, invitations and interventions it counted,
  the answer is that very card; silence while a gate is closed, and silence for good once it
  was acknowledged.
\<close>

theorem digest_is_frozen:
  assumes first: "fst (pending_digest E t off s) = Inr (Some d)"
    and spared: "\<forall>c \<in> set (RPending t off # cs). spares E (dg_week_start d) c"
    and week: "digest_week E now off' = dg_week_start d"
  defines "s' \<equiv> fold (exec_receipts E) (RPending t off # cs) s"
  shows "fst (pending_digest E now off' s') =
    Inr (if (\<exists>c \<in> set cs. closes (dg_week_start d) c) \<or> held now (rc_world s') then None else Some d)"
proof -
  have "on_file d (False \<or> (\<exists>c \<in> set cs. closes (dg_week_start d) c)) s'"
    unfolding s'_def fold_simps exec_receipts.simps
    using spared by (intro on_file_run handed_over first) simp_all
  then show ?thesis by (auto simp: on_file_def pending_by_row week)
qed

section \<open>A week of receipts\<close>

text \<open>One block, completed on the Tuesday before the week of Friday 15 January 2027.\<close>

definition january_block :: work_block_record where
  "january_block = \<lparr>wb_block_id = ''b'', wb_phase = Completed, wb_intention = None, wb_purpose = None,
     wb_intensity = LightIntensity, wb_planned = 3000, wb_started_at = from_timestamp 1799100000,
     wb_paused_at = None, wb_total_paused = 0, wb_ended_at = Some (from_timestamp 1799103000),
     wb_recovered = False, wb_recovery_of = None, wb_origin = Manual,
     wb_intention_expires_at = from_timestamp 1799100000, wb_updated_at = from_timestamp 1799103000\<rparr>"

definition january_world :: "work_block_record list \<Rightarrow> initiation" where
  "january_world bs = \<lparr>in_invitations = [], in_settings = None,
     in_blocks = empty_store\<lparr>t_work_block := bs\<rparr>, in_focus = empty_focus\<rparr>"

definition january_env :: receipts_env where
  "january_env = \<lparr>re_format_date = \<lambda>n. if n = 20822 then ''2027-01-04'' else ''2026-10-12'',
     re_parse_date = \<lambda>s. if s = ''2027-01-04'' then Some 20822 else None\<rparr>"

definition january_receipts :: receipts where
  "january_receipts = \<lparr>rc_digests = [], rc_taps = [], rc_world = january_world [january_block]\<rparr>"

definition january_card :: digest_card where
  "january_card = \<lparr>dg_week_start = ''2027-01-04'', dg_blocks_declared = 1, dg_blocks_completed = 1,
     dg_recoveries = 0, dg_wrong_interventions = 0, dg_invitations_accepted = 0, dg_withheld = 0,
     dg_headline = ''You completed 1 of 1 blocks this week.'', dg_digest_version = 1\<rparr>"

abbreviation friday :: instant where
  "friday \<equiv> from_timestamp 1800000000"

lemma january_monday:
  "local_monday friday 0 = 20829" "local_monday (from_timestamp 1799100000) 0 = 20822" "clamp_offset 0 = 0"
  by code_simp+

lemmas january_defs = january_world_def january_block_def january_env_def empty_store_def

lemma january_record:
  "calendar_digest january_env friday 0 20822 (january_world [january_block]) =
   \<lparr>wd_week_start = ''2027-01-04'', wd_generated_at = friday, wd_blocks_declared = 1, wd_blocks_completed = 1,
    wd_recoveries = 0, wd_wrong_interventions = 0, wd_invitations_accepted = 0, wd_withheld = 0,
    wd_digest_version = 1, wd_delivered_at = None, wd_acknowledged_at = None\<rparr>"
  by (simp add: calendar_digest_def Let_def january_defs week_recoveries_def january_monday u32_max_def
      DIGEST_POLICY_VERSION_def)

lemma january_card_eq:
  "digest_payload (calendar_digest january_env friday 0 20822 (january_world [january_block])) = january_card"
  unfolding january_record by code_simp

lemma january_open: "bs = [] \<or> bs = [january_block] \<Longrightarrow> \<not> held now (january_world bs)"
  by (auto simp: held_def suppressed_def live_block_exists_def latest_def january_world_def january_block_def
      in_quiet_hours_def focus_active_def in_velvt_quiet_hours_def quiet_hours_remaining_minutes_def
      is_focus_active_def focus_state_at_bucket_def latest_row_def live_def empty_focus_def op_defs empty_store_def)

lemma january_row:
  "fst (pending_digest january_env friday 0 january_receipts) = Inr (Some january_card)"
proof -
  let ?r = "calendar_digest january_env friday 0 20822 (rc_world january_receipts)"
  have world: "rc_world january_receipts = january_world [january_block]" by (simp add: january_receipts_def)
  have none: "digest_row w january_receipts = None" for w by (simp add: digest_row_def january_receipts_def)
  obtain t where t: "andthen (store_weekly_digest ?r) (\<lambda>_. andthen
        (case receipts_cutoff january_env (re_format_date january_env 20822) of
           None \<Rightarrow> ret 0 | Some c \<Rightarrow> prune_receipts_before c) (\<lambda>_. ret (Some ?r))) january_receipts
      = (Inr (Some ?r), t)" "rc_world t = january_world [january_block]"
    by (rule store_and_prune [of ?r january_receipts "receipts_cutoff january_env (re_format_date january_env 20822)"])
      (simp_all add: world january_record, simp add: january_receipts_def)
  have "((20822::int) + 3) mod 7 = 0" by simp
  then have "generate_digest january_env (week_from_monday january_env 20822 0) friday january_receipts = (Inr (Some ?r), t)"
    using t(1) by (subst generate_digest_eq) (simp_all add: Let_def nothing_counted_def world january_record)
  then show ?thesis
    using none january_open [of "[january_block]" friday] january_card_eq
    by (simp add: pending_by_row january_monday t(2) world january_record)
qed

theorem digest_counts_the_week_witness:
  "fst (pending_digest january_env friday 0 january_receipts) = Inr (Some january_card)"
proof -
  have "length (re_format_date january_env 20822) = 10" by (simp add: january_env_def)
  then show ?thesis
    using digest_counts_the_week [of january_receipts january_env friday 0] january_open [of "[january_block]" friday]
      january_card_eq
    by (simp add: january_monday january_receipts_def nothing_counted_def) (simp add: january_record)
qed

theorem digest_is_frozen_witness:
  "fst (pending_digest january_env (from_timestamp 1800003600) 0
     (fold (exec_receipts january_env) [RPending friday 0, RWorld (january_world []), RTap friday 0] january_receipts))
   = Inr (Some january_card)"
proof -
  let ?cs = "[RWorld (january_world []), RTap friday 0]"
  have cutoff: "receipts_cutoff january_env ''2027-01-04'' = Some ''2026-10-12''" by code_simp
  have weeks: "digest_week january_env friday 0 = ''2027-01-04''"
      "digest_week january_env (from_timestamp 1800003600) 0 = ''2027-01-04''" by code_simp+
  have card: "dg_week_start january_card = ''2027-01-04''" by (simp add: january_card_def)
  have "\<not> ''2027-01-04'' < ''2026-10-12''" by code_simp
  then have "\<forall>c \<in> set (RPending friday 0 # ?cs). spares january_env (dg_week_start january_card) c"
    by (simp add: card weeks cutoff)
  moreover have "rc_world (fold (exec_receipts january_env) (RPending friday 0 # ?cs) january_receipts) = january_world []"
    by (simp add: record_explain_tap_def record_explain_tap_row_def op_defs)
  moreover have "\<not> held (from_timestamp 1800003600) (january_world [])" by (rule january_open) simp
  ultimately show ?thesis
    using digest_is_frozen [OF january_row, of ?cs "from_timestamp 1800003600" 0] weeks(2) card by simp
qed

end
