(* ===== verification/Spec2Isabelle.thy ===== *)
theory Spec2Isabelle
  imports Block_Properties Auth_Properties Egress_Properties Client_Properties Upload_Interleaving
    Focus_Properties Ipc_Properties Initiation_Properties
    Delivery_Properties Fetch_Properties Prompt_Properties Corrections_Properties
    Rule_Runs Retention_Properties Receipts_Properties
begin

text \<open>
  \<^bold>\<open>A verification development for the Velvt service\<close> (\<^verbatim>\<open>src/rust-service\<close>).

  Velvt runs a background service on a Mac. A Swift client sends it window events over a local
  socket; the service abstracts them to broad categories, keeps a private SQLite database,
  runs declared work blocks with at most one interruption each, learns when to invite a soft
  start, uploads category-level events in batches under a device account, records every
  outgoing request in a hash-chained ledger, and shows the client what the cloud sends back.

  \<^bold>\<open>Conventions\<close> (theory \<^verbatim>\<open>Prelude\<close>). An instant is an \<open>int\<close> of nanoseconds since the epoch;
  \<open>timestamp\<close> and \<open>stored\<close> are the whole second the database keeps. A method that may return
  early is an operation \<open>'s \<Rightarrow> ('e + 'a) \<times> 's\<close>, and \<open>andthen\<close> is the source's \<^verbatim>\<open>?\<close>: an error keeps
  what was written before it, as separate SQL statements do. A table is a list of rows in
  \<^verbatim>\<open>rowid\<close> order, a statement an operation on it, and what the schema refuses an error branch.
  Unsigned 32-bit sums that saturate are written out. Code outside the repository (the
  calendar, UUIDs, JSON, SHA-256, HTTP, the clock) is a parameter: a field of a component's
  environment record, or a list of what it will answer. The locales \<open>evolution\<close>
  (a preorder on states that operations obey) and \<open>row_order\<close> (rows that only move forward)
  lift a fact about one step to whole runs, and are interpreted for every component: invariants,
  frozen rows, quiet steps of the upload queue, the cached answers of the fetch service.

  \<^bold>\<open>Components.\<close> Each has a theory of definitions, in the order of the source, and one or more
  theories of lemmas ending in \<^verbatim>\<open>_Properties\<close>.

  \<^item> \<^emph>\<open>Work blocks\<close> (\<^verbatim>\<open>work_block/mod.rs\<close>, \<^verbatim>\<open>WorkBlockRepo\<close> in \<^verbatim>\<open>persistence/sqlite.rs\<close>).
    \<^verbatim>\<open>Block_Types\<close> has the closed vocabularies and records, \<^verbatim>\<open>Block_Store\<close> the tables and every
    statement, \<^verbatim>\<open>Block_Evidence\<close> the evidence arithmetic and copy, \<^verbatim>\<open>Block_Manager\<close> the manager
    (start, pause, resume, end, observe, drift, demotion, explanations) and its command runs.
    \<^verbatim>\<open>Block_Safety\<close>, \<^verbatim>\<open>Block_Invariant\<close>, \<^verbatim>\<open>Block_Drift\<close>, \<^verbatim>\<open>Block_Commands\<close> and
    \<^verbatim>\<open>Block_Coverage\<close> show: the tables stay consistent, an answer to an offer and a finished
    block are final, when drift offers an action and what it logs, that merged coverage counts
    each observed instant once, and that a pause is not elapsed time.
  \<^item> \<^emph>\<open>Accounts\<close> (\<^verbatim>\<open>auth/\<close>; \<^verbatim>\<open>Auth\<close>). The state machine, token store, refresh with its one
    retry, sign-in, registration and log-out; \<open>ErrDropped\<close> is a caller that gives up in mid-flight, as
    the long poll does. No request that is waited for leaves a refresh in flight (a dropped one
    may), a revoked device stays revoked, refresh tokens only go to the refresh endpoint, and an
    authenticated call sends a bounded number of requests.
  \<^item> \<^emph>\<open>Egress ledger\<close> (\<^verbatim>\<open>egress/mod.rs\<close>, \<^verbatim>\<open>persistence/egress_ledger.rs\<close>, the
    sending half of \<^verbatim>\<open>auth/http.rs\<close>; \<^verbatim>\<open>Egress\<close>, \<^verbatim>\<open>Client\<close>). Records, redaction, the hash chain,
    pruning; how a request becomes bytes and a record. The chain always verifies, an edited
    history has another head (where the hash tells its lines apart), every request on the wire
    is described by its entry, and the recorded hash does not depend on secrets.
  \<^item> \<^emph>\<open>Upload\<close> (\<^verbatim>\<open>upload/\<close>, the queue tables; \<^verbatim>\<open>Upload\<close>, \<^verbatim>\<open>Upload_Safety\<close>,
    \<^verbatim>\<open>Upload_Invariant\<close>, \<^verbatim>\<open>Upload_Interleaving\<close>). Assembly, host back-off, outcomes, recovery,
    retention. No accepted event is lost or duplicated between assembler and queue, a finished
    batch is not posted again by tasks run one after the other while its row is kept, the queue
    stays consistent under every interleaving of its writes, and the body shows only the
    documented fields. Overlapping uploads can overwrite a terminal status; a lemma shows it.
  \<^item> \<^emph>\<open>Focus and quiet hours\<close> (\<^verbatim>\<open>focus/mod.rs\<close>; \<^verbatim>\<open>Focus\<close>). Evidence, the offer rule, local
    windows. A declined offer is not repeated for thirty days, and the reported end of quiet
    hours is where the window closes.
  \<^item> \<^emph>\<open>Initiation\<close> (\<^verbatim>\<open>initiation/mod.rs\<close>; \<^verbatim>\<open>Initiation\<close>). Good-hours windows over the block
    tables and the invitation that backs off; reads the work-block and focus stores through the
    production gates. The hourly splitting of dwell adds up to the seconds in each hour of the
    week, invitations stay a day apart, and the rule that extends one is spelled out.
  \<^item> \<^emph>\<open>Local socket\<close> (\<^verbatim>\<open>ipc/codec.rs\<close>, \<^verbatim>\<open>ipc/connection.rs\<close>, \<^verbatim>\<open>delivery/push.rs\<close>,
    \<^verbatim>\<open>delivery/shaper.rs\<close>; \<^verbatim>\<open>Ipc\<close>). Framing, handshake, the select loop as a step function over
    events, the push queue. Frames survive interruption between any two bytes, nothing is
    routed before the handshake, urgent messages are never evicted, and a connection that ends
    in a failed write loses at most the message it was writing. The drain at the top of the loop
    is one step: a push that arrives meanwhile is one before or after it.
  \<^item> \<^emph>\<open>Delivery\<close> (\<^verbatim>\<open>delivery/poll.rs\<close>, \<^verbatim>\<open>parser.rs\<close>, \<^verbatim>\<open>rehydrate.rs\<close>, \<^verbatim>\<open>scheduler.rs\<close>;
    \<^verbatim>\<open>Delivery\<close>). The long poll as an inductive step relation over watch channels. An insight is
    handed on once with its notification, and a shutdown ends the loop within three steps.
  \<^item> \<^emph>\<open>Fetch\<close> (\<^verbatim>\<open>delivery/fetch.rs\<close>, \<^verbatim>\<open>cache.rs\<close>, the cache tables; \<^verbatim>\<open>Fetch\<close>). Cache-first reads. A
    fetched history comes back from the cache unchanged, and a missing insight is not asked for
    again while that answer is fresh.
  \<^item> \<^emph>\<open>Personal rules\<close> (\<^verbatim>\<open>AbstractionMapRepo\<close>, \<^verbatim>\<open>AbstractionMappingStore\<close>, \<^verbatim>\<open>SemanticLearningStore\<close>
    and \<^verbatim>\<open>CategoryPromptRepo\<close> in \<^verbatim>\<open>persistence/sqlite.rs\<close>; \<^verbatim>\<open>Rules\<close>). The window, application and
    site rules a person taught, the bounded semantic memory with its byte encoding, the rule
    history. An application that was renamed keeps its one rule, the bytes of an embedding read
    back, and the history shows every rule once.
  \<^item> \<^emph>\<open>Needs a category\<close> (the lists of \<^verbatim>\<open>RawEventRepo\<close>; \<^verbatim>\<open>category_prompt/mod.rs\<close>; \<^verbatim>\<open>Triage\<close>,
    \<^verbatim>\<open>Prompt\<close>). The ranked list of unclassified applications and sites, the weekly card and
    the reminder. The list is the top eight of the whole ranking, an answered card stays away
    until something new is listed or retention has forgotten the answer, and the reminder rule is
    spelled out. One instant stands for the calls to the clock of one evaluation.
  \<^item> \<^emph>\<open>Correction messages\<close> (\<^verbatim>\<open>ipc/router.rs\<close>; \<^verbatim>\<open>Corrections\<close>). What the router does with every
    message that teaches, changes, searches or removes a rule, over the rule store and the
    upload queue together. A first correction can be undone, and it is spelled out when an
    application on the list can be taught. \<^verbatim>\<open>Rules_Invariant\<close> and \<^verbatim>\<open>Rule_Runs\<close> have the constraints of every table as one
    invariant and the step relation \<open>desk_step\<close>, in which messages interleave with ingest, the
    classifier and retention; every reachable store satisfies it.
  \<^item> \<^emph>\<open>Retention\<close> (\<^verbatim>\<open>retention/scheduler.rs\<close>, \<^verbatim>\<open>retention/targets.rs\<close>; \<^verbatim>\<open>Retention\<close>). The
    scheduler's passes over its targets. The locale \<open>sweeping\<close> is the contract of a bounded
    deletion, \<open>oldest_first\<close> a way to meet it; interpreted on the five targets over the rule
    store (of the twelve the service registers) they show that enough ticks reach every expired row.
  \<^item> \<^emph>\<open>Receipts\<close> (\<^verbatim>\<open>receipts/mod.rs\<close>, \<^verbatim>\<open>ReceiptsRepo\<close>; \<^verbatim>\<open>Receipts\<close>). The weekly digest over the
    block and invitation tables, held by the gates of initiation. Local weeks tile the calendar,
    a new digest has exactly the counts of its week, and one that was handed over is frozen.

  \<^bold>\<open>Bounds.\<close> Loops are structural recursions or have a termination proof (\<open>split_span\<close> measures
  the time left in a span); no model runs on fuel. Calendar hypotheses (dates up to the year
  192,000, at most 24 dismissals in a row) keep added durations inside the library's range,
  where adding past it would panic; the panics themselves are error branches.

  \<^bold>\<open>Not modelled.\<close> The rest of the router (raw-event ingest, the other messages, the menu status),
  the socket's operating-system side, the dashboard, the classifier and its seed tables, the
  floating-point behavioural models, configuration, process wiring, and the Swift client. Of the
  schema migrations only the constraints are there, as checks of the statements they guard.
  Failures of SQLite itself are modelled where a component's correctness rests on them (the
  upload queue, the ledger) and not elsewhere. Concurrency inside one process is modelled where
  the source interleaves on purpose (the connection's select, the poll's watches, overlapping
  uploads); mutex-protected calls run one at a time. Floating-point scores are rationals, and a
  query whose order leaves ties open returns them in row order.
\<close>

end
